(* ===== verification/Prelude.thy ===== *)
theory Prelude
  imports Main "HOL-Library.Word" "HOL-Library.Char_ord" "HOL-Library.List_Lexorder"
begin

text \<open>
  Shared vocabulary of the development: byte strings, results of C++ functions that may
  throw, NUL-terminated string binding, in-place updates of table rows, and the two map
  containers the server uses (\<open>std::map\<close>, iterated in key order, and
  \<open>std::unordered_map\<close>, whose order is unspecified). The containers share the
  interface \<open>kv_store\<close>, which is interpreted on both.
\<close>

unbundle bit_operations_syntax

named_theorems conn_simps "how the primitives act on the database connection"
named_theorems world_simps "frame conditions of the server state"

subsection \<open>Bytes, strings and exceptions\<close>

type_synonym byte = "8 word"
type_synonym bytes = "8 word list"

text \<open>A C++ function that may throw either returns a value or throws.\<close>

datatype 'a exc = Throws | Returns 'a

definition bytes_of :: "string \<Rightarrow> bytes" where
  "bytes_of s = map of_char s"

lemma length_bytes_of [simp]: "length (bytes_of s) = length s"
  by (simp add: bytes_of_def)

lemma bytes_of_append [simp]: "bytes_of (s @ t) = bytes_of s @ bytes_of t"
  by (simp add: bytes_of_def)

definition between :: "char \<Rightarrow> char \<Rightarrow> char \<Rightarrow> bool" where
  "between lo hi c \<longleftrightarrow> lo \<le> c \<and> c \<le> hi"

text \<open>
  \<open>sqlite3_bind_text(st, i, s.c_str(), -1, ...)\<close> binds the bytes before the first NUL
  of the string, whatever its length is.
\<close>

definition cstr :: "string \<Rightarrow> string" where
  "cstr s = takeWhile (\<lambda>c. c \<noteq> CHR 0x00) s"

lemma cstr_idem [simp]: "cstr (cstr s) = cstr s"
  by (simp add: cstr_def)

lemma cstr_Nil [simp]: "cstr [] = []"
  by (simp add: cstr_def)

lemma cstr_id: "CHR 0x00 \<notin> set s \<Longrightarrow> cstr s = s"
  unfolding cstr_def by (rule takeWhile_eq_all_conv [THEN iffD2]) auto

lemma cstr_no_nul: "CHR 0x00 \<notin> set (cstr s)"
  unfolding cstr_def using set_takeWhileD by fastforce

definition INT64_MAX :: int where
  "INT64_MAX = 9223372036854775807"

subsection \<open>Rows of a table\<close>

text \<open>\<open>UPDATE t SET ... WHERE p\<close> on the list of rows of a table.\<close>

definition upd_where :: "('r \<Rightarrow> bool) \<Rightarrow> ('r \<Rightarrow> 'r) \<Rightarrow> 'r list \<Rightarrow> 'r list" where
  "upd_where p f rows = map (\<lambda>r. if p r then f r else r) rows"

text \<open>\<open>sqlite3_changes\<close>: how many rows the update touched.\<close>

definition changes :: "('r \<Rightarrow> bool) \<Rightarrow> 'r list \<Rightarrow> nat" where
  "changes p rows = length (filter p rows)"

lemma length_upd_where [simp]: "length (upd_where p f rows) = length rows"
  by (simp add: upd_where_def)

lemma upd_where_Nil [simp]: "upd_where p f [] = []"
  by (simp add: upd_where_def)

lemma upd_where_append [simp]: "upd_where p f (xs @ ys) = upd_where p f xs @ upd_where p f ys"
  by (simp add: upd_where_def)

lemma map_upd_where_same:
  assumes "\<And>r. g (f r) = g r"
  shows "map g (upd_where p f rows) = map g rows"
  using assms by (auto simp: upd_where_def)

lemma filter_upd_where_same:
  assumes "\<And>r. q (f r) = q r"
  shows "filter q (upd_where p f rows) = upd_where p f (filter q rows)"
  using assms by (induction rows) (auto simp: upd_where_def)

lemma set_upd_where: "set (upd_where p f rows) = (\<lambda>r. if p r then f r else r) ` set rows"
  by (simp add: upd_where_def)

lemma upd_where_none: "\<forall>r \<in> set rows. \<not> p r \<Longrightarrow> upd_where p f rows = rows"
  by (induction rows) (auto simp: upd_where_def)

lemma changes_0: "changes p rows = 0 \<longleftrightarrow> (\<forall>r \<in> set rows. \<not> p r)"
  by (auto simp: changes_def filter_empty_conv)

lemma find_upd_where_same:
  assumes "\<And>r. q (f r) = q r"
  shows "find q (upd_where p f rows) = map_option (\<lambda>r. if p r then f r else r) (find q rows)"
  using assms by (induction rows) (auto simp: upd_where_def)

lemma find_SomeD: "find p xs = Some x \<Longrightarrow> p x \<and> x \<in> set xs"
  by (induction xs) (auto split: if_splits)

lemma find_None_conv: "find p xs = None \<longleftrightarrow> (\<forall>x \<in> set xs. \<not> p x)"
  by (induction xs) auto

lemma find_append: "find p (xs @ ys) = (case find p xs of None \<Rightarrow> find p ys | Some x \<Rightarrow> Some x)"
  by (induction xs) auto

lemma distinct_map_eq: "distinct (map f xs) \<Longrightarrow> x \<in> set xs \<Longrightarrow> y \<in> set xs \<Longrightarrow> f x = f y \<Longrightarrow> x = y"
  by (metis distinct_map inj_onD)

lemma find_unique:
  assumes "distinct (map f xs)" and "x \<in> set xs" and "f x = k"
  shows "find (\<lambda>y. f y = k) xs = Some x"
proof (cases "find (\<lambda>y. f y = k) xs")
  case None
  then show ?thesis using assms by (auto simp: find_None_conv)
next
  case (Some y)
  then have "f y = k" "y \<in> set xs" by (auto dest: find_SomeD)
  then show ?thesis using assms Some distinct_map_eq by fastforce
qed

subsection \<open>Maps\<close>

text \<open>The contract the components rely on when they keep data in a map.\<close>

locale kv_store =
  fixes get :: "'m \<Rightarrow> 'k \<Rightarrow> 'v option"
    and put :: "'k \<Rightarrow> 'v \<Rightarrow> 'm \<Rightarrow> 'm"
    and del :: "'k \<Rightarrow> 'm \<Rightarrow> 'm"
    and valid :: "'m \<Rightarrow> bool"
  assumes get_put: "valid m \<Longrightarrow> get (put k v m) = (get m)(k \<mapsto> v)"
    and get_del: "valid m \<Longrightarrow> get (del k m) = (get m)(k := None)"
    and valid_put: "valid m \<Longrightarrow> valid (put k v m)"
    and valid_del: "valid m \<Longrightarrow> valid (del k m)"
begin

lemma get_put_same: "valid m \<Longrightarrow> get (put k v m) k = Some v"
  by (simp add: get_put)

lemma get_put_other: "valid m \<Longrightarrow> k' \<noteq> k \<Longrightarrow> get (put k v m) k' = get m k'"
  by (simp add: get_put)

lemma get_del_same: "valid m \<Longrightarrow> get (del k m) k = None"
  by (simp add: get_del)

lemma get_del_other: "valid m \<Longrightarrow> k' \<noteq> k \<Longrightarrow> get (del k m) k' = get m k'"
  by (simp add: get_del)

lemma put_put_get: "valid m \<Longrightarrow> get (put k v2 (put k v1 m)) = get (put k v2 m)"
  by (simp add: get_put valid_put)

lemma del_put_get: "valid m \<Longrightarrow> get (del k (put k v m)) = get (del k m)"
  by (simp add: get_put get_del valid_put)

lemma get_put_SomeD:
  assumes "valid m" and "get (put k v m) k' = Some v'"
  shows "(k' = k \<and> v' = v) \<or> get m k' = Some v'"
  using assms by (auto simp: get_put split: if_splits)

end

text \<open>\<open>std::map\<close>: entries in strictly increasing key order.\<close>

fun oput :: "'k::linorder \<Rightarrow> 'v \<Rightarrow> ('k \<times> 'v) list \<Rightarrow> ('k \<times> 'v) list" where
  "oput k v [] = [(k, v)]"
| "oput k v ((k', v') # m) =
     (if k < k' then (k, v) # (k', v') # m
      else if k = k' then (k, v) # m
      else (k', v') # oput k v m)"

definition oget :: "('k \<times> 'v) list \<Rightarrow> 'k \<Rightarrow> 'v option" where
  "oget m = map_of m"

definition odel :: "'k \<Rightarrow> ('k \<times> 'v) list \<Rightarrow> ('k \<times> 'v) list" where
  "odel k m = filter (\<lambda>p. fst p \<noteq> k) m"

definition ovalid :: "('k::linorder \<times> 'v) list \<Rightarrow> bool" where
  "ovalid m \<longleftrightarrow> sorted_wrt (<) (map fst m)"

lemma keys_oput: "fst ` set (oput k v m) = insert k (fst ` set m)"
  by (induction k v m rule: oput.induct) auto

lemma ovalid_oput: "ovalid m \<Longrightarrow> ovalid (oput k v m)"
  unfolding ovalid_def
proof (induction k v m rule: oput.induct)
  case (1 k v)
  then show ?case by simp
next
  case (2 k v k' v' m)
  have keys: "set (map fst (oput k v m)) = insert k (set (map fst m))"
    using keys_oput [of k v m] by simp
  from 2 show ?case
    by (auto simp: keys simp del: set_map)
qed

lemma map_of_oput: "map_of (oput k v m) = (map_of m)(k \<mapsto> v)"
  by (induction k v m rule: oput.induct) (auto simp: fun_eq_iff)

lemma map_of_filter_key: "map_of (filter (\<lambda>p. fst p \<noteq> k) m) = (map_of m)(k := None)"
  by (induction m) (auto simp: fun_eq_iff)

interpretation omap: kv_store oget oput odel ovalid
  by unfold_locales
    (auto simp: oget_def odel_def map_of_oput map_of_filter_key ovalid_oput,
     auto simp: ovalid_def sorted_wrt_map intro: sorted_wrt_filter)

text \<open>\<open>std::unordered_map\<close>: entries with distinct keys, in an order nothing depends on.\<close>

type_synonym ('k, 'v) umap = "('k \<times> 'v) list"

definition uget :: "('k, 'v) umap \<Rightarrow> 'k \<Rightarrow> 'v option" where
  "uget m = map_of m"

definition udel :: "'k \<Rightarrow> ('k, 'v) umap \<Rightarrow> ('k, 'v) umap" where
  "udel k m = filter (\<lambda>p. fst p \<noteq> k) m"

definition uput :: "'k \<Rightarrow> 'v \<Rightarrow> ('k, 'v) umap \<Rightarrow> ('k, 'v) umap" where
  "uput k v m = (k, v) # udel k m"

definition uvalid :: "('k, 'v) umap \<Rightarrow> bool" where
  "uvalid m \<longleftrightarrow> distinct (map fst m)"

interpretation umap: kv_store uget uput udel uvalid
  by unfold_locales
    (auto simp: uget_def uput_def udel_def uvalid_def map_of_filter_key distinct_map_filter)

text \<open>Reading after a write, whether or not the keys are distinct.\<close>

lemma uget_uput: "uget (uput k v m) k' = (if k' = k then Some v else uget m k')"
  by (simp add: uget_def uput_def udel_def map_of_filter_key)

lemma uget_udel: "uget (udel k m) k' = (if k' = k then None else uget m k')"
  by (simp add: uget_def udel_def map_of_filter_key)

lemma uget_Nil [simp]: "uget [] k = None"
  by (simp add: uget_def)

lemma uget_filter_keeps: "uget m k = Some v \<Longrightarrow> P (k, v) \<Longrightarrow> uget (filter P m) k = Some v"
  unfolding uget_def by (induction m) (auto split: if_splits)

lemma uget_filter_SomeD: "uvalid m \<Longrightarrow> uget (filter P m) k = Some v \<Longrightarrow> uget m k = Some v \<and> P (k, v)"
  by (simp add: uget_def uvalid_def distinct_map_filter flip: set_map)

lemma uvalid_filter: "uvalid m \<Longrightarrow> uvalid (filter P m)"
  by (simp add: uvalid_def distinct_map_filter)

end
