(* ===== verification/Protocol.thy ===== *)
theory Protocol
  imports Prelude
begin

text \<open>
  \<open>client_core/include/client_core/Protocol.h\<close>: protocol numbers, limits and result
  codes shared by client and server, and \<open>protocol/im.proto\<close>: the messages, one record
  per message with the fields the code reads or writes. Strings are byte strings, as
  \<open>std::string\<close> is; \<open>int32\<close> and \<open>int64\<close> fields are integers.
\<close>

named_theorems prot_defs "protocol numbers and result codes"

subsection \<open>Protocol numbers\<close>

definition DEF_BASE :: "32 word" where [prot_defs]: "DEF_BASE = 1000"
definition DEF_PROT_COUNT :: nat where [prot_defs]: "DEF_PROT_COUNT = 36"
definition MAX_PACK_LEN :: nat where [prot_defs]: "MAX_PACK_LEN = 10 * 1024 * 1024"

definition DEF_PROT_REGISTER_RQ :: "32 word" where [prot_defs]: "DEF_PROT_REGISTER_RQ = DEF_BASE + 0"
definition DEF_PROT_REGISTER_RS :: "32 word" where [prot_defs]: "DEF_PROT_REGISTER_RS = DEF_BASE + 1"
definition DEF_PROT_LOGIN_RQ :: "32 word" where [prot_defs]: "DEF_PROT_LOGIN_RQ = DEF_BASE + 2"
definition DEF_PROT_LOGIN_RS :: "32 word" where [prot_defs]: "DEF_PROT_LOGIN_RS = DEF_BASE + 3"
definition DEF_PROT_FRIEND_INFO :: "32 word" where [prot_defs]: "DEF_PROT_FRIEND_INFO = DEF_BASE + 4"
definition DEF_PROT_CHAT_INFO_RQ :: "32 word" where [prot_defs]: "DEF_PROT_CHAT_INFO_RQ = DEF_BASE + 5"
definition DEF_PROT_CHAT_INFO_RS :: "32 word" where [prot_defs]: "DEF_PROT_CHAT_INFO_RS = DEF_BASE + 6"
definition DEF_PROT_ADD_FRIEND_RQ :: "32 word" where [prot_defs]: "DEF_PROT_ADD_FRIEND_RQ = DEF_BASE + 7"
definition DEF_PROT_ADD_FRIEND_RS :: "32 word" where [prot_defs]: "DEF_PROT_ADD_FRIEND_RS = DEF_BASE + 8"
definition DEF_PROT_FRIEND_OFFLINE :: "32 word" where [prot_defs]: "DEF_PROT_FRIEND_OFFLINE = DEF_BASE + 9"
definition DEF_PROT_HEARTBEAT_RQ :: "32 word" where [prot_defs]: "DEF_PROT_HEARTBEAT_RQ = DEF_BASE + 10"
definition DEF_PROT_HEARTBEAT_RS :: "32 word" where [prot_defs]: "DEF_PROT_HEARTBEAT_RS = DEF_BASE + 11"
definition DEF_PROT_KICKED_OFFLINE :: "32 word" where [prot_defs]: "DEF_PROT_KICKED_OFFLINE = DEF_BASE + 12"
definition DEF_PROT_ROAM_CONV_RQ :: "32 word" where [prot_defs]: "DEF_PROT_ROAM_CONV_RQ = DEF_BASE + 13"
definition DEF_PROT_ROAM_CONV_RS :: "32 word" where [prot_defs]: "DEF_PROT_ROAM_CONV_RS = DEF_BASE + 14"
definition DEF_PROT_ROAM_MSG_RQ :: "32 word" where [prot_defs]: "DEF_PROT_ROAM_MSG_RQ = DEF_BASE + 15"
definition DEF_PROT_ROAM_MSG_RS :: "32 word" where [prot_defs]: "DEF_PROT_ROAM_MSG_RS = DEF_BASE + 16"
definition DEF_PROT_TOKEN_LOGIN_RQ :: "32 word" where [prot_defs]: "DEF_PROT_TOKEN_LOGIN_RQ = DEF_BASE + 23"
definition DEF_PROT_TOKEN_LOGIN_RS :: "32 word" where [prot_defs]: "DEF_PROT_TOKEN_LOGIN_RS = DEF_BASE + 24"
definition DEF_PROT_TOKEN_REFRESH_RQ :: "32 word" where [prot_defs]: "DEF_PROT_TOKEN_REFRESH_RQ = DEF_BASE + 25"
definition DEF_PROT_TOKEN_REFRESH_RS :: "32 word" where [prot_defs]: "DEF_PROT_TOKEN_REFRESH_RS = DEF_BASE + 26"
definition DEF_PROT_LOGOUT_RQ :: "32 word" where [prot_defs]: "DEF_PROT_LOGOUT_RQ = DEF_BASE + 27"
definition DEF_PROT_LOGOUT_RS :: "32 word" where [prot_defs]: "DEF_PROT_LOGOUT_RS = DEF_BASE + 28"
definition DEF_PROT_AI_REPLY_RQ :: "32 word" where [prot_defs]: "DEF_PROT_AI_REPLY_RQ = DEF_BASE + 29"
definition DEF_PROT_AI_REPLY_RS :: "32 word" where [prot_defs]: "DEF_PROT_AI_REPLY_RS = DEF_BASE + 30"
definition DEF_PROT_AI_CANCEL_RQ :: "32 word" where [prot_defs]: "DEF_PROT_AI_CANCEL_RQ = DEF_BASE + 31"
definition DEF_PROT_DELETE_FRIEND_RQ :: "32 word" where [prot_defs]: "DEF_PROT_DELETE_FRIEND_RQ = DEF_BASE + 32"
definition DEF_PROT_DELETE_FRIEND_RS :: "32 word" where [prot_defs]: "DEF_PROT_DELETE_FRIEND_RS = DEF_BASE + 33"
definition DEF_PROT_FRIEND_REQUEST_LIST_RQ :: "32 word" where [prot_defs]: "DEF_PROT_FRIEND_REQUEST_LIST_RQ = DEF_BASE + 34"
definition DEF_PROT_FRIEND_REQUEST_LIST_RS :: "32 word" where [prot_defs]: "DEF_PROT_FRIEND_REQUEST_LIST_RS = DEF_BASE + 35"
definition DEF_PROT_APP_CLIENT_HELLO :: "32 word" where [prot_defs]: "DEF_PROT_APP_CLIENT_HELLO = DEF_BASE + 36"
definition DEF_PROT_APP_SERVER_HELLO :: "32 word" where [prot_defs]: "DEF_PROT_APP_SERVER_HELLO = DEF_BASE + 37"
definition DEF_PROT_APP_CLIENT_FINISHED :: "32 word" where [prot_defs]: "DEF_PROT_APP_CLIENT_FINISHED = DEF_BASE + 38"
definition DEF_PROT_APP_SERVER_FINISHED :: "32 word" where [prot_defs]: "DEF_PROT_APP_SERVER_FINISHED = DEF_BASE + 39"
definition DEF_PROT_APP_ENCRYPTED_FRAME :: "32 word" where [prot_defs]: "DEF_PROT_APP_ENCRYPTED_FRAME = DEF_BASE + 40"

subsection \<open>The application security channel\<close>

definition APP_SECURITY_VERSION :: "32 word" where [prot_defs]: "APP_SECURITY_VERSION = 1"
definition APP_CIPHER_SUITE_V1 :: "32 word" where [prot_defs]: "APP_CIPHER_SUITE_V1 = 1"
definition APP_X25519_KEY_LEN :: nat where [prot_defs]: "APP_X25519_KEY_LEN = 32"
definition APP_NONCE_LEN :: nat where [prot_defs]: "APP_NONCE_LEN = 32"
definition APP_RANDOM_ID_LEN :: nat where [prot_defs]: "APP_RANDOM_ID_LEN = 16"
definition APP_SESSION_ID_LEN :: nat where [prot_defs]: "APP_SESSION_ID_LEN = 16"
definition APP_FINISHED_LEN :: nat where [prot_defs]: "APP_FINISHED_LEN = 32"
definition APP_GCM_TAG_LEN :: nat where [prot_defs]: "APP_GCM_TAG_LEN = 16"
definition APP_MAX_HANDSHAKE_PAYLOAD :: nat where [prot_defs]: "APP_MAX_HANDSHAKE_PAYLOAD = 1024"

subsection \<open>Limits and result codes\<close>

definition USER_NICK_LEN :: nat where [prot_defs]: "USER_NICK_LEN = 30"
definition CHAT_MSG_LEN :: nat where [prot_defs]: "CHAT_MSG_LEN = 1024 * 8"
definition FILE_MAX_SIZE :: int where [prot_defs]: "FILE_MAX_SIZE = 100 * 1024 * 1024"

definition REGISTER_SUCC :: int where [prot_defs]: "REGISTER_SUCC = 1"
definition REGISTER_NICK_EXIT :: int where [prot_defs]: "REGISTER_NICK_EXIT = 2"
definition REGISTER_TEL_EXIT :: int where [prot_defs]: "REGISTER_TEL_EXIT = 3"
definition REGISTER_INVALID :: int where [prot_defs]: "REGISTER_INVALID = 4"

definition LOGIN_SUCCESS :: int where [prot_defs]: "LOGIN_SUCCESS = 0"
definition LOGIN_NOTEXIT :: int where [prot_defs]: "LOGIN_NOTEXIT = 1"
definition LOGIN_PASSERROR :: int where [prot_defs]: "LOGIN_PASSERROR = 2"
definition LOGIN_INVALID :: int where [prot_defs]: "LOGIN_INVALID = 3"

definition STATUS_ONLINE :: int where [prot_defs]: "STATUS_ONLINE = 0"
definition STATUS_OFFLINE :: int where [prot_defs]: "STATUS_OFFLINE = 1"

definition CHAT_RESULT_SUCC :: int where [prot_defs]: "CHAT_RESULT_SUCC = 0"
definition CHAT_RESULT_FAIL :: int where [prot_defs]: "CHAT_RESULT_FAIL = 1"
definition CHAT_RESULT_NOT_FRIEND :: int where [prot_defs]: "CHAT_RESULT_NOT_FRIEND = 2"
definition CHAT_RESULT_SERVER_ERROR :: int where [prot_defs]: "CHAT_RESULT_SERVER_ERROR = 3"
definition CHAT_RESULT_FILE_NOT_OWNED :: int where [prot_defs]: "CHAT_RESULT_FILE_NOT_OWNED = 4"

definition ADD_FRIEND_AGREE :: int where [prot_defs]: "ADD_FRIEND_AGREE = 0"
definition ADD_FRIEND_REJECT :: int where [prot_defs]: "ADD_FRIEND_REJECT = 1"
definition ADD_FRIEND_OFFLINE :: int where [prot_defs]: "ADD_FRIEND_OFFLINE = 2"
definition ADD_FRIEND_NOTEXIT :: int where [prot_defs]: "ADD_FRIEND_NOTEXIT = 3"
definition ADD_FRIEND_SELF :: int where [prot_defs]: "ADD_FRIEND_SELF = 4"
definition ADD_FRIEND_ALREADY :: int where [prot_defs]: "ADD_FRIEND_ALREADY = 5"
definition ADD_FRIEND_PENDING :: int where [prot_defs]: "ADD_FRIEND_PENDING = 6"
definition ADD_FRIEND_DB_ERROR :: int where [prot_defs]: "ADD_FRIEND_DB_ERROR = 7"

definition DELETE_FRIEND_SUCCESS :: int where [prot_defs]: "DELETE_FRIEND_SUCCESS = 0"
definition DELETE_FRIEND_DB_ERROR :: int where [prot_defs]: "DELETE_FRIEND_DB_ERROR = 1"
definition DELETE_FRIEND_NOT_FRIEND :: int where [prot_defs]: "DELETE_FRIEND_NOT_FRIEND = 2"
definition DELETE_FRIEND_INVALID :: int where [prot_defs]: "DELETE_FRIEND_INVALID = 3"

subsection \<open>Messages\<close>

record RegisterRq =
  rg_nick :: string
  rg_tel :: string
  rg_pass :: string

record LoginRq =
  lg_tel :: string
  lg_pass :: string
  lg_device_id :: string

record LoginRs =
  lrs_userid :: int
  lrs_result :: int
  lrs_access_token :: string
  lrs_refresh_token :: string
  lrs_access_expire :: int
  lrs_refresh_expire :: int
  lrs_session_id :: string

record RefreshTokenRq =
  rf_refresh_token :: string
  rf_device_id :: string
  rf_request_id :: string

record RefreshTokenRs =
  rrs_result :: int
  rrs_access_token :: string
  rrs_refresh_token :: string
  rrs_access_expire :: int
  rrs_refresh_expire :: int
  rrs_session_id :: string

record TokenLoginRq =
  tl_access_token :: string
  tl_device_id :: string

record TokenLoginRs =
  trs_result :: int
  trs_userid :: int
  trs_access_expire :: int

record LogoutRq =
  lo_refresh_token :: string
  lo_device_id :: string
  lo_all_devices :: bool

record FriendInfo =
  fi_userid :: int
  fi_iconid :: int
  fi_status :: int
  fi_nick :: string
  fi_feeling :: string

datatype MsgType = TEXT | IMAGE | FILE | Other_type int

record ChatInfoRq =
  c_myid :: int
  c_friid :: int
  c_msg :: string
  c_type :: MsgType
  c_image_width :: int
  c_image_height :: int
  c_msg_id :: string
  c_ts :: int
  c_seq :: int
  c_file_name :: string
  c_file_size :: int
  c_file_id :: string
  c_content_type :: string
  c_sha256 :: string

record ChatInfoRs =
  cr_myid :: int
  cr_friid :: int
  cr_result :: int
  cr_msg_id :: string
  cr_seq :: int

record AddFriendRq =
  af_myid :: int
  af_mynick :: string
  af_frinick :: string

record AddFriendRs =
  ar_result :: int
  ar_destid :: int
  ar_destnick :: string
  ar_myid :: int
  ar_mynick :: string

record FriendRequestItem =
  it_requester_id :: int
  it_target_id :: int
  it_requester_nick :: string
  it_target_nick :: string
  it_created_at :: int

record DeleteFriendRs =
  df_result :: int
  df_friend_id :: int
  df_operator_id :: int
  df_operator_nick :: string

record RoamMsgRq =
  rq_peer_id :: int
  rq_before_seq :: int
  rq_limit :: int

record RoamMsgRs =
  rs_peer_id :: int
  rs_msgs :: "ChatInfoRq list"
  rs_has_more :: bool
  rs_min_seq :: int

datatype AiReplyStatus =
    AI_REPLY_OK | AI_REPLY_INVALID_REQUEST | AI_REPLY_UNAUTHORIZED | AI_REPLY_NOT_FRIEND
  | AI_REPLY_RATE_LIMITED | AI_REPLY_BUSY | AI_REPLY_NOT_CONFIGURED | AI_REPLY_UPSTREAM_ERROR

record AiReplyRq =
  aq_request_id :: string
  aq_peer_id :: int
  aq_tone :: string
  aq_max_suggestions :: int

record AiReplyRs =
  ai_request_id :: string
  ai_status :: AiReplyStatus
  ai_suggestions :: "string list"
  ai_error_message :: string
  ai_done :: bool

text \<open>
  A protobuf message starts with every field at its default: 0, the empty string, false, the
  first enum value.
\<close>

definition empty_ChatInfoRq :: ChatInfoRq where
  "empty_ChatInfoRq = \<lparr>c_myid = 0, c_friid = 0, c_msg = [], c_type = TEXT, c_image_width = 0,
     c_image_height = 0, c_msg_id = [], c_ts = 0, c_seq = 0, c_file_name = [], c_file_size = 0,
     c_file_id = [], c_content_type = [], c_sha256 = []\<rparr>"

definition empty_LoginRs :: LoginRs where
  "empty_LoginRs = \<lparr>lrs_userid = 0, lrs_result = 0, lrs_access_token = [], lrs_refresh_token = [],
     lrs_access_expire = 0, lrs_refresh_expire = 0, lrs_session_id = []\<rparr>"

definition empty_RefreshTokenRs :: RefreshTokenRs where
  "empty_RefreshTokenRs = \<lparr>rrs_result = 0, rrs_access_token = [], rrs_refresh_token = [],
     rrs_access_expire = 0, rrs_refresh_expire = 0, rrs_session_id = []\<rparr>"

definition empty_TokenLoginRs :: TokenLoginRs where
  "empty_TokenLoginRs = \<lparr>trs_result = 0, trs_userid = 0, trs_access_expire = 0\<rparr>"

definition empty_ChatInfoRs :: ChatInfoRs where
  "empty_ChatInfoRs = \<lparr>cr_myid = 0, cr_friid = 0, cr_result = 0, cr_msg_id = [], cr_seq = 0\<rparr>"

definition empty_AddFriendRs :: AddFriendRs where
  "empty_AddFriendRs = \<lparr>ar_result = 0, ar_destid = 0, ar_destnick = [], ar_myid = 0, ar_mynick = []\<rparr>"

text \<open>What the server hands to \<open>Session::deliver\<close>: the message, its protocol number implied.\<close>

datatype packet =
    P_RegisterRs int
  | P_LoginRs LoginRs
  | P_TokenLoginRs TokenLoginRs
  | P_RefreshTokenRs RefreshTokenRs
  | P_LogoutRs int
  | P_FriendInfo FriendInfo
  | P_ChatInfoRq ChatInfoRq
  | P_ChatInfoRs ChatInfoRs
  | P_AddFriendRq AddFriendRq
  | P_AddFriendRs AddFriendRs
  | P_FriendRequestListRs "FriendRequestItem list"
  | P_DeleteFriendRs DeleteFriendRs
  | P_FriendOffline int
  | P_Heartbeat
  | P_KickedOffline
  | P_RoamConvRs "ChatInfoRq list"
  | P_RoamMsgRs RoamMsgRs
  | P_AiReplyRs AiReplyRs

fun packet_type :: "packet \<Rightarrow> 32 word" where
  "packet_type (P_RegisterRs _) = DEF_PROT_REGISTER_RS"
| "packet_type (P_LoginRs _) = DEF_PROT_LOGIN_RS"
| "packet_type (P_TokenLoginRs _) = DEF_PROT_TOKEN_LOGIN_RS"
| "packet_type (P_RefreshTokenRs _) = DEF_PROT_TOKEN_REFRESH_RS"
| "packet_type (P_LogoutRs _) = DEF_PROT_LOGOUT_RS"
| "packet_type (P_FriendInfo _) = DEF_PROT_FRIEND_INFO"
| "packet_type (P_ChatInfoRq _) = DEF_PROT_CHAT_INFO_RQ"
| "packet_type (P_ChatInfoRs _) = DEF_PROT_CHAT_INFO_RS"
| "packet_type (P_AddFriendRq _) = DEF_PROT_ADD_FRIEND_RQ"
| "packet_type (P_AddFriendRs _) = DEF_PROT_ADD_FRIEND_RS"
| "packet_type (P_FriendRequestListRs _) = DEF_PROT_FRIEND_REQUEST_LIST_RS"
| "packet_type (P_DeleteFriendRs _) = DEF_PROT_DELETE_FRIEND_RS"
| "packet_type (P_FriendOffline _) = DEF_PROT_FRIEND_OFFLINE"
| "packet_type P_Heartbeat = DEF_PROT_HEARTBEAT_RS"
| "packet_type P_KickedOffline = DEF_PROT_KICKED_OFFLINE"
| "packet_type (P_RoamConvRs _) = DEF_PROT_ROAM_CONV_RS"
| "packet_type (P_RoamMsgRs _) = DEF_PROT_ROAM_MSG_RS"
| "packet_type (P_AiReplyRs _) = DEF_PROT_AI_REPLY_RS"

end
