(* ===== verification/Wire.thy ===== *)
theory Wire
  imports Protocol
begin

text \<open>
  The wire format: big-endian frame lengths and little-endian protocol numbers
  (\<open>im_server/src/Session.h\<close>, \<open>Protocol.h\<close>), UTF-8 truncation, the frame built by
  \<open>Session::enqueueRawFrame\<close>, and the two-stage reader \<open>doReadHeader\<close> / \<open>doReadBody\<close>.
  The reader's contract is the locale \<open>framing\<close>: a decoder that inverts the encoder and whose
  verdict never changes when more bytes arrive. Inside it, splitting the byte stream at any points
  gives the same frames.
\<close>

subsection \<open>Fixed-width integers\<close>

definition encodeLen32 :: "32 word \<Rightarrow> bytes" where
  "encodeLen32 v =
     [ucast (drop_bit 24 v AND 0xFF), ucast (drop_bit 16 v AND 0xFF),
      ucast (drop_bit 8 v AND 0xFF), ucast (v AND 0xFF)]"

definition decodeLen32 :: "bytes \<Rightarrow> 32 word" where
  "decodeLen32 p =
     push_bit 24 (ucast (p ! 0)) OR push_bit 16 (ucast (p ! 1)) OR
     push_bit 8 (ucast (p ! 2)) OR ucast (p ! 3)"

definition encodeType32 :: "32 word \<Rightarrow> bytes" where
  "encodeType32 v =
     [ucast (v AND 0xFF), ucast (drop_bit 8 v AND 0xFF),
      ucast (drop_bit 16 v AND 0xFF), ucast (drop_bit 24 v AND 0xFF)]"

definition decodeType32 :: "bytes \<Rightarrow> 32 word" where
  "decodeType32 p =
     ucast (p ! 0) OR push_bit 8 (ucast (p ! 1)) OR
     push_bit 16 (ucast (p ! 2)) OR push_bit 24 (ucast (p ! 3))"

lemma length_encodeLen32 [simp]: "length (encodeLen32 v) = 4"
  by (simp add: encodeLen32_def)

lemma length_encodeType32 [simp]: "length (encodeType32 v) = 4"
  by (simp add: encodeType32_def)

lemma and_FF: "x AND 0xFF = take_bit 8 (x :: 'a::len word)"
  by (simp add: take_bit_eq_mask mask_eq_exp_minus_1)

lemma word32_bytes:
  fixes v :: "32 word"
  shows "push_bit 24 (ucast (ucast (drop_bit 24 v AND 0xFF) :: 8 word)) OR
     push_bit 16 (ucast (ucast (drop_bit 16 v AND 0xFF) :: 8 word)) OR
     push_bit 8 (ucast (ucast (drop_bit 8 v AND 0xFF) :: 8 word)) OR
     ucast (ucast (v AND 0xFF) :: 8 word) = v" (is "?l = v")
proof (rule bit_word_eqI)
  fix n
  assume n: "n < LENGTH(32)"
  consider "n < 8" | "8 \<le> n" "n < 16" | "16 \<le> n" "n < 24" | "24 \<le> n" by linarith
  then show "bit ?l n = bit v n"
    using n by cases (auto simp: and_FF bit_simps)
qed

lemma decode_encodeLen32 [simp]: "decodeLen32 (encodeLen32 v @ rest) = v"
  using word32_bytes [of v] by (simp add: decodeLen32_def encodeLen32_def)

lemma decode_encodeType32 [simp]: "decodeType32 (encodeType32 v @ rest) = v"
  using word32_bytes [of v]
  by (simp add: decodeType32_def encodeType32_def or.assoc or.commute or.left_commute)

lemma decodeLen32_append:
  assumes "4 \<le> length s"
  shows "decodeLen32 (s @ t) = decodeLen32 s"
proof -
  have "0 < length s" "1 < length s" "2 < length s" "3 < length s" using assms by auto
  then show ?thesis by (simp add: decodeLen32_def nth_append)
qed

lemma decodeType32_append:
  assumes "4 \<le> length s"
  shows "decodeType32 (s @ t) = decodeType32 s"
proof -
  have "0 < length s" "1 < length s" "2 < length s" "3 < length s" using assms by auto
  then show ?thesis by (simp add: decodeType32_def nth_append)
qed

text \<open>\<open>appendU32\<close> and \<open>appendU64\<close> of \<open>Session.cpp\<close>: big-endian.\<close>

definition appendU32 :: "bytes \<Rightarrow> 32 word \<Rightarrow> bytes" where
  "appendU32 output v = output @
     [ucast (drop_bit 24 v AND 0xFF), ucast (drop_bit 16 v AND 0xFF),
      ucast (drop_bit 8 v AND 0xFF), ucast (v AND 0xFF)]"

definition appendU64 :: "bytes \<Rightarrow> 64 word \<Rightarrow> bytes" where
  "appendU64 output v =
     output @ map (\<lambda>shift. ucast (drop_bit shift v AND 0xFF)) [56, 48, 40, 32, 24, 16, 8, 0]"

lemma appendU32_eq: "appendU32 output v = output @ encodeLen32 v"
  by (simp add: appendU32_def encodeLen32_def)

lemma length_appendU32 [simp]: "length (appendU32 output v) = length output + 4"
  by (simp add: appendU32_def)

lemma length_appendU64 [simp]: "length (appendU64 output v) = length output + 8"
  by (simp add: appendU64_def)

lemma encodeLen32_inject: "encodeLen32 v = encodeLen32 w \<longleftrightarrow> v = w"
  by (metis append_Nil2 decode_encodeLen32)

lemma word64_bytes_inject:
  fixes v w :: "64 word"
  assumes "\<forall>shift \<in> set [56, 48, 40, 32, 24, 16, 8, 0].
    (ucast (drop_bit shift v AND 0xFF) :: 8 word) = ucast (drop_bit shift w AND 0xFF)"
  shows "v = w"
proof (rule bit_word_eqI)
  fix n
  assume n: "n < LENGTH(64)"
  define s where "s = 8 * (n div 8)"
  have "n div 8 < 8" using n by simp
  then have "n div 8 \<in> {7, 6, 5, 4, 3, 2, 1, 0}" by auto
  then have s: "s \<in> set [56, 48, 40, 32, 24, 16, 8, 0]" by (auto simp: s_def)
  have "s \<le> n" "n - s < 8" unfolding s_def by presburger+
  have "(ucast (drop_bit s v AND 0xFF) :: 8 word) = ucast (drop_bit s w AND 0xFF)"
    by (rule bspec [OF assms s])
  then have "bit (ucast (drop_bit s v AND 0xFF) :: 8 word) (n - s) =
      bit (ucast (drop_bit s w AND 0xFF) :: 8 word) (n - s)"
    by simp
  then show "bit v n = bit w n"
    using \<open>s \<le> n\<close> \<open>n - s < 8\<close> n by (simp add: and_FF bit_simps)
qed

lemma appendU64_inject: "appendU64 output v = appendU64 output w \<longleftrightarrow> v = w"
  using word64_bytes_inject [of v w] by (auto simp: appendU64_def)

subsection \<open>UTF-8 truncation\<close>

definition is_cont :: "char \<Rightarrow> bool" where
  "is_cont ch \<longleftrightarrow> (of_char ch :: 8 word) AND 0xC0 = 0x80"

text \<open>The loop \<open>while (n > 0 && is_cont(s[n])) --n;\<close>.\<close>

fun back_to_boundary :: "string \<Rightarrow> nat \<Rightarrow> nat" where
  "back_to_boundary s 0 = 0"
| "back_to_boundary s (Suc n) = (if is_cont (s ! Suc n) then back_to_boundary s n else Suc n)"

definition utf8Truncate :: "string \<Rightarrow> nat \<Rightarrow> string" where
  "utf8Truncate s maxBytes =
     (if length s \<le> maxBytes then s else take (back_to_boundary s maxBytes) s)"

lemma back_to_boundary_le: "back_to_boundary s n \<le> n"
  by (induction n) auto

lemma back_to_boundary_stop:
  "back_to_boundary s n = 0 \<or> \<not> is_cont (s ! back_to_boundary s n)"
  by (induction n) auto

lemma back_to_boundary_skipped:
  "back_to_boundary s n < i \<Longrightarrow> i \<le> n \<Longrightarrow> is_cont (s ! i)"
  by (induction n) (auto split: if_splits simp: le_Suc_eq)

lemma length_utf8Truncate: "length (utf8Truncate s n) \<le> n"
  using back_to_boundary_le [of s n] by (auto simp: utf8Truncate_def)

lemma utf8Truncate_prefix: "\<exists>rest. s = utf8Truncate s n @ rest"
  by (auto simp: utf8Truncate_def intro: append_take_drop_id [symmetric])

text \<open>
  A character of a UTF-8 text: a byte that is not a continuation byte, then continuation bytes.
\<close>

definition utf8_char :: "string \<Rightarrow> bool" where
  "utf8_char c \<longleftrightarrow> c \<noteq> [] \<and> \<not> is_cont (hd c) \<and> (\<forall>b \<in> set (tl c). is_cont b)"

text \<open>The most characters of a text that fit in \<open>n\<close> bytes.\<close>

fun fit_chars :: "string list \<Rightarrow> nat \<Rightarrow> string list" where
  "fit_chars [] n = []"
| "fit_chars (c # cs) n = (if length c \<le> n then c # fit_chars cs (n - length c) else [])"

lemma fit_chars_bound: "length (concat (fit_chars cs n)) \<le> n"
proof (induction cs n rule: fit_chars.induct)
  case (2 c cs n)
  then show ?case by (cases "length c \<le> n") auto
qed simp

lemma fit_chars_take: "\<exists>k. fit_chars cs n = take k cs"
proof (induction cs n rule: fit_chars.induct)
  case (2 c cs n)
  then show ?case
    by (cases "length c \<le> n") (auto intro: exI [of _ "Suc _"] exI [of _ 0])
qed simp

lemma fit_chars_all: "length (concat cs) \<le> n \<Longrightarrow> fit_chars cs n = cs"
  by (induction cs n rule: fit_chars.induct) auto

lemma back_to_boundary_shift:
  "\<not> is_cont (s ! 0) \<Longrightarrow>
   back_to_boundary (c @ s) (length c + n) = length c + back_to_boundary s n"
proof (induction n)
  case 0
  then show ?case using nth_append_length_plus [of c s 0] by (cases "length c") auto
next
  case (Suc n)
  then show ?case
    using nth_append_length_plus [of c s "Suc n"] by simp
qed

lemma back_inside_char:
  assumes "utf8_char c" and "n < length c"
  shows "back_to_boundary (c @ s) n = 0"
  using assms(2)
proof (induction n)
  case (Suc n)
  have "(c @ s) ! Suc n = tl c ! n" and "n < length (tl c)"
    using Suc.prems by (auto simp: nth_append nth_tl)
  then have "is_cont ((c @ s) ! Suc n)"
    using assms(1) by (auto simp: utf8_char_def)
  with Suc show ?case by simp
qed simp

lemma concat_head_not_cont:
  "\<forall>c \<in> set cs. utf8_char c \<Longrightarrow> cs \<noteq> [] \<Longrightarrow> \<not> is_cont (concat cs ! 0)"
  by (cases cs) (auto simp: utf8_char_def nth_append hd_conv_nth)

lemma utf8Truncate_concat:
  "\<forall>c \<in> set cs. utf8_char c \<Longrightarrow> utf8Truncate (concat cs) n = concat (fit_chars cs n)"
proof (induction cs n rule: fit_chars.induct)
  case (2 c cs n)
  show ?case
  proof (cases "length (concat (c # cs)) \<le> n")
    case True
    then show ?thesis by (simp add: utf8Truncate_def fit_chars_all)
  next
    case False
    show ?thesis
    proof (cases "length c \<le> n")
      case fits: True
      define m where "m = n - length c"
      have n: "n = length c + m" using fits by (simp add: m_def)
      have more: "m < length (concat cs)" using False n by simp
      then have "cs \<noteq> []" by auto
      then have nc: "\<not> is_cont (concat cs ! 0)"
        using concat_head_not_cont "2.prems" by simp
      have "back_to_boundary (c @ concat cs) n = length c + back_to_boundary (concat cs) m"
        unfolding n by (rule back_to_boundary_shift) (simp_all add: nc)
      moreover have "utf8Truncate (concat cs) m = concat (fit_chars cs m)"
        using "2.IH" [OF fits] "2.prems" by (simp add: m_def)
      ultimately show ?thesis
        using False more fits by (simp add: utf8Truncate_def m_def)
    next
      case False
      then show ?thesis
        using \<open>\<not> length (concat (c # cs)) \<le> n\<close> "2.prems" back_inside_char [of c n "concat cs"]
        by (simp add: utf8Truncate_def)
    qed
  qed
qed (simp add: utf8Truncate_def)

subsection \<open>Frames\<close>

text \<open>
  \<open>Session::enqueueRawFrame\<close>: length, protocol number, payload. The length is computed in
  \<open>size_t\<close> and truncated to 32 bits.
\<close>

definition raw_frame :: "32 word \<Rightarrow> bytes \<Rightarrow> bytes" where
  "raw_frame type payload = encodeLen32 (of_nat (4 + length payload)) @ encodeType32 type @ payload"

text \<open>What the reader makes of the bytes received so far.\<close>

datatype 'm verdict = Incomplete | Reject | Accept 'm bytes

definition read_frame :: "bytes \<Rightarrow> (32 word \<times> bytes) verdict" where
  "read_frame s =
     (if length s < 4 then Incomplete
      else let bodyLen = decodeLen32 s in
        if bodyLen < 4 \<or> MAX_PACK_LEN < unat bodyLen then Reject
        else let n = unat bodyLen; body = drop 4 s in
          if length body < n then Incomplete
          else Accept (decodeType32 body, drop 4 (take n body)) (drop n body))"

text \<open>The read loop over a byte stream: the frames, and the verdict on what is left.\<close>

function read_all :: "(bytes \<Rightarrow> 'm verdict) \<Rightarrow> bytes \<Rightarrow> 'm list \<times> bytes verdict" where
  "read_all dec s =
     (case dec s of
        Incomplete \<Rightarrow> ([], Accept s [])
      | Reject \<Rightarrow> ([], Reject)
      | Accept m r \<Rightarrow>
          if length r < length s
          then let (ms, v) = read_all dec r in (m # ms, v)
          else ([m], Reject))"
  by pat_completeness auto
termination by (relation "measure (\<lambda>(dec, s). length s)") auto

declare read_all.simps [simp del]

text \<open>The same loop fed in chunks, as the socket delivers them.\<close>

fun feed :: "(bytes \<Rightarrow> 'm verdict) \<Rightarrow> bytes \<Rightarrow> bytes list \<Rightarrow> 'm list \<times> bytes verdict" where
  "feed dec buf [] = ([], Accept buf [])"
| "feed dec buf (c # cs) =
     (case read_all dec (buf @ c) of
        (ms, Accept rest _) \<Rightarrow> (let (ms', v) = feed dec rest cs in (ms @ ms', v))
      | (ms, v) \<Rightarrow> (ms, v))"

locale framing =
  fixes enc :: "'m \<Rightarrow> bytes"
    and dec :: "bytes \<Rightarrow> 'm verdict"
    and sendable :: "'m \<Rightarrow> bool"
  assumes dec_enc: "sendable m \<Longrightarrow> dec (enc m @ rest) = Accept m rest"
    and dec_shrinks: "dec s = Accept m r \<Longrightarrow> length r < length s"
    and dec_stable: "dec s = Accept m r \<Longrightarrow> dec (s @ t) = Accept m (r @ t)"
    and dec_reject: "dec s = Reject \<Longrightarrow> dec (s @ t) = Reject"
begin

lemma read_all_Accept:
  "dec s = Accept m r \<Longrightarrow> read_all dec s = (let (ms, v) = read_all dec r in (m # ms, v))"
  using dec_shrinks [of s m r] by (simp add: read_all.simps [of dec s])

lemma read_all_stream:
  assumes "\<forall>m \<in> set ms. sendable m"
  shows "read_all dec (concat (map enc ms) @ rest) =
    (let (ms', v) = read_all dec rest in (ms @ ms', v))"
  using assms
proof (induction ms)
  case Nil
  then show ?case by (simp add: split_beta)
next
  case (Cons m ms)
  then have "dec (concat (map enc (m # ms)) @ rest) = Accept m (concat (map enc ms) @ rest)"
    by (simp add: dec_enc)
  from read_all_Accept [OF this] Cons show ?case by (simp add: split_beta Let_def)
qed

lemma read_all_append:
  "read_all dec (s @ t) =
     (case read_all dec s of
        (ms, Accept rest _) \<Rightarrow> (let (ms', v) = read_all dec (rest @ t) in (ms @ ms', v))
      | (ms, v) \<Rightarrow> (ms, v))"
proof (induction "length s" arbitrary: s rule: less_induct)
  case less
  show ?case
  proof (cases "dec s")
    case Incomplete
    then show ?thesis by (simp add: read_all.simps [of dec s] split_beta)
  next
    case Reject
    then show ?thesis
      by (simp add: read_all.simps [of dec s] read_all.simps [of dec "s @ t"] dec_reject)
  next
    case (Accept m r)
    note IH = less [OF dec_shrinks [OF Accept]]
    show ?thesis
      using IH
      by (simp add: read_all_Accept [OF Accept] read_all_Accept [OF dec_stable [OF Accept]]
          split_beta split: prod.splits verdict.splits)
  qed
qed

lemma read_all_rest:
  "read_all dec s = (ms, Accept rest x) \<Longrightarrow> read_all dec rest = ([], Accept rest []) \<and> x = []"
proof (induction "length s" arbitrary: s ms rule: less_induct)
  case less
  show ?case
  proof (cases "dec s")
    case Incomplete
    then have "rest = s \<and> x = []" using less.prems by (simp add: read_all.simps [of dec s])
    then show ?thesis using Incomplete by (simp add: read_all.simps [of dec s])
  next
    case Reject
    then show ?thesis using less.prems by (simp add: read_all.simps [of dec s])
  next
    case (Accept m r)
    then show ?thesis
      using less.prems less.hyps [OF dec_shrinks [OF Accept]]
      by (auto simp: read_all_Accept [OF Accept] split_beta prod_eq_iff)
  qed
qed

lemma feed_eq_read_all:
  assumes "read_all dec buf = ([], Accept buf [])"
  shows "feed dec buf cs = read_all dec (buf @ concat cs)"
  using assms
proof (induction cs arbitrary: buf)
  case Nil
  then show ?case by simp
next
  case (Cons c cs)
  obtain ms v where rd: "read_all dec (buf @ c) = (ms, v)" by fastforce
  show ?case
  proof (cases v)
    case (Accept rest x)
    have rest: "read_all dec rest = ([], Accept rest [])"
      using read_all_rest [OF rd [unfolded Accept]] by simp
    show ?thesis
      using Cons.IH [OF rest] rd Accept read_all_append [of "buf @ c" "concat cs"] by simp
  qed (use rd read_all_append [of "buf @ c" "concat cs"] in auto)
qed

end

lemma read_frame_raw:
  assumes "4 + length payload \<le> MAX_PACK_LEN"
  shows "read_frame (raw_frame type payload @ rest) = Accept (type, payload) rest"
proof -
  have u: "unat (of_nat (4 + length payload) :: 32 word) = 4 + length payload"
  proof -
    have lt: "4 + length payload < 2 ^ LENGTH(32)" using assms by (simp add: MAX_PACK_LEN_def)
    show ?thesis unfolding unat_of_nat by (rule mod_less [OF lt])
  qed
  have "\<not> (of_nat (4 + length payload) :: 32 word) < 4"
    unfolding word_less_nat_alt u by simp
  then show ?thesis
    using assms u unfolding read_frame_def raw_frame_def
    by (simp add: Let_def)
qed

lemma read_frame_append:
  assumes "4 \<le> length s"
  shows "read_frame (s @ t) = (case read_frame s of
      Incomplete \<Rightarrow> read_frame (s @ t) | Reject \<Rightarrow> Reject | Accept m r \<Rightarrow> Accept m (r @ t))"
proof -
  have "4 \<le> unat (decodeLen32 s)" if "\<not> decodeLen32 s < 4"
    using that by (simp add: word_less_nat_alt)
  then show ?thesis
    using assms
    by (auto simp: read_frame_def Let_def decodeLen32_append decodeType32_append)
qed

interpretation server: framing "\<lambda>(type, payload). raw_frame type payload" read_frame
    "\<lambda>(type, payload). 4 + length payload \<le> MAX_PACK_LEN"
proof unfold_locales
  fix m :: "32 word \<times> bytes" and rest
  assume "case m of (type, payload) \<Rightarrow> 4 + length payload \<le> MAX_PACK_LEN"
  then show "read_frame ((case m of (type, payload) \<Rightarrow> raw_frame type payload) @ rest) = Accept m rest"
    by (cases m) (simp add: read_frame_raw)
next
  fix s m r
  assume acc: "read_frame s = Accept m r"
  then show "length r < length s"
    by (auto simp: read_frame_def Let_def split: if_splits)
  from acc have "4 \<le> length s" by (auto simp: read_frame_def split: if_splits)
  from read_frame_append [OF this] acc show "read_frame (s @ t) = Accept m (r @ t)" for t
    by simp
next
  fix s t
  assume rej: "read_frame s = Reject"
  then have "4 \<le> length s" by (auto simp: read_frame_def split: if_splits)
  from read_frame_append [OF this] rej show "read_frame (s @ t) = Reject" by simp
qed

text \<open>
  The framing is lossless: frames within the size limit, written back to back and cut into
  chunks anywhere by the transport, are read back as the same frames in the same order, with
  nothing left over.
\<close>

theorem stream_reassembly:
  assumes "\<forall>(type, payload) \<in> set ms. 4 + length payload \<le> MAX_PACK_LEN"
    and "concat cs = concat (map (\<lambda>(type, payload). raw_frame type payload) ms)"
  shows "feed read_frame [] cs = (ms, Accept [] [])"
proof -
  have none: "read_all read_frame [] = ([], Accept [] [])"
    by (simp add: read_all.simps read_frame_def)
  show ?thesis
    using server.feed_eq_read_all [OF none, of cs] server.read_all_stream [of ms "[]"] assms none
    by (simp add: split_beta)
qed

theorem stream_reassembly_witness:
  "feed read_frame [] [[0, 0, 0], [5, 0xEB, 3, 0], [0, 7, 0, 0, 0, 4, 0xF2], [3, 0, 0]] =
     ([(1003, [7]), (1010, [])], Accept [] [])"
  by (rule stream_reassembly) (simp_all add: MAX_PACK_LEN_def raw_frame_def encodeLen32_def encodeType32_def)

text \<open>
  \<open>utf8Truncate\<close> of a well-formed text is the longest run of its whole characters that fits
  in the limit: no character is cut, and no further one would have fitted.
\<close>

theorem utf8Truncate_whole_characters:
  assumes "\<forall>c \<in> set cs. utf8_char c"
  shows "utf8Truncate (concat cs) n = concat (fit_chars cs n) \<and>
         length (utf8Truncate (concat cs) n) \<le> n \<and>
         (\<exists>k. fit_chars cs n = take k cs \<and> (k < length cs \<longrightarrow> n < length (concat (take (Suc k) cs))))"
proof -
  have "\<exists>k. fit_chars cs n = take k cs \<and> (k < length cs \<longrightarrow> n < length (concat (take (Suc k) cs)))"
  proof (induction cs n rule: fit_chars.induct)
    case (2 c cs n)
    show ?case
    proof (cases "length c \<le> n")
      case True
      then obtain k where k: "fit_chars cs (n - length c) = take k cs"
          "k < length cs \<longrightarrow> n - length c < length (concat (take (Suc k) cs))"
        using "2.IH" by blast
      then show ?thesis using True by (intro exI [of _ "Suc k"]) auto
    next
      case False
      then show ?thesis by (intro exI [of _ 0]) simp
    qed
  qed simp
  then show ?thesis
    using assms utf8Truncate_concat [of cs n] length_utf8Truncate [of "concat cs" n] by simp
qed

theorem utf8Truncate_whole_characters_witness:
  "utf8Truncate (concat [''a'', [CHR 0xE5, CHR 0xBC, CHR 0xA0], ''b'']) 3 = ''a'' \<and>
   utf8Truncate (concat [''a'', [CHR 0xE5, CHR 0xBC, CHR 0xA0], ''b'']) 4 =
     ''a'' @ [CHR 0xE5, CHR 0xBC, CHR 0xA0]"
  using utf8Truncate_whole_characters [of "[''a'', [CHR 0xE5, CHR 0xBC, CHR 0xA0], ''b'']" 3]
    utf8Truncate_whole_characters [of "[''a'', [CHR 0xE5, CHR 0xBC, CHR 0xA0], ''b'']" 4]
  by (simp add: utf8_char_def is_cont_def)

end
