(* ===== verification/Database.thy ===== *)
theory Database
  imports Protocol
begin

text \<open>
  \<open>im_server/src/Database.h\<close> and \<open>Database.cpp\<close>: the tables, the write connection with its
  transaction, and every operation as the SQL text of the source says. Each call of sqlite3 that
  can fail is a call site of the environment \<open>sqlenv\<close>, so every error branch, with its
  rollback, is a branch of the model. An \<open>INSERT\<close> or \<open>UPDATE\<close> that breaks a UNIQUE
  constraint of the schema fails as sqlite3 makes it fail. Reads use the committed tables
  (WAL snapshots of the pool's connections); writes go through the one write connection.
  \<open>ROLLBACK\<close>, whose result the code ignores, is taken to succeed.
\<close>

subsection \<open>Rows and tables\<close>

record UserRecord =
  ur_id :: int
  ur_iconId :: int
  ur_nick :: string
  ur_feeling :: string

record FriendRequestRecord =
  fq_requesterId :: int
  fq_targetId :: int
  fq_requesterNick :: string
  fq_targetNick :: string
  fq_createdAt :: int

record StoredMessage =
  msgId :: string
  senderId :: int
  receiverId :: int
  mtype :: int
  content :: string
  mediaPath :: string
  imgW :: int
  imgH :: int
  mts :: int
  mseq :: int
  fileId :: string
  fileSize :: int
  contentType :: string
  sha256 :: string

record AuthSessionRecord =
  as_sessionId :: string
  as_familyId :: string
  as_userId :: int
  as_deviceId :: string
  as_accessHash :: string
  as_accessExpiresAt :: int
  as_refreshHash :: string
  as_refreshExpiresAt :: int
  as_generation :: int
  as_revoked :: bool

text \<open>A row of \<open>t_user\<close>.\<close>

record user_row =
  u_id :: int
  u_name :: string
  u_tel :: string
  u_passwd :: string
  u_salt :: string
  u_algo :: string
  u_feeling :: string
  u_iconid :: int

text \<open>A row of \<open>friend_requests\<close>: status 0 waits, 1 is accepted, 2 rejected.\<close>

record freq_row =
  r_requester :: int
  r_target :: int
  r_status :: int
  r_created :: int
  r_updated :: int

text \<open>
  A row of \<open>messages\<close>: row id, conversation, delivery flag, and the fourteen columns that
  \<open>readMessageRow\<close> loads back.
\<close>

record msg_row =
  row_id :: int
  conversation_id :: int
  is_delivered :: bool
  row_msg :: StoredMessage

record auth_row =
  auth :: AuthSessionRecord
  created_at :: int
  last_used_at :: int

text \<open>A row of \<open>auth_refresh_history\<close>.\<close>

record hist_row =
  h_family :: string
  h_token :: string
  h_generation :: int
  h_used_at :: int

text \<open>The database file. The two counters are the AUTOINCREMENT high-water marks.\<close>

record tables =
  users :: "user_row list"
  user_ctr :: int
  friends :: "(int \<times> int) list"
  freqs :: "freq_row list"
  messages :: "msg_row list"
  msg_ctr :: int
  auths :: "auth_row list"
  hist :: "hist_row list"
  user_version :: int

definition empty_tables :: tables where
  "empty_tables = \<lparr>users = [], user_ctr = 0, friends = [], freqs = [], messages = [], msg_ctr = 0,
     auths = [], hist = [], user_version = 0\<rparr>"

subsection \<open>The write connection\<close>

text \<open>
  \<open>disk\<close> is what is committed; inside a transaction the connection works on \<open>txn\<close>. A
  statement outside a transaction commits by itself.
\<close>

record dbconn =
  disk :: tables
  txn :: "tables option"

definition current :: "dbconn \<Rightarrow> tables" where
  "current c = (case txn c of None \<Rightarrow> disk c | Some t \<Rightarrow> t)"

definition put_tables :: "tables \<Rightarrow> dbconn \<Rightarrow> dbconn" where
  "put_tables t c = (case txn c of None \<Rightarrow> c\<lparr>disk := t\<rparr> | Some _ \<Rightarrow> c\<lparr>txn := Some t\<rparr>)"

text \<open>
  \<open>BEGIN\<close> fails inside a transaction; \<open>COMMIT\<close> that fails leaves the transaction open.
\<close>

definition sql_begin :: "bool \<Rightarrow> dbconn \<Rightarrow> dbconn option" where
  "sql_begin good c =
     (if good \<and> txn c = None then Some (c\<lparr>txn := Some (disk c)\<rparr>) else None)"

definition sql_commit :: "bool \<Rightarrow> dbconn \<Rightarrow> bool \<times> dbconn" where
  "sql_commit good c =
     (case txn c of
        Some t \<Rightarrow> if good then (True, \<lparr>disk = t, txn = None\<rparr>) else (False, c)
      | None \<Rightarrow> (False, c))"

definition sql_rollback :: "dbconn \<Rightarrow> dbconn" where
  "sql_rollback c = c\<lparr>txn := None\<rparr>"

text \<open>The operations, with the key of a read, and the call sites of sqlite3 inside them.\<close>

datatype dbop =
    OpSeed | OpRegister | OpLogin | OpUpgrade | OpGetUser int | OpIsFriend int int
  | OpGetFriends int | OpAddFriend | OpCreateReq | OpPending | OpResolve | OpRemoveFriend
  | OpIdByNick | OpSave | OpPull | OpMark | OpRoamConv | OpRoamMsg | OpByMsgId | OpByFileId
  | OpCreateAuth | OpFindAccess | OpFindRefresh | OpRotate | OpUsed | OpRevokeFamily
  | OpRevokeSession | OpRevokeAll | OpMigrate | OpVersion

datatype sql_call = Begin dbop | Prepare dbop nat | Step dbop nat | Commit dbop

text \<open>
  \<open>sql_ok e s\<close>: the call at site \<open>s\<close> succeeds. \<open>row_cut e p = Some n\<close>: the row loop of the
  read \<open>p\<close> stops after \<open>n\<close> rows because \<open>sqlite3_step\<close> reports an error.
\<close>

record sqlenv =
  sql_ok :: "sql_call \<Rightarrow> bool"
  row_cut :: "dbop \<Rightarrow> nat option"

definition no_faults :: sqlenv where
  "no_faults = \<lparr>sql_ok = (\<lambda>_. True), row_cut = (\<lambda>_. None)\<rparr>"

definition read_rows :: "sqlenv \<Rightarrow> dbop \<Rightarrow> 'r list \<Rightarrow> 'r list" where
  "read_rows e p rows =
     (if \<not> sql_ok e (Prepare p 0) then []
      else case row_cut e p of None \<Rightarrow> rows | Some n \<Rightarrow> take n rows)"

definition read_row :: "sqlenv \<Rightarrow> dbop \<Rightarrow> ('r \<Rightarrow> bool) \<Rightarrow> 'r list \<Rightarrow> 'r option" where
  "read_row e p q rows =
     (if sql_ok e (Prepare p 0) \<and> sql_ok e (Step p 0) then find q rows else None)"

lemma no_faults_simps [simp]:
  "sql_ok no_faults s" "row_cut no_faults p = None"
  "read_rows no_faults p rows = rows" "read_row no_faults p q rows = find q rows"
  by (simp_all add: no_faults_def read_rows_def read_row_def)

lemma set_read_rows: "set (read_rows e p rows) \<subseteq> set rows"
  by (auto simp: read_rows_def split: option.splits dest: in_set_takeD)

lemma read_row_SomeD: "read_row e p q rows = Some r \<Longrightarrow> q r \<and> r \<in> set rows"
  by (auto simp: read_row_def dest: find_SomeD split: if_splits)

subsection \<open>Conversations\<close>

text \<open>\<open>makeConversationId\<close>: the smaller id in the high half, the larger in the low half.\<close>

definition makeConversationId :: "int \<Rightarrow> int \<Rightarrow> int" where
  "makeConversationId idA idB =
     (if idA \<le> 0 \<or> idB \<le> 0 then 0
      else let low = (word_of_int (if idA < idB then idA else idB) :: 32 word);
               high = (word_of_int (if idB < idA then idA else idB) :: 32 word)
           in sint (push_bit 32 (ucast low :: 64 word) OR ucast high))"

subsection \<open>Inserting rows under the UNIQUE constraints\<close>

definition insert_user ::
  "string \<Rightarrow> string \<Rightarrow> string \<Rightarrow> string \<Rightarrow> int \<Rightarrow> tables \<Rightarrow> tables option" where
  "insert_user name tel passwd feeling icon t =
     (if (\<exists>u \<in> set (users t). u_name u = name \<or> u_tel u = tel) then None
      else Some (t\<lparr>users := users t @ [\<lparr>u_id = user_ctr t + 1, u_name = name, u_tel = tel,
             u_passwd = passwd, u_salt = [], u_algo = ''argon2id'', u_feeling = feeling,
             u_iconid = icon\<rparr>],
           user_ctr := user_ctr t + 1\<rparr>))"

text \<open>\<open>INSERT OR IGNORE INTO t_friend\<close>.\<close>

definition insert_friend :: "int \<Rightarrow> int \<Rightarrow> tables \<Rightarrow> tables" where
  "insert_friend a b t =
     (if (a, b) \<in> set (friends t) then t else t\<lparr>friends := friends t @ [(a, b)]\<rparr>)"

definition insert_message :: "int \<Rightarrow> bool \<Rightarrow> StoredMessage \<Rightarrow> tables \<Rightarrow> tables option" where
  "insert_message conv delivered m t =
     (if (\<exists>r \<in> set (messages t). msgId (row_msg r) = msgId m \<or>
            (conversation_id r = conv \<and> mseq (row_msg r) = mseq m)) then None
      else Some (t\<lparr>messages := messages t @ [\<lparr>row_id = msg_ctr t + 1, conversation_id = conv,
             is_delivered = delivered, row_msg = m\<rparr>],
           msg_ctr := msg_ctr t + 1\<rparr>))"

definition insert_auth :: "AuthSessionRecord \<Rightarrow> int \<Rightarrow> tables \<Rightarrow> tables option" where
  "insert_auth s now t =
     (if (\<exists>r \<in> set (auths t). as_sessionId (auth r) = as_sessionId s \<or>
            as_accessHash (auth r) = as_accessHash s \<or> as_refreshHash (auth r) = as_refreshHash s)
      then None
      else Some (t\<lparr>auths := auths t @ [\<lparr>auth = s, created_at = now, last_used_at = now\<rparr>]\<rparr>))"

definition insert_hist :: "hist_row \<Rightarrow> tables \<Rightarrow> tables option" where
  "insert_hist h t =
     (if (\<exists>r \<in> set (hist t). h_token r = h_token h) then None
      else Some (t\<lparr>hist := hist t @ [h]\<rparr>))"

subsection \<open>Invariants of the connection\<close>

text \<open>A property of the tables that holds of the file and of an open transaction.\<close>

definition conn_inv :: "(tables \<Rightarrow> bool) \<Rightarrow> dbconn \<Rightarrow> bool" where
  "conn_inv I c \<longleftrightarrow> I (disk c) \<and> (\<forall>t. txn c = Some t \<longrightarrow> I t)"

lemma current_simps [simp, conn_simps]:
  "txn c = None \<Longrightarrow> current c = disk c"
  "txn c = Some t \<Longrightarrow> current c = t"
  by (simp_all add: current_def)

lemma put_tables_simps [simp, conn_simps]:
  "current (put_tables t c) = t"
  "disk (put_tables t c) = (if txn c = None then t else disk c)"
  "txn (put_tables t c) = (if txn c = None then None else Some t)"
  by (auto simp: put_tables_def current_def split: option.split)

lemma put_tables_put [simp]: "put_tables t (put_tables t' c) = put_tables t c"
  by (auto simp: put_tables_def split: option.split)

lemma sql_begin_Some [conn_simps]:
  "sql_begin good c = Some c' \<longleftrightarrow> good \<and> txn c = None \<and> c' = c\<lparr>txn := Some (disk c)\<rparr>"
  by (auto simp: sql_begin_def)

lemma sql_rollback_simps [simp, conn_simps]:
  "disk (sql_rollback c) = disk c" "txn (sql_rollback c) = None"
  by (simp_all add: sql_rollback_def)

lemma sql_commit_simps [simp, conn_simps]:
  "fst (sql_commit good c) = (good \<and> txn c \<noteq> None)"
  "disk (snd (sql_commit good c)) = (if good then current c else disk c)"
  "txn (snd (sql_commit good c)) = (if good then None else txn c)"
  by (auto simp: sql_commit_def current_def split: option.split)

lemma conn_inv_current: "conn_inv I c \<Longrightarrow> I (current c)"
  by (auto simp: conn_inv_def current_def split: option.splits)

lemma conn_inv_disk: "conn_inv I c \<Longrightarrow> I (disk c)"
  by (simp add: conn_inv_def)

lemma conn_inv_put [intro]: "conn_inv I c \<Longrightarrow> I t \<Longrightarrow> conn_inv I (put_tables t c)"
  by (auto simp: conn_inv_def)

lemma conn_inv_begin: "conn_inv I c \<Longrightarrow> sql_begin good c = Some c' \<Longrightarrow> conn_inv I c'"
  by (auto simp: conn_inv_def sql_begin_Some)

lemma conn_inv_rollback [intro]: "conn_inv I c \<Longrightarrow> conn_inv I (sql_rollback c)"
  by (auto simp: conn_inv_def)

lemma conn_inv_commit [intro]: "conn_inv I c \<Longrightarrow> conn_inv I (snd (sql_commit good c))"
  by (auto simp: conn_inv_def current_def split: option.splits)

text \<open>
  A transaction that ran to its end keeps the property of the file; whatever its statements did
  meanwhile, rolling back restores the file.
\<close>

lemma conn_inv_rollback_disk [intro]: "I (disk c) \<Longrightarrow> conn_inv I (sql_rollback c)"
  by (simp add: conn_inv_def)

lemma conn_inv_put_open: "I (disk c) \<Longrightarrow> txn c \<noteq> None \<Longrightarrow> I t \<Longrightarrow> conn_inv I (put_tables t c)"
  by (auto simp: conn_inv_def)

lemma txn_begin [simp]: "sql_begin good c = Some c' \<Longrightarrow> txn c' = Some (disk c)"
  by (auto simp: sql_begin_Some)

lemma sql_beginE:
  assumes "sql_begin good c = Some c1"
  obtains d where "c = \<lparr>disk = d, txn = None\<rparr>" and "c1 = \<lparr>disk = d, txn = Some d\<rparr>"
  using assms by (cases c) (auto simp: sql_begin_def split: if_splits)

lemma txn_steps [conn_simps]:
  "current \<lparr>disk = d, txn = Some t\<rparr> = t"
  "put_tables t' \<lparr>disk = d, txn = Some t\<rparr> = \<lparr>disk = d, txn = Some t'\<rparr>"
  "sql_commit good \<lparr>disk = d, txn = Some t\<rparr> =
     (if good then (True, \<lparr>disk = t, txn = None\<rparr>) else (False, \<lparr>disk = d, txn = Some t\<rparr>))"
  "sql_rollback \<lparr>disk = d, txn = Some t\<rparr> = \<lparr>disk = d, txn = None\<rparr>"
  by (simp_all add: put_tables_def sql_commit_def sql_rollback_def)

lemma begin_rollback: "sql_begin good c = Some c1 \<Longrightarrow> sql_rollback c1 = c"
  by (cases c) (auto simp: sql_begin_def sql_rollback_def split: if_splits)

lemma rollback_id: "txn c = None \<Longrightarrow> sql_rollback c = c"
  by (cases c) (simp add: sql_rollback_def)

lemma rollback_put [simp]: "txn c \<noteq> None \<Longrightarrow> sql_rollback (put_tables t c) = sql_rollback c"
  by (auto simp: sql_rollback_def put_tables_def)

lemma rollback_commit_False [simp]: "sql_rollback (snd (sql_commit False c)) = sql_rollback c"
  by (auto simp: sql_commit_def split: option.split)

lemma commit_put [simp]:
  "txn c \<noteq> None \<Longrightarrow> sql_commit True (put_tables t c) = (True, \<lparr>disk = t, txn = None\<rparr>)"
  by (auto simp: sql_commit_def put_tables_def)

text \<open>
  A step that leaves the part \<open>f\<close> of the tables alone: afterwards the file holds that part as
  it or the open transaction had it, and a transaction that is open has not changed it.
\<close>

definition conn_frame :: "(tables \<Rightarrow> 'p) \<Rightarrow> dbconn \<Rightarrow> dbconn \<Rightarrow> bool" where
  "conn_frame f c c' \<longleftrightarrow>
     f (disk c') \<in> {f (disk c), f (current c)} \<and>
     (\<forall>t. txn c' = Some t \<longrightarrow> f (disk c') = f (disk c) \<and> f t = f (current c))"

lemma conn_frame_inv:
  assumes "conn_inv I c" and "conn_frame f c c'" and cong: "\<And>t t'. f t = f t' \<Longrightarrow> I t \<Longrightarrow> I t'"
  shows "conn_inv I c'"
  unfolding conn_inv_def
proof (intro conjI allI impI)
  have d: "I (disk c)" "I (current c)"
    using assms(1) conn_inv_current conn_inv_disk by blast+
  show "I (disk c')"
    using assms(2) d cong [of "disk c" "disk c'"] cong [of "current c" "disk c'"]
    by (auto simp: conn_frame_def)
  show "I t" if "txn c' = Some t" for t
    using assms(2) d cong [of "current c" t] that by (auto simp: conn_frame_def)
qed

lemma conn_frame_refl [simp]: "conn_frame f c c"
  by (auto simp: conn_frame_def current_def)

lemma conn_frame_put: "f t = f (current c) \<Longrightarrow> conn_frame f c (put_tables t c)"
  by (auto simp: conn_frame_def)

lemma conn_frame_rollback: "conn_frame f c (sql_rollback c)"
  by (simp add: conn_frame_def)

lemma conn_frame_disk: "txn c = None \<Longrightarrow> f t = f (disk c) \<Longrightarrow> conn_frame f c (c\<lparr>disk := t\<rparr>)"
  by (simp add: conn_frame_def)

subsection \<open>Atomic operations\<close>

text \<open>
  The contract of an operation in its own transaction: it changes the connection only when it
  answers True, then by its whole effect on the committed tables; without faults it has its
  effect whenever the effect is defined.
\<close>

locale atomic_op =
  fixes oper :: "sqlenv \<Rightarrow> dbconn \<Rightarrow> bool \<times> dbconn"
    and effect :: "tables \<Rightarrow> tables option"
  assumes outcome: "oper e c = (False, c) \<or>
      (\<exists>t. txn c = None \<and> effect (disk c) = Some t \<and> oper e c = (True, c\<lparr>disk := t\<rparr>))"
    and progress: "txn c = None \<Longrightarrow> effect (disk c) = Some t \<Longrightarrow>
      oper no_faults c = (True, c\<lparr>disk := t\<rparr>)"
begin

lemma False_unchanged: "oper e c = (False, c') \<Longrightarrow> c' = c"
  using outcome [of e c] by auto

lemma True_effect:
  assumes "oper e c = (True, c')"
  shows "txn c = None \<and> effect (disk c) = Some (disk c') \<and> c' = c\<lparr>disk := disk c'\<rparr>"
  using outcome [of e c] assms by auto

lemma no_effect: "effect (disk c) = None \<Longrightarrow> oper e c = (False, c)"
  using outcome [of e c] by auto

lemma faultless:
  "txn c = None \<Longrightarrow> oper no_faults c =
     (case effect (disk c) of None \<Rightarrow> (False, c) | Some t \<Rightarrow> (True, c\<lparr>disk := t\<rparr>))"
  using no_effect progress by (simp split: option.split)

lemma txn_same: "txn (snd (oper e c)) = txn c"
  using outcome [of e c] by auto

lemma invariant:
  assumes "conn_inv I c" and "\<And>t t'. I t \<Longrightarrow> effect t = Some t' \<Longrightarrow> I t'"
  shows "conn_inv I (snd (oper e c))"
  using outcome [of e c] assms by (auto simp: conn_inv_def)

lemma frame:
  assumes "\<And>t t'. effect t = Some t' \<Longrightarrow> f t' = f t"
  shows "conn_frame f c (snd (oper e c))"
  using outcome [of e c]
proof (elim disjE exE conjE)
  fix t assume "txn c = None" "effect (disk c) = Some t" "oper e c = (True, c\<lparr>disk := t\<rparr>)"
  then show ?thesis using assms [of "disk c" t] by (simp add: conn_frame_disk)
qed simp

end

end
