(* ===== verification/Sha256.thy ===== *)
theory Sha256
  imports Wire
begin

text \<open>
  \<open>protocol/sha256.h\<close>: the incremental SHA-256 used for password proofs, fallback message ids
  and upload hashes. The state is the class's: the bytes buffered so far (\<open>m_data\<close> up to
  \<open>m_len\<close>), the bit count of the blocks already consumed, and the eight words. The lemmas
  show that the buffering and the padding of \<open>final\<close> compute the standard's function on the
  padded message, for messages of any length and however they are split into updates.
\<close>

type_synonym u32 = "32 word"

record sha =
  m_data :: bytes
  m_bitLen :: "64 word"
  m_state :: "u32 list"

definition sha_init_state :: "u32 list" where
  "sha_init_state = [0x6a09e667, 0xbb67ae85, 0x3c6ef372, 0xa54ff53a,
     0x510e527f, 0x9b05688c, 0x1f83d9ab, 0x5be0cd19]"

definition sha_reset :: sha where
  "sha_reset = \<lparr>m_data = [], m_bitLen = 0, m_state = sha_init_state\<rparr>"

text \<open>The table \<open>K\<close>, one list per line of the source.\<close>

definition sha_K :: "u32 list" where
  "sha_K = concat
     [[0x428a2f98, 0x71374491, 0xb5c0fbcf, 0xe9b5dba5,
       0x3956c25b, 0x59f111f1, 0x923f82a4, 0xab1c5ed5],
      [0xd807aa98, 0x12835b01, 0x243185be, 0x550c7dc3,
       0x72be5d74, 0x80deb1fe, 0x9bdc06a7, 0xc19bf174],
      [0xe49b69c1, 0xefbe4786, 0x0fc19dc6, 0x240ca1cc,
       0x2de92c6f, 0x4a7484aa, 0x5cb0a9dc, 0x76f988da],
      [0x983e5152, 0xa831c66d, 0xb00327c8, 0xbf597fc7,
       0xc6e00bf3, 0xd5a79147, 0x06ca6351, 0x14292967],
      [0x27b70a85, 0x2e1b2138, 0x4d2c6dfc, 0x53380d13,
       0x650a7354, 0x766a0abb, 0x81c2c92e, 0x92722c85],
      [0xa2bfe8a1, 0xa81a664b, 0xc24b8b70, 0xc76c51a3,
       0xd192e819, 0xd6990624, 0xf40e3585, 0x106aa070],
      [0x19a4c116, 0x1e376c08, 0x2748774c, 0x34b0bcb5,
       0x391c0cb3, 0x4ed8aa4a, 0x5b9cca4f, 0x682e6ff3],
      [0x748f82ee, 0x78a5636f, 0x84c87814, 0x8cc70208,
       0x90befffa, 0xa4506ceb, 0xbef9a3f7, 0xc67178f2]]"

definition rotr :: "u32 \<Rightarrow> nat \<Rightarrow> u32" where
  "rotr x n = drop_bit n x OR push_bit (32 - n) x"

subsection \<open>The compression function \<open>transform\<close>\<close>

text \<open>The first sixteen words of the schedule: the block's bytes, big-endian.\<close>

definition block_words :: "bytes \<Rightarrow> u32 list" where
  "block_words d = map (\<lambda>i. decodeLen32 (drop (4 * i) d)) [0..<16]"

definition next_word :: "u32 list \<Rightarrow> u32" where
  "next_word w = (let i = length w;
      s0 = rotr (w ! (i - 15)) 7 XOR rotr (w ! (i - 15)) 18 XOR drop_bit 3 (w ! (i - 15));
      s1 = rotr (w ! (i - 2)) 17 XOR rotr (w ! (i - 2)) 19 XOR drop_bit 10 (w ! (i - 2))
    in w ! (i - 16) + s0 + w ! (i - 7) + s1)"

definition schedule :: "bytes \<Rightarrow> u32 list" where
  "schedule d = fold (\<lambda>_ w. w @ [next_word w]) [16..<64] (block_words d)"

fun sha_round :: "u32 \<Rightarrow> u32 \<Rightarrow> u32 list \<Rightarrow> u32 list" where
  "sha_round k w [a, b, c, d, e, f, g, h] =
     (let S1 = rotr e 6 XOR rotr e 11 XOR rotr e 25;
          ch = (e AND f) XOR (NOT e AND g);
          temp1 = h + S1 + ch + k + w;
          S0 = rotr a 2 XOR rotr a 13 XOR rotr a 22;
          maj = (a AND b) XOR (a AND c) XOR (b AND c);
          temp2 = S0 + maj
      in [temp1 + temp2, a, b, c, d + temp1, e, f, g])"
| "sha_round k w st = st"

definition compress :: "u32 list \<Rightarrow> bytes \<Rightarrow> u32 list" where
  "compress st d =
     map2 (+) st (fold (\<lambda>(k, w) s. sha_round k w s) (zip sha_K (schedule d)) st)"

definition transform :: "sha \<Rightarrow> sha" where
  "transform s = s\<lparr>m_state := compress (m_state s) (m_data s)\<rparr>"

subsection \<open>Buffering\<close>

text \<open>One turn of the loop of \<open>update\<close>.\<close>

definition sha_byte :: "byte \<Rightarrow> sha \<Rightarrow> sha" where
  "sha_byte b s =
     (let s' = s\<lparr>m_data := m_data s @ [b]\<rparr>
      in if length (m_data s') = 64
         then (transform s')\<lparr>m_bitLen := m_bitLen s + 512, m_data := []\<rparr>
         else s')"

definition sha_update :: "bytes \<Rightarrow> sha \<Rightarrow> sha" where
  "sha_update data s = fold sha_byte data s"

text \<open>Zero bytes up to position \<open>n\<close>: \<open>while (m_len < n) m_data[m_len++] = 0\<close>.\<close>

definition zero_to :: "nat \<Rightarrow> bytes \<Rightarrow> bytes" where
  "zero_to n d = d @ replicate (n - length d) 0"

definition sha_final :: "sha \<Rightarrow> bytes" where
  "sha_final s =
     (let i = length (m_data s);
          s1 = s\<lparr>m_data := m_data s @ [0x80]\<rparr>;
          s2 = (if 56 < length (m_data s1)
                then (transform (s1\<lparr>m_data := zero_to 64 (m_data s1)\<rparr>))\<lparr>m_data := []\<rparr>
                else s1);
          totalBits = m_bitLen s + of_nat i * 8;
          s3 = transform (s2\<lparr>m_data := appendU64 (zero_to 56 (m_data s2)) totalBits\<rparr>)
      in concat (map encodeLen32 (m_state s3)))"

text \<open>\<open>sha256Hex\<close> and the digit loops of the code: two lower-case hex digits per byte.\<close>

definition hex_digits :: string where
  "hex_digits = ''0123456789abcdef''"

definition toHex :: "bytes \<Rightarrow> string" where
  "toHex data = concat (map (\<lambda>b. [hex_digits ! unat (drop_bit 4 b), hex_digits ! unat (b AND 0x0F)]) data)"

definition sha256_digest :: "bytes \<Rightarrow> bytes" where
  "sha256_digest msg = sha_final (sha_update msg sha_reset)"

definition sha256Hex :: "string \<Rightarrow> string" where
  "sha256Hex input = toHex (sha256_digest (bytes_of input))"

subsection \<open>The function of FIPS 180-4\<close>

text \<open>The blocks of a message, its padding, and the fold of the compression over the blocks.\<close>

function chunks :: "bytes \<Rightarrow> bytes list" where
  "chunks d = (if d = [] then [] else take 64 d # chunks (drop 64 d))"
  by pat_completeness auto
termination by (relation "measure length") simp_all

declare chunks.simps [simp del]

definition pad :: "bytes \<Rightarrow> bytes" where
  "pad msg = appendU64 (msg @ 0x80 # replicate ((119 - length msg mod 64) mod 64) 0)
     (of_nat (8 * length msg))"

definition hash_blocks :: "bytes list \<Rightarrow> u32 list" where
  "hash_blocks bs = fold (\<lambda>b st. compress st b) bs sha_init_state"

definition fips_sha256 :: "bytes \<Rightarrow> bytes" where
  "fips_sha256 msg = concat (map encodeLen32 (hash_blocks (chunks (pad msg))))"

lemma chunks_Nil [simp]: "chunks [] = []"
  by (simp add: chunks.simps)

lemma chunks_block: "length b = 64 \<Longrightarrow> chunks (b @ d) = b # chunks d"
  by (subst chunks.simps) auto

lemma chunks_concat:
  "\<forall>b \<in> set bs. length b = 64 \<Longrightarrow> chunks (concat bs @ d) = bs @ chunks d"
  by (induction bs) (simp_all add: chunks_block)

lemma length_concat_blocks: "\<forall>b \<in> set bs. length b = 64 \<Longrightarrow> length (concat bs) = 64 * length bs"
  by (induction bs) simp_all

text \<open>What the buffered state says of the message so far.\<close>

definition absorbed :: "bytes \<Rightarrow> bytes list \<Rightarrow> sha \<Rightarrow> bool" where
  "absorbed msg bs s \<longleftrightarrow> msg = concat bs @ m_data s \<and> (\<forall>b \<in> set bs. length b = 64) \<and>
     length (m_data s) < 64 \<and> m_state s = hash_blocks bs \<and> m_bitLen s = of_nat (512 * length bs)"

lemma absorbed_reset: "absorbed [] [] sha_reset"
  by (simp add: absorbed_def sha_reset_def hash_blocks_def)

lemma absorbed_byte:
  assumes "absorbed msg bs s"
  shows "\<exists>bs'. absorbed (msg @ [b]) bs' (sha_byte b s)"
proof (cases "length (m_data s) = 63")
  case True
  then have "absorbed (msg @ [b]) (bs @ [m_data s @ [b]]) (sha_byte b s)"
    using assms by (auto simp: absorbed_def sha_byte_def Let_def transform_def hash_blocks_def)
  then show ?thesis ..
next
  case False
  then have "absorbed (msg @ [b]) bs (sha_byte b s)"
    using assms by (auto simp: absorbed_def sha_byte_def Let_def)
  then show ?thesis ..
qed

lemma absorbed_update: "absorbed msg bs s \<Longrightarrow> \<exists>bs'. absorbed (msg @ d) bs' (sha_update d s)"
proof (induction d arbitrary: msg bs s)
  case (Cons b d)
  obtain bs' where "absorbed (msg @ [b]) bs' (sha_byte b s)" using absorbed_byte Cons.prems by blast
  from Cons.IH [OF this] show ?case by (simp add: sha_update_def)
qed (auto simp: sha_update_def)

lemma appendU64_app: "appendU64 (a @ b) v = a @ appendU64 b v"
  by (simp add: appendU64_def)

lemma pad_count_low: "m \<le> 55 \<Longrightarrow> (119 - m) mod 64 = 55 - (m :: nat)"
proof -
  assume "m \<le> 55"
  then have "119 - m = (55 - m) + 64" by linarith
  then have "(119 - m) mod 64 = ((55 - m) + 64) mod 64" by (rule arg_cong)
  also have "\<dots> = 55 - m" by simp
  finally show "(119 - m) mod 64 = 55 - m" .
qed

lemma pad_count_high:
  assumes "55 < m" and "m < 64"
  shows "(119 - m) mod 64 = (63 - m) + (56 :: nat)"
proof -
  have "119 - m < 64" using assms by linarith
  then have "(119 - m) mod 64 = 119 - m" by (rule mod_less)
  also have "119 - m = (63 - m) + 56" using assms by linarith
  finally show ?thesis .
qed

lemma final_state:
  assumes "absorbed msg bs s"
  shows "sha_final s = fips_sha256 msg"
proof -
  let ?d = "m_data s"
  let ?len = "of_nat (8 * length msg) :: 64 word"
  have msg: "msg = concat bs @ ?d" and blocks: "\<forall>b \<in> set bs. length b = 64"
    and short: "length ?d < 64" and st: "m_state s = hash_blocks bs"
    and bl: "m_bitLen s = of_nat (512 * length bs)"
    using assms by (simp_all add: absorbed_def)
  have lm: "length msg = 64 * length bs + length ?d"
    using length_concat_blocks [OF blocks] by (simp add: msg)
  have total: "m_bitLen s + of_nat (length ?d) * 8 = ?len" by (simp add: bl lm algebra_simps)
  have mod: "length msg mod 64 = length ?d" using short by (simp add: lm)
  have pad: "pad msg = concat bs @ appendU64 (?d @ 0x80 # replicate ((119 - length ?d) mod 64) 0) ?len"
  proof -
    have "msg @ x = concat bs @ (?d @ x)" for x by (simp add: msg)
    then show ?thesis unfolding pad_def mod by (simp only: appendU64_app)
  qed
  show ?thesis
  proof (cases "length ?d \<le> 55")
    case True
    let ?b = "appendU64 (?d @ 0x80 # replicate (55 - length ?d) 0) ?len"
    have "(119 - length ?d) mod 64 = 55 - length ?d" using True by (rule pad_count_low)
    then have "chunks (pad msg) = bs @ [?b]"
      using True chunks_concat [OF blocks] chunks_block [of ?b "[]"] by (simp add: pad)
    then have "fips_sha256 msg = concat (map encodeLen32 (compress (hash_blocks bs) ?b))"
      by (simp add: fips_sha256_def hash_blocks_def)
    then show ?thesis
      using True by (simp add: sha_final_def Let_def transform_def zero_to_def st total)
  next
    case False
    let ?b = "?d @ 0x80 # replicate (63 - length ?d) 0"
    let ?c = "appendU64 (replicate 56 0) ?len"
    have "(119 - length ?d) mod 64 = (63 - length ?d) + 56" using False short by (intro pad_count_high) simp_all
    then have p: "pad msg = concat bs @ (?b @ ?c)"
      unfolding pad by (simp only: replicate_add append_assoc append_Cons appendU64_app)
        (simp only: appendU64_def append_assoc append_Cons)
    have "length ?b = 64" "length ?c = 64" using False short by (simp_all)
    then have "chunks (pad msg) = bs @ [?b, ?c]"
      using chunks_concat [OF blocks, of "?b @ ?c"] chunks_block [of ?b ?c] chunks_block [of ?c "[]"]
      unfolding p by (simp del: append_assoc append_Cons)
    then have f: "fips_sha256 msg =
        concat (map encodeLen32 (compress (compress (hash_blocks bs) ?b) ?c))"
      by (simp add: fips_sha256_def hash_blocks_def)
    have z: "zero_to 64 (?d @ [0x80]) = ?b" "zero_to 56 [] = replicate 56 0"
      using False short by (simp_all add: zero_to_def)
    show ?thesis
      using False short by (simp add: f sha_final_def Let_def transform_def z st total)
  qed
qed

lemma length_compress: "length st = 8 \<Longrightarrow> length (compress st b) = 8"
proof -
  have round: "length (sha_round k w s) = length s" for k w s
    by (cases "(k, w, s)" rule: sha_round.cases) (simp_all add: Let_def)
  have "length s = 8 \<Longrightarrow> length (fold (\<lambda>(k, w) s. sha_round k w s) ks s) = 8" for ks s
    by (induction ks arbitrary: s) (auto simp: round)
  then show "length st = 8 \<Longrightarrow> length (compress st b) = 8" by (simp add: compress_def)
qed

lemma length_hash_blocks: "length (hash_blocks bs) = 8"
proof -
  have "length st = 8 \<Longrightarrow> length (fold (\<lambda>b st. compress st b) bs st) = 8" for st
    by (induction bs arbitrary: st) (simp_all add: length_compress)
  then show ?thesis by (simp add: hash_blocks_def sha_init_state_def)
qed

lemma length_fips [simp]: "length (fips_sha256 msg) = 32"
proof -
  have "length (concat (map encodeLen32 ws)) = 4 * length ws" for ws
    by (induction ws) simp_all
  then show ?thesis by (simp add: fips_sha256_def length_hash_blocks)
qed

lemma digest_eq_fips: "sha256_digest msg = fips_sha256 msg"
proof -
  obtain bs where "absorbed msg bs (sha_update msg sha_reset)"
    using absorbed_update [OF absorbed_reset, of msg] by auto
  then show ?thesis unfolding sha256_digest_def by (rule final_state)
qed


subsection \<open>Hexadecimal\<close>

lemma nibble_less: "unat (drop_bit 4 (b :: byte)) < 16" "unat (b AND 0x0F :: byte) < 16"
proof -
  show "unat (drop_bit 4 b) < 16"
    using unsigned_less [of b, where 'a = nat]
    by (simp only: unat_drop_bit_eq drop_bit_eq_div [of 4 "unat b"]) simp
  have "b AND 0x0F = take_bit 4 b" by (simp add: take_bit_eq_mask mask_eq_exp_minus_1)
  then show "unat (b AND 0x0F) < 16"
    by (simp only: unsigned_take_bit_eq take_bit_eq_mod [of 4 "unat b"]) simp
qed


lemma nibbles_split: "unat (b :: byte) = 16 * unat (drop_bit 4 b) + unat (b AND 0x0F)"
proof -
  have "b AND 0x0F = take_bit 4 b" by (simp add: take_bit_eq_mask mask_eq_exp_minus_1)
  then have "unat (b AND 0x0F) = unat b mod 16"
    by (simp only: unsigned_take_bit_eq take_bit_eq_mod [of 4 "unat b"]) simp
  moreover have "unat (drop_bit 4 b) = unat b div 16"
    by (simp only: unat_drop_bit_eq drop_bit_eq_div [of 4 "unat b"]) simp
  ultimately show ?thesis by simp
qed

lemma length_hex_digits [simp]: "length hex_digits = 16"
  by (simp add: hex_digits_def)

lemma distinct_hex_digits: "distinct hex_digits"
  by (simp add: hex_digits_def)

lemma length_toHex [simp]: "length (toHex d) = 2 * length d"
  by (induction d) (simp_all add: toHex_def)

lemma set_toHex: "set (toHex d) \<subseteq> set hex_digits"
  by (induction d) (auto simp: toHex_def nibble_less)

lemma toHex_Cons: "toHex (b # d) = hex_digits ! unat (drop_bit 4 b) # hex_digits ! unat (b AND 0x0F) # toHex d"
  by (simp add: toHex_def)

lemma toHex_inject: "toHex a = toHex b \<longleftrightarrow> a = b"
proof
  show "toHex a = toHex b \<Longrightarrow> a = b"
  proof (induction a arbitrary: b)
    case Nil
    then have "length (toHex b) = 0" by (metis length_toHex list.size(3) mult_0_right)
    then show ?case by simp
  next
    case (Cons x a)
    then have "length b = Suc (length a)" using length_toHex by (metis length_Cons mult_cancel1 zero_neq_numeral)
    then obtain y b' where b: "b = y # b'" by (cases b) simp_all
    from Cons.prems have "unat (drop_bit 4 x) = unat (drop_bit 4 y)" "unat (x AND 0x0F) = unat (y AND 0x0F)"
      and "toHex a = toHex b'"
      by (simp_all add: b toHex_Cons nth_eq_iff_index_eq [OF distinct_hex_digits] nibble_less)
    then have "unat x = unat y" using nibbles_split [of x] nibbles_split [of y] by simp
    then have "x = y" by (rule unsigned_word_eqI)
    then show ?case using Cons.IH [OF \<open>toHex a = toHex b'\<close>] b by simp
  qed
qed simp

text \<open>
  A password proof or token hash in hexadecimal has 64 lower-case digits, contains no NUL byte,
  and determines the digest it was made from.
\<close>

theorem sha256Hex_format:
  "length (sha256Hex s) = 64 \<and> set (sha256Hex s) \<subseteq> set ''0123456789abcdef'' \<and>
   cstr (sha256Hex s) = sha256Hex s \<and>
   (sha256Hex s = sha256Hex s' \<longleftrightarrow> sha256_digest (bytes_of s) = sha256_digest (bytes_of s'))"
proof (intro conjI)
  have sub: "set (sha256Hex s) \<subseteq> set hex_digits" unfolding sha256Hex_def by (rule set_toHex)
  then show "set (sha256Hex s) \<subseteq> set ''0123456789abcdef''" by (simp only: hex_digits_def)
  have "CHR 0x00 \<notin> set hex_digits" by (simp add: hex_digits_def)
  then show "cstr (sha256Hex s) = sha256Hex s" using sub by (intro cstr_id) blast
qed (simp_all add: sha256Hex_def digest_eq_fips toHex_inject)


end
