(* ===== verification/DbUsers.thy ===== *)
theory DbUsers
  imports Database Sha256
begin

text \<open>
  The account operations of \<open>Database.cpp\<close>: seeding, registration, login with the upgrade of old
  password hashes, and the profile reads. Argon2 and OpenSSL are third-party code: the record
  \<open>extern\<close> carries them as parameters. The lemmas show that names and numbers stay unique
  under every failure of sqlite3, and that a registered user, and nobody without the password
  proof, can log in.
\<close>

text \<open>
  \<open>argon2_hash x p\<close> is the encoded hash of one call of \<open>hashPasswordArgon2id\<close> (None when it
  throws), \<open>evp_sha256 x d\<close> the digest of the EVP interface (None when it throws).
\<close>

record extern =
  argon2_hash :: "string \<Rightarrow> string option"
  argon2_verify :: "string \<Rightarrow> string \<Rightarrow> bool"
  evp_sha256 :: "bytes \<Rightarrow> bytes option"

definition default_feeling :: string where
  "default_feeling = [CHR 0xE5, CHR 0x8A, CHR 0xAA, CHR 0xE5, CHR 0x8A, CHR 0x9B, CHR 0xE5, CHR 0xAE,
     CHR 0x9E, CHR 0xE7, CHR 0x8E, CHR 0xB0, CHR 0xE8, CHR 0xB4, CHR 0xA2, CHR 0xE5, CHR 0xAF,
     CHR 0x8C, CHR 0xE8, CHR 0x87, CHR 0xAA, CHR 0xE7, CHR 0x94, CHR 0xB1]"

subsection \<open>Seeding\<close>

text \<open>The three seed users: name, phone number, motto.\<close>

definition seed_users :: "(string \<times> string \<times> string) list" where
  "seed_users =
    [([CHR 0xE5, CHR 0xBC, CHR 0xA0, CHR 0xE4, CHR 0xB8, CHR 0x89], ''13800000001'',
      [CHR 0xE6, CHR 0x88, CHR 0x91, CHR 0xE6, CHR 0x98, CHR 0xAF, CHR 0xE5, CHR 0xBC, CHR 0xA0,
       CHR 0xE4, CHR 0xB8, CHR 0x89]),
     ([CHR 0xE6, CHR 0x9D, CHR 0x8E, CHR 0xE5, CHR 0x9B, CHR 0x9B], ''13800000002'',
      [CHR 0xE6, CHR 0x88, CHR 0x91, CHR 0xE6, CHR 0x98, CHR 0xAF, CHR 0xE6, CHR 0x9D, CHR 0x8E,
       CHR 0xE5, CHR 0x9B, CHR 0x9B]),
     ([CHR 0xE7, CHR 0x8E, CHR 0x8B, CHR 0xE4, CHR 0xBA, CHR 0x94], ''13800000003'',
      [CHR 0xE6, CHR 0x88, CHR 0x91, CHR 0xE6, CHR 0x98, CHR 0xAF, CHR 0xE7, CHR 0x8E, CHR 0x8B,
       CHR 0xE4, CHR 0xBA, CHR 0x94])]"

text \<open>
  The insertion loop. Its state is the connection, the ids so far and the connection's last
  inserted row id. Failed calls of sqlite3 are ignored; an exception of the hash leaves the
  transaction open.
\<close>

fun seed_insert ::
  "extern \<Rightarrow> sqlenv \<Rightarrow> nat \<Rightarrow> (string \<times> string \<times> string) list \<Rightarrow> int list \<Rightarrow> int \<Rightarrow> dbconn \<Rightarrow>
   int list exc \<times> dbconn" where
  "seed_insert x e i [] ids lastId c = (Returns ids, c)"
| "seed_insert x e i ((nick, tel, feeling) # us) ids lastId c =
     (case argon2_hash x (sha256Hex ''123456'') of
        None \<Rightarrow> (Throws, c)
      | Some stored \<Rightarrow>
          (case (if sql_ok e (Prepare OpSeed (i + 1)) \<and> sql_ok e (Step OpSeed (i + 1))
                 then insert_user nick tel (cstr stored) feeling (int i + 1) (current c)
                 else None) of
             None \<Rightarrow> seed_insert x e (i + 1) us (ids @ [lastId]) lastId c
           | Some t \<Rightarrow>
               seed_insert x e (i + 1) us (ids @ [user_ctr t]) (user_ctr t) (put_tables t c)))"

fun seed_pairs :: "sqlenv \<Rightarrow> nat \<Rightarrow> (int \<times> int) list \<Rightarrow> dbconn \<Rightarrow> dbconn" where
  "seed_pairs e i [] c = c"
| "seed_pairs e i ((a, b) # ps) c =
     seed_pairs e (i + 1) ps
       (if sql_ok e (Prepare OpSeed i) \<and> sql_ok e (Step OpSeed i)
        then put_tables (insert_friend a b (current c)) c else c)"

definition seedIfEmpty :: "extern \<Rightarrow> sqlenv \<Rightarrow> dbconn \<Rightarrow> unit exc \<times> dbconn" where
  "seedIfEmpty x e c0 =
     (if \<not> sql_ok e (Prepare OpSeed 0) then (Returns (), c0)
      else if sql_ok e (Step OpSeed 0) \<and> users (current c0) \<noteq> [] then (Returns (), c0)
      else
        let c1 = (case sql_begin (sql_ok e (Begin OpSeed)) c0 of None \<Rightarrow> c0 | Some c \<Rightarrow> c)
        in case seed_insert x e 0 seed_users [] 0 c1 of
             (Throws, c2) \<Rightarrow> (Throws, c2)
           | (Returns ids, c2) \<Rightarrow>
               let c3 = seed_pairs e 4 [(ids ! 0, ids ! 1), (ids ! 1, ids ! 0),
                          (ids ! 1, ids ! 2), (ids ! 2, ids ! 1)] c2
               in (Returns (), snd (sql_commit (sql_ok e (Commit OpSeed)) c3)))"

subsection \<open>Registration and login\<close>

definition registerUser ::
  "extern \<Rightarrow> sqlenv \<Rightarrow> string \<Rightarrow> string \<Rightarrow> string \<Rightarrow> dbconn \<Rightarrow> int \<times> dbconn" where
  "registerUser x e nick tel passHash c =
     (case argon2_hash x passHash of
        None \<Rightarrow> (-1, c)
      | Some stored \<Rightarrow>
          if \<not> sql_ok e (Prepare OpRegister 0) then (-1, sql_rollback c)
          else if sql_ok e (Step OpRegister 0) \<and> (\<exists>u \<in> set (users (current c)). u_name u = cstr nick)
          then (REGISTER_NICK_EXIT, c)
          else if \<not> sql_ok e (Prepare OpRegister 1) then (-1, sql_rollback c)
          else if sql_ok e (Step OpRegister 1) \<and> (\<exists>u \<in> set (users (current c)). u_tel u = cstr tel)
          then (REGISTER_TEL_EXIT, c)
          else if \<not> sql_ok e (Prepare OpRegister 2) then (-1, sql_rollback c)
          else if \<not> sql_ok e (Step OpRegister 2) then (-1, c)
          else (case insert_user (cstr nick) (cstr tel) (cstr stored) default_feeling 3 (current c) of
                  None \<Rightarrow> (-1, c)
                | Some t \<Rightarrow> (REGISTER_SUCC, put_tables t c)))"

text \<open>The row of an old account after the upgrade of its hash.\<close>

definition upgrade_row :: "string \<Rightarrow> user_row \<Rightarrow> user_row" where
  "upgrade_row upgraded u = u\<lparr>u_passwd := upgraded, u_salt := [], u_algo := ''argon2id''\<rparr>"

definition upgrade_password :: "sqlenv \<Rightarrow> string \<Rightarrow> int \<Rightarrow> dbconn \<Rightarrow> dbconn" where
  "upgrade_password e upgraded userId c =
     (if sql_ok e (Prepare OpUpgrade 0) \<and> sql_ok e (Step OpUpgrade 0)
      then put_tables ((current c)\<lparr>users :=
             upd_where (\<lambda>u. u_id u = userId \<and> u_algo u = ''legacy_sha256'')
               (upgrade_row (cstr upgraded)) (users (current c))\<rparr>) c
      else c)"

definition loginUser ::
  "extern \<Rightarrow> sqlenv \<Rightarrow> string \<Rightarrow> string \<Rightarrow> dbconn \<Rightarrow> int \<times> int \<times> dbconn" where
  "loginUser x e tel passHash c =
     (if \<not> sql_ok e (Prepare OpLogin 0) then (-1, 0, c)
      else case (if sql_ok e (Step OpLogin 0)
                 then find (\<lambda>u. u_tel u = cstr tel) (users (disk c)) else None) of
        None \<Rightarrow> (LOGIN_NOTEXIT, 0, c)
      | Some u \<Rightarrow>
          if u_algo u = ''argon2id''
          then (if argon2_verify x (u_passwd u) passHash then LOGIN_SUCCESS else LOGIN_PASSERROR,
                u_id u, c)
          else if sha256Hex (u_salt u @ passHash) \<noteq> u_passwd u then (LOGIN_PASSERROR, u_id u, c)
          else (LOGIN_SUCCESS, u_id u,
                (case argon2_hash x passHash of
                   None \<Rightarrow> c
                 | Some upgraded \<Rightarrow> upgrade_password e upgraded (u_id u) c)))"

subsection \<open>Profiles\<close>

definition user_record :: "user_row \<Rightarrow> UserRecord" where
  "user_record u =
     \<lparr>ur_id = u_id u, ur_iconId = u_iconid u, ur_nick = u_name u, ur_feeling = u_feeling u\<rparr>"

definition getUser :: "sqlenv \<Rightarrow> int \<Rightarrow> dbconn \<Rightarrow> UserRecord option" where
  "getUser e i c = map_option user_record (read_row e (OpGetUser i) (\<lambda>u. u_id u = i) (users (disk c)))"

definition getUserIdByNick :: "sqlenv \<Rightarrow> string \<Rightarrow> dbconn \<Rightarrow> int" where
  "getUserIdByNick e nick c =
     (case read_row e OpIdByNick (\<lambda>u. u_name u = cstr nick) (users (disk c)) of
        None \<Rightarrow> 0 | Some u \<Rightarrow> u_id u)"

definition getUserNickById :: "sqlenv \<Rightarrow> int \<Rightarrow> dbconn \<Rightarrow> string" where
  "getUserNickById e i c = (case getUser e i c of None \<Rightarrow> [] | Some r \<Rightarrow> ur_nick r)"

subsection \<open>Uniqueness\<close>

definition users_ok :: "tables \<Rightarrow> bool" where
  "users_ok t \<longleftrightarrow> distinct (map u_id (users t)) \<and> distinct (map u_name (users t)) \<and>
     distinct (map u_tel (users t)) \<and> 0 \<le> user_ctr t \<and>
     (\<forall>u \<in> set (users t). 0 < u_id u \<and> u_id u \<le> user_ctr t)"

lemma users_ok_empty [simp]: "users_ok empty_tables"
  by (simp add: users_ok_def empty_tables_def)

lemma insert_user_Some:
  "insert_user name tel passwd feeling icon t = Some t' \<longleftrightarrow>
     (\<forall>u \<in> set (users t). u_name u \<noteq> name \<and> u_tel u \<noteq> tel) \<and>
     t' = t\<lparr>users := users t @ [\<lparr>u_id = user_ctr t + 1, u_name = name, u_tel = tel,
             u_passwd = passwd, u_salt = [], u_algo = ''argon2id'', u_feeling = feeling,
             u_iconid = icon\<rparr>],
           user_ctr := user_ctr t + 1\<rparr>"
  by (auto simp: insert_user_def)

lemma insert_user_ok:
  assumes "users_ok t" and "insert_user name tel passwd feeling icon t = Some t'"
  shows "users_ok t'"
proof -
  have "u_id u \<noteq> user_ctr t + 1" if "u \<in> set (users t)" for u
    using assms(1) that by (fastforce simp: users_ok_def)
  with assms show ?thesis
    by (auto simp: users_ok_def insert_user_Some)
qed

lemma insert_user_other [simp]:
  "insert_user name tel passwd feeling icon t = Some t' \<Longrightarrow> friends t' = friends t"
  "insert_user name tel passwd feeling icon t = Some t' \<Longrightarrow> freqs t' = freqs t"
  "insert_user name tel passwd feeling icon t = Some t' \<Longrightarrow> messages t' = messages t"
  "insert_user name tel passwd feeling icon t = Some t' \<Longrightarrow> msg_ctr t' = msg_ctr t"
  "insert_user name tel passwd feeling icon t = Some t' \<Longrightarrow> auths t' = auths t"
  "insert_user name tel passwd feeling icon t = Some t' \<Longrightarrow> hist t' = hist t"
  by (auto simp: insert_user_def split: if_splits)

lemma insert_friend_users [simp]:
  "users (insert_friend a b t) = users t" "user_ctr (insert_friend a b t) = user_ctr t"
  by (simp_all add: insert_friend_def)

lemma upgrade_row_same [simp]:
  "u_id (upgrade_row p u) = u_id u" "u_name (upgrade_row p u) = u_name u"
  "u_tel (upgrade_row p u) = u_tel u" "u_algo (upgrade_row p u) = ''argon2id''"
  "u_passwd (upgrade_row p u) = p"
  by (simp_all add: upgrade_row_def)

lemma users_ok_upgrade:
  "users_ok t \<Longrightarrow> users_ok (t\<lparr>users := upd_where q (upgrade_row p) (users t)\<rparr>)"
  unfolding users_ok_def by (auto simp: map_upd_where_same set_upd_where)

lemma users_ok_insert_friend [simp]: "users_ok (insert_friend a b t) = users_ok t"
  by (simp add: users_ok_def)

lemma seed_insert_ok:
  "conn_inv users_ok c \<Longrightarrow> conn_inv users_ok (snd (seed_insert x e i us ids lastId c))"
proof (induction x e i us ids lastId c rule: seed_insert.induct)
  case (2 x e i nick tel feeling us ids lastId c)
  then have cur: "users_ok (current c)" by (simp add: conn_inv_current)
  have step: "conn_inv users_ok (put_tables t c)"
    if "insert_user nick tel stored feeling (int i + 1) (current c) = Some t" for stored t
    using 2(3) insert_user_ok [OF cur that] by auto
  show ?case
    using 2 step by (auto split: option.splits if_splits)
qed simp

lemma seed_pairs_ok: "conn_inv users_ok c \<Longrightarrow> conn_inv users_ok (seed_pairs e i ps c)"
  by (induction e i ps c rule: seed_pairs.induct) (auto simp: conn_inv_put conn_inv_current)

lemma seedIfEmpty_users_ok:
  assumes "conn_inv users_ok c"
  shows "conn_inv users_ok (snd (seedIfEmpty x e c))"
proof -
  let ?c1 = "case sql_begin (sql_ok e (Begin OpSeed)) c of None \<Rightarrow> c | Some c \<Rightarrow> c"
  have 1: "conn_inv users_ok ?c1"
    using assms conn_inv_begin by (auto split: option.split)
  obtain r c2 where e2: "seed_insert x e 0 seed_users [] 0 ?c1 = (r, c2)" by fastforce
  have 2: "conn_inv users_ok c2"
    using seed_insert_ok [OF 1, of x e 0 seed_users "[]" 0] e2 by simp
  show ?thesis
    using assms 2 seed_pairs_ok [OF 2]
    by (cases r) (auto simp: seedIfEmpty_def Let_def e2 conn_inv_commit simp del: seed_pairs.simps)
qed

lemma registerUser_users_ok:
  assumes "conn_inv users_ok c"
  shows "conn_inv users_ok (snd (registerUser x e nick tel passHash c))"
proof -
  note cur = conn_inv_current [OF assms]
  show ?thesis
    unfolding registerUser_def using assms
    by (auto split: option.split intro: conn_inv_put insert_user_ok [OF cur])
qed

lemma loginUser_users_ok:
  assumes "conn_inv users_ok c"
  shows "conn_inv users_ok (snd (snd (loginUser x e tel passHash c)))"
  unfolding loginUser_def upgrade_password_def using assms users_ok_upgrade [OF conn_inv_current [OF assms]]
  by (auto split: option.split intro: conn_inv_put)

text \<open>What each answer of a registration says.\<close>

lemma registerUser_SUCC:
  assumes "registerUser x e nick tel passHash c = (REGISTER_SUCC, c')"
  obtains h t where "argon2_hash x passHash = Some h"
    and "insert_user (cstr nick) (cstr tel) (cstr h) default_feeling 3 (current c) = Some t"
    and "c' = put_tables t c"
  using assms unfolding registerUser_def
  by (auto simp: REGISTER_SUCC_def REGISTER_NICK_EXIT_def REGISTER_TEL_EXIT_def
      split: option.splits if_splits)

lemma registerUser_other:
  assumes "registerUser x e nick tel passHash c = (r, c')" and "r \<noteq> REGISTER_SUCC"
  shows "disk c' = disk c \<and> (r \<in> {REGISTER_NICK_EXIT, REGISTER_TEL_EXIT} \<longrightarrow> c' = c)"
  using assms unfolding registerUser_def
  by (auto simp: REGISTER_SUCC_def REGISTER_NICK_EXIT_def REGISTER_TEL_EXIT_def
      split: option.splits if_splits)

lemma find_user_tel:
  "users_ok t \<Longrightarrow> u \<in> set (users t) \<Longrightarrow> find (\<lambda>v. u_tel v = u_tel u) (users t) = Some u"
  by (rule find_unique [of u_tel]) (auto simp: users_ok_def)

subsection \<open>The properties of the account operations\<close>

text \<open>
  Ids, names and phone numbers of the accounts stay unique, and ids stay positive and below
  the AUTOINCREMENT mark, in the file and in an open transaction, through seeding, registration
  and login, whatever call of sqlite3, Argon2 or the random generator fails on the way.
\<close>

theorem accounts_stay_unique:
  assumes "conn_inv users_ok c"
  shows "conn_inv users_ok (snd (seedIfEmpty x e c)) \<and>
         conn_inv users_ok (snd (registerUser x e nick tel passHash c)) \<and>
         conn_inv users_ok (snd (snd (loginUser x e tel passHash c)))"
  by (intro conjI seedIfEmpty_users_ok registerUser_users_ok loginUser_users_ok assms)

theorem accounts_stay_unique_witness:
  "conn_inv users_ok (snd (registerUser \<lparr>argon2_hash = Some, argon2_verify = (=), evp_sha256 = Some\<rparr>
     no_faults ''ann'' ''1'' ''p'' \<lparr>disk = empty_tables, txn = None\<rparr>))"
  using accounts_stay_unique [of "\<lparr>disk = empty_tables, txn = None\<rparr>"]
  by (simp add: conn_inv_def)

text \<open>
  A registration that answers success creates one account, with the next id, under which the
  phone number logs in exactly with the proofs Argon2 accepts for the stored hash; the login of
  every other number answers as before, and a registration with any other answer changes nothing
  in the file.
\<close>

theorem login_after_register:
  assumes inv: "conn_inv users_ok c" "txn c = None"
    and reg: "registerUser x e nick tel passHash c = (r, c')"
  shows "if r = REGISTER_SUCC
         then (\<exists>h. argon2_hash x passHash = Some h \<and>
                (\<forall>q. loginUser x no_faults tel q c' =
                   (if argon2_verify x (cstr h) q then LOGIN_SUCCESS else LOGIN_PASSERROR,
                    user_ctr (disk c) + 1, c'))) \<and>
              (\<forall>tel' q. cstr tel' \<noteq> cstr tel \<longrightarrow>
                 (let (r1, i1, _) = loginUser x no_faults tel' q c';
                      (r2, i2, _) = loginUser x no_faults tel' q c in r1 = r2 \<and> i1 = i2))
         else disk c' = disk c"
proof (cases "r = REGISTER_SUCC")
  case True
  with reg obtain h t where h: "argon2_hash x passHash = Some h"
    and t: "insert_user (cstr nick) (cstr tel) (cstr h) default_feeling 3 (current c) = Some t"
    and c': "c' = put_tables t c" by (auto elim: registerUser_SUCC)
  from inv t c' have u: "users (disk c') = users (disk c) @ [\<lparr>u_id = user_ctr (disk c) + 1,
      u_name = cstr nick, u_tel = cstr tel, u_passwd = cstr h, u_salt = [], u_algo = ''argon2id'',
      u_feeling = default_feeling, u_iconid = 3\<rparr>]"
    and new: "\<forall>v \<in> set (users (disk c)). u_tel v \<noteq> cstr tel"
    by (auto simp: insert_user_Some)
  have none: "find (\<lambda>v. u_tel v = cstr tel) (users (disk c)) = None"
    using new by (auto simp: find_None_conv)
  have "loginUser x no_faults tel q c' =
      (if argon2_verify x (cstr h) q then LOGIN_SUCCESS else LOGIN_PASSERROR,
       user_ctr (disk c) + 1, c')" for q
    by (simp add: loginUser_def u find_append none)
  moreover have "find (\<lambda>v. u_tel v = cstr tel') (users (disk c')) =
      find (\<lambda>v. u_tel v = cstr tel') (users (disk c))" if "cstr tel' \<noteq> cstr tel" for tel'
    using that by (simp add: u find_append split: option.split)
  ultimately show ?thesis
    using True h by (auto simp: loginUser_def split: option.splits prod.splits)
next
  case False
  then show ?thesis using registerUser_other [OF reg] by simp
qed

theorem login_after_register_witness:
  "let x = \<lparr>argon2_hash = Some, argon2_verify = (=), evp_sha256 = Some\<rparr>;
       c = \<lparr>disk = empty_tables, txn = None\<rparr>
   in fst (loginUser x no_faults ''1'' ''p'' (snd (registerUser x no_faults ''ann'' ''1'' ''p'' c)))
        = LOGIN_SUCCESS"
proof -
  let ?x = "\<lparr>argon2_hash = Some, argon2_verify = (=), evp_sha256 = Some\<rparr>"
  let ?c = "\<lparr>disk = empty_tables, txn = None\<rparr>"
  have r: "fst (registerUser ?x no_faults ''ann'' ''1'' ''p'' ?c) = REGISTER_SUCC"
    by (simp add: registerUser_def empty_tables_def insert_user_def)
  show ?thesis
    using login_after_register [OF _ _ prod.collapse [symmetric],
        of ?c ?x no_faults "''ann''" "''1''" "''p''"] r
    by (simp add: conn_inv_def cstr_def Let_def)
qed

text \<open>
  The login of an account that still has the salted SHA-256 hash, with the right proof and a
  working Argon2, succeeds and replaces that hash, and no other account's, by the Argon2 hash:
  afterwards the account logs in exactly with the proofs Argon2 accepts.
\<close>

theorem legacy_login_upgrades:
  assumes inv: "conn_inv users_ok c" "txn c = None"
    and u: "u \<in> set (users (disk c))" "u_tel u = cstr tel" "u_algo u = ''legacy_sha256''"
    and pass: "sha256Hex (u_salt u @ p) = u_passwd u"
    and h: "argon2_hash x p = Some h"
  shows "\<exists>c'. loginUser x no_faults tel p c = (LOGIN_SUCCESS, u_id u, c') \<and>
           users (disk c') = upd_where (\<lambda>v. v = u) (upgrade_row (cstr h)) (users (disk c)) \<and>
           (\<forall>q. loginUser x no_faults tel q c' =
              (if argon2_verify x (cstr h) q then LOGIN_SUCCESS else LOGIN_PASSERROR, u_id u, c'))"
proof -
  let ?p = "\<lambda>v. u_id v = u_id u \<and> u_algo v = ''legacy_sha256''"
  let ?us = "upd_where ?p (upgrade_row (cstr h)) (users (disk c))"
  let ?c' = "c\<lparr>disk := (disk c)\<lparr>users := ?us\<rparr>\<rparr>"
  have ok: "users_ok (disk c)" using inv by (simp add: conn_inv_disk)
  have f: "find (\<lambda>v. u_tel v = cstr tel) (users (disk c)) = Some u"
    using find_user_tel [OF ok u(1)] u(2) by simp
  have "?p v \<longleftrightarrow> v = u" if "v \<in> set (users (disk c))" for v
    using that u ok distinct_map_eq [of u_id "users (disk c)"] by (auto simp: users_ok_def)
  then have same: "?us = upd_where (\<lambda>v. v = u) (upgrade_row (cstr h)) (users (disk c))"
    by (simp add: upd_where_def)
  have f': "find (\<lambda>v. u_tel v = cstr tel) ?us = Some (upgrade_row (cstr h) u)"
    by (subst find_upd_where_same) (simp_all add: f u)
  have "loginUser x no_faults tel p c = (LOGIN_SUCCESS, u_id u, ?c')"
    using inv by (simp add: loginUser_def f u pass h upgrade_password_def put_tables_def)
  moreover have "loginUser x no_faults tel q ?c' =
      (if argon2_verify x (cstr h) q then LOGIN_SUCCESS else LOGIN_PASSERROR, u_id u, ?c')" for q
    by (simp add: loginUser_def f')
  ultimately show ?thesis using same by auto
qed

theorem legacy_login_upgrades_witness:
  "fst (loginUser \<lparr>argon2_hash = Some, argon2_verify = (=), evp_sha256 = Some\<rparr> no_faults ''1'' ''p''
     \<lparr>disk = empty_tables\<lparr>user_ctr := 7, users := [\<lparr>u_id = 7, u_name = ''ann'', u_tel = ''1'',
        u_passwd = sha256Hex (''s'' @ ''p''), u_salt = ''s'', u_algo = ''legacy_sha256'',
        u_feeling = [], u_iconid = 0\<rparr>]\<rparr>, txn = None\<rparr>) = LOGIN_SUCCESS"
proof -
  let ?u = "\<lparr>u_id = 7, u_name = ''ann'', u_tel = ''1'', u_passwd = sha256Hex (''s'' @ ''p''),
      u_salt = ''s'', u_algo = ''legacy_sha256'', u_feeling = [], u_iconid = 0\<rparr>"
  let ?c = "\<lparr>disk = empty_tables\<lparr>user_ctr := 7, users := [?u]\<rparr>, txn = None\<rparr>"
  have "conn_inv users_ok ?c" by (simp add: conn_inv_def users_ok_def)
  from legacy_login_upgrades [OF this, of ?u "''1''" "''p''"
      "\<lparr>argon2_hash = Some, argon2_verify = (=), evp_sha256 = Some\<rparr>" "''p''"]
  show ?thesis by (auto simp: cstr_def)
qed

end
