(* ===== verification/DbFriends.thy ===== *)
theory DbFriends
  imports DbUsers
begin

text \<open>
  Friendships and friend requests of \<open>Database.cpp\<close>. The operations that touch several rows
  run in a transaction and roll back on every error: the lemmas show that each of them either
  leaves the connection as it was or does the whole change, and that the friend relation stays
  symmetric.
\<close>

subsection \<open>Reads\<close>

definition isFriend :: "sqlenv \<Rightarrow> int \<Rightarrow> int \<Rightarrow> dbconn \<Rightarrow> bool" where
  "isFriend e idA idB c =
     (read_row e (OpIsFriend idA idB) (\<lambda>p. p = (idA, idB)) (friends (disk c)) \<noteq> None)"

text \<open>The join of \<open>t_friend\<close> with \<open>t_user\<close>.\<close>

definition getFriends :: "sqlenv \<Rightarrow> int \<Rightarrow> dbconn \<Rightarrow> UserRecord list" where
  "getFriends e i c =
     read_rows e (OpGetFriends i)
       (concat (map (\<lambda>(a, b). if a = i
                      then map user_record (filter (\<lambda>u. u_id u = b) (users (disk c))) else [])
          (friends (disk c))))"

definition pending_rows :: "int \<Rightarrow> tables \<Rightarrow> FriendRequestRecord list" where
  "pending_rows userId t =
     concat (map (\<lambda>r. concat (map (\<lambda>a. map (\<lambda>b.
           \<lparr>fq_requesterId = r_requester r, fq_targetId = r_target r, fq_requesterNick = u_name a,
            fq_targetNick = u_name b, fq_createdAt = r_created r\<rparr>)
         (filter (\<lambda>b. u_id b = r_target r) (users t)))
       (filter (\<lambda>a. u_id a = r_requester r) (users t))))
     (filter (\<lambda>r. r_status r = 0 \<and> (r_requester r = userId \<or> r_target r = userId)) (freqs t)))"

text \<open>\<open>ORDER BY r.created_at DESC\<close>; rows of the same second keep the order of the table.\<close>

definition pendingFriendRequests :: "sqlenv \<Rightarrow> int \<Rightarrow> dbconn \<Rightarrow> FriendRequestRecord list" where
  "pendingFriendRequests e userId c =
     (if userId \<le> 0 then []
      else read_rows e OpPending
             (sort_key (\<lambda>r. - fq_createdAt r) (pending_rows userId (disk c))))"

subsection \<open>Writes\<close>

text \<open>
  The loop over the two directions: the sites \<open>prep i\<close> and \<open>Step p i\<close> of each insertion must
  succeed, otherwise the caller rolls back.
\<close>

fun insert_pairs :: "sqlenv \<Rightarrow> dbop \<Rightarrow> (nat \<Rightarrow> bool) \<Rightarrow> nat \<Rightarrow> (int \<times> int) list \<Rightarrow> dbconn \<Rightarrow> dbconn option"
  where
  "insert_pairs e p prep i [] c = Some c"
| "insert_pairs e p prep i ((a, b) # ps) c =
     (if prep i \<and> sql_ok e (Step p i)
      then insert_pairs e p prep (i + 1) ps (put_tables (insert_friend a b (current c)) c)
      else None)"

definition addFriendBidirectional :: "sqlenv \<Rightarrow> int \<Rightarrow> int \<Rightarrow> dbconn \<Rightarrow> bool \<times> dbconn" where
  "addFriendBidirectional e idA idB c =
     (case sql_begin (sql_ok e (Begin OpAddFriend)) c of
        None \<Rightarrow> (False, c)
      | Some c1 \<Rightarrow>
          (case insert_pairs e OpAddFriend (\<lambda>i. sql_ok e (Prepare OpAddFriend i)) 0
                  [(idA, idB), (idB, idA)] c1 of
             None \<Rightarrow> (False, sql_rollback c1)
           | Some c2 \<Rightarrow>
               let (ok, c3) = sql_commit (sql_ok e (Commit OpAddFriend)) c2
               in if ok then (True, c3) else (False, sql_rollback c3)))"

text \<open>\<open>INSERT ... ON CONFLICT DO UPDATE\<close>.\<close>

definition upsert_request :: "int \<Rightarrow> int \<Rightarrow> int \<Rightarrow> freq_row list \<Rightarrow> freq_row list" where
  "upsert_request requesterId targetId now rs =
     (let p = (\<lambda>r. r_requester r = requesterId \<and> r_target r = targetId)
      in if (\<exists>r \<in> set rs. p r)
         then upd_where p (\<lambda>r. r\<lparr>r_status := 0, r_created := now, r_updated := now\<rparr>) rs
         else rs @ [\<lparr>r_requester = requesterId, r_target = targetId, r_status = 0,
                     r_created = now, r_updated = now\<rparr>])"

definition createFriendRequest :: "sqlenv \<Rightarrow> int \<Rightarrow> int \<Rightarrow> int \<Rightarrow> dbconn \<Rightarrow> bool \<times> dbconn" where
  "createFriendRequest e now requesterId targetId c =
     (if requesterId \<le> 0 \<or> targetId \<le> 0 \<or> requesterId = targetId then (False, c)
      else if \<not> sql_ok e (Prepare OpCreateReq 0) then (False, c)
      else if \<not> sql_ok e (Step OpCreateReq 0) then (False, c)
      else (True, put_tables ((current c)\<lparr>freqs :=
              upsert_request requesterId targetId now (freqs (current c))\<rparr>) c))"

definition set_status :: "int \<Rightarrow> int \<Rightarrow> freq_row \<Rightarrow> freq_row" where
  "set_status st now r = r\<lparr>r_status := st, r_updated := now\<rparr>"

definition waiting :: "int \<Rightarrow> int \<Rightarrow> freq_row \<Rightarrow> bool" where
  "waiting requesterId targetId r \<longleftrightarrow>
     r_requester r = requesterId \<and> r_target r = targetId \<and> r_status r = 0"

text \<open>The part for an accepted request: both directions, then the crossing request.\<close>

definition accept_rows :: "sqlenv \<Rightarrow> int \<Rightarrow> int \<Rightarrow> int \<Rightarrow> dbconn \<Rightarrow> dbconn option" where
  "accept_rows e now requesterId targetId c =
     (if \<not> sql_ok e (Prepare OpResolve 1) then None
      else case insert_pairs e OpResolve (\<lambda>_. True) 1
                  [(requesterId, targetId), (targetId, requesterId)] c of
        None \<Rightarrow> None
      | Some c1 \<Rightarrow>
          if sql_ok e (Prepare OpResolve 2) \<and> sql_ok e (Step OpResolve 3)
          then Some (put_tables ((current c1)\<lparr>freqs :=
                 upd_where (waiting targetId requesterId) (set_status 1 now)
                   (freqs (current c1))\<rparr>) c1)
          else None)"

definition resolveFriendRequest ::
  "sqlenv \<Rightarrow> int \<Rightarrow> int \<Rightarrow> int \<Rightarrow> bool \<Rightarrow> dbconn \<Rightarrow> bool \<times> dbconn" where
  "resolveFriendRequest e now requesterId targetId accept c =
     (case sql_begin (sql_ok e (Begin OpResolve)) c of
        None \<Rightarrow> (False, c)
      | Some c1 \<Rightarrow>
          if \<not> sql_ok e (Prepare OpResolve 0) then (False, sql_rollback c1)
          else if \<not> (sql_ok e (Step OpResolve 0) \<and>
                     changes (waiting requesterId targetId) (freqs (current c1)) = 1)
          then (False, sql_rollback c1)
          else
            let c2 = put_tables ((current c1)\<lparr>freqs :=
                       upd_where (waiting requesterId targetId)
                         (set_status (if accept then 1 else 2) now) (freqs (current c1))\<rparr>) c1
            in case (if accept then accept_rows e now requesterId targetId c2 else Some c2) of
                 None \<Rightarrow> (False, sql_rollback c2)
               | Some c3 \<Rightarrow>
                   let (ok, c4) = sql_commit (sql_ok e (Commit OpResolve)) c3
                   in if ok then (True, c4) else (False, sql_rollback c4))"

definition delete_friends :: "int \<Rightarrow> int \<Rightarrow> (int \<times> int) list \<Rightarrow> (int \<times> int) list" where
  "delete_friends idA idB fs = filter (\<lambda>p. p \<noteq> (idA, idB) \<and> p \<noteq> (idB, idA)) fs"

definition removeFriendBidirectional :: "sqlenv \<Rightarrow> int \<Rightarrow> int \<Rightarrow> dbconn \<Rightarrow> bool \<times> dbconn" where
  "removeFriendBidirectional e idA idB c =
     (if idA \<le> 0 \<or> idB \<le> 0 \<or> idA = idB then (False, c)
      else case sql_begin (sql_ok e (Begin OpRemoveFriend)) c of
        None \<Rightarrow> (False, c)
      | Some c1 \<Rightarrow>
          if \<not> sql_ok e (Prepare OpRemoveFriend 0) then (False, sql_rollback c1)
          else if \<not> sql_ok e (Step OpRemoveFriend 0) then (False, sql_rollback c1)
          else
            let c2 = put_tables ((current c1)\<lparr>friends :=
                       delete_friends idA idB (friends (current c1))\<rparr>) c1;
                (ok, c3) = sql_commit (sql_ok e (Commit OpRemoveFriend)) c2
            in if ok then (True, c3) else (False, sql_rollback c3))"

subsection \<open>What the operations do\<close>

definition add_effect :: "int \<Rightarrow> int \<Rightarrow> tables \<Rightarrow> tables" where
  "add_effect a b t = insert_friend b a (insert_friend a b t)"

definition resolve_effect :: "int \<Rightarrow> int \<Rightarrow> int \<Rightarrow> bool \<Rightarrow> tables \<Rightarrow> tables option" where
  "resolve_effect now requesterId targetId accept t =
     (if changes (waiting requesterId targetId) (freqs t) \<noteq> 1 then None
      else let rs = upd_where (waiting requesterId targetId)
                      (set_status (if accept then 1 else 2) now) (freqs t)
           in Some (if accept
                    then (add_effect requesterId targetId t)\<lparr>freqs :=
                      upd_where (waiting targetId requesterId) (set_status 1 now) rs\<rparr>
                    else t\<lparr>freqs := rs\<rparr>))"

definition remove_effect :: "int \<Rightarrow> int \<Rightarrow> tables \<Rightarrow> tables option" where
  "remove_effect a b t =
     (if a \<le> 0 \<or> b \<le> 0 \<or> a = b then None
      else Some (t\<lparr>friends := delete_friends a b (friends t)\<rparr>))"

lemma insert_friend_other [simp]:
  "freqs (insert_friend a b t) = freqs t" "messages (insert_friend a b t) = messages t"
  "msg_ctr (insert_friend a b t) = msg_ctr t" "auths (insert_friend a b t) = auths t"
  "hist (insert_friend a b t) = hist t"
  by (simp_all add: insert_friend_def)

lemma insert_friend_freqs:
  "insert_friend a b (t\<lparr>freqs := rs\<rparr>) = (insert_friend a b t)\<lparr>freqs := rs\<rparr>"
  by (simp add: insert_friend_def)

lemma insert_pairs_two:
  "insert_pairs e p prep i [(a, b), (b, a)] c =
     (if prep i \<and> sql_ok e (Step p i) \<and> prep (i + 1) \<and> sql_ok e (Step p (i + 1))
      then Some (put_tables (add_effect a b (current c)) c) else None)"
  by (simp add: add_effect_def)

lemma addFriend_outcome:
  "addFriendBidirectional e a b c = (False, c) \<or>
   (txn c = None \<and> addFriendBidirectional e a b c = (True, c\<lparr>disk := add_effect a b (disk c)\<rparr>))"
proof (cases "sql_begin (sql_ok e (Begin OpAddFriend)) c")
  case (Some c1)
  then obtain d where c: "c = \<lparr>disk = d, txn = None\<rparr>" and c1: "c1 = \<lparr>disk = d, txn = Some d\<rparr>"
    by (rule sql_beginE)
  show ?thesis
    unfolding addFriendBidirectional_def insert_pairs_two Some
    by (cases "sql_ok e (Commit OpAddFriend)") (auto simp: c c1 txn_steps)
qed (simp add: addFriendBidirectional_def)

lemma addFriend_progress:
  "txn c = None \<Longrightarrow>
     addFriendBidirectional no_faults a b c = (True, c\<lparr>disk := add_effect a b (disk c)\<rparr>)"
  unfolding addFriendBidirectional_def insert_pairs_two sql_begin_def
  by (simp add: sql_commit_def put_tables_def)

interpretation add_friend: atomic_op "\<lambda>e. addFriendBidirectional e a b" "\<lambda>t. Some (add_effect a b t)"
  for a b
  using addFriend_outcome addFriend_progress by unfold_locales auto

lemma removeFriend_outcome:
  "removeFriendBidirectional e a b c = (False, c) \<or>
   (\<exists>t. txn c = None \<and> remove_effect a b (disk c) = Some t \<and>
      removeFriendBidirectional e a b c = (True, c\<lparr>disk := t\<rparr>))"
proof (cases "sql_begin (sql_ok e (Begin OpRemoveFriend)) c")
  case (Some c1)
  then obtain d where c: "c = \<lparr>disk = d, txn = None\<rparr>" and c1: "c1 = \<lparr>disk = d, txn = Some d\<rparr>"
    by (rule sql_beginE)
  show ?thesis
    unfolding removeFriendBidirectional_def Some remove_effect_def Let_def
    by (cases "sql_ok e (Commit OpRemoveFriend)") (auto simp: c c1 txn_steps)
qed (simp add: removeFriendBidirectional_def)

lemma removeFriend_progress:
  "txn c = None \<Longrightarrow> remove_effect a b (disk c) = Some t \<Longrightarrow>
     removeFriendBidirectional no_faults a b c = (True, c\<lparr>disk := t\<rparr>)"
  unfolding removeFriendBidirectional_def remove_effect_def sql_begin_def
  by (auto simp: sql_commit_def put_tables_def split: if_splits)

interpretation remove_friend: atomic_op "\<lambda>e. removeFriendBidirectional e a b" "remove_effect a b"
  for a b
  by unfold_locales (rule removeFriend_outcome, rule removeFriend_progress)

lemma accept_rows_eq:
  "accept_rows e now a b c =
     (if sql_ok e (Prepare OpResolve 1) \<and> sql_ok e (Step OpResolve 1) \<and>
         sql_ok e (Step OpResolve 2) \<and> sql_ok e (Prepare OpResolve 2) \<and> sql_ok e (Step OpResolve 3)
      then Some (put_tables ((add_effect a b (current c))\<lparr>freqs :=
             upd_where (waiting b a) (set_status 1 now) (freqs (current c))\<rparr>) c)
      else None)"
  unfolding accept_rows_def insert_pairs_two
  by (auto simp: add_effect_def numeral_2_eq_2)

lemma resolve_outcome:
  "resolveFriendRequest e now a b accept c = (False, c) \<or>
   (\<exists>t. txn c = None \<and> resolve_effect now a b accept (disk c) = Some t \<and>
      resolveFriendRequest e now a b accept c = (True, c\<lparr>disk := t\<rparr>))"
proof (cases "sql_begin (sql_ok e (Begin OpResolve)) c")
  case (Some c1)
  then obtain d where c: "c = \<lparr>disk = d, txn = None\<rparr>" and c1: "c1 = \<lparr>disk = d, txn = Some d\<rparr>"
    by (rule sql_beginE)
  show ?thesis
    unfolding resolveFriendRequest_def Some accept_rows_eq resolve_effect_def Let_def
    by (cases "sql_ok e (Commit OpResolve)"; cases accept)
      (auto simp: c c1 txn_steps insert_friend_freqs add_effect_def)
qed (simp add: resolveFriendRequest_def)

lemma resolve_progress:
  "txn c = None \<Longrightarrow> resolve_effect now a b accept (disk c) = Some t \<Longrightarrow>
     resolveFriendRequest no_faults now a b accept c = (True, c\<lparr>disk := t\<rparr>)"
  unfolding resolveFriendRequest_def resolve_effect_def sql_begin_def accept_rows_eq
  by (cases accept)
    (auto simp: sql_commit_def put_tables_def Let_def insert_friend_freqs add_effect_def
      split: if_splits)

interpretation resolve: atomic_op "\<lambda>e. resolveFriendRequest e now a b accept"
    "resolve_effect now a b accept"
  for now a b accept
  by unfold_locales (rule resolve_outcome, rule resolve_progress)

subsection \<open>The friend relation\<close>

definition mutual :: "(int \<times> int) list \<Rightarrow> bool" where
  "mutual fs \<longleftrightarrow> (\<forall>p \<in> set fs. (snd p, fst p) \<in> set fs)"

definition friends_ok :: "tables \<Rightarrow> bool" where
  "friends_ok t \<longleftrightarrow> distinct (friends t) \<and> mutual (friends t) \<and>
     distinct (map (\<lambda>r. (r_requester r, r_target r)) (freqs t))"

lemma friends_ok_empty [simp]: "friends_ok empty_tables"
  by (simp add: friends_ok_def mutual_def empty_tables_def)

lemma mutualD: "mutual fs \<Longrightarrow> p \<in> set fs \<Longrightarrow> (snd p, fst p) \<in> set fs"
  by (simp add: mutual_def)

lemma mutual_sym:
  assumes "mutual fs"
  shows "(a, b) \<in> set fs \<longleftrightarrow> (b, a) \<in> set fs"
  using mutualD [OF assms, of "(a, b)"] mutualD [OF assms, of "(b, a)"] by (metis fst_conv snd_conv)

lemma mutual_add:
  assumes "mutual fs" and "set fs' = {(a, b), (b, a)} \<union> set fs"
  shows "mutual fs'"
  unfolding mutual_def
proof
  fix p assume "p \<in> set fs'"
  then have "p = (a, b) \<or> p = (b, a) \<or> p \<in> set fs" using assms(2) by simp
  then show "(snd p, fst p) \<in> set fs'"
    using assms(2) mutualD [OF assms(1)] by (elim disjE) simp_all
qed

lemma mutual_delete:
  assumes "mutual fs"
  shows "mutual (delete_friends a b fs)"
  unfolding mutual_def
proof
  fix p assume p: "p \<in> set (delete_friends a b fs)"
  obtain u v where uv: "p = (u, v)" by (cases p)
  with p mutualD [OF assms, of p] show "(snd p, fst p) \<in> set (delete_friends a b fs)"
    by (simp add: delete_friends_def) blast
qed

lemma friends_ok_sym: "friends_ok t \<Longrightarrow> (a, b) \<in> set (friends t) \<longleftrightarrow> (b, a) \<in> set (friends t)"
  unfolding friends_ok_def by (rule mutual_sym) simp

lemma set_insert_friend: "set (friends (insert_friend a b t)) = insert (a, b) (set (friends t))"
  unfolding insert_friend_def by (cases "(a, b) \<in> set (friends t)") (simp_all add: insert_absorb)

lemma distinct_insert_friend: "distinct (friends t) \<Longrightarrow> distinct (friends (insert_friend a b t))"
  unfolding insert_friend_def by (cases "(a, b) \<in> set (friends t)") simp_all

lemma set_add_effect: "set (friends (add_effect a b t)) = {(a, b), (b, a)} \<union> set (friends t)"
  by (simp add: add_effect_def set_insert_friend insert_commute)

lemma add_effect_freqs [simp]: "freqs (add_effect a b t) = freqs t"
  by (simp add: add_effect_def)

lemma distinct_add_effect: "distinct (friends t) \<Longrightarrow> distinct (friends (add_effect a b t))"
  by (simp add: add_effect_def distinct_insert_friend)

lemma friends_ok_add: "friends_ok t \<Longrightarrow> friends_ok (add_effect a b t)"
  using distinct_add_effect [of t a b] mutual_add [OF _ set_add_effect, of t a b]
  by (simp add: friends_ok_def)

lemma set_status_same [simp]:
  "r_requester (set_status st now r) = r_requester r" "r_target (set_status st now r) = r_target r"
  "r_status (set_status st now r) = st" "r_created (set_status st now r) = r_created r"
  by (simp_all add: set_status_def)

lemma friends_ok_freqs:
  assumes "friends_ok t"
    and "map (\<lambda>r. (r_requester r, r_target r)) rs = map (\<lambda>r. (r_requester r, r_target r)) (freqs t)"
  shows "friends_ok (t\<lparr>freqs := rs\<rparr>)"
  using assms by (simp add: friends_ok_def)

lemma friends_ok_remove: "friends_ok t \<Longrightarrow> friends_ok (t\<lparr>friends := delete_friends a b (friends t)\<rparr>)"
  by (simp add: friends_ok_def mutual_delete) (simp add: delete_friends_def)

lemma friends_ok_resolve:
  assumes "friends_ok t" and "resolve_effect now a b accept t = Some t'"
  shows "friends_ok t'"
proof -
  have keys: "map (\<lambda>r. (r_requester r, r_target r)) (upd_where p (set_status st now) rs) =
      map (\<lambda>r. (r_requester r, r_target r)) rs" for p st rs
    by (rule map_upd_where_same) simp
  have "friends_ok (add_effect a b t)" using assms(1) by (rule friends_ok_add)
  with assms show ?thesis
    by (auto simp: resolve_effect_def Let_def keys intro!: friends_ok_freqs split: if_splits)
qed

lemma friends_ok_upsert:
  assumes "friends_ok t"
  shows "friends_ok (t\<lparr>freqs := upsert_request a b now (freqs t)\<rparr>)"
  using assms unfolding friends_ok_def upsert_request_def Let_def
  by (auto simp: map_upd_where_same)

lemma not_waiting_set [simp]: "st \<noteq> 0 \<Longrightarrow> \<not> waiting a b (set_status st now r)"
  by (simp add: waiting_def)

lemma not_waiting_upd:
  "st \<noteq> 0 \<Longrightarrow> \<forall>r \<in> set (upd_where (waiting a b) (set_status st now) rs). \<not> waiting a b r"
  unfolding upd_where_def by (auto split: if_splits)

lemma not_waiting_upd_other:
  "st \<noteq> 0 \<Longrightarrow> \<forall>r \<in> set rs. \<not> waiting a b r \<Longrightarrow>
     \<forall>r \<in> set (upd_where p (set_status st now) rs). \<not> waiting a b r"
  unfolding upd_where_def by (auto split: if_splits)

lemma waiting_unique:
  assumes "friends_ok t"
  shows "changes (waiting a b) (freqs t) = 1 \<longleftrightarrow> (\<exists>r \<in> set (freqs t). waiting a b r)"
proof -
  have d: "distinct (map (\<lambda>r. (r_requester r, r_target r)) (freqs t))"
    using assms by (simp add: friends_ok_def)
  have "changes (waiting a b) rs = 1 \<longleftrightarrow> (\<exists>r \<in> set rs. waiting a b r)"
    if "distinct (map (\<lambda>r. (r_requester r, r_target r)) rs)" for rs
    using that
  proof (induction rs)
    case (Cons r rs)
    show ?case
    proof (cases "waiting a b r")
      case True
      then have "\<forall>q \<in> set rs. \<not> waiting a b q"
        using Cons.prems by (auto simp: waiting_def image_iff)
      then show ?thesis using True changes_0 [of "waiting a b" rs] by (simp add: changes_def)
    next
      case False
      then show ?thesis using Cons by (simp add: changes_def)
    qed
  qed (simp add: changes_def)
  with d show ?thesis by blast
qed

lemma createFriendRequest_ok:
  assumes "conn_inv friends_ok c"
  shows "conn_inv friends_ok (snd (createFriendRequest e now a b c))"
  using assms friends_ok_upsert [OF conn_inv_current [OF assms]]
  by (auto simp: createFriendRequest_def intro: conn_inv_put)

lemma resolveFriendRequest_ok:
  "conn_inv friends_ok c \<Longrightarrow> conn_inv friends_ok (snd (resolveFriendRequest e now a b accept c))"
  by (rule resolve.invariant) (auto intro: friends_ok_resolve)

lemma addFriendBidirectional_ok:
  "conn_inv friends_ok c \<Longrightarrow> conn_inv friends_ok (snd (addFriendBidirectional e a b c))"
  by (rule add_friend.invariant) (auto intro: friends_ok_add)

lemma removeFriendBidirectional_ok:
  "conn_inv friends_ok c \<Longrightarrow> conn_inv friends_ok (snd (removeFriendBidirectional e a b c))"
  by (rule remove_friend.invariant)
    (auto simp: remove_effect_def intro: friends_ok_remove split: if_splits)



lemma resolve_result:
  assumes "resolveFriendRequest e now a b accept c = (ok, c')"
  shows "if ok
         then (\<exists>r \<in> set (freqs (disk c)). waiting a b r) \<and>
              (\<forall>r \<in> set (freqs (disk c')). \<not> waiting a b r \<and> (accept \<longrightarrow> \<not> waiting b a r)) \<and>
              (if accept
               then set (friends (disk c')) = {(a, b), (b, a)} \<union> set (friends (disk c))
               else friends (disk c') = friends (disk c)) \<and>
              users (disk c') = users (disk c) \<and> messages (disk c') = messages (disk c)
         else c' = c"
proof (cases ok)
  case True
  with assms have "resolve_effect now a b accept (disk c) = Some (disk c')"
    using resolve.True_effect [of e now a b accept c c'] by simp
  then have ch: "changes (waiting a b) (freqs (disk c)) = 1"
    and c': "disk c' = (let rs = upd_where (waiting a b)
                      (set_status (if accept then 1 else 2) now) (freqs (disk c))
           in if accept
              then (add_effect a b (disk c))\<lparr>freqs :=
                      upd_where (waiting b a) (set_status 1 now) rs\<rparr>
              else (disk c)\<lparr>freqs := rs\<rparr>)"
    by (auto simp: resolve_effect_def Let_def split: if_splits)
  have "\<exists>r \<in> set (freqs (disk c)). waiting a b r"
    using ch changes_0 [of "waiting a b" "freqs (disk c)"] by auto
  moreover have "\<forall>r \<in> set (freqs (disk c')). \<not> waiting a b r \<and> (accept \<longrightarrow> \<not> waiting b a r)"
    using not_waiting_upd [of "if accept then 1 else 2" a b now "freqs (disk c)"]
      not_waiting_upd_other [OF _ not_waiting_upd [of 1 a b now "freqs (disk c)"], of 1 "waiting b a" now]
      not_waiting_upd [of 1 b a now "upd_where (waiting a b) (set_status 1 now) (freqs (disk c))"]
    by (cases accept) (simp_all add: c' Let_def ball_conj_distrib)
  moreover have "if accept then set (friends (disk c')) = {(a, b), (b, a)} \<union> set (friends (disk c))
      else friends (disk c') = friends (disk c)"
    using set_add_effect [of a b "disk c"] by (cases accept) (simp_all add: c' Let_def)
  moreover have "users (disk c') = users (disk c) \<and> messages (disk c') = messages (disk c)"
    by (simp add: c' Let_def add_effect_def)
  ultimately show ?thesis
    using True by presburger
next
  case False
  then show ?thesis using assms resolve.False_unchanged by auto
qed

text \<open>
  Resolving a request is all or nothing under every failure: it answers True only for a
  waiting request, then that request is no longer waiting, acceptance has made the two friends in
  both directions and closed a crossing request, rejection has left the friend table alone; when
  it answers False nothing has changed.
\<close>

theorem resolve_all_or_nothing:
  assumes "resolveFriendRequest e now a b accept c = (ok, c')"
  shows "if ok
         then (\<exists>r \<in> set (freqs (disk c)). waiting a b r) \<and>
              (\<forall>r \<in> set (freqs (disk c')). \<not> waiting a b r \<and> (accept \<longrightarrow> \<not> waiting b a r)) \<and>
              (if accept
               then set (friends (disk c')) = {(a, b), (b, a)} \<union> set (friends (disk c))
               else friends (disk c') = friends (disk c)) \<and>
              users (disk c') = users (disk c) \<and> messages (disk c') = messages (disk c)
         else c' = c"
  by (rule resolve_result [OF assms])

theorem resolve_all_or_nothing_witness:
  "set (friends (disk (snd (resolveFriendRequest no_faults 5 1 2 True
     \<lparr>disk = empty_tables\<lparr>freqs := [\<lparr>r_requester = 1, r_target = 2, r_status = 0, r_created = 4,
        r_updated = 4\<rparr>]\<rparr>, txn = None\<rparr>)))) = {(1, 2), (2, 1)}"
proof -
  let ?c = "\<lparr>disk = empty_tables\<lparr>freqs := [\<lparr>r_requester = 1, r_target = 2, r_status = 0, r_created = 4,
        r_updated = 4\<rparr>]\<rparr>, txn = None\<rparr>"
  have "fst (resolveFriendRequest no_faults 5 1 2 True ?c)"
    by (simp add: resolve.faultless resolve_effect_def changes_def waiting_def Let_def)
  then show ?thesis
    using resolve_all_or_nothing [OF prod.collapse [symmetric], of no_faults 5 1 2 True ?c]
    by (simp add: empty_tables_def)
qed

lemma upsert_waiting: "\<exists>r \<in> set (upsert_request a b now rs). waiting a b r"
proof (cases "\<exists>r \<in> set rs. r_requester r = a \<and> r_target r = b")
  case True
  then obtain r where "r \<in> set rs" "r_requester r = a" "r_target r = b" by blast
  with True show ?thesis
    by (intro bexI [of _ "r\<lparr>r_status := 0, r_created := now, r_updated := now\<rparr>"])
      (auto simp: upsert_request_def upd_where_def waiting_def)
qed (auto simp: upsert_request_def waiting_def Let_def)

lemma isFriend_iff [simp]: "isFriend no_faults a b c \<longleftrightarrow> (a, b) \<in> set (friends (disk c))"
  by (simp add: isFriend_def find_None_conv)

lemma resolve_succeeds:
  assumes "friends_ok (disk c)" and "txn c = None" and "\<exists>r \<in> set (freqs (disk c)). waiting a b r"
  shows "fst (resolveFriendRequest no_faults now a b accept c)"
  using assms waiting_unique [OF assms(1), of a b] resolve.faultless [OF assms(2), of now a b accept]
  by (auto simp: resolve_effect_def Let_def split: if_splits)

text \<open>
  Without faults a request can be accepted exactly once: asking, accepting and accepting
  again answers True, True, False, and in between the two users have become friends of each
  other.
\<close>

theorem request_accepted_once:
  assumes inv: "conn_inv friends_ok c" and "txn c = None" and ids: "0 < a" "0 < b" "a \<noteq> b"
    and c1: "(ok1, c1) = createFriendRequest no_faults now1 a b c"
    and c2: "(ok2, c2) = resolveFriendRequest no_faults now2 a b True c1"
    and c3: "(ok3, c3) = resolveFriendRequest no_faults now3 a b accept c2"
  shows "ok1 \<and> ok2 \<and> \<not> ok3 \<and> c3 = c2 \<and> isFriend no_faults a b c2 \<and> isFriend no_faults b a c2"
proof -
  have ok1: ok1 and d1: "freqs (disk c1) = upsert_request a b now1 (freqs (disk c))"
    and t1: "txn c1 = None"
    using c1 assms(2) ids by (simp_all add: createFriendRequest_def)
  have "conn_inv friends_ok c1"
    using createFriendRequest_ok [OF inv, of no_faults now1 a b] c1 by (metis snd_conv)
  then have f1: "friends_ok (disk c1)" by (rule conn_inv_disk)
  have ok2: ok2
    using resolve_succeeds [OF f1 t1, of a b now2 True] upsert_waiting c2 d1 by (metis fst_conv)
  have t2: "txn c2 = None"
    using resolve.txn_same [of no_faults now2 a b True c1] c2 t1 by (metis snd_conv)
  have closed: "\<forall>r \<in> set (freqs (disk c2)). \<not> waiting a b r"
      "set (friends (disk c2)) = {(a, b), (b, a)} \<union> set (friends (disk c1))"
    using resolve_result [OF c2 [symmetric]] ok2 by auto
  from closed have "resolve_effect now3 a b accept (disk c2) = None"
    using changes_0 [of "waiting a b" "freqs (disk c2)"] by (simp add: resolve_effect_def)
  then have "ok3 = False \<and> c3 = c2"
    using resolve.no_effect c3 by (metis Pair_inject)
  with ok1 ok2 closed show ?thesis by simp
qed

theorem request_accepted_once_witness:
  "isFriend no_faults 2 1 (snd (resolveFriendRequest no_faults 11 1 2 True
     (snd (createFriendRequest no_faults 10 1 2 \<lparr>disk = empty_tables, txn = None\<rparr>))))"
  using request_accepted_once [OF _ _ _ _ _ prod.collapse prod.collapse prod.collapse,
      of "\<lparr>disk = empty_tables, txn = None\<rparr>" 1 2 10 11]
  by (simp add: conn_inv_def)

text \<open>
  A deletion of a friend that answers True has removed both directions of that friendship and
  nothing else; one that answers False has changed nothing.
\<close>

theorem remove_friend_exact:
  assumes "removeFriendBidirectional e a b c = (ok, c')"
  shows "if ok
         then (\<forall>p. p \<in> set (friends (disk c')) \<longleftrightarrow>
                 p \<in> set (friends (disk c)) \<and> p \<noteq> (a, b) \<and> p \<noteq> (b, a)) \<and>
              freqs (disk c') = freqs (disk c) \<and> users (disk c') = users (disk c)
         else c' = c"
proof (cases ok)
  case True
  with assms have "remove_effect a b (disk c) = Some (disk c')"
    using remove_friend.True_effect [of e a b c c'] by simp
  then have "(disk c)\<lparr>friends := delete_friends a b (friends (disk c))\<rparr> = disk c'"
    by (simp add: remove_effect_def split: if_splits)
  from this [symmetric] True show ?thesis by (auto simp: delete_friends_def)
next
  case False
  then show ?thesis using assms remove_friend.False_unchanged [of e a b c c'] by simp
qed

theorem remove_friend_exact_witness:
  "friends (disk (snd (removeFriendBidirectional no_faults 1 2
     \<lparr>disk = empty_tables\<lparr>friends := [(1, 2), (2, 1), (1, 3)]\<rparr>, txn = None\<rparr>))) = [(1, 3)]"
proof -
  let ?c = "\<lparr>disk = empty_tables\<lparr>friends := [(1, 2), (2, 1), (1, 3)]\<rparr>, txn = None\<rparr>"
  have "fst (removeFriendBidirectional no_faults 1 2 ?c) \<and> ?thesis"
    using remove_friend_exact [OF prod.collapse [symmetric], of no_faults 1 2 ?c]
    by (simp add: remove_friend.faultless remove_effect_def delete_friends_def)
  then show ?thesis ..
qed

end
