(* ===== verification/DbMessages.thy ===== *)
theory DbMessages
  imports DbFriends "HOL-Library.Multiset"
begin

text \<open>
  The message store of \<open>Database.cpp\<close>: saving with an idempotence key and a sequence number per
  conversation, offline pull and its confirmation, roaming reads, and the migration of
  conversation ids. The lemmas show that the numbers of a conversation are 1, 2, ..., n without a
  gap under every failure, and what each read returns.
\<close>

subsection \<open>Saving\<close>

text \<open>What the bindings of the \<open>INSERT\<close> store of a message.\<close>

definition stored_form :: "StoredMessage \<Rightarrow> StoredMessage" where
  "stored_form m = m\<lparr>msgId := cstr (msgId m), content := cstr (content m),
     mediaPath := cstr (mediaPath m), fileId := cstr (fileId m),
     contentType := cstr (contentType m), sha256 := cstr (sha256 m)\<rparr>"

definition conv_rows :: "int \<Rightarrow> tables \<Rightarrow> msg_row list" where
  "conv_rows conv t = filter (\<lambda>r. conversation_id r = conv) (messages t)"

definition conv_seqs :: "int \<Rightarrow> tables \<Rightarrow> int list" where
  "conv_seqs conv t = map (\<lambda>r. mseq (row_msg r)) (conv_rows conv t)"

text \<open>\<open>SELECT COALESCE(MAX(seq),0)+1\<close>.\<close>

definition next_seq :: "int \<Rightarrow> tables \<Rightarrow> int" where
  "next_seq conv t = (case conv_seqs conv t of [] \<Rightarrow> 0 | s # ss \<Rightarrow> fold max ss s) + 1"

text \<open>
  \<open>saveMessage\<close> answers, leaves the sequence number in its argument, and changes the
  connection. The result of the \<open>COMMIT\<close> after the idempotence read is ignored.
\<close>

definition saveMessage ::
  "sqlenv \<Rightarrow> StoredMessage \<Rightarrow> bool \<Rightarrow> dbconn \<Rightarrow> bool \<times> StoredMessage \<times> dbconn" where
  "saveMessage e m delivered c =
     (case sql_begin (sql_ok e (Begin OpSave)) c of
        None \<Rightarrow> (False, m, c)
      | Some c1 \<Rightarrow>
          let convId = makeConversationId (senderId m) (receiverId m) in
          if \<not> sql_ok e (Prepare OpSave 0) then (False, m, sql_rollback c1)
          else case (if sql_ok e (Step OpSave 0)
                     then find (\<lambda>r. msgId (row_msg r) = cstr (msgId m)) (messages (current c1))
                     else None) of
            Some r \<Rightarrow> (True, m\<lparr>mseq := mseq (row_msg r)\<rparr>,
                         snd (sql_commit (sql_ok e (Commit OpSave)) c1))
          | None \<Rightarrow>
              if \<not> sql_ok e (Prepare OpSave 1) then (False, m, sql_rollback c1)
              else
                let nextSeq = (if sql_ok e (Step OpSave 1) then next_seq convId (current c1) else 1);
                    m' = m\<lparr>mseq := nextSeq\<rparr> in
                if \<not> sql_ok e (Prepare OpSave 2) then (False, m', sql_rollback c1)
                else case (if sql_ok e (Step OpSave 2)
                           then insert_message convId delivered (stored_form m') (current c1)
                           else None) of
                  None \<Rightarrow> (False, m', sql_rollback c1)
                | Some t \<Rightarrow>
                    let (ok, c2) = sql_commit (sql_ok e (Commit OpSave)) (put_tables t c1)
                    in if ok then (True, m', c2) else (False, m', sql_rollback c2))"

subsection \<open>Offline delivery\<close>

text \<open>\<open>ORDER BY ts ASC, id ASC\<close>: a stable sort by the second key, then by the first.\<close>

definition pullUndelivered :: "sqlenv \<Rightarrow> int \<Rightarrow> dbconn \<Rightarrow> StoredMessage list" where
  "pullUndelivered e receiver c =
     map row_msg (read_rows e OpPull
       (sort_key (\<lambda>r. mts (row_msg r)) (sort_key row_id
          (filter (\<lambda>r. receiverId (row_msg r) = receiver \<and> \<not> is_delivered r)
             (messages (disk c))))))"

definition mark_row :: "msg_row \<Rightarrow> msg_row" where
  "mark_row r = r\<lparr>is_delivered := True\<rparr>"

fun mark_ids :: "sqlenv \<Rightarrow> nat \<Rightarrow> string list \<Rightarrow> msg_row list \<Rightarrow> msg_row list" where
  "mark_ids e i [] rs = rs"
| "mark_ids e i (k # ks) rs =
     mark_ids e (i + 1) ks
       (if sql_ok e (Step OpMark i) then upd_where (\<lambda>r. msgId (row_msg r) = cstr k) mark_row rs
        else rs)"

definition markDelivered :: "sqlenv \<Rightarrow> string list \<Rightarrow> dbconn \<Rightarrow> dbconn" where
  "markDelivered e msgIds c =
     (if msgIds = [] then c
      else if \<not> sql_ok e (Prepare OpMark 0) then c
      else put_tables ((current c)\<lparr>messages := mark_ids e 0 msgIds (messages (current c))\<rparr>) c)"

subsection \<open>Roaming\<close>

definition involves :: "int \<Rightarrow> msg_row \<Rightarrow> bool" where
  "involves userId r \<longleftrightarrow> senderId (row_msg r) = userId \<or> receiverId (row_msg r) = userId"

text \<open>The rows with the largest id of a conversation among the user's rows of it.\<close>

definition last_rows :: "int \<Rightarrow> tables \<Rightarrow> msg_row list" where
  "last_rows userId t =
     filter (\<lambda>r. involves userId r \<and>
        (\<forall>q \<in> set (messages t). involves userId q \<and> conversation_id q = conversation_id r \<longrightarrow>
           row_id q \<le> row_id r))
       (messages t)"

definition roamConversations :: "sqlenv \<Rightarrow> int \<Rightarrow> dbconn \<Rightarrow> StoredMessage list" where
  "roamConversations e userId c =
     map row_msg (read_rows e OpRoamConv
       (sort_key (\<lambda>r. - mts (row_msg r)) (last_rows userId (disk c))))"

text \<open>\<open>LIMIT\<close> with a negative bound is no limit.\<close>

definition sql_limit :: "int \<Rightarrow> 'r list \<Rightarrow> 'r list" where
  "sql_limit n rows = (if n < 0 then rows else take (nat n) rows)"

definition roamMessages ::
  "sqlenv \<Rightarrow> int \<Rightarrow> int \<Rightarrow> int \<Rightarrow> int \<Rightarrow> dbconn \<Rightarrow> StoredMessage list" where
  "roamMessages e userId peerId beforeSeq limit c =
     map row_msg (read_rows e OpRoamMsg
       (sql_limit limit
         (sort_key (\<lambda>r. - mseq (row_msg r))
           (filter (\<lambda>r. mseq (row_msg r) < beforeSeq)
              (conv_rows (makeConversationId userId peerId) (disk c))))))"

definition getMessageByMsgId :: "sqlenv \<Rightarrow> string \<Rightarrow> dbconn \<Rightarrow> StoredMessage option" where
  "getMessageByMsgId e k c =
     map_option row_msg
       (read_row e OpByMsgId (\<lambda>r. msgId (row_msg r) = cstr k) (messages (disk c)))"

definition getMessageByFileId :: "sqlenv \<Rightarrow> string \<Rightarrow> dbconn \<Rightarrow> StoredMessage option" where
  "getMessageByFileId e k c =
     map_option row_msg
       (read_row e OpByFileId (\<lambda>r. fileId (row_msg r) = cstr k) (messages (disk c)))"

subsection \<open>Migration of the conversation ids\<close>

text \<open>The two \<open>CASE\<close> expressions of the migration.\<close>

definition migrated_id :: "int \<Rightarrow> int \<Rightarrow> int" where
  "migrated_id s r = (if s < r then s else r) * 4294967296 + (if s < r then r else s)"

definition migrate_row :: "msg_row \<Rightarrow> msg_row" where
  "migrate_row r =
     r\<lparr>conversation_id := migrated_id (senderId (row_msg r)) (receiverId (row_msg r))\<rparr>"

text \<open>The unique index over conversation and sequence number makes the update fail as a whole.\<close>

definition migrate_rows :: "msg_row list \<Rightarrow> msg_row list option" where
  "migrate_rows rs =
     (let rs' = map migrate_row rs
      in if distinct (map (\<lambda>r. (conversation_id r, mseq (row_msg r))) rs') then Some rs' else None)"

definition migrateConversationIds :: "sqlenv \<Rightarrow> dbconn \<Rightarrow> bool \<times> dbconn" where
  "migrateConversationIds e c =
     (case sql_begin (sql_ok e (Begin OpMigrate)) c of
        None \<Rightarrow> (False, c)
      | Some c1 \<Rightarrow>
          (case (if sql_ok e (Step OpMigrate 0) then migrate_rows (messages (current c1)) else None) of
             None \<Rightarrow> (False, sql_rollback c1)
           | Some rs \<Rightarrow>
               if \<not> sql_ok e (Step OpMigrate 1) then (False, sql_rollback c1)
               else
                 let c2 = put_tables ((current c1)\<lparr>messages := rs, user_version := 1\<rparr>) c1;
                     (ok, c3) = sql_commit (sql_ok e (Commit OpMigrate)) c2
                 in if ok then (True, c3) else (False, sql_rollback c3)))"

definition readDatabaseVersion :: "sqlenv \<Rightarrow> dbconn \<Rightarrow> int" where
  "readDatabaseVersion e c =
     (if sql_ok e (Prepare OpVersion 0) \<and> sql_ok e (Step OpVersion 0)
      then user_version (current c) else -1)"

text \<open>The last part of \<open>Database::open\<close>, after the schema exists.\<close>

definition open_version :: "sqlenv \<Rightarrow> dbconn \<Rightarrow> bool \<times> dbconn" where
  "open_version e c =
     (let databaseVersion = readDatabaseVersion e c in
      if databaseVersion < 0 then (False, c)
      else if databaseVersion < 1 then migrateConversationIds e c
      else (True, c))"

subsection \<open>Conversation ids\<close>

lemma pack_words:
  assumes "0 \<le> lo" "lo < 2 ^ 31" "0 \<le> hi" "hi < 2 ^ 32"
  shows "sint (push_bit 32 (ucast (word_of_int lo :: 32 word) :: 64 word) OR
               ucast (word_of_int hi :: 32 word)) = lo * 2 ^ 32 + hi"
proof -
  let ?w = "push_bit 32 (ucast (word_of_int lo :: 32 word) :: 64 word) OR
               ucast (word_of_int hi :: 32 word)"
  have lo: "uint (ucast (word_of_int lo :: 32 word) :: 64 word) = lo"
    and hi: "uint (ucast (word_of_int hi :: 32 word) :: 64 word) = hi"
    using assms by (simp_all add: unsigned_ucast_eq uint_word_of_int_eq take_bit_int_eq_self)
  have small: "lo * 2 ^ 32 < 2 ^ 63" using assms by simp
  have "uint (push_bit 32 (ucast (word_of_int lo :: 32 word) :: 64 word)) = push_bit 32 lo"
    using assms by (simp only: unsigned_push_bit_eq lo) (simp add: push_bit_eq_mult take_bit_int_eq_self)
  then have "uint ?w = push_bit 32 lo OR hi" by (simp add: unsigned_or_eq hi)
  also have "\<dots> = concat_bit 32 hi lo"
    using assms by (simp add: concat_bit_def take_bit_int_eq_self or.commute)
  also have "\<dots> = lo * 2 ^ 32 + hi"
    using assms by (simp add: concat_bit_eq take_bit_int_eq_self push_bit_eq_mult)
  finally have u: "uint ?w = lo * 2 ^ 32 + hi" .
  moreover have "0 \<le> lo * 2 ^ 32 + hi" "lo * 2 ^ 32 + hi < 2 ^ 63" using assms by simp_all
  then have "signed_take_bit 63 (lo * 2 ^ 32 + hi) = lo * 2 ^ 32 + hi"
    by (intro signed_take_bit_int_eq_self) simp_all
  ultimately show ?thesis by (simp add: sint_uint)
qed

lemma conv_id_nonpos: "a \<le> 0 \<or> b \<le> 0 \<Longrightarrow> makeConversationId a b = 0"
  by (simp add: makeConversationId_def)

lemma conv_id_arith:
  assumes "0 < a" "a < 2 ^ 31" "0 < b" "b < 2 ^ 31"
  shows "makeConversationId a b = min a b * 2 ^ 32 + max a b"
proof (cases "a < b")
  case True
  then show ?thesis
    using assms pack_words [of a b] by (simp add: makeConversationId_def Let_def)
next
  case False
  then show ?thesis
    using assms pack_words [of b a] by (auto simp: makeConversationId_def Let_def)
qed

lemma conv_id_comm: "makeConversationId a b = makeConversationId b a"
proof (cases "a = b")
  case False
  then have "(if a < b then a else b) = (if b < a then b else a)"
    "(if b < a then a else b) = (if a < b then b else a)" by auto
  then show ?thesis by (simp add: makeConversationId_def Let_def disj_commute)
qed simp

lemma packed_inj:
  fixes lo lo' hi hi' :: int
  assumes eq: "lo * 2 ^ 32 + hi = lo' * 2 ^ 32 + hi'"
    and bounds: "0 \<le> hi" "hi < 2 ^ 32" "0 \<le> hi'" "hi' < 2 ^ 32"
  shows "lo = lo' \<and> hi = hi'"
proof -
  have "(lo * 2 ^ 32 + hi) mod 2 ^ 32 = hi" "(lo' * 2 ^ 32 + hi') mod 2 ^ 32 = hi'"
    using bounds by (simp_all add: mod_pos_pos_trivial)
  then have "hi = hi'" using eq by metis
  then show ?thesis using eq by simp
qed

text \<open>
  The conversation id of two user ids is the same from both sides, is the number the SQL
  migration computes, is a positive 64-bit integer, and two conversations share an id only when
  they are between the same two users.
\<close>

theorem conversation_id_correct:
  assumes "0 < a" "a < 2 ^ 31" "0 < b" "b < 2 ^ 31" "0 < c" "c < 2 ^ 31" "0 < d" "d < 2 ^ 31"
  shows "makeConversationId a b = makeConversationId b a \<and>
         makeConversationId a b = migrated_id a b \<and>
         0 < makeConversationId a b \<and> makeConversationId a b < 2 ^ 63 \<and>
         (makeConversationId a b = makeConversationId c d \<longleftrightarrow> {a, b} = {c, d})"
proof (intro conjI)
  show "makeConversationId a b = migrated_id a b"
    using assms by (simp add: conv_id_arith migrated_id_def min_def max_def)
  show "0 < makeConversationId a b" "makeConversationId a b < 2 ^ 63"
    using assms by (auto simp: conv_id_arith min_def max_def)
  have "min a b = min c d \<and> max a b = max c d" if "makeConversationId a b = makeConversationId c d"
    using that assms packed_inj [of "min a b" "max a b" "min c d" "max c d"]
    by (simp add: conv_id_arith)
  then show "makeConversationId a b = makeConversationId c d \<longleftrightarrow> {a, b} = {c, d}"
    using conv_id_comm by (auto simp: min_def max_def doubleton_eq_iff split: if_splits)
qed (rule conv_id_comm)

theorem conversation_id_correct_witness:
  "makeConversationId 7 3 = 3 * 4294967296 + 7 \<and> makeConversationId 7 3 \<noteq> makeConversationId 7 4"
  using conversation_id_correct [of 7 3 7 4] by (simp add: migrated_id_def doubleton_eq_iff)

subsection \<open>The message table\<close>

text \<open>The numbers of a conversation, in the order of the rows, are 1, 2, ..., n.\<close>

definition contiguous :: "int \<Rightarrow> tables \<Rightarrow> bool" where
  "contiguous conv t \<longleftrightarrow> conv_seqs conv t = [1..int (length (conv_rows conv t))]"

definition messages_ok :: "tables \<Rightarrow> bool" where
  "messages_ok t \<longleftrightarrow>
     distinct (map (\<lambda>r. msgId (row_msg r)) (messages t)) \<and>
     sorted_wrt (<) (map row_id (messages t)) \<and> (\<forall>r \<in> set (messages t). row_id r \<le> msg_ctr t) \<and>
     (\<forall>r \<in> set (messages t).
        conversation_id r = makeConversationId (senderId (row_msg r)) (receiverId (row_msg r)) \<and>
        contiguous (conversation_id r) t)"

lemma messages_ok_empty [simp]: "messages_ok empty_tables"
  by (simp add: messages_ok_def empty_tables_def)

lemma messages_okD:
  assumes "messages_ok t"
  shows "distinct (map (\<lambda>r. msgId (row_msg r)) (messages t))"
    and "sorted_wrt (<) (map row_id (messages t))"
    and "r \<in> set (messages t) \<Longrightarrow> row_id r \<le> msg_ctr t"
    and "r \<in> set (messages t) \<Longrightarrow>
      conversation_id r = makeConversationId (senderId (row_msg r)) (receiverId (row_msg r))"
  using assms by (simp_all add: messages_ok_def)

lemma length_conv_seqs [simp]: "length (conv_seqs conv t) = length (conv_rows conv t)"
  by (simp add: conv_seqs_def)

lemma contiguous_all:
  assumes "messages_ok t"
  shows "contiguous conv t"
proof (cases "conv_rows conv t")
  case Nil
  then show ?thesis by (simp add: contiguous_def conv_seqs_def)
next
  case (Cons r rs)
  then have "r \<in> set (messages t)" "conversation_id r = conv"
    unfolding conv_rows_def by (auto dest: filter_eq_ConsD)
  then show ?thesis using assms by (auto simp: messages_ok_def)
qed

lemma next_seq_contiguous:
  assumes "contiguous conv t"
  shows "next_seq conv t = int (length (conv_rows conv t)) + 1"
proof (cases "conv_seqs conv t")
  case Nil
  then have "length (conv_rows conv t) = 0" using length_conv_seqs [of conv t] by simp
  with Nil show ?thesis by (simp add: next_seq_def)
next
  case (Cons s ss)
  let ?n = "int (length (conv_rows conv t))"
  have "fold max ss s = Max (set (s # ss))" by (rule Max.set_eq_fold [symmetric])
  also have "\<dots> = Max {1..?n}" using assms Cons unfolding contiguous_def by (metis set_upto)
  also have "\<dots> = ?n"
    using Cons length_conv_seqs [of conv t] by (intro Max_eqI) auto
  finally show ?thesis using Cons by (simp add: next_seq_def)
qed

lemma insert_message_Some:
  "insert_message conv d m t = Some t' \<longleftrightarrow>
     (\<forall>r \<in> set (messages t). msgId (row_msg r) \<noteq> msgId m \<and>
        (conversation_id r = conv \<longrightarrow> mseq (row_msg r) \<noteq> mseq m)) \<and>
     t' = t\<lparr>messages := messages t @ [\<lparr>row_id = msg_ctr t + 1, conversation_id = conv,
             is_delivered = d, row_msg = m\<rparr>], msg_ctr := msg_ctr t + 1\<rparr>"
  by (auto simp: insert_message_def)

lemma conv_rows_append:
  "conv_rows conv (t\<lparr>messages := messages t @ [r], msg_ctr := k\<rparr>) =
     conv_rows conv t @ (if conversation_id r = conv then [r] else [])"
  by (simp add: conv_rows_def)

text \<open>A failed read of the maximum gives number 1, which the unique index accepts only when it is next.\<close>

lemma inserted_seq:
  assumes "contiguous conv t" and "insert_message conv d m t = Some t'"
    and "mseq m = next_seq conv t \<or> mseq m = 1"
  shows "mseq m = int (length (conv_rows conv t)) + 1"
proof (cases "conv_rows conv t = []")
  case True
  then show ?thesis using assms(3) next_seq_contiguous [OF assms(1)] by auto
next
  case False
  then have "1 \<in> set (conv_seqs conv t)"
    using assms(1) by (cases "conv_rows conv t") (simp_all add: contiguous_def)
  then obtain r where "r \<in> set (messages t)" "conversation_id r = conv" "mseq (row_msg r) = 1"
    by (auto simp: conv_seqs_def conv_rows_def)
  moreover have "\<forall>r \<in> set (messages t). conversation_id r = conv \<longrightarrow> mseq (row_msg r) \<noteq> mseq m"
    using insert_message_Some [THEN iffD1, OF assms(2)] by simp
  ultimately have "mseq m \<noteq> 1" by metis
  then show ?thesis using assms(3) next_seq_contiguous [OF assms(1)] by simp
qed

lemma insert_message_ok:
  assumes ok: "messages_ok t" and ins: "insert_message conv d m t = Some t'"
    and seq: "mseq m = next_seq conv t \<or> mseq m = 1"
    and conv: "conv = makeConversationId (senderId m) (receiverId m)"
  shows "messages_ok t'"
proof -
  let ?r = "\<lparr>row_id = msg_ctr t + 1, conversation_id = conv, is_delivered = d, row_msg = m\<rparr>"
  have t': "t' = t\<lparr>messages := messages t @ [?r], msg_ctr := msg_ctr t + 1\<rparr>"
    and fresh: "\<forall>r \<in> set (messages t). msgId (row_msg r) \<noteq> msgId m"
    using insert_message_Some [THEN iffD1, OF ins] by simp_all
  have cont: "contiguous k t'" for k
  proof (cases "k = conv")
    case True
    have "mseq m = int (length (conv_rows conv t)) + 1"
      using inserted_seq [OF contiguous_all [OF ok] ins seq] .
    then show ?thesis
      using True contiguous_all [OF ok, of conv]
      by (simp add: t' contiguous_def conv_seqs_def conv_rows_append upto_rec2)
  next
    case False
    then show ?thesis
      using contiguous_all [OF ok, of k]
      by (simp add: t' contiguous_def conv_seqs_def conv_rows_append)
  qed
  have ids: "row_id r < msg_ctr t + 1" if "r \<in> set (messages t)" for r
    using messages_okD(3) [OF ok that] by simp
  show ?thesis
    unfolding messages_ok_def
  proof (intro conjI ballI)
    show "distinct (map (\<lambda>r. msgId (row_msg r)) (messages t'))"
      using messages_okD(1) [OF ok] fresh by (simp add: t' image_iff) metis
    show "sorted_wrt (<) (map row_id (messages t'))"
      using messages_okD(2) [OF ok] ids by (simp add: t' sorted_wrt_append)
    fix r assume "r \<in> set (messages t')"
    then consider "r \<in> set (messages t)" | "r = ?r" by (auto simp: t')
    note r = this
    show "row_id r \<le> msg_ctr t'" using r by cases (use ids in \<open>fastforce simp: t'\<close>)+
    show "conversation_id r = makeConversationId (senderId (row_msg r)) (receiverId (row_msg r))"
      using r by cases (use messages_okD(4) [OF ok] conv in simp_all)
    show "contiguous (conversation_id r) t'" by (rule cont)
  qed
qed

lemma stored_form_same [simp]:
  "senderId (stored_form m) = senderId m" "receiverId (stored_form m) = receiverId m"
  "mseq (stored_form m) = mseq m" "mts (stored_form m) = mts m"
  "msgId (stored_form m) = cstr (msgId m)" "mtype (stored_form m) = mtype m"
  "content (stored_form m) = cstr (content m)" "fileId (stored_form m) = cstr (fileId m)"
  by (simp_all add: stored_form_def)

text \<open>The three ways a call of \<open>saveMessage\<close> can end.\<close>

lemma saveMessage_cases [consumes 1, case_names Failed Known Stored]:
  assumes "saveMessage e m d c = (ok, m', c')"
  obtains "\<not> ok" "c' = c"
  | r where "ok" "txn c = None" "r \<in> set (messages (disk c))"
      "msgId (row_msg r) = cstr (msgId m)" "m' = m\<lparr>mseq := mseq (row_msg r)\<rparr>"
      "disk c' = disk c" "txn c' = (if sql_ok e (Commit OpSave) then None else Some (disk c))"
  | t s where "ok" "txn c = None" "m' = m\<lparr>mseq := s\<rparr>"
      "insert_message (makeConversationId (senderId m) (receiverId m)) d (stored_form m') (disk c)
         = Some t"
      "s = next_seq (makeConversationId (senderId m) (receiverId m)) (disk c) \<or> s = 1"
      "c' = c\<lparr>disk := t\<rparr>"
proof (cases "sql_begin (sql_ok e (Begin OpSave)) c")
  case None
  then show ?thesis using assms that(1) by (simp add: saveMessage_def)
next
  case (Some c1)
  then obtain D where c: "c = \<lparr>disk = D, txn = None\<rparr>" and c1: "c1 = \<lparr>disk = D, txn = Some D\<rparr>"
    by (rule sql_beginE)
  show ?thesis
  proof (cases "if sql_ok e (Step OpSave 0)
                then find (\<lambda>r. msgId (row_msg r) = cstr (msgId m)) (messages D) else None")
    case r: (Some r)
    then have "r \<in> set (messages D)" "msgId (row_msg r) = cstr (msgId m)"
      by (auto dest: find_SomeD split: if_splits)
    then show ?thesis
      using assms that(1) that(2) [of r] r unfolding saveMessage_def Some Let_def
      by (cases "sql_ok e (Commit OpSave)") (auto simp: c c1 txn_steps split: if_splits)
  next
    case n: None
    show ?thesis
      using assms that(1) that(3) n unfolding saveMessage_def Some Let_def
      by (cases "sql_ok e (Commit OpSave)")
        (auto simp: c c1 txn_steps split: if_splits option.splits)
  qed
qed

subsection \<open>A sample file\<close>

text \<open>Two messages between users 1 and 2, the second not delivered yet; the witnesses use it.\<close>

definition sample_msg :: "string \<Rightarrow> int \<Rightarrow> int \<Rightarrow> StoredMessage" where
  "sample_msg k ts s = \<lparr>msgId = k, senderId = 1, receiverId = 2, mtype = 0, content = ''hi'',
     mediaPath = [], imgW = 0, imgH = 0, mts = ts, mseq = s, fileId = [], fileSize = 0,
     contentType = [], sha256 = []\<rparr>"

definition sample_conn :: dbconn where
  "sample_conn = \<lparr>disk = empty_tables\<lparr>messages :=
       [\<lparr>row_id = 1, conversation_id = makeConversationId 1 2, is_delivered = True,
         row_msg = sample_msg ''a'' 5 1\<rparr>,
        \<lparr>row_id = 2, conversation_id = makeConversationId 1 2, is_delivered = False,
         row_msg = sample_msg ''b'' 6 2\<rparr>], msg_ctr := 2\<rparr>, txn = None\<rparr>"

lemma sample_ok [simp]: "conn_inv messages_ok sample_conn"
  by (simp add: conn_inv_def messages_ok_def contiguous_def conv_seqs_def conv_rows_def
      sample_conn_def sample_msg_def upto_rec1)

lemma sample_ok_disk [simp]: "messages_ok (disk sample_conn)"
  using sample_ok by (rule conn_inv_disk)

lemma sample_txn [simp]: "txn sample_conn = None"
  by (simp add: sample_conn_def)

lemma sample_rows: "messages (disk sample_conn) =
    [\<lparr>row_id = 1, conversation_id = makeConversationId 1 2, is_delivered = True,
      row_msg = sample_msg ''a'' 5 1\<rparr>,
     \<lparr>row_id = 2, conversation_id = makeConversationId 1 2, is_delivered = False,
      row_msg = sample_msg ''b'' 6 2\<rparr>]"
  by (simp add: sample_conn_def)

lemma sample_cstr [simp]: "cstr ''a'' = ''a''" "cstr ''b'' = ''b''" "cstr ''k'' = ''k''"
  by (simp_all add: cstr_def)

lemma sample_save_new:
  obtains m c where "saveMessage no_faults (sample_msg ''k'' 7 0) False sample_conn = (True, m, c)"
    and "txn c = None" and "mseq m = 3"
proof -
  let ?s = "saveMessage no_faults (sample_msg ''k'' 7 0) False sample_conn"
  have "fst ?s" "txn (snd (snd ?s)) = None" "mseq (fst (snd ?s)) = 3"
    by (simp_all add: saveMessage_def sample_conn_def sample_msg_def sql_begin_def txn_steps Let_def
        insert_message_def stored_form_def next_seq_def conv_seqs_def conv_rows_def)
  moreover from this have "?s = (True, fst (snd ?s), snd (snd ?s))" by (simp add: prod_eq_iff)
  ultimately show ?thesis using that by blast
qed

lemma saveMessage_ok:
  assumes "conn_inv messages_ok c"
  shows "conn_inv messages_ok (snd (snd (saveMessage e m d c)))"
proof -
  obtain ok m' c' where s: "saveMessage e m d c = (ok, m', c')" by (rule prod_cases3)
  from s have "conn_inv messages_ok c'"
  proof (cases rule: saveMessage_cases)
    case (Known r)
    then show ?thesis using assms by (auto simp: conn_inv_def)
  next
    case (Stored t k)
    have "messages_ok t"
      by (rule insert_message_ok [OF conn_inv_disk [OF assms] Stored(4)]) (use Stored in simp_all)
    then show ?thesis using Stored by (simp add: conn_inv_def)
  qed (use assms in simp)
  then show ?thesis by (simp add: s)
qed

lemma mark_row_same [simp]:
  "row_msg (mark_row r) = row_msg r" "row_id (mark_row r) = row_id r"
  "conversation_id (mark_row r) = conversation_id r" "is_delivered (mark_row r)"
  by (simp_all add: mark_row_def)

text \<open>Marking changes nothing but the delivery flags.\<close>

lemma mark_ids_same:
  assumes "\<And>r. g (mark_row r) = g r"
  shows "map g (mark_ids e i ks rs) = map g rs"
  by (induction e i ks rs rule: mark_ids.induct) (simp_all add: map_upd_where_same assms)

lemma mark_ids_filter:
  assumes "\<And>r. q (mark_row r) = q r" and "\<And>r. g (mark_row r) = g r"
  shows "map g (filter q (mark_ids e i ks rs)) = map g (filter q rs)"
  by (induction e i ks rs rule: mark_ids.induct)
    (simp_all add: filter_upd_where_same map_upd_where_same assms)

lemma messages_ok_cong:
  assumes "messages_ok t"
    and "map (\<lambda>r. (row_id r, conversation_id r, row_msg r)) (messages t') =
         map (\<lambda>r. (row_id r, conversation_id r, row_msg r)) (messages t)"
    and "msg_ctr t' = msg_ctr t"
  shows "messages_ok t'"
proof -
  let ?k = "\<lambda>r. (row_id r, conversation_id r, row_msg r)"
  have m: "map (g \<circ> ?k) (messages t') = map (g \<circ> ?k) (messages t)" for g :: "_ \<Rightarrow> 'a"
    using arg_cong [OF assms(2), of "map g"] by simp
  have f: "conv_seqs conv t' = conv_seqs conv t" for conv
  proof -
    let ?s = "\<lambda>ks. map (\<lambda>k. mseq (snd (snd k))) (filter (\<lambda>k. fst (snd k) = conv) ks)"
    have key: "?s (map ?k rs) = map (\<lambda>r. mseq (row_msg r)) (filter (\<lambda>r. conversation_id r = conv) rs)"
      for rs by (simp add: filter_map o_def)
    have "conv_seqs conv u = ?s (map ?k (messages u))" for u
      unfolding conv_seqs_def conv_rows_def by (rule key [symmetric])
    then show ?thesis by (simp only: assms(2))
  qed
  have c: "contiguous conv t'" for conv
    using contiguous_all [OF assms(1), of conv] f [of conv] length_conv_seqs [of conv]
    unfolding contiguous_def by metis
  have e: "\<exists>r' \<in> set (messages t). ?k r' = ?k r" if "r \<in> set (messages t')" for r
  proof -
    have "?k ` set (messages t') = ?k ` set (messages t)"
      using arg_cong [OF assms(2), of set] unfolding set_map .
    then have "?k r \<in> ?k ` set (messages t)" using that by blast
    then show ?thesis by (simp add: image_iff) metis
  qed
  show ?thesis
    unfolding messages_ok_def
  proof (intro conjI ballI)
    have "map (\<lambda>r. msgId (row_msg r)) (messages t') = map (\<lambda>r. msgId (row_msg r)) (messages t)"
      using m [of "\<lambda>k. msgId (snd (snd k))"] by (simp add: o_def)
    then show "distinct (map (\<lambda>r. msgId (row_msg r)) (messages t'))"
      using messages_okD(1) [OF assms(1)] by metis
    have "map row_id (messages t') = map row_id (messages t)"
      using m [of fst] by (simp add: o_def)
    then show "sorted_wrt (<) (map row_id (messages t'))"
      using messages_okD(2) [OF assms(1)] by metis
    fix r assume "r \<in> set (messages t')"
    then obtain r' where r': "r' \<in> set (messages t)" "?k r' = ?k r" using e by blast
    show "row_id r \<le> msg_ctr t'" using messages_okD(3) [OF assms(1) r'(1)] r'(2) assms(3) by simp
    show "conversation_id r = makeConversationId (senderId (row_msg r)) (receiverId (row_msg r))"
      using messages_okD(4) [OF assms(1) r'(1)] r'(2) by (metis prod.inject)
    show "contiguous (conversation_id r) t'" by (rule c)
  qed
qed

lemma markDelivered_ok:
  assumes "conn_inv messages_ok c"
  shows "conn_inv messages_ok (markDelivered e ks c)"
proof -
  let ?t = "current c"
  have "messages_ok (?t\<lparr>messages := mark_ids e 0 ks (messages ?t)\<rparr>)"
    by (rule messages_ok_cong [OF conn_inv_current [OF assms]]) (simp_all add: mark_ids_same)
  then show ?thesis using assms by (auto simp: markDelivered_def intro: conn_inv_put)
qed

text \<open>
  Whatever call of sqlite3 fails while messages are saved and confirmed, the sequence numbers
  of every conversation, in the order of the rows, stay 1, 2, ..., n: none is missing, none is
  given twice, and a message id is stored at most once.
\<close>

theorem conversation_seqs_contiguous:
  assumes "conn_inv messages_ok c" and "c' = markDelivered e ks (snd (snd (saveMessage e m d c)))"
  shows "conn_inv messages_ok c' \<and>
         conv_seqs conv (disk c') = [1..int (length (conv_rows conv (disk c')))] \<and>
         distinct (map (\<lambda>r. msgId (row_msg r)) (messages (disk c')))"
proof -
  have ok: "conn_inv messages_ok c'"
    unfolding assms(2) by (intro markDelivered_ok saveMessage_ok assms(1))
  then have "messages_ok (disk c')" by (rule conn_inv_disk)
  with ok show ?thesis
    using contiguous_all [of "disk c'" conv] messages_okD(1) by (simp add: contiguous_def)
qed

theorem conversation_seqs_contiguous_witness:
  "conv_seqs (makeConversationId 1 2) (disk (markDelivered no_faults [''b'']
     (snd (snd (saveMessage no_faults (sample_msg ''a'' 7 0) False sample_conn))))) = [1, 2]"
proof -
  let ?c = "markDelivered no_faults [''b'']
     (snd (snd (saveMessage no_faults (sample_msg ''a'' 7 0) False sample_conn)))"
  have "length (conv_rows (makeConversationId 1 2) (disk ?c)) = 2"
    by (simp add: saveMessage_def sample_conn_def sample_msg_def sql_begin_def txn_steps Let_def
        markDelivered_def conv_rows_def upd_where_def)
  then show ?thesis
    using conversation_seqs_contiguous [OF sample_ok refl,
        of no_faults "[''b'']" "sample_msg ''a'' 7 0" False "makeConversationId 1 2"]
    by (simp add: upto_rec1)
qed

text \<open>
  A save is all or nothing: when it answers False nothing has changed; when it answers True
  either a message with that id was already stored, no row has changed and the number of that row
  is reported, or exactly one row has been added, which carries the bound message, the next
  number of its conversation and that number is reported.
\<close>

theorem saveMessage_outcome:
  assumes "conn_inv messages_ok c" and "saveMessage e m d c = (ok, m', c')"
  shows "if \<not> ok then c' = c
         else (\<exists>r \<in> set (messages (disk c)). msgId (row_msg r) = cstr (msgId m) \<and>
                 m' = m\<lparr>mseq := mseq (row_msg r)\<rparr> \<and> disk c' = disk c) \<or>
              (let conv = makeConversationId (senderId m) (receiverId m) in
               m' = m\<lparr>mseq := int (length (conv_rows conv (disk c))) + 1\<rparr> \<and>
               (\<forall>r \<in> set (messages (disk c)). msgId (row_msg r) \<noteq> cstr (msgId m)) \<and>
               c' = c\<lparr>disk := (disk c)\<lparr>messages := messages (disk c) @
                   [\<lparr>row_id = msg_ctr (disk c) + 1, conversation_id = conv, is_delivered = d,
                     row_msg = stored_form m'\<rparr>],
                 msg_ctr := msg_ctr (disk c) + 1\<rparr>\<rparr>)"
  using assms(2)
proof (cases rule: saveMessage_cases)
  case (Stored t s)
  have ok: "messages_ok (disk c)" using assms(1) by (rule conn_inv_disk)
  have s: "s = int (length (conv_rows (makeConversationId (senderId m) (receiverId m)) (disk c))) + 1"
    using inserted_seq [OF contiguous_all [OF ok] Stored(4)] Stored(3,5) by simp
  show ?thesis
    using Stored s insert_message_Some [THEN iffD1, OF Stored(4)] by (simp add: Let_def)
qed auto


theorem saveMessage_outcome_witness:
  "\<exists>c. saveMessage no_faults (sample_msg ''k'' 7 0) False sample_conn =
         (True, sample_msg ''k'' 7 3, c) \<and> length (messages (disk c)) = 3"
proof -
  obtain m c where s: "saveMessage no_faults (sample_msg ''k'' 7 0) False sample_conn = (True, m, c)"
    by (rule sample_save_new)
  have "\<not> (\<exists>r \<in> set (messages (disk sample_conn)). msgId (row_msg r) = cstr (msgId (sample_msg ''k'' 7 0)))"
    by (simp add: sample_rows sample_msg_def)
  with saveMessage_outcome [OF sample_ok s] have "m = (sample_msg ''k'' 7 0)\<lparr>mseq := 3\<rparr> \<and>
      length (messages (disk c)) = 3"
    by (simp add: Let_def sample_rows conv_rows_def) (simp add: sample_msg_def)
  then show ?thesis using s by (simp add: sample_msg_def)
qed

text \<open>
  Saving is idempotent: once a message is in the file, saving any message with its id again,
  without faults, answers True with the number already given and leaves the file as it is.
\<close>

theorem saveMessage_idempotent:
  assumes "conn_inv messages_ok c" and "saveMessage e m d c = (True, m1, c1)"
    and "txn c1 = None" and "msgId m2 = msgId m"
  shows "saveMessage no_faults m2 d2 c1 = (True, m2\<lparr>mseq := mseq m1\<rparr>, c1)"
proof -
  have stored: "\<exists>r \<in> set (messages (disk c1)). msgId (row_msg r) = cstr (msgId m) \<and>
      mseq (row_msg r) = mseq m1"
    using assms(2)
  proof (cases rule: saveMessage_cases)
    case (Stored t s)
    then show ?thesis using insert_message_Some [THEN iffD1, OF Stored(4)] by simp
  qed auto
  have "conn_inv messages_ok c1"
    using saveMessage_ok [OF assms(1), of e m d] assms(2) by simp
  then have "distinct (map (\<lambda>r. msgId (row_msg r)) (messages (disk c1)))"
    using messages_okD(1) conn_inv_disk by blast
  then obtain r where "find (\<lambda>r. msgId (row_msg r) = cstr (msgId m)) (messages (disk c1)) = Some r"
    and "mseq (row_msg r) = mseq m1"
    using stored find_unique [of "\<lambda>r. msgId (row_msg r)"] by metis
  moreover obtain D where "c1 = \<lparr>disk = D, txn = None\<rparr>"
    using assms(3) by (cases c1) simp
  ultimately show ?thesis
    using assms(4) by (simp add: saveMessage_def sql_begin_def txn_steps Let_def)
qed

theorem saveMessage_idempotent_witness:
  "\<exists>m c. saveMessage no_faults (sample_msg ''k'' 7 0) False sample_conn = (True, m, c) \<and>
     saveMessage no_faults (sample_msg ''k'' 9 0) True c = (True, (sample_msg ''k'' 9 0)\<lparr>mseq := 3\<rparr>, c)"
proof -
  obtain m c where s: "saveMessage no_faults (sample_msg ''k'' 7 0) False sample_conn = (True, m, c)"
    "txn c = None" "mseq m = 3" by (rule sample_save_new)
  have "saveMessage no_faults (sample_msg ''k'' 9 0) True c =
      (True, (sample_msg ''k'' 9 0)\<lparr>mseq := mseq m\<rparr>, c)"
    by (rule saveMessage_idempotent [OF sample_ok s(1,2)]) (simp add: sample_msg_def)
  with s show ?thesis by simp
qed

text \<open>
  The idempotence key is global: a message whose id is already taken, by any sender and in
  any conversation, is acknowledged with the number of the other message and is not stored.
\<close>

theorem foreign_msg_id_dropped:
  assumes "conn_inv messages_ok c" and "txn c = None"
    and "r \<in> set (messages (disk c))" and "msgId (row_msg r) = cstr (msgId m)"
  shows "saveMessage no_faults m d c = (True, m\<lparr>mseq := mseq (row_msg r)\<rparr>, c)"
proof -
  obtain D where c: "c = \<lparr>disk = D, txn = None\<rparr>" using assms(2) by (cases c) simp
  have "find (\<lambda>q. msgId (row_msg q) = cstr (msgId m)) (messages D) = Some r"
    using assms(3,4) messages_okD(1) [OF conn_inv_disk [OF assms(1)]] c
      find_unique [of "\<lambda>r. msgId (row_msg r)" "messages D" r] by simp
  then show ?thesis by (simp add: c saveMessage_def sql_begin_def txn_steps Let_def)
qed

theorem foreign_msg_id_dropped_witness:
  "let m = (sample_msg ''a'' 9 0)\<lparr>senderId := 8, receiverId := 9\<rparr>
   in saveMessage no_faults m False sample_conn = (True, m\<lparr>mseq := 1\<rparr>, sample_conn)"
  using foreign_msg_id_dropped [OF sample_ok sample_txn, of "hd (messages (disk sample_conn))"
      "(sample_msg ''a'' 9 0)\<lparr>senderId := 8, receiverId := 9\<rparr>" False]
  by (simp add: sample_rows sample_msg_def Let_def)

text \<open>
  When the \<open>COMMIT\<close> after the idempotence read fails, the save still answers True and leaves
  its transaction open; from then on every save fails, whether or not its own calls of sqlite3
  succeed, and what other statements write does not reach the file.
\<close>

theorem failed_commit_blocks_saves:
  assumes "txn c = None" and "r \<in> set (messages (disk c))" and "msgId (row_msg r) = cstr (msgId m)"
    and "\<forall>s. s \<noteq> Commit OpSave \<longrightarrow> sql_ok e s" and "\<not> sql_ok e (Commit OpSave)"
    and "saveMessage e m d c = (ok, m', c')"
  shows "ok \<and> txn c' = Some (disk c) \<and> saveMessage e2 m2 d2 c' = (False, m2, c') \<and>
         disk (markDelivered e2 ks c') = disk c"
proof -
  obtain D where c: "c = \<lparr>disk = D, txn = None\<rparr>" using assms(1) by (cases c) simp
  have "find (\<lambda>q. msgId (row_msg q) = cstr (msgId m)) (messages D) \<noteq> None"
    using assms(2,3) by (auto simp: c find_None_conv)
  then obtain q where "find (\<lambda>q. msgId (row_msg q) = cstr (msgId m)) (messages D) = Some q" by blast
  then have "ok \<and> c' = \<lparr>disk = D, txn = Some D\<rparr>"
    using assms(4-6) by (auto simp: c saveMessage_def sql_begin_def txn_steps Let_def)
  then show ?thesis
    by (auto simp: c saveMessage_def sql_begin_def markDelivered_def)
qed

theorem failed_commit_blocks_saves_witness:
  "let e = no_faults\<lparr>sql_ok := (\<lambda>s. s \<noteq> Commit OpSave)\<rparr>;
       c' = snd (snd (saveMessage e (sample_msg ''a'' 9 0) False sample_conn))
   in fst (saveMessage e (sample_msg ''a'' 9 0) False sample_conn) \<and>
      \<not> fst (saveMessage no_faults (sample_msg ''k'' 9 0) False c')"
proof -
  let ?e = "no_faults\<lparr>sql_ok := (\<lambda>s. s \<noteq> Commit OpSave)\<rparr>"
  let ?s = "saveMessage ?e (sample_msg ''a'' 9 0) False sample_conn"
  have "?s = (fst ?s, fst (snd ?s), snd (snd ?s))" by simp
  from failed_commit_blocks_saves [OF sample_txn _ _ _ _ this, of "hd (messages (disk sample_conn))"
      no_faults "sample_msg ''k'' 9 0" False "[]"]
  show ?thesis by (simp add: sample_rows sample_msg_def Let_def)
qed

subsection \<open>Offline delivery\<close>

lemma set_pull:
  "set (pullUndelivered no_faults u c) =
     row_msg ` {r \<in> set (messages (disk c)). receiverId (row_msg r) = u \<and> \<not> is_delivered r}"
  by (simp add: pullUndelivered_def)

lemma mark_row_idem [simp]: "mark_row (mark_row r) = mark_row r"
  by (simp add: mark_row_def)

lemma mark_ids_no_faults:
  "mark_ids no_faults i ks rs = upd_where (\<lambda>r. msgId (row_msg r) \<in> cstr ` set ks) mark_row rs"
proof (induction ks arbitrary: i rs)
  case (Cons k ks)
  have "(if msgId (row_msg (if msgId (row_msg r) = cstr k then mark_row r else r)) \<in> cstr ` set ks
         then mark_row (if msgId (row_msg r) = cstr k then mark_row r else r)
         else if msgId (row_msg r) = cstr k then mark_row r else r) =
        (if msgId (row_msg r) \<in> cstr ` set (k # ks) then mark_row r else r)" for r
    by simp
  then show ?case by (simp add: Cons upd_where_def)
qed (simp add: upd_where_def)

text \<open>The rows waiting for a user.\<close>

abbreviation waiting_for :: "int \<Rightarrow> msg_row \<Rightarrow> bool" where
  "waiting_for u r \<equiv> receiverId (row_msg r) = u \<and> \<not> is_delivered r"

lemma filter_after_marking:
  assumes "\<And>r. r \<in> set rs \<Longrightarrow> p r \<longleftrightarrow> waiting_for u r"
  shows "filter (waiting_for v) (upd_where p mark_row rs) =
     (if v = u then [] else filter (waiting_for v) rs)"
  using assms
proof (induction rs)
  case (Cons r rs)
  have "p r \<longleftrightarrow> waiting_for u r" by (rule Cons.prems) simp
  moreover have "filter (waiting_for v) (map (\<lambda>r. if p r then mark_row r else r) rs) =
      (if v = u then [] else filter (waiting_for v) rs)"
    using Cons.IH Cons.prems by (simp add: upd_where_def)
  ultimately show ?case by (cases "v = u") (auto simp: upd_where_def)
qed (simp add: upd_where_def)

text \<open>
  Without faults, the offline messages of a user are the stored messages to the user that are
  not marked yet, in the order of their server time; once they have been confirmed a second pull
  returns nothing, and no message to any other user has been marked.
\<close>

theorem offline_pull_then_confirm:
  assumes "conn_inv messages_ok c" and "txn c = None"
    and "\<forall>r \<in> set (messages (disk c)). cstr (msgId (row_msg r)) = msgId (row_msg r)"
    and "ms = pullUndelivered no_faults u c"
    and "c' = markDelivered no_faults (map msgId ms) c"
  shows "set ms = row_msg ` {r \<in> set (messages (disk c)).
                   receiverId (row_msg r) = u \<and> \<not> is_delivered r} \<and>
         sorted (map mts ms) \<and>
         pullUndelivered no_faults u c' = [] \<and>
         (\<forall>v. v \<noteq> u \<longrightarrow> pullUndelivered no_faults v c' = pullUndelivered no_faults v c)"
proof -
  let ?rs = "messages (disk c)"
  let ?p = "\<lambda>r. msgId (row_msg r) \<in> cstr ` msgId ` set ms"
  have d: "distinct (map (\<lambda>r. msgId (row_msg r)) ?rs)"
    using messages_okD(1) conn_inv_disk assms(1) by blast
  have ms: "set ms = row_msg ` {r \<in> set ?rs. receiverId (row_msg r) = u \<and> \<not> is_delivered r}"
    by (simp add: assms(4) set_pull)
  have m': "messages (disk c') = upd_where ?p mark_row ?rs"
  proof (cases "ms = []")
    case True
    then show ?thesis by (simp add: assms(5) markDelivered_def upd_where_def)
  next
    case False
    then show ?thesis
      using assms(2) by (simp add: assms(5) markDelivered_def mark_ids_no_faults)
  qed
  have keys: "cstr ` msgId ` set ms = msgId ` set ms"
  proof (unfold image_image, rule image_cong [OF refl])
    fix m assume "m \<in> set ms"
    then obtain r where "r \<in> set ?rs" "m = row_msg r" unfolding ms by blast
    then show "cstr (msgId m) = msgId m" using assms(3) by blast
  qed
  have p: "?p r \<longleftrightarrow> receiverId (row_msg r) = u \<and> \<not> is_delivered r" if r: "r \<in> set ?rs" for r
  proof
    assume "?p r"
    then have "msgId (row_msg r) \<in> msgId ` set ms" unfolding keys .
    then obtain m where m: "m \<in> set ms" "msgId m = msgId (row_msg r)" by fastforce
    then obtain q where "q \<in> set ?rs" "receiverId (row_msg q) = u" "\<not> is_delivered q"
      "msgId (row_msg q) = msgId (row_msg r)" unfolding ms by blast
    then show "receiverId (row_msg r) = u \<and> \<not> is_delivered r"
      using distinct_map_eq [OF d _ r, of q] by simp
  qed (use r ms keys in blast)
  have "filter (waiting_for v) (messages (disk c')) =
      (if v = u then [] else filter (waiting_for v) ?rs)" for v
    unfolding m' by (rule filter_after_marking [OF p])
  then have "pullUndelivered no_faults v c' = (if v = u then [] else pullUndelivered no_faults v c)" for v
    by (simp add: pullUndelivered_def)
  moreover have "sorted (map mts ms)"
    by (simp add: assms(4) pullUndelivered_def o_def)
  ultimately show ?thesis using ms by simp
qed


theorem offline_pull_then_confirm_witness:
  "pullUndelivered no_faults 2 (markDelivered no_faults
     (map msgId (pullUndelivered no_faults 2 sample_conn)) sample_conn) = []"
proof -
  have "\<forall>r \<in> set (messages (disk sample_conn)). cstr (msgId (row_msg r)) = msgId (row_msg r)"
    by (simp add: sample_rows sample_msg_def)
  from offline_pull_then_confirm [OF sample_ok sample_txn this refl refl, of 2]
  show ?thesis by simp
qed

subsection \<open>Roaming\<close>

lemma filter_less_upto: "filter (\<lambda>k. k < b) [1..n] = [1..min n (b - 1 :: int)]"
proof -
  have "filter (\<lambda>k. k < b) [1..n] = [1..min n (b - 1)]" if "0 \<le> n" for n
    using that
  proof (induction n rule: int_ge_induct)
    case base
    then show ?case by simp
  next
    case (step i)
    then show ?case
      by (cases "i + 1 < b"; cases "i + 1 = b") (auto simp: upto_rec2 min_def)
  qed
  then show ?thesis by (cases "0 \<le> n") auto
qed

lemma drop_upto: "drop k [i..j] = [i + int k..j]"
proof (induction k arbitrary: i)
  case (Suc k)
  then show ?case by (cases "i \<le> j") (simp_all add: upto_rec1 [of i j] ac_simps)
qed simp

lemma take_rev_upto:
  assumes "0 \<le> h"
  shows "take k (rev [1..h]) = rev [max 1 (h - int k + 1)..h]"
proof -
  have "take k (rev [1..h]) = rev (drop (length [1..h] - k) [1..h])"
    by (simp add: take_rev)
  also have "\<dots> = rev [1 + int (nat h - k)..h]" by (simp add: drop_upto)
  also have "1 + int (nat h - k) = max 1 (h - int k + 1)" using assms by auto
  finally show ?thesis .
qed

lemma sort_desc:
  assumes "sorted_wrt (<) (map f xs)"
  shows "sort_key (\<lambda>x. - f x :: int) xs = rev xs"
proof (rule sort_key_inj_key_eq)
  show "mset xs = mset (rev xs)" by simp
  have "distinct (map f xs)" using assms strict_sorted_iff by blast
  then show "inj_on (\<lambda>x. - f x) (set xs)" by (simp add: distinct_map inj_on_def)
  have "sorted_wrt (\<lambda>x y. f y < f x) (rev xs)"
    using assms by (simp add: sorted_wrt_map sorted_wrt_rev)
  then have "sorted_wrt (\<le>) (map (\<lambda>x. - f x) (rev xs))"
    unfolding sorted_wrt_map by (rule sorted_wrt_mono_rel [rotated]) simp
  then show "sorted (map (\<lambda>x. - f x) (rev xs))" .
qed

lemma strict_sorted_upto: "sorted_wrt (<) [i..j :: int]"
  by simp

text \<open>
  Without faults a page of the history before a number holds, newest first, exactly the
  messages of that conversation with the \<open>limit\<close> largest smaller numbers.
\<close>

theorem roam_page:
  assumes "messages_ok (disk c)" and "0 \<le> limit"
    and "ms = roamMessages no_faults u p before limit c"
    and "n = int (length (conv_rows (makeConversationId u p) (disk c)))"
    and "hi = min n (before - 1)" and "lo = max 1 (hi - limit + 1)"
  shows "map mseq ms = rev [lo..hi] \<and>
         set ms = row_msg ` {r \<in> set (messages (disk c)).
            conversation_id r = makeConversationId u p \<and>
            lo \<le> mseq (row_msg r) \<and> mseq (row_msg r) \<le> hi}"
proof -
  let ?f = "\<lambda>r. mseq (row_msg r)"
  let ?rs = "conv_rows (makeConversationId u p) (disk c)"
  let ?xs = "filter (\<lambda>r. ?f r < before) ?rs"
  have seqs: "map ?f ?rs = [1..n]"
    using contiguous_all [OF assms(1)] by (simp add: contiguous_def conv_seqs_def assms(4))
  have "map ?f ?xs = filter (\<lambda>k. k < before) (map ?f ?rs)" by (simp add: filter_map o_def)
  then have xs: "map ?f ?xs = [1..hi]" by (simp add: seqs filter_less_upto assms(5))
  have ms: "ms = map row_msg (take (nat limit) (rev ?xs))"
    using assms(2) sort_desc [of ?f ?xs] by (simp add: assms(3) roamMessages_def sql_limit_def xs)
  have page: "map ?f (take (nat limit) (rev ?xs)) = rev [lo..hi]"
  proof (cases "0 \<le> hi")
    case True
    have "map ?f (take (nat limit) (rev ?xs)) = take (nat limit) (rev (map ?f ?xs))"
      by (simp only: take_map rev_map)
    then show ?thesis using take_rev_upto [OF True, of "nat limit"] assms(2,6) by (simp add: xs)
  next
    case False
    then have "?xs = []" using xs by simp
    then show ?thesis using False assms(6) by simp
  qed
  have in_page: "r \<in> set (take (nat limit) (rev ?xs)) \<longleftrightarrow> lo \<le> ?f r \<and> ?f r \<le> hi" if "r \<in> set ?rs" for r
  proof
    assume "r \<in> set (take (nat limit) (rev ?xs))"
    then have "?f r \<in> set (map ?f (take (nat limit) (rev ?xs)))" by simp
    then show "lo \<le> ?f r \<and> ?f r \<le> hi" by (simp only: page) simp
  next
    assume "lo \<le> ?f r \<and> ?f r \<le> hi"
    then have "?f r \<in> set (map ?f (take (nat limit) (rev ?xs)))" by (simp only: page) simp
    then obtain q where q: "q \<in> set (take (nat limit) (rev ?xs))" "?f q = ?f r" by auto
    then have "q \<in> set ?rs" by (auto dest: in_set_takeD)
    moreover have "distinct (map ?f ?rs)" by (simp add: seqs)
    ultimately have "q = r" using distinct_map_eq [of ?f ?rs q r] that q(2) by simp
    then show "r \<in> set (take (nat limit) (rev ?xs))" using q(1) by simp
  qed
  have sub: "set (take (nat limit) (rev ?xs)) \<subseteq> set ?rs" by (auto dest: in_set_takeD)
  have "set (take (nat limit) (rev ?xs)) = {r \<in> set ?rs. lo \<le> ?f r \<and> ?f r \<le> hi}"
    using in_page sub by blast
  then have "set ms = row_msg ` {r \<in> set ?rs. lo \<le> ?f r \<and> ?f r \<le> hi}" by (simp only: ms set_map)
  moreover have "map mseq ms = rev [lo..hi]" using page by (simp add: ms o_def)
  ultimately show ?thesis by (simp add: conv_rows_def)
qed


theorem roam_page_witness:
  "map mseq (roamMessages no_faults 2 1 INT64_MAX 1 sample_conn) = [2]"
proof -
  have "int (length (conv_rows (makeConversationId 2 1) (disk sample_conn))) = 2"
    by (simp add: sample_rows conv_rows_def conv_id_comm [of 2 1])
  with roam_page [OF sample_ok_disk _ refl refl refl refl, of 1 2 1 INT64_MAX] show ?thesis
    by (simp add: INT64_MAX_def)
qed

text \<open>In a conversation the order of the row ids is the order of the numbers.\<close>

lemma seq_row_order:
  assumes "messages_ok t" and "q \<in> set (conv_rows conv t)" and "r \<in> set (conv_rows conv t)"
  shows "mseq (row_msg q) \<le> mseq (row_msg r) \<longleftrightarrow> row_id q \<le> row_id r"
proof -
  let ?rs = "conv_rows conv t"
  have seqs: "map (\<lambda>r. mseq (row_msg r)) ?rs = [1..int (length ?rs)]"
    using contiguous_all [OF assms(1)] by (simp add: contiguous_def conv_seqs_def)
  have "sorted_wrt (\<lambda>a b. row_id a < row_id b) ?rs"
    unfolding conv_rows_def using messages_okD(2) [OF assms(1)]
    by (intro sorted_wrt_filter) (simp add: sorted_wrt_map)
  then have ids: "row_id (?rs ! i) < row_id (?rs ! j)" if "i < j" "j < length ?rs" for i j
    using that by (simp add: sorted_wrt_iff_nth_less)
  have nth: "mseq (row_msg (?rs ! i)) = 1 + int i" if "i < length ?rs" for i
    using that arg_cong [OF seqs, of "\<lambda>xs. xs ! i"] by simp
  obtain i j where ij: "i < length ?rs" "q = ?rs ! i" "j < length ?rs" "r = ?rs ! j"
    using assms(2,3) by (metis in_set_conv_nth)
  show ?thesis
    using ids [of i j] ids [of j i] ij nth by (cases i j rule: linorder_cases) auto
qed

lemma last_of_conversation:
  assumes "messages_ok t" and "q \<in> set (messages t)" and "involves u q"
  shows "\<exists>r \<in> set (last_rows u t). conversation_id r = conversation_id q"
proof -
  let ?S = "{r \<in> set (messages t). involves u r \<and> conversation_id r = conversation_id q}"
  have "finite ?S" "?S \<noteq> {}" using assms(2,3) by auto
  then obtain r where r: "r \<in> ?S" "row_id r = Max (row_id ` ?S)"
    using Max_in [of "row_id ` ?S"] by fastforce
  have "row_id p \<le> row_id r" if "p \<in> ?S" for p
    using that \<open>finite ?S\<close> r(2) by simp
  then have "r \<in> set (last_rows u t)" using r(1) by (auto simp: last_rows_def)
  then show ?thesis using r(1) by blast
qed

text \<open>
  Without faults the conversation list of a user has one message for every conversation the
  user has a message in, and no other; it is the message with the largest number among the
  user's messages of that conversation.
\<close>

theorem roam_conversations_last:
  assumes "messages_ok (disk c)"
  shows "\<exists>rs. roamConversations no_faults u c = map row_msg rs \<and>
           distinct (map conversation_id rs) \<and>
           conversation_id ` set rs = conversation_id ` {r \<in> set (messages (disk c)). involves u r} \<and>
           (\<forall>r \<in> set rs. r \<in> set (messages (disk c)) \<and> involves u r \<and>
              (\<forall>q \<in> set (messages (disk c)). involves u q \<longrightarrow> conversation_id q = conversation_id r \<longrightarrow>
                 mseq (row_msg q) \<le> mseq (row_msg r)))"
proof -
  let ?rs = "sort_key (\<lambda>r. - mts (row_msg r)) (last_rows u (disk c))"
  have mem: "r \<in> set (last_rows u (disk c)) \<Longrightarrow> r \<in> set (messages (disk c)) \<and> involves u r" for r
    by (simp add: last_rows_def)
  have max: "row_id q \<le> row_id r"
    if "r \<in> set (last_rows u (disk c))" "q \<in> set (messages (disk c))" "involves u q"
      "conversation_id q = conversation_id r" for q r
    using that by (simp add: last_rows_def)
  have ids: "distinct (map row_id (messages (disk c)))"
    using messages_okD(2) [OF assms] strict_sorted_iff by blast
  have "distinct (last_rows u (disk c))"
    unfolding last_rows_def using ids by (simp add: distinct_map)
  moreover have "inj_on conversation_id (set (last_rows u (disk c)))"
  proof (rule inj_onI)
    fix p q
    assume p: "p \<in> set (last_rows u (disk c))" and q: "q \<in> set (last_rows u (disk c))"
      and eq: "conversation_id p = conversation_id q"
    have "row_id p = row_id q"
      using max [OF p, of q] max [OF q, of p] mem [OF p] mem [OF q] eq by simp
    then show "p = q" using distinct_map_eq [OF ids] mem [OF p] mem [OF q] by blast
  qed
  ultimately have "distinct (map conversation_id ?rs)" by (simp add: distinct_map)
  moreover have "conversation_id ` set ?rs =
      conversation_id ` {r \<in> set (messages (disk c)). involves u r}"
  proof
    show "conversation_id ` {r \<in> set (messages (disk c)). involves u r} \<subseteq> conversation_id ` set ?rs"
    proof
      fix k assume "k \<in> conversation_id ` {r \<in> set (messages (disk c)). involves u r}"
      then obtain q where "q \<in> set (messages (disk c))" "involves u q" "k = conversation_id q" by blast
      with last_of_conversation [OF assms] obtain r
        where "r \<in> set (last_rows u (disk c))" "k = conversation_id r" by metis
      then show "k \<in> conversation_id ` set ?rs" by simp
    qed
  qed (use mem in auto)
  moreover have "mseq (row_msg q) \<le> mseq (row_msg r)"
    if "r \<in> set ?rs" "q \<in> set (messages (disk c))" "involves u q"
      "conversation_id q = conversation_id r" for r q
    using that max [of r q] mem [of r] seq_row_order [OF assms, of q "conversation_id r" r]
    by (simp add: conv_rows_def)
  ultimately show ?thesis
    using mem by (intro exI [of _ ?rs]) (simp add: roamConversations_def)
qed

theorem roam_conversations_last_witness:
  "length (roamConversations no_faults 1 sample_conn) = 1"
proof -
  have k: "conversation_id ` {r \<in> set (messages (disk sample_conn)). involves 1 r} =
      {makeConversationId 1 2}"
    unfolding sample_rows by (force simp: involves_def sample_msg_def)
  obtain rs where rs: "roamConversations no_faults 1 sample_conn = map row_msg rs \<and>
      distinct (map conversation_id rs) \<and>
      conversation_id ` set rs = conversation_id ` {r \<in> set (messages (disk sample_conn)). involves 1 r} \<and>
      (\<forall>r \<in> set rs. r \<in> set (messages (disk sample_conn)) \<and> involves 1 r \<and>
        (\<forall>q \<in> set (messages (disk sample_conn)). involves 1 q \<longrightarrow>
           conversation_id q = conversation_id r \<longrightarrow> mseq (row_msg q) \<le> mseq (row_msg r)))"
    using roam_conversations_last [OF sample_ok_disk, of 1] by (rule exE)
  then have "distinct (map conversation_id rs)" "set (map conversation_id rs) = {makeConversationId 1 2}"
    using k by simp_all
  then have "length (map conversation_id rs) = 1" using distinct_card by fastforce
  then show ?thesis using rs by simp
qed

subsection \<open>Migration\<close>

definition migrate_effect :: "tables \<Rightarrow> tables option" where
  "migrate_effect t = map_option (\<lambda>rs. t\<lparr>messages := rs, user_version := 1\<rparr>) (migrate_rows (messages t))"

lemma migrate_outcome:
  "migrateConversationIds e c = (False, c) \<or>
   (\<exists>t. txn c = None \<and> migrate_effect (disk c) = Some t \<and>
      migrateConversationIds e c = (True, c\<lparr>disk := t\<rparr>))"
proof (cases "sql_begin (sql_ok e (Begin OpMigrate)) c")
  case (Some c1)
  then obtain d where c: "c = \<lparr>disk = d, txn = None\<rparr>" and c1: "c1 = \<lparr>disk = d, txn = Some d\<rparr>"
    by (rule sql_beginE)
  show ?thesis
    unfolding migrateConversationIds_def Some migrate_effect_def Let_def
    by (cases "sql_ok e (Commit OpMigrate)") (auto simp: c c1 txn_steps split: option.split)
qed (simp add: migrateConversationIds_def)

lemma migrate_progress:
  "txn c = None \<Longrightarrow> migrate_effect (disk c) = Some t \<Longrightarrow>
     migrateConversationIds no_faults c = (True, c\<lparr>disk := t\<rparr>)"
  unfolding migrateConversationIds_def migrate_effect_def sql_begin_def
  by (auto simp: sql_commit_def put_tables_def)

interpretation migrate: atomic_op migrateConversationIds migrate_effect
  by unfold_locales (rule migrate_outcome, rule migrate_progress)

text \<open>
  The migration of the conversation ids is all or nothing; when it succeeds every message
  between two valid ids is in the conversation \<open>makeConversationId\<close> computes, no two messages
  share conversation and number, nothing else about the messages has changed, and reopening does
  not run it again.
\<close>

theorem migration_correct:
  assumes "migrateConversationIds e c = (ok, c')"
  shows "if ok
         then (\<forall>r \<in> set (messages (disk c')).
                 0 < senderId (row_msg r) \<longrightarrow> senderId (row_msg r) < 2 ^ 31 \<longrightarrow>
                 0 < receiverId (row_msg r) \<longrightarrow> receiverId (row_msg r) < 2 ^ 31 \<longrightarrow>
                 conversation_id r = makeConversationId (senderId (row_msg r)) (receiverId (row_msg r))) \<and>
              distinct (map (\<lambda>r. (conversation_id r, mseq (row_msg r))) (messages (disk c'))) \<and>
              map row_msg (messages (disk c')) = map row_msg (messages (disk c)) \<and>
              map row_id (messages (disk c')) = map row_id (messages (disk c)) \<and>
              (sql_ok e2 (Prepare OpVersion 0) \<and> sql_ok e2 (Step OpVersion 0) \<longrightarrow>
                 open_version e2 c' = (True, c'))
         else c' = c"
proof (cases ok)
  case True
  with assms have eff: "txn c = None \<and> migrate_effect (disk c) = Some (disk c') \<and>
      c' = c\<lparr>disk := disk c'\<rparr>"
    using migrate.True_effect [of e c c'] by simp
  then obtain z where z: "migrate_rows (messages (disk c)) = Some z"
    "disk c' = (disk c)\<lparr>messages := z, user_version := 1\<rparr>"
    by (auto simp: migrate_effect_def)
  then have rs: "migrate_rows (messages (disk c)) = Some (messages (disk c'))"
    and v: "user_version (disk c') = 1" by simp_all
  have t: "txn c' = None" using eff by (metis (full_types) dbconn.select_convs(2) dbconn.surjective dbconn.update_convs(1))
  from rs have m: "messages (disk c') = map migrate_row (messages (disk c))"
    and d: "distinct (map (\<lambda>r. (conversation_id r, mseq (row_msg r))) (messages (disk c')))"
    using rs by (simp_all only: migrate_rows_def Let_def option.distinct option.inject split: if_splits)
  have "conversation_id (migrate_row r) =
      makeConversationId (senderId (row_msg (migrate_row r))) (receiverId (row_msg (migrate_row r)))"
    if "0 < senderId (row_msg r)" "senderId (row_msg r) < 2 ^ 31" "0 < receiverId (row_msg r)"
      "receiverId (row_msg r) < 2 ^ 31" for r
    using that conv_id_arith [OF that] by (simp add: migrate_row_def migrated_id_def min_def max_def)
  then show ?thesis
    using True d t v
    by (auto simp: m migrate_row_def o_def open_version_def readDatabaseVersion_def Let_def)
next
  case False
  then show ?thesis using assms migrate.False_unchanged [of e c c'] by simp
qed


theorem migration_correct_witness:
  "map row_msg (messages (disk (snd (migrateConversationIds no_faults sample_conn)))) =
     map row_msg (messages (disk sample_conn)) \<and> fst (migrateConversationIds no_faults sample_conn)"
proof -
  have ok: "fst (migrateConversationIds no_faults sample_conn)"
    by (simp add: migrate.faultless migrate_effect_def migrate_rows_def sample_rows migrate_row_def
        sample_msg_def)
  then show ?thesis
    using migration_correct [OF prod.collapse [symmetric], of no_faults sample_conn] by simp
qed

end
