(* ===== verification/DbAuth.thy ===== *)
theory DbAuth
  imports DbMessages
begin

text \<open>
  The login sessions of \<open>Database.cpp\<close>: creation, lookup by token hash, rotation of the refresh
  token with its history, and the three revocations. The lemmas show that rotation is atomic,
  that a refresh token hash can be spent only once under every failure, and that nothing undoes a
  revocation.
\<close>

subsection \<open>Operations\<close>

definition createAuthSession ::
  "sqlenv \<Rightarrow> int \<Rightarrow> string \<Rightarrow> string \<Rightarrow> int \<Rightarrow> string \<Rightarrow> string \<Rightarrow> int \<Rightarrow> string \<Rightarrow> int \<Rightarrow> dbconn \<Rightarrow>
   bool \<times> dbconn" where
  "createAuthSession e now sessionId familyId userId deviceId accessHash accessExpiresAt refreshHash
     refreshExpiresAt c =
     (if \<not> sql_ok e (Prepare OpCreateAuth 0) then (False, c)
      else if \<not> sql_ok e (Step OpCreateAuth 0) then (False, c)
      else case insert_auth
             \<lparr>as_sessionId = cstr sessionId, as_familyId = cstr familyId, as_userId = userId,
              as_deviceId = cstr deviceId, as_accessHash = cstr accessHash,
              as_accessExpiresAt = accessExpiresAt, as_refreshHash = cstr refreshHash,
              as_refreshExpiresAt = refreshExpiresAt, as_generation = 1, as_revoked = False\<rparr>
             now (current c) of
        None \<Rightarrow> (False, c)
      | Some t \<Rightarrow> (True, put_tables t c))"

definition findByAccessHash :: "sqlenv \<Rightarrow> string \<Rightarrow> dbconn \<Rightarrow> AuthSessionRecord option" where
  "findByAccessHash e h c =
     map_option auth (read_row e OpFindAccess (\<lambda>r. as_accessHash (auth r) = cstr h) (auths (disk c)))"

definition findByRefreshHash :: "sqlenv \<Rightarrow> string \<Rightarrow> dbconn \<Rightarrow> AuthSessionRecord option" where
  "findByRefreshHash e h c =
     map_option auth (read_row e OpFindRefresh (\<lambda>r. as_refreshHash (auth r) = cstr h) (auths (disk c)))"

text \<open>The row the \<open>UPDATE\<close> of the rotation matches, and what it writes.\<close>

definition rotated_from :: "AuthSessionRecord \<Rightarrow> string \<Rightarrow> auth_row \<Rightarrow> bool" where
  "rotated_from old oldRefreshHash r \<longleftrightarrow>
     as_sessionId (auth r) = cstr (as_sessionId old) \<and>
     as_refreshHash (auth r) = cstr oldRefreshHash \<and>
     as_generation (auth r) = as_generation old \<and> \<not> as_revoked (auth r)"

definition rotate_row :: "int \<Rightarrow> string \<Rightarrow> int \<Rightarrow> string \<Rightarrow> int \<Rightarrow> auth_row \<Rightarrow> auth_row" where
  "rotate_row now accessHash accessExpiresAt refreshHash refreshExpiresAt r =
     r\<lparr>auth := (auth r)\<lparr>as_accessHash := cstr accessHash, as_accessExpiresAt := accessExpiresAt,
         as_refreshHash := cstr refreshHash, as_refreshExpiresAt := refreshExpiresAt,
         as_generation := as_generation (auth r) + 1\<rparr>,
       last_used_at := now\<rparr>"

text \<open>The unique columns make the update fail when a hash is already there.\<close>

definition update_auths ::
  "(auth_row \<Rightarrow> bool) \<Rightarrow> (auth_row \<Rightarrow> auth_row) \<Rightarrow> auth_row list \<Rightarrow> auth_row list option" where
  "update_auths p f rs =
     (let rs' = upd_where p f rs
      in if distinct (map (\<lambda>r. as_accessHash (auth r)) rs') \<and>
            distinct (map (\<lambda>r. as_refreshHash (auth r)) rs') then Some rs' else None)"

definition rotateRefreshToken ::
  "sqlenv \<Rightarrow> int \<Rightarrow> AuthSessionRecord \<Rightarrow> string \<Rightarrow> string \<Rightarrow> int \<Rightarrow> string \<Rightarrow> int \<Rightarrow> dbconn \<Rightarrow>
   bool \<times> dbconn" where
  "rotateRefreshToken e now oldSession oldRefreshHash newAccessHash newAccessExpiresAt
     newRefreshHash newRefreshExpiresAt c =
     (case sql_begin (sql_ok e (Begin OpRotate)) c of
        None \<Rightarrow> (False, c)
      | Some c1 \<Rightarrow>
          if \<not> sql_ok e (Prepare OpRotate 0) then (False, sql_rollback c1)
          else case (if sql_ok e (Step OpRotate 0)
                     then insert_hist \<lparr>h_family = cstr (as_familyId oldSession),
                            h_token = cstr oldRefreshHash, h_generation = as_generation oldSession,
                            h_used_at = now\<rparr> (current c1)
                     else None) of
            None \<Rightarrow> (False, sql_rollback c1)
          | Some t \<Rightarrow>
              let c2 = put_tables t c1; p = rotated_from oldSession oldRefreshHash in
              if \<not> sql_ok e (Prepare OpRotate 1) then (False, sql_rollback c2)
              else case (if sql_ok e (Step OpRotate 1) \<and> changes p (auths t) = 1
                         then update_auths p (rotate_row now newAccessHash newAccessExpiresAt
                                newRefreshHash newRefreshExpiresAt) (auths t)
                         else None) of
                None \<Rightarrow> (False, sql_rollback c2)
              | Some rs \<Rightarrow>
                  let (ok, c3) = sql_commit (sql_ok e (Commit OpRotate))
                                   (put_tables (t\<lparr>auths := rs\<rparr>) c2)
                  in if ok then (True, c3) else (False, sql_rollback c3))"

definition wasRefreshTokenUsed :: "sqlenv \<Rightarrow> string \<Rightarrow> dbconn \<Rightarrow> string option" where
  "wasRefreshTokenUsed e h c =
     map_option h_family (read_row e OpUsed (\<lambda>r. h_token r = cstr h) (hist (disk c)))"

definition revoke_row :: "auth_row \<Rightarrow> auth_row" where
  "revoke_row r = r\<lparr>auth := (auth r)\<lparr>as_revoked := True\<rparr>\<rparr>"

definition revoke_where :: "(auth_row \<Rightarrow> bool) \<Rightarrow> dbconn \<Rightarrow> dbconn" where
  "revoke_where p c =
     put_tables ((current c)\<lparr>auths := upd_where p revoke_row (auths (current c))\<rparr>) c"

definition revokeTokenFamily :: "sqlenv \<Rightarrow> string \<Rightarrow> dbconn \<Rightarrow> int \<times> dbconn" where
  "revokeTokenFamily e familyId c =
     (let p = (\<lambda>r. as_familyId (auth r) = cstr familyId);
          userId = (if sql_ok e (Prepare OpRevokeFamily 0) \<and> sql_ok e (Step OpRevokeFamily 0)
                    then (case find p (auths (current c)) of None \<Rightarrow> 0 | Some r \<Rightarrow> as_userId (auth r))
                    else 0)
      in if \<not> sql_ok e (Prepare OpRevokeFamily 1) then (0, c)
         else (userId, if sql_ok e (Step OpRevokeFamily 1) then revoke_where p c else c))"

definition revokeSession_db :: "sqlenv \<Rightarrow> string \<Rightarrow> dbconn \<Rightarrow> dbconn" where
  "revokeSession_db e sessionId c =
     (if sql_ok e (Prepare OpRevokeSession 0) \<and> sql_ok e (Step OpRevokeSession 0)
      then revoke_where (\<lambda>r. as_sessionId (auth r) = cstr sessionId) c else c)"

definition revokeAllUserSessions :: "sqlenv \<Rightarrow> int \<Rightarrow> dbconn \<Rightarrow> dbconn" where
  "revokeAllUserSessions e userId c =
     (if sql_ok e (Prepare OpRevokeAll 0) \<and> sql_ok e (Step OpRevokeAll 0)
      then revoke_where (\<lambda>r. as_userId (auth r) = userId) c else c)"

subsection \<open>Rotation is atomic\<close>

definition rotate_effect ::
  "int \<Rightarrow> AuthSessionRecord \<Rightarrow> string \<Rightarrow> string \<Rightarrow> int \<Rightarrow> string \<Rightarrow> int \<Rightarrow> tables \<Rightarrow> tables option" where
  "rotate_effect now old oldHash aH aE rH rE t =
     (if (\<exists>h \<in> set (hist t). h_token h = cstr oldHash) \<or>
         changes (rotated_from old oldHash) (auths t) \<noteq> 1 then None
      else map_option (\<lambda>rs. t\<lparr>hist := hist t @ [\<lparr>h_family = cstr (as_familyId old),
               h_token = cstr oldHash, h_generation = as_generation old, h_used_at = now\<rparr>],
             auths := rs\<rparr>)
             (update_auths (rotated_from old oldHash) (rotate_row now aH aE rH rE) (auths t)))"

lemma rotate_outcome:
  "rotateRefreshToken e now old oldHash aH aE rH rE c = (False, c) \<or>
   (\<exists>t. txn c = None \<and> rotate_effect now old oldHash aH aE rH rE (disk c) = Some t \<and>
      rotateRefreshToken e now old oldHash aH aE rH rE c = (True, c\<lparr>disk := t\<rparr>))"
proof (cases "sql_begin (sql_ok e (Begin OpRotate)) c")
  case (Some c1)
  then obtain d where c: "c = \<lparr>disk = d, txn = None\<rparr>" and c1: "c1 = \<lparr>disk = d, txn = Some d\<rparr>"
    by (rule sql_beginE)
  show ?thesis
    unfolding rotateRefreshToken_def Some rotate_effect_def insert_hist_def Let_def
    by (cases "sql_ok e (Commit OpRotate)")
      (auto simp: c c1 txn_steps split: option.split)
qed (simp add: rotateRefreshToken_def)

lemma rotate_progress:
  "txn c = None \<Longrightarrow> rotate_effect now old oldHash aH aE rH rE (disk c) = Some t \<Longrightarrow>
     rotateRefreshToken no_faults now old oldHash aH aE rH rE c = (True, c\<lparr>disk := t\<rparr>)"
  unfolding rotateRefreshToken_def rotate_effect_def sql_begin_def insert_hist_def
  by (auto simp: sql_commit_def put_tables_def Let_def split: if_splits)

interpretation rotate: atomic_op
    "\<lambda>e. rotateRefreshToken e now old oldHash aH aE rH rE" "rotate_effect now old oldHash aH aE rH rE"
  for now old oldHash aH aE rH rE
  by unfold_locales (rule rotate_outcome, rule rotate_progress)

subsection \<open>What the session table keeps\<close>

definition auths_ok :: "tables \<Rightarrow> bool" where
  "auths_ok t \<longleftrightarrow> distinct (map (\<lambda>r. as_sessionId (auth r)) (auths t)) \<and>
     distinct (map (\<lambda>r. as_accessHash (auth r)) (auths t)) \<and>
     distinct (map (\<lambda>r. as_refreshHash (auth r)) (auths t)) \<and>
     distinct (map h_token (hist t))"

lemma auths_ok_empty [simp]: "auths_ok empty_tables"
  by (simp add: auths_ok_def empty_tables_def)

lemma insert_auth_Some:
  "insert_auth s now t = Some t' \<longleftrightarrow>
     (\<forall>r \<in> set (auths t). as_sessionId (auth r) \<noteq> as_sessionId s \<and>
        as_accessHash (auth r) \<noteq> as_accessHash s \<and> as_refreshHash (auth r) \<noteq> as_refreshHash s) \<and>
     t' = t\<lparr>auths := auths t @ [\<lparr>auth = s, created_at = now, last_used_at = now\<rparr>]\<rparr>"
  by (auto simp: insert_auth_def)

lemma insert_auth_ok:
  assumes "auths_ok t" and "insert_auth s now t = Some t'"
  shows "auths_ok t'"
  using assms insert_auth_Some [THEN iffD1, OF assms(2)]
  by (simp add: auths_ok_def image_iff) metis

lemma revoke_row_same [simp]:
  "as_sessionId (auth (revoke_row r)) = as_sessionId (auth r)"
  "as_accessHash (auth (revoke_row r)) = as_accessHash (auth r)"
  "as_refreshHash (auth (revoke_row r)) = as_refreshHash (auth r)"
  "as_familyId (auth (revoke_row r)) = as_familyId (auth r)"
  "as_userId (auth (revoke_row r)) = as_userId (auth r)"
  "as_revoked (auth (revoke_row r))"
  by (simp_all add: revoke_row_def)

lemma auths_ok_revoke:
  "auths_ok t \<Longrightarrow> auths_ok (t\<lparr>auths := upd_where p revoke_row (auths t)\<rparr>)"
  by (simp add: auths_ok_def map_upd_where_same)

lemma rotate_row_session [simp]:
  "as_sessionId (auth (rotate_row now aH aE rH rE r)) = as_sessionId (auth r)"
  "as_familyId (auth (rotate_row now aH aE rH rE r)) = as_familyId (auth r)"
  "as_userId (auth (rotate_row now aH aE rH rE r)) = as_userId (auth r)"
  "as_deviceId (auth (rotate_row now aH aE rH rE r)) = as_deviceId (auth r)"
  "as_revoked (auth (rotate_row now aH aE rH rE r)) = as_revoked (auth r)"
  "as_refreshHash (auth (rotate_row now aH aE rH rE r)) = cstr rH"
  "as_accessHash (auth (rotate_row now aH aE rH rE r)) = cstr aH"
  by (simp_all add: rotate_row_def)

lemma rotate_effect_Some:
  assumes "rotate_effect now old oldHash aH aE rH rE t = Some t'"
  shows "cstr oldHash \<notin> h_token ` set (hist t)"
    and "changes (rotated_from old oldHash) (auths t) = 1"
    and "auths t' = upd_where (rotated_from old oldHash) (rotate_row now aH aE rH rE) (auths t)"
    and "hist t' = hist t @ [\<lparr>h_family = cstr (as_familyId old), h_token = cstr oldHash,
           h_generation = as_generation old, h_used_at = now\<rparr>]"
    and "distinct (map (\<lambda>r. as_accessHash (auth r)) (auths t'))"
    and "distinct (map (\<lambda>r. as_refreshHash (auth r)) (auths t'))"
    and "t'\<lparr>auths := [], hist := []\<rparr> = t\<lparr>auths := [], hist := []\<rparr>"
proof -
  obtain rs where rs: "update_auths (rotated_from old oldHash) (rotate_row now aH aE rH rE) (auths t) = Some rs"
    "t' = t\<lparr>hist := hist t @ [\<lparr>h_family = cstr (as_familyId old), h_token = cstr oldHash,
       h_generation = as_generation old, h_used_at = now\<rparr>], auths := rs\<rparr>"
    and new: "\<not> (\<exists>h \<in> set (hist t). h_token h = cstr oldHash)"
    and ch: "changes (rotated_from old oldHash) (auths t) = 1"
    using assms by (auto simp: rotate_effect_def split: if_splits)
  show "cstr oldHash \<notin> h_token ` set (hist t)" using new by force
  show "changes (rotated_from old oldHash) (auths t) = 1" by (rule ch)
  show "hist t' = hist t @ [\<lparr>h_family = cstr (as_familyId old), h_token = cstr oldHash,
           h_generation = as_generation old, h_used_at = now\<rparr>]" by (simp add: rs(2))
  show "auths t' = upd_where (rotated_from old oldHash) (rotate_row now aH aE rH rE) (auths t)"
    and "distinct (map (\<lambda>r. as_accessHash (auth r)) (auths t'))"
    and "distinct (map (\<lambda>r. as_refreshHash (auth r)) (auths t'))"
    using rs by (simp_all add: update_auths_def Let_def split: if_splits)
  show "t'\<lparr>auths := [], hist := []\<rparr> = t\<lparr>auths := [], hist := []\<rparr>" by (simp add: rs(2))
qed

lemma rotate_effect_ok:
  assumes "auths_ok t" and "rotate_effect now old oldHash aH aE rH rE t = Some t'"
  shows "auths_ok t'"
  using assms(1) rotate_effect_Some [OF assms(2)]
  by (simp add: auths_ok_def map_upd_where_same)

text \<open>Hashes in the history, and sessions that are revoked, of a table state.\<close>

definition spent :: "tables \<Rightarrow> string set" where
  "spent t = h_token ` set (hist t)"

definition revoked_ids :: "tables \<Rightarrow> string set" where
  "revoked_ids t = {as_sessionId (auth r) |r. r \<in> set (auths t) \<and> as_revoked (auth r)}"

text \<open>What is spent or revoked stays so.\<close>

definition auth_grows :: "tables \<Rightarrow> tables \<Rightarrow> bool" where
  "auth_grows t t' \<longleftrightarrow> spent t \<subseteq> spent t' \<and> revoked_ids t \<subseteq> revoked_ids t'"

lemma auth_grows_refl [simp]: "auth_grows t t"
  by (simp add: auth_grows_def)

lemma auth_grows_trans: "auth_grows t t' \<Longrightarrow> auth_grows t' t'' \<Longrightarrow> auth_grows t t''"
  by (auto simp: auth_grows_def)

lemma auth_grows_cong: "auths t' = auths t \<Longrightarrow> hist t' = hist t \<Longrightarrow> auth_grows t t'"
  by (simp add: auth_grows_def spent_def revoked_ids_def)

lemma revoked_ids_upd:
  assumes "\<And>r. as_sessionId (auth (f r)) = as_sessionId (auth r)"
    and "\<And>r. as_revoked (auth r) \<Longrightarrow> as_revoked (auth (f r))"
  shows "revoked_ids t \<subseteq> revoked_ids (t\<lparr>auths := upd_where p f (auths t)\<rparr>)"
proof
  fix k assume "k \<in> revoked_ids t"
  then obtain r where r: "r \<in> set (auths t)" "as_revoked (auth r)" "k = as_sessionId (auth r)"
    by (auto simp: revoked_ids_def)
  let ?r = "if p r then f r else r"
  have "?r \<in> set (upd_where p f (auths t))" using r(1) by (simp only: set_upd_where) (rule imageI)
  moreover have "as_revoked (auth ?r)" "k = as_sessionId (auth ?r)" using r assms by simp_all
  ultimately show "k \<in> revoked_ids (t\<lparr>auths := upd_where p f (auths t)\<rparr>)"
    unfolding revoked_ids_def by force
qed

lemma auth_grows_revoke: "auth_grows t (t\<lparr>auths := upd_where p revoke_row (auths t)\<rparr>)"
  unfolding auth_grows_def using revoked_ids_upd [of revoke_row t p] by (simp add: spent_def)

lemma auth_grows_insert:
  assumes "insert_auth s now t = Some t'"
  shows "auth_grows t t'"
proof -
  have t': "auths t' = auths t @ [\<lparr>auth = s, created_at = now, last_used_at = now\<rparr>]"
    "hist t' = hist t" using insert_auth_Some [THEN iffD1, OF assms] by simp_all
  have "set (auths t) \<subseteq> set (auths t')" by (simp add: t' subset_insertI)
  then show ?thesis unfolding auth_grows_def spent_def revoked_ids_def t'(2) by blast
qed

lemma auth_grows_rotate:
  assumes "rotate_effect now old oldHash aH aE rH rE t = Some t'"
  shows "auth_grows t t'"
proof -
  note eff = rotate_effect_Some [OF assms]
  have "revoked_ids t' = revoked_ids (t\<lparr>auths := auths t'\<rparr>)" by (simp add: revoked_ids_def)
  then have "revoked_ids t \<subseteq> revoked_ids t'"
    using revoked_ids_upd [of "rotate_row now aH aE rH rE" t] eff(3) by simp
  then show ?thesis by (simp add: auth_grows_def spent_def eff(4) subset_insertI)
qed


end
