(* ===== verification/DbReach.thy ===== *)
theory DbReach
  imports DbAuth
begin

text \<open>
  The operations of \<open>Database\<close> as one step relation, with arbitrary arguments and arbitrary
  failures of sqlite3, and what holds of the database file in every state a sequence of them can
  reach: unique accounts, mutual friendships, gapless conversations, unique token hashes, and
  spent or revoked tokens that stay spent or revoked.
\<close>

subsection \<open>Steps\<close>

inductive db_step :: "dbconn \<Rightarrow> dbconn \<Rightarrow> bool" where
  Register: "db_step c (snd (registerUser x e nick tel pass c))"
| Login: "db_step c (snd (snd (loginUser x e tel pass c)))"
| AddFriend: "db_step c (snd (addFriendBidirectional e a b c))"
| RequestFriend: "db_step c (snd (createFriendRequest e now a b c))"
| Resolve: "db_step c (snd (resolveFriendRequest e now a b accept c))"
| RemoveFriend: "db_step c (snd (removeFriendBidirectional e a b c))"
| Save: "db_step c (snd (snd (saveMessage e m d c)))"
| Mark: "db_step c (markDelivered e ks c)"
| CreateAuth: "db_step c (snd (createAuthSession e now sid fid u dev aH aE rH rE c))"
| Rotate: "db_step c (snd (rotateRefreshToken e now old oldHash aH aE rH rE c))"
| RevokeFamily: "db_step c (snd (revokeTokenFamily e fid c))"
| RevokeSession: "db_step c (revokeSession_db e sid c)"
| RevokeAll: "db_step c (revokeAllUserSessions e u c)"

subsection \<open>What each operation leaves alone\<close>

definition part_users :: "tables \<Rightarrow> user_row list \<times> int" where
  "part_users t = (users t, user_ctr t)"

definition part_friends :: "tables \<Rightarrow> (int \<times> int) list \<times> freq_row list" where
  "part_friends t = (friends t, freqs t)"

definition part_msgs :: "tables \<Rightarrow> msg_row list \<times> int" where
  "part_msgs t = (messages t, msg_ctr t)"

definition part_auths :: "tables \<Rightarrow> auth_row list \<times> hist_row list" where
  "part_auths t = (auths t, hist t)"

lemmas part_defs = part_users_def part_friends_def part_msgs_def part_auths_def

text \<open>The invariants read their own part only.\<close>

lemma part_invs:
  "part_users t = part_users t' \<Longrightarrow> users_ok t \<Longrightarrow> users_ok t'"
  "part_friends t = part_friends t' \<Longrightarrow> friends_ok t \<Longrightarrow> friends_ok t'"
  "part_auths t = part_auths t' \<Longrightarrow> auths_ok t \<Longrightarrow> auths_ok t'"
  by (simp_all add: part_defs users_ok_def friends_ok_def auths_ok_def)

lemma part_msgs_ok: "part_msgs t = part_msgs t' \<Longrightarrow> messages_ok t \<Longrightarrow> messages_ok t'"
  by (rule messages_ok_cong [of t]) (simp_all add: part_msgs_def)

lemma insert_user_parts:
  assumes "insert_user name tel passwd feeling icon t = Some t'"
  shows "part_friends t' = part_friends t" "part_msgs t' = part_msgs t" "part_auths t' = part_auths t"
  using insert_user_other [OF assms] by (simp_all add: part_defs)

lemma register_frame:
  assumes "\<And>n p q fl k t t'. insert_user n p q fl k t = Some t' \<Longrightarrow> f t' = f t"
  shows "conn_frame f c (snd (registerUser x e nick tel pass c))"
  unfolding registerUser_def
  by (simp add: conn_frame_rollback split: option.split)
    (auto intro!: conn_frame_put assms)

lemma login_frame:
  assumes "\<And>t us. f (t\<lparr>users := us\<rparr>) = f t"
  shows "conn_frame f c (snd (snd (loginUser x e tel pass c)))"
  unfolding loginUser_def upgrade_password_def
  by (auto intro!: conn_frame_put assms split: option.split)

lemma save_frame:
  assumes "\<And>conv d m t t'. insert_message conv d m t = Some t' \<Longrightarrow> f t' = f t"
  shows "conn_frame f c (snd (snd (saveMessage e m d c)))"
proof -
  obtain ok m' c' where s: "saveMessage e m d c = (ok, m', c')" by (rule prod_cases3)
  from s have "conn_frame f c c'"
  proof (cases rule: saveMessage_cases)
    case (Known r)
    then show ?thesis by (simp add: conn_frame_def)
  next
    case (Stored t k)
    then show ?thesis using assms [OF Stored(4)] by (simp add: conn_frame_disk)
  qed simp
  then show ?thesis by (simp add: s)
qed

lemma mark_frame:
  assumes "\<And>t ms. f (t\<lparr>messages := ms\<rparr>) = f t"
  shows "conn_frame f c (markDelivered e ks c)"
  unfolding markDelivered_def by (simp add: conn_frame_put assms)

lemma create_request_frame:
  assumes "\<And>t rs. f (t\<lparr>freqs := rs\<rparr>) = f t"
  shows "conn_frame f c (snd (createFriendRequest e now a b c))"
  unfolding createFriendRequest_def by (simp add: conn_frame_put assms)

lemma create_auth_frame:
  assumes "\<And>s now t t'. insert_auth s now t = Some t' \<Longrightarrow> f t' = f t"
  shows "conn_frame f c (snd (createAuthSession e now sid fid u dev aH aE rH rE c))"
  unfolding createAuthSession_def
  by (simp split: option.split) (auto intro!: conn_frame_put assms)

lemma revoke_frame:
  assumes "\<And>t rs. f (t\<lparr>auths := rs\<rparr>) = f t"
  shows "conn_frame f c (revoke_where p c)"
  unfolding revoke_where_def by (simp add: conn_frame_put assms)

lemma add_effect_parts:
  "part_users (add_effect a b t) = part_users t" "part_msgs (add_effect a b t) = part_msgs t"
  "part_auths (add_effect a b t) = part_auths t"
  by (simp_all add: part_defs add_effect_def)

lemma resolve_effect_parts:
  assumes "resolve_effect now a b accept t = Some t'"
  shows "part_users t' = part_users t" "part_msgs t' = part_msgs t" "part_auths t' = part_auths t"
proof -
  obtain rs where "t' = (if accept then (add_effect a b t)\<lparr>freqs := rs\<rparr> else t\<lparr>freqs := rs\<rparr>)"
    using assms by (auto simp: resolve_effect_def Let_def split: if_splits)
  then show "part_users t' = part_users t" "part_msgs t' = part_msgs t" "part_auths t' = part_auths t"
    using add_effect_parts [of a b t] by (simp_all add: part_defs)
qed

lemma rotate_effect_parts:
  assumes "rotate_effect now old oldHash aH aE rH rE t = Some t'"
  shows "part_users t' = part_users t" "part_friends t' = part_friends t" "part_msgs t' = part_msgs t"
  using arg_cong [OF rotate_effect_Some(7) [OF assms], of part_users]
    arg_cong [OF rotate_effect_Some(7) [OF assms], of part_friends]
    arg_cong [OF rotate_effect_Some(7) [OF assms], of part_msgs]
  by (simp_all add: part_defs)

lemma insert_message_parts:
  assumes "insert_message conv d m t = Some t'"
  shows "part_users t' = part_users t" "part_friends t' = part_friends t" "part_auths t' = part_auths t"
  using insert_message_Some [THEN iffD1, OF assms] by (simp_all add: part_defs)

lemma insert_auth_parts:
  assumes "insert_auth s now t = Some t'"
  shows "part_users t' = part_users t" "part_friends t' = part_friends t" "part_msgs t' = part_msgs t"
  using insert_auth_Some [THEN iffD1, OF assms] by (simp_all add: part_defs)

lemma remove_effect_parts:
  assumes "remove_effect a b t = Some t'"
  shows "part_users t' = part_users t" "part_msgs t' = part_msgs t" "part_auths t' = part_auths t"
  using assms by (auto simp: remove_effect_def part_defs split: if_splits)

lemma frame_register:
  shows "conn_frame part_friends c (snd (registerUser x e nick tel pass c))"
    and "conn_frame part_msgs c (snd (registerUser x e nick tel pass c))"
    and "conn_frame part_auths c (snd (registerUser x e nick tel pass c))"
  by (rule register_frame, erule insert_user_parts)+

lemma frame_add:
  shows "conn_frame part_users c (snd (addFriendBidirectional e a b c))"
    and "conn_frame part_msgs c (snd (addFriendBidirectional e a b c))"
    and "conn_frame part_auths c (snd (addFriendBidirectional e a b c))"
  by (rule add_friend.frame, use add_effect_parts in auto)+

lemma frame_resolve:
  shows "conn_frame part_users c (snd (resolveFriendRequest e now a b accept c))"
    and "conn_frame part_msgs c (snd (resolveFriendRequest e now a b accept c))"
    and "conn_frame part_auths c (snd (resolveFriendRequest e now a b accept c))"
  by (rule resolve.frame, erule resolve_effect_parts)+

lemma frame_remove:
  shows "conn_frame part_users c (snd (removeFriendBidirectional e a b c))"
    and "conn_frame part_msgs c (snd (removeFriendBidirectional e a b c))"
    and "conn_frame part_auths c (snd (removeFriendBidirectional e a b c))"
  by (rule remove_friend.frame, erule remove_effect_parts)+

lemma frame_save:
  shows "conn_frame part_users c (snd (snd (saveMessage e m d c)))"
    and "conn_frame part_friends c (snd (snd (saveMessage e m d c)))"
    and "conn_frame part_auths c (snd (snd (saveMessage e m d c)))"
  by (rule save_frame, erule insert_message_parts)+

lemma frame_create_auth:
  shows "conn_frame part_users c (snd (createAuthSession e now sid fid u dev aH aE rH rE c))"
    and "conn_frame part_friends c (snd (createAuthSession e now sid fid u dev aH aE rH rE c))"
    and "conn_frame part_msgs c (snd (createAuthSession e now sid fid u dev aH aE rH rE c))"
  by (rule create_auth_frame, erule insert_auth_parts)+

lemma frame_rotate:
  shows "conn_frame part_users c (snd (rotateRefreshToken e now old oldHash aH aE rH rE c))"
    and "conn_frame part_friends c (snd (rotateRefreshToken e now old oldHash aH aE rH rE c))"
    and "conn_frame part_msgs c (snd (rotateRefreshToken e now old oldHash aH aE rH rE c))"
  by (rule rotate.frame, erule rotate_effect_parts)+

lemma frame_login:
  shows "conn_frame part_friends c (snd (snd (loginUser x e tel pass c)))"
    and "conn_frame part_msgs c (snd (snd (loginUser x e tel pass c)))"
    and "conn_frame part_auths c (snd (snd (loginUser x e tel pass c)))"
  by (rule login_frame, simp add: part_defs)+

lemma frame_request:
  shows "conn_frame part_users c (snd (createFriendRequest e now a b c))"
    and "conn_frame part_msgs c (snd (createFriendRequest e now a b c))"
    and "conn_frame part_auths c (snd (createFriendRequest e now a b c))"
  by (rule create_request_frame, simp add: part_defs)+

lemma frame_mark:
  shows "conn_frame part_users c (markDelivered e ks c)"
    and "conn_frame part_friends c (markDelivered e ks c)"
    and "conn_frame part_auths c (markDelivered e ks c)"
  by (rule mark_frame, simp add: part_defs)+

lemma frame_revoke_where:
  shows "conn_frame part_users c (revoke_where p c)"
    and "conn_frame part_friends c (revoke_where p c)"
    and "conn_frame part_msgs c (revoke_where p c)"
  by (rule revoke_frame, simp add: part_defs)+

text \<open>The three revocations either do nothing or revoke some rows.\<close>

lemma revocations:
  "snd (revokeTokenFamily e fid c) = c \<or> (\<exists>p. snd (revokeTokenFamily e fid c) = revoke_where p c)"
  "revokeSession_db e sid c = c \<or> (\<exists>p. revokeSession_db e sid c = revoke_where p c)"
  "revokeAllUserSessions e u c = c \<or> (\<exists>p. revokeAllUserSessions e u c = revoke_where p c)"
  by (auto simp: revokeTokenFamily_def revokeSession_db_def revokeAllUserSessions_def Let_def)

text \<open>Every step is a registration, a login, ..., or a revocation of some rows, or does nothing.\<close>

lemma step_revokes:
  assumes "\<And>p. P (revoke_where p c)" and "P c"
  shows "P (snd (revokeTokenFamily e fid c))" "P (revokeSession_db e sid c)"
    "P (revokeAllUserSessions e u c)"
  using revocations(1) [of e fid c] revocations(2) [of e sid c] revocations(3) [of e u c] assms
  by metis+

subsection \<open>The invariant of the file\<close>

lemma createAuthSession_ok:
  assumes "conn_inv auths_ok c"
  shows "conn_inv auths_ok (snd (createAuthSession e now sid fid u dev aH aE rH rE c))"
  unfolding createAuthSession_def
  using assms insert_auth_ok [OF conn_inv_current [OF assms]]
  by (simp add: conn_inv_put split: option.split)

lemma rotateRefreshToken_ok:
  "conn_inv auths_ok c \<Longrightarrow> conn_inv auths_ok (snd (rotateRefreshToken e now old oldHash aH aE rH rE c))"
  by (rule rotate.invariant) (auto intro: rotate_effect_ok)

lemma revoke_where_ok: "conn_inv auths_ok c \<Longrightarrow> conn_inv auths_ok (revoke_where p c)"
  unfolding revoke_where_def by (rule conn_inv_put) (auto intro: auths_ok_revoke conn_inv_current)

lemma step_users:
  assumes "db_step c c'" and inv: "conn_inv users_ok c"
  shows "conn_inv users_ok c'"
  using assms(1)
proof cases
  case Register then show ?thesis using registerUser_users_ok [OF inv] by simp
next
  case Login then show ?thesis using loginUser_users_ok [OF inv] by simp
next
  case AddFriend then show ?thesis using conn_frame_inv [OF inv frame_add(1) part_invs(1)] by simp
next
  case RequestFriend then show ?thesis using conn_frame_inv [OF inv frame_request(1) part_invs(1)] by simp
next
  case Resolve then show ?thesis using conn_frame_inv [OF inv frame_resolve(1) part_invs(1)] by simp
next
  case RemoveFriend then show ?thesis using conn_frame_inv [OF inv frame_remove(1) part_invs(1)] by simp
next
  case Save then show ?thesis using conn_frame_inv [OF inv frame_save(1) part_invs(1)] by simp
next
  case Mark then show ?thesis using conn_frame_inv [OF inv frame_mark(1) part_invs(1)] by simp
next
  case CreateAuth then show ?thesis using conn_frame_inv [OF inv frame_create_auth(1) part_invs(1)] by simp
next
  case Rotate then show ?thesis using conn_frame_inv [OF inv frame_rotate(1) part_invs(1)] by simp
qed (use step_revokes [of "conn_inv users_ok" c, OF conn_frame_inv [OF inv frame_revoke_where(1) part_invs(1)] inv] in simp_all)

lemma step_friends:
  assumes "db_step c c'" and inv: "conn_inv friends_ok c"
  shows "conn_inv friends_ok c'"
  using assms(1)
proof cases
  case Register then show ?thesis using conn_frame_inv [OF inv frame_register(1) part_invs(2)] by simp
next
  case Login then show ?thesis using conn_frame_inv [OF inv frame_login(1) part_invs(2)] by simp
next
  case AddFriend then show ?thesis using addFriendBidirectional_ok [OF inv] by simp
next
  case RequestFriend then show ?thesis using createFriendRequest_ok [OF inv] by simp
next
  case Resolve then show ?thesis using resolveFriendRequest_ok [OF inv] by simp
next
  case RemoveFriend then show ?thesis using removeFriendBidirectional_ok [OF inv] by simp
next
  case Save then show ?thesis using conn_frame_inv [OF inv frame_save(2) part_invs(2)] by simp
next
  case Mark then show ?thesis using conn_frame_inv [OF inv frame_mark(2) part_invs(2)] by simp
next
  case CreateAuth then show ?thesis using conn_frame_inv [OF inv frame_create_auth(2) part_invs(2)] by simp
next
  case Rotate then show ?thesis using conn_frame_inv [OF inv frame_rotate(2) part_invs(2)] by simp
qed (use step_revokes [of "conn_inv friends_ok" c, OF conn_frame_inv [OF inv frame_revoke_where(2) part_invs(2)] inv] in simp_all)

lemma step_msgs:
  assumes "db_step c c'" and inv: "conn_inv messages_ok c"
  shows "conn_inv messages_ok c'"
  using assms(1)
proof cases
  case Register then show ?thesis using conn_frame_inv [OF inv frame_register(2) part_msgs_ok] by simp
next
  case Login then show ?thesis using conn_frame_inv [OF inv frame_login(2) part_msgs_ok] by simp
next
  case AddFriend then show ?thesis using conn_frame_inv [OF inv frame_add(2) part_msgs_ok] by simp
next
  case RequestFriend then show ?thesis using conn_frame_inv [OF inv frame_request(2) part_msgs_ok] by simp
next
  case Resolve then show ?thesis using conn_frame_inv [OF inv frame_resolve(2) part_msgs_ok] by simp
next
  case RemoveFriend then show ?thesis using conn_frame_inv [OF inv frame_remove(2) part_msgs_ok] by simp
next
  case Save then show ?thesis using saveMessage_ok [OF inv] by simp
next
  case Mark then show ?thesis using markDelivered_ok [OF inv] by simp
next
  case CreateAuth then show ?thesis using conn_frame_inv [OF inv frame_create_auth(3) part_msgs_ok] by simp
next
  case Rotate then show ?thesis using conn_frame_inv [OF inv frame_rotate(3) part_msgs_ok] by simp
qed (use step_revokes [of "conn_inv messages_ok" c, OF conn_frame_inv [OF inv frame_revoke_where(3) part_msgs_ok] inv] in simp_all)

lemma step_auths:
  assumes "db_step c c'" and inv: "conn_inv auths_ok c"
  shows "conn_inv auths_ok c'"
  using assms(1)
proof cases
  case Register then show ?thesis using conn_frame_inv [OF inv frame_register(3) part_invs(3)] by simp
next
  case Login then show ?thesis using conn_frame_inv [OF inv frame_login(3) part_invs(3)] by simp
next
  case AddFriend then show ?thesis using conn_frame_inv [OF inv frame_add(3) part_invs(3)] by simp
next
  case RequestFriend then show ?thesis using conn_frame_inv [OF inv frame_request(3) part_invs(3)] by simp
next
  case Resolve then show ?thesis using conn_frame_inv [OF inv frame_resolve(3) part_invs(3)] by simp
next
  case RemoveFriend then show ?thesis using conn_frame_inv [OF inv frame_remove(3) part_invs(3)] by simp
next
  case Save then show ?thesis using conn_frame_inv [OF inv frame_save(3) part_invs(3)] by simp
next
  case Mark then show ?thesis using conn_frame_inv [OF inv frame_mark(3) part_invs(3)] by simp
next
  case CreateAuth then show ?thesis using createAuthSession_ok [OF inv] by simp
next
  case Rotate then show ?thesis using rotateRefreshToken_ok [OF inv] by simp
qed (use step_revokes [of "conn_inv auths_ok" c, OF revoke_where_ok [OF inv] inv] in simp_all)

definition db_inv :: "tables \<Rightarrow> bool" where
  "db_inv t \<longleftrightarrow> users_ok t \<and> friends_ok t \<and> messages_ok t \<and> auths_ok t"

lemma conn_inv_db_inv:
  "conn_inv db_inv c \<longleftrightarrow> conn_inv users_ok c \<and> conn_inv friends_ok c \<and> conn_inv messages_ok c \<and>
     conn_inv auths_ok c"
  by (auto simp: conn_inv_def db_inv_def)

lemma step_db_inv: "db_step c c' \<Longrightarrow> conn_inv db_inv c \<Longrightarrow> conn_inv db_inv c'"
  by (simp add: conn_inv_db_inv step_users step_friends step_msgs step_auths)

lemma reach_db_inv: "db_step\<^sup>*\<^sup>* c c' \<Longrightarrow> conn_inv db_inv c \<Longrightarrow> conn_inv db_inv c'"
  by (induction rule: rtranclp_induct) (auto intro: step_db_inv)

text \<open>
  C5. In every state that any sequence of the operations that write (registration to revocation)
  reaches from a well-formed file, with any arguments and any failures of sqlite3, including
  commits that fail: accounts are unique,
  every friendship is mutual, the messages of each conversation are numbered 1, 2, ..., n under
  unique message ids, and no session id or token hash occurs twice.
\<close>

theorem database_invariant:
  assumes "db_inv (disk c)" and "txn c = None" and "db_step\<^sup>*\<^sup>* c c'"
  shows "users_ok (disk c') \<and> friends_ok (disk c') \<and> messages_ok (disk c') \<and> auths_ok (disk c') \<and>
         (\<forall>a b. (a, b) \<in> set (friends (disk c')) \<longleftrightarrow> (b, a) \<in> set (friends (disk c'))) \<and>
         (\<forall>conv. conv_seqs conv (disk c') = [1..int (length (conv_rows conv (disk c')))])"
proof -
  have "conn_inv db_inv c" using assms(1,2) by (simp add: conn_inv_def)
  then have "db_inv (disk c')" using reach_db_inv [OF assms(3)] conn_inv_disk by blast
  then show ?thesis
    using friends_ok_sym contiguous_all unfolding db_inv_def contiguous_def by blast
qed

theorem database_invariant_witness:
  "messages_ok (disk (snd (snd (saveMessage no_faults (sample_msg ''k'' 7 0) False sample_conn))))"
proof -
  have "db_inv (disk sample_conn)"
    by (simp add: db_inv_def) (simp add: sample_conn_def users_ok_def friends_ok_def mutual_def
        auths_ok_def empty_tables_def)
  then show ?thesis
    using database_invariant [OF _ sample_txn r_into_rtranclp, OF _ db_step.Save] by blast
qed

lemma seed_insert_step:
  assumes "argon2_hash x (sha256Hex ''123456'') = Some h"
    and "insert_user nick tel (cstr h) feeling (int i + 1) t = Some t'"
  shows "seed_insert x no_faults i ((nick, tel, feeling) # us) ids lastId \<lparr>disk = d, txn = Some t\<rparr> =
    seed_insert x no_faults (i + 1) us (ids @ [user_ctr t']) (user_ctr t')
      \<lparr>disk = d, txn = Some t'\<rparr>"
  using assms by (simp add: txn_steps)

text \<open>The row of the seed user with a number, under the hash \<open>h\<close>.\<close>

definition seed_row :: "string \<Rightarrow> nat \<Rightarrow> user_row" where
  "seed_row h i = \<lparr>u_id = int i + 1, u_name = fst (seed_users ! i), u_tel = fst (snd (seed_users ! i)),
     u_passwd = cstr h, u_salt = [], u_algo = ''argon2id'', u_feeling = snd (snd (seed_users ! i)),
     u_iconid = int i + 1\<rparr>"

definition seeded :: "string \<Rightarrow> tables" where
  "seeded h = empty_tables\<lparr>users := [seed_row h 0, seed_row h 1, seed_row h 2], user_ctr := 3\<rparr>"

lemma seed_insert_empty:
  assumes "argon2_hash x (sha256Hex ''123456'') = Some h"
  shows "seed_insert x no_faults 0 seed_users [] 0 \<lparr>disk = d, txn = Some empty_tables\<rparr> =
    (Returns [1, 2, 3], \<lparr>disk = d, txn = Some (seeded h)\<rparr>)"
  unfolding seed_users_def
  apply (subst seed_insert_step [OF assms], simp (no_asm) add: insert_user_def empty_tables_def)
  apply (subst seed_insert_step [OF assms], simp (no_asm) add: insert_user_def empty_tables_def)
  apply (subst seed_insert_step [OF assms], simp (no_asm) add: insert_user_def empty_tables_def)
  apply (simp (no_asm) add: seeded_def seed_row_def seed_users_def empty_tables_def)
  done

text \<open>
  Seeding an empty file without faults leaves three accounts with ids 1, 2 and 3, whose
  friendships are those of 1 with 2 and of 2 with 3, and a well-formed file with no open
  transaction, from which the other operations start; seeding again changes nothing.
\<close>

theorem seed_gives_well_formed_file:
  assumes "argon2_hash x (sha256Hex ''123456'') = Some h"
    and "c = snd (seedIfEmpty x no_faults \<lparr>disk = empty_tables, txn = None\<rparr>)"
  shows "db_inv (disk c) \<and> txn c = None \<and> map u_id (users (disk c)) = [1, 2, 3] \<and>
         friends (disk c) = [(1, 2), (2, 1), (2, 3), (3, 2)] \<and>
         seedIfEmpty x no_faults c = (Returns (), c)"
proof -
  let ?fs = "[(1, 2), (2, 1), (2, 3), (3, 2)]"
  have e: "users empty_tables = []" "friends (seeded h) = []"
    by (simp_all add: empty_tables_def seeded_def)
  have "c = snd (sql_commit True (seed_pairs no_faults 4 ?fs
      \<lparr>disk = empty_tables, txn = Some (seeded h)\<rparr>))"
    unfolding assms(2) seedIfEmpty_def
    by (simp add: sql_begin_def seed_insert_empty [OF assms(1)] e Let_def del: seed_pairs.simps)
  also have "seed_pairs no_faults 4 ?fs \<lparr>disk = empty_tables, txn = Some (seeded h)\<rparr> =
      \<lparr>disk = empty_tables, txn = Some ((seeded h)\<lparr>friends := ?fs\<rparr>)\<rparr>"
    by (simp add: txn_steps insert_friend_def e)
  finally have c: "c = \<lparr>disk = (seeded h)\<lparr>friends := ?fs\<rparr>, txn = None\<rparr>"
    by (simp add: txn_steps)
  have "users_ok (disk c)" by (simp add: c seeded_def users_ok_def seed_row_def seed_users_def)
  moreover have "friends_ok (disk c)"
    by (simp add: c seeded_def friends_ok_def mutual_def empty_tables_def)
  moreover have "messages_ok (disk c)" "auths_ok (disk c)"
    by (simp_all add: c seeded_def messages_ok_def auths_ok_def empty_tables_def)
  ultimately show ?thesis
    by (simp add: db_inv_def) (simp add: c seedIfEmpty_def seeded_def seed_row_def)
qed

theorem seed_gives_well_formed_file_witness:
  "db_inv (disk (snd (seedIfEmpty \<lparr>argon2_hash = Some, argon2_verify = (=), evp_sha256 = Some\<rparr>
     no_faults \<lparr>disk = empty_tables, txn = None\<rparr>)))"
  using seed_gives_well_formed_file [OF _ refl, of
      "\<lparr>argon2_hash = Some, argon2_verify = (=), evp_sha256 = Some\<rparr>" "sha256Hex ''123456''"]
  by simp

subsection \<open>A sample session\<close>

definition sample_session :: AuthSessionRecord where
  "sample_session = \<lparr>as_sessionId = ''s'', as_familyId = ''f'', as_userId = 1, as_deviceId = ''d'',
     as_accessHash = ''a'', as_accessExpiresAt = 100, as_refreshHash = ''r'',
     as_refreshExpiresAt = 1000, as_generation = 1, as_revoked = False\<rparr>"

definition sample_auth :: "bool \<Rightarrow> dbconn" where
  "sample_auth revoked = \<lparr>disk = empty_tables\<lparr>auths := [\<lparr>auth = sample_session\<lparr>as_revoked := revoked\<rparr>,
     created_at = 1, last_used_at = 1\<rparr>]\<rparr>, txn = None\<rparr>"

lemma sample_auth_txn [simp]: "txn (sample_auth b) = None"
  by (simp add: sample_auth_def)

lemma sample_auth_inv [simp]: "db_inv (disk (sample_auth b))"
  by (simp add: sample_auth_def db_inv_def users_ok_def friends_ok_def mutual_def messages_ok_def
      auths_ok_def empty_tables_def)

lemma cstr_one: "c \<noteq> CHR 0x00 \<Longrightarrow> cstr [c] = [c]"
  by (simp add: cstr_def)

subsection \<open>Spent and revoked\<close>

text \<open>An open transaction has not forgotten anything of the file.\<close>

definition conn_mono :: "dbconn \<Rightarrow> bool" where
  "conn_mono c \<longleftrightarrow> auth_grows (disk c) (current c)"

definition conn_grows :: "dbconn \<Rightarrow> dbconn \<Rightarrow> bool" where
  "conn_grows c c' \<longleftrightarrow> (conn_mono c \<longrightarrow> conn_mono c' \<and> auth_grows (disk c) (disk c'))"

lemma conn_mono_closed [simp]: "txn c = None \<Longrightarrow> conn_mono c"
  by (simp add: conn_mono_def)

lemma conn_grows_refl [simp]: "conn_grows c c"
  by (simp add: conn_grows_def)

lemma conn_grows_put: "auth_grows (current c) t \<Longrightarrow> conn_grows c (put_tables t c)"
  by (auto simp: conn_grows_def conn_mono_def intro: auth_grows_trans)

lemma conn_grows_frame:
  assumes "conn_frame part_auths c c'"
  shows "conn_grows c c'"
proof -
  have eq: "part_auths t = part_auths t' \<Longrightarrow> auth_grows u t = auth_grows u t'" for t t' u
    by (simp add: part_auths_def auth_grows_def spent_def revoked_ids_def)
  have eq': "part_auths t = part_auths t' \<Longrightarrow> auth_grows t u = auth_grows t' u" for t t' u
    by (simp add: part_auths_def auth_grows_def spent_def revoked_ids_def)
  have d: "part_auths (disk c') = part_auths (disk c) \<or> part_auths (disk c') = part_auths (current c)"
    using assms by (simp add: conn_frame_def)
  show ?thesis
  proof (cases "txn c'")
    case None
    then show ?thesis
      using d eq [of "disk c'" "disk c" "disk c"] eq [of "disk c'" "current c" "disk c"]
      by (auto simp: conn_grows_def conn_mono_def)
  next
    case (Some t)
    then have "part_auths (disk c') = part_auths (disk c)" "part_auths t = part_auths (current c)"
      using assms by (simp_all add: conn_frame_def)
    then show ?thesis
      using eq [of "disk c'" "disk c" "disk c"] eq [of t "current c" "disk c"]
        eq' [of "disk c'" "disk c" t] Some
      by (simp add: conn_grows_def conn_mono_def)
  qed
qed

lemma conn_grows_rotate: "conn_grows c (snd (rotateRefreshToken e now old oldHash aH aE rH rE c))"
  using rotate_outcome [of e now old oldHash aH aE rH rE c]
proof (elim disjE exE conjE)
  fix t assume "txn c = None" "rotate_effect now old oldHash aH aE rH rE (disk c) = Some t"
    "rotateRefreshToken e now old oldHash aH aE rH rE c = (True, c\<lparr>disk := t\<rparr>)"
  then show ?thesis by (simp add: conn_grows_def auth_grows_rotate)
qed simp

lemma conn_grows_revoke: "conn_grows c (revoke_where p c)"
  unfolding revoke_where_def by (rule conn_grows_put) (rule auth_grows_revoke)

lemma conn_grows_create: "conn_grows c (snd (createAuthSession e now sid fid u dev aH aE rH rE c))"
  unfolding createAuthSession_def
  by (auto intro!: conn_grows_put auth_grows_insert split: option.split)

lemma step_grows:
  assumes "db_step c c'"
  shows "conn_grows c c'"
  using assms
proof cases
  case Register then show ?thesis using conn_grows_frame [OF frame_register(3)] by simp
next
  case Login then show ?thesis using conn_grows_frame [OF frame_login(3)] by simp
next
  case AddFriend then show ?thesis using conn_grows_frame [OF frame_add(3)] by simp
next
  case RequestFriend then show ?thesis using conn_grows_frame [OF frame_request(3)] by simp
next
  case Resolve then show ?thesis using conn_grows_frame [OF frame_resolve(3)] by simp
next
  case RemoveFriend then show ?thesis using conn_grows_frame [OF frame_remove(3)] by simp
next
  case Save then show ?thesis using conn_grows_frame [OF frame_save(3)] by simp
next
  case Mark then show ?thesis using conn_grows_frame [OF frame_mark(3)] by simp
next
  case CreateAuth then show ?thesis using conn_grows_create by simp
next
  case Rotate then show ?thesis using conn_grows_rotate by simp
qed (use step_revokes [of "conn_grows c" c, OF conn_grows_revoke conn_grows_refl] in simp_all)

lemma reach_grows:
  assumes "db_step\<^sup>*\<^sup>* c c'" and "conn_mono c"
  shows "conn_mono c' \<and> auth_grows (disk c) (disk c')"
  using assms
proof (induction rule: rtranclp_induct)
  case (step b c')
  then show ?case using step_grows [OF step(2)] auth_grows_trans by (auto simp: conn_grows_def)
qed simp

lemma rotate_spent:
  "cstr H \<in> spent (disk c) \<Longrightarrow> rotateRefreshToken e now old H aH aE rH rE c = (False, c)"
  by (rule rotate.no_effect) (auto simp: rotate_effect_def spent_def)

lemma refresh_hash_once:
  assumes "rotateRefreshToken e now old H aH aE rH rE c = (True, c1)" and "db_step\<^sup>*\<^sup>* c1 c2"
  shows "rotateRefreshToken e' now' old' H aH' aE' rH' rE' c2 = (False, c2)"
proof -
  have c1: "txn c = None" "rotate_effect now old H aH aE rH rE (disk c) = Some (disk c1)"
    using rotate.True_effect [OF assms(1)] by simp_all
  have "txn c1 = None"
    using rotate.txn_same [of e now old H aH aE rH rE c] assms(1) c1(1) by simp
  then have "auth_grows (disk c1) (disk c2)" using reach_grows [OF assms(2)] by simp
  moreover have "cstr H \<in> spent (disk c1)" using rotate_effect_Some(4) [OF c1(2)] by (simp add: spent_def)
  ultimately show ?thesis by (intro rotate_spent) (auto simp: auth_grows_def)
qed

text \<open>
  A refresh token hash can be exchanged at most once in the life of the database: after an
  exchange has succeeded, every other exchange of it fails and changes nothing, after any number
  of operations and failures in between and whatever session record the caller believes in.
\<close>

theorem refresh_hash_spent_once:
  assumes "rotateRefreshToken e now old H aH aE rH rE c = (True, c1)" and "db_step\<^sup>*\<^sup>* c1 c2"
  shows "rotateRefreshToken e' now' old' H aH' aE' rH' rE' c2 = (False, c2)"
  by (rule refresh_hash_once [OF assms])

theorem refresh_hash_spent_once_witness:
  "\<exists>c1. rotateRefreshToken no_faults 5 sample_session ''r'' ''a2'' 6 ''r2'' 7 (sample_auth False) = (True, c1) \<and>
     rotateRefreshToken no_faults 5 sample_session ''r'' ''a3'' 6 ''r3'' 7 c1 = (False, c1)"
proof -
  obtain c1 where c1: "rotateRefreshToken no_faults 5 sample_session ''r'' ''a2'' 6 ''r2'' 7
      (sample_auth False) = (True, c1)"
    by (simp add: rotate.faultless rotate_effect_def sample_auth_def empty_tables_def changes_def
        rotated_from_def sample_session_def cstr_one update_auths_def upd_where_def Let_def)
  then show ?thesis using refresh_hash_spent_once [OF c1 rtranclp.rtrancl_refl] by blast
qed

text \<open>
  No operation takes back a revocation: a session that is revoked in the file is revoked in
  every file reached later, so a lookup of any of its token hashes finds it revoked.
\<close>

theorem revocation_is_final:
  assumes "db_inv (disk c)" and "txn c = None" and "s \<in> revoked_ids (disk c)" and "db_step\<^sup>*\<^sup>* c c'"
  shows "s \<in> revoked_ids (disk c') \<and>
         (\<forall>h r. findByAccessHash e h c' = Some r \<longrightarrow> as_sessionId r = s \<longrightarrow> as_revoked r) \<and>
         (\<forall>h r. findByRefreshHash e h c' = Some r \<longrightarrow> as_sessionId r = s \<longrightarrow> as_revoked r)"
proof -
  have "conn_inv db_inv c'" using reach_db_inv [OF assms(4)] assms(1,2) by (simp add: conn_inv_def)
  then have d: "distinct (map (\<lambda>r. as_sessionId (auth r)) (auths (disk c')))"
    by (simp add: conn_inv_def db_inv_def auths_ok_def)
  have s: "s \<in> revoked_ids (disk c')"
    using reach_grows [OF assms(4)] assms(2,3) by (auto simp: auth_grows_def)
  then obtain q where q: "q \<in> set (auths (disk c'))" "as_revoked (auth q)" "s = as_sessionId (auth q)"
    by (auto simp: revoked_ids_def)
  have "as_revoked (auth r)" if "r \<in> set (auths (disk c'))" "as_sessionId (auth r) = s" for r
    using distinct_map_eq [OF d q(1) that(1)] q that by simp
  then show ?thesis
    using s by (auto simp: findByAccessHash_def findByRefreshHash_def dest: read_row_SomeD)
qed

theorem revocation_is_final_witness:
  "''s'' \<in> revoked_ids (disk (snd (createAuthSession no_faults 9 ''t'' ''g'' 1 ''d'' ''x'' 50 ''y'' 60
     (sample_auth True))))"
proof -
  have "''s'' \<in> revoked_ids (disk (sample_auth True))"
    by (simp add: revoked_ids_def sample_auth_def sample_session_def)
  from revocation_is_final [OF sample_auth_inv sample_auth_txn this r_into_rtranclp,
      OF db_step.CreateAuth] show ?thesis by blast
qed

end
