(* ===== verification/TokenService.thy ===== *)
theory TokenService
  imports DbReach
begin

text \<open>
  \<open>auth/TokenService\<close>: access and refresh tokens over the session table. Random tokens and the
  digest of OpenSSL are parameters: \<open>rnd i\<close> are the random bytes of the i-th call of
  \<open>randomToken\<close> in the operation (None when it throws), \<open>evp_sha256\<close> the digest. Only hashes reach the database.
\<close>

subsection \<open>Tokens\<close>

record TokenPair =
  tp_sessionId :: string
  tp_familyId :: string
  tp_accessToken :: string
  tp_refreshToken :: string
  tp_accessExpiresAt :: int
  tp_refreshExpiresAt :: int

definition no_pair :: TokenPair where
  "no_pair = \<lparr>tp_sessionId = [], tp_familyId = [], tp_accessToken = [], tp_refreshToken = [],
     tp_accessExpiresAt = 0, tp_refreshExpiresAt = 0\<rparr>"

record cache_entry =
  ce_refreshHash :: string
  ce_deviceId :: string
  ce_pair :: TokenPair
  ce_expiresAt :: int

type_synonym refresh_cache = "(string, cache_entry) umap"

text \<open>
  The world around one operation: the clock, the random tokens, the digest, the calls of
  sqlite3, and which entry of the unordered map \<open>begin()\<close> points to.
\<close>

record tenv =
  now :: int
  rnd :: "nat \<Rightarrow> bytes option"
  ext :: extern
  sql :: sqlenv
  begin_at :: nat

text \<open>\<open>randomToken\<close>: 32 random bytes in hexadecimal.\<close>

definition randomToken :: "bytes option \<Rightarrow> string option" where
  "randomToken bs = map_option toHex bs"

definition tokenHash :: "extern \<Rightarrow> string \<Rightarrow> string option" where
  "tokenHash x token = map_option toHex (evp_sha256 x (bytes_of token))"

subsection \<open>Issue and validation\<close>

definition issue :: "tenv \<Rightarrow> int \<Rightarrow> string \<Rightarrow> dbconn \<Rightarrow> TokenPair exc \<times> dbconn" where
  "issue e userId deviceId c =
     (case (randomToken (rnd e 0), randomToken (rnd e 1), randomToken (rnd e 2), randomToken (rnd e 3)) of
        (Some sid, Some fid, Some acc, Some ref) \<Rightarrow>
          let pair = \<lparr>tp_sessionId = sid, tp_familyId = fid, tp_accessToken = acc,
                tp_refreshToken = ref, tp_accessExpiresAt = now e + 5 * 60,
                tp_refreshExpiresAt = now e + 2 * 24 * 60 * 60\<rparr>
          in (case (tokenHash (ext e) acc, tokenHash (ext e) ref) of
                (Some accHash, Some refHash) \<Rightarrow>
                  let (saved, c1) = createAuthSession (sql e) (now e) sid fid userId deviceId accHash
                        (tp_accessExpiresAt pair) refHash (tp_refreshExpiresAt pair) c
                  in (if saved then Returns pair else Throws, c1)
              | _ \<Rightarrow> (Throws, c))
      | _ \<Rightarrow> (Throws, c))"

text \<open>The user, the session and the expiry of a valid access token; None is \<open>false\<close>.\<close>

definition validateAccess ::
  "tenv \<Rightarrow> string \<Rightarrow> string \<Rightarrow> string \<Rightarrow> dbconn \<Rightarrow> (int \<times> string \<times> int) option exc" where
  "validateAccess e token sessionId deviceId c =
     (if token = [] \<or> deviceId = [] then Returns None
      else case tokenHash (ext e) token of
        None \<Rightarrow> Throws
      | Some h \<Rightarrow>
          (case findByAccessHash (sql e) h c of
             None \<Rightarrow> Returns None
           | Some r \<Rightarrow>
               if as_revoked r \<or> as_accessExpiresAt r \<le> now e \<or> as_deviceId r \<noteq> deviceId \<or>
                  (sessionId \<noteq> [] \<and> as_sessionId r \<noteq> sessionId)
               then Returns None
               else Returns (Some (as_userId r, as_sessionId r, as_accessExpiresAt r))))"

subsection \<open>Rotation\<close>

text \<open>The loop that erases the expired entries.\<close>

definition purge_cache :: "int \<Rightarrow> refresh_cache \<Rightarrow> refresh_cache" where
  "purge_cache t m = filter (\<lambda>(_, en). \<not> ce_expiresAt en \<le> t) m"

text \<open>\<open>erase(begin())\<close>.\<close>

definition erase_begin :: "nat \<Rightarrow> refresh_cache \<Rightarrow> refresh_cache" where
  "erase_begin i m = (case m of [] \<Rightarrow> [] | _ \<Rightarrow> udel (fst (m ! (i mod length m))) m)"

definition remember :: "nat \<Rightarrow> string \<Rightarrow> cache_entry \<Rightarrow> refresh_cache \<Rightarrow> refresh_cache" where
  "remember i k en m = uput k en (if 1024 \<le> length m then erase_begin i m else m)"

text \<open>
  A hash that is not current but in the history is a replay: the whole family is revoked. The
  number is what \<open>outRevokedUserId\<close> becomes (0 when it is not written).
\<close>

definition revoke_replayed :: "tenv \<Rightarrow> string \<Rightarrow> dbconn \<Rightarrow> int \<times> dbconn" where
  "revoke_replayed e oldHash c =
     (case wasRefreshTokenUsed (sql e) oldHash c of
        None \<Rightarrow> (0, c)
      | Some familyId \<Rightarrow>
          if familyId = [] then (0, c)
          else let (uid, c1) = revokeTokenFamily (sql e) familyId c
               in (if 0 < uid then uid else 0, c1))"

text \<open>
  \<open>rotateRefresh\<close>: the new pair (None is \<open>false\<close>) and \<open>outRevokedUserId\<close>, the cache of recent
  answers, and the database.
\<close>

definition rotateRefresh ::
  "tenv \<Rightarrow> string \<Rightarrow> string \<Rightarrow> string \<Rightarrow> refresh_cache \<Rightarrow> dbconn \<Rightarrow>
   (TokenPair option \<times> int) exc \<times> refresh_cache \<times> dbconn" where
  "rotateRefresh e refreshToken deviceId requestId m0 c =
     (if refreshToken = [] \<or> deviceId = [] \<or> requestId = [] then (Returns (None, 0), m0, c)
      else case tokenHash (ext e) refreshToken of
        None \<Rightarrow> (Throws, m0, c)
      | Some oldHash \<Rightarrow>
          let m = purge_cache (now e) m0 in
          (case uget m requestId of
             Some en \<Rightarrow>
               if ce_refreshHash en \<noteq> oldHash \<or> ce_deviceId en \<noteq> deviceId
               then (Returns (None, 0), m, c)
               else (Returns (Some (ce_pair en), 0), m, c)
           | None \<Rightarrow>
               (case findByRefreshHash (sql e) oldHash c of
                  None \<Rightarrow> let (uid, c1) = revoke_replayed e oldHash c
                          in (Returns (None, uid), m, c1)
                | Some old \<Rightarrow>
                    if as_revoked old \<or> as_refreshExpiresAt old \<le> now e \<or> as_deviceId old \<noteq> deviceId
                    then (Returns (None, 0), m, c)
                    else (case (randomToken (rnd e 0), randomToken (rnd e 1)) of
                        (Some acc, Some ref) \<Rightarrow>
                          (case (tokenHash (ext e) acc, tokenHash (ext e) ref) of
                             (Some accHash, Some refHash) \<Rightarrow>
                               let next = \<lparr>tp_sessionId = as_sessionId old,
                                     tp_familyId = as_familyId old, tp_accessToken = acc,
                                     tp_refreshToken = ref, tp_accessExpiresAt = now e + 15 * 60,
                                     tp_refreshExpiresAt = now e + 30 * 24 * 60 * 60\<rparr>;
                                   (rotated, c1) = rotateRefreshToken (sql e) (now e) old oldHash accHash
                                     (tp_accessExpiresAt next) refHash (tp_refreshExpiresAt next) c
                               in if \<not> rotated
                                  then let (uid, c2) = revoke_replayed e oldHash c1
                                       in (Returns (None, uid), m, c2)
                                  else (Returns (Some next, 0),
                                        remember (begin_at e) requestId
                                          \<lparr>ce_refreshHash = oldHash, ce_deviceId = deviceId,
                                           ce_pair = next, ce_expiresAt = now e + 120\<rparr> m,
                                        c1)
                           | _ \<Rightarrow> (Throws, m, c))
                      | _ \<Rightarrow> (Throws, m, c)))))"

definition revokeSession :: "tenv \<Rightarrow> string \<Rightarrow> dbconn \<Rightarrow> dbconn" where
  "revokeSession e sessionId c = (if sessionId = [] then c else revokeSession_db (sql e) sessionId c)"

definition revokeAllForUser :: "tenv \<Rightarrow> int \<Rightarrow> dbconn \<Rightarrow> dbconn" where
  "revokeAllForUser e userId c = (if 0 < userId then revokeAllUserSessions (sql e) userId c else c)"

subsection \<open>Shapes of the answers\<close>

lemma cstr_toHex [simp]: "cstr (toHex d) = toHex d"
proof -
  have "CHR 0x00 \<notin> set hex_digits" by (simp add: hex_digits_def)
  then show ?thesis using set_toHex by (intro cstr_id) blast
qed

lemma cstr_tokenHash: "tokenHash x t = Some h \<Longrightarrow> cstr h = h"
  by (auto simp: tokenHash_def)

lemma issue_success:
  assumes "issue e u dev c = (Returns p, c1)"
  obtains accHash refHash where "tokenHash (ext e) (tp_accessToken p) = Some accHash"
    and "tokenHash (ext e) (tp_refreshToken p) = Some refHash"
    and "randomToken (rnd e 2) = Some (tp_accessToken p)"
    and "tp_accessExpiresAt p = now e + 300" and "tp_refreshExpiresAt p = now e + 172800"
    and "createAuthSession (sql e) (now e) (tp_sessionId p) (tp_familyId p) u dev accHash
           (tp_accessExpiresAt p) refHash (tp_refreshExpiresAt p) c = (True, c1)"
  using assms unfolding issue_def
  by (auto simp: Let_def split: option.splits prod.splits if_splits)

lemma createAuthSession_True:
  assumes "createAuthSession e n sid fid u dev aH aE rH rE c = (True, c1)"
  shows "\<exists>t. insert_auth
      \<lparr>as_sessionId = cstr sid, as_familyId = cstr fid, as_userId = u, as_deviceId = cstr dev,
       as_accessHash = cstr aH, as_accessExpiresAt = aE, as_refreshHash = cstr rH,
       as_refreshExpiresAt = rE, as_generation = 1, as_revoked = False\<rparr> n (current c) = Some t \<and>
    c1 = put_tables t c"
  using assms unfolding createAuthSession_def by (auto split: if_splits option.splits)

lemma rotateRefresh_fresh:
  assumes "rotateRefresh e R dev q m0 c = (Returns (Some p, uid), m1, c1)"
    and "uget (purge_cache (now e) m0) q = None"
  obtains H old aH rH where "tokenHash (ext e) R = Some H" and "findByRefreshHash (sql e) H c = Some old"
    and "\<not> as_revoked old" and "now e < as_refreshExpiresAt old" and "as_deviceId old = dev"
    and "tokenHash (ext e) (tp_accessToken p) = Some aH"
    and "tokenHash (ext e) (tp_refreshToken p) = Some rH"
    and "rotateRefreshToken (sql e) (now e) old H aH (now e + 900) rH (now e + 2592000) c = (True, c1)"
    and "uid = 0" and "R \<noteq> []" and "dev \<noteq> []" and "q \<noteq> []"
    and "m1 = remember (begin_at e) q \<lparr>ce_refreshHash = H, ce_deviceId = dev, ce_pair = p,
           ce_expiresAt = now e + 120\<rparr> (purge_cache (now e) m0)"
    and "tp_sessionId p = as_sessionId old" and "tp_familyId p = as_familyId old"
    and "tp_accessExpiresAt p = now e + 900" and "tp_refreshExpiresAt p = now e + 2592000"
  using assms unfolding rotateRefresh_def Let_def
  by (auto simp: not_le split: option.splits prod.splits if_splits)

subsection \<open>A sample session\<close>

text \<open>The digest of the witnesses is the identity; the random bytes are the numbers of the calls.\<close>

definition sample_env :: "int \<Rightarrow> tenv" where
  "sample_env t = \<lparr>now = t, rnd = (\<lambda>i. Some [of_nat i + 1]),
     ext = \<lparr>argon2_hash = Some, argon2_verify = (=), evp_sha256 = Some\<rparr>, sql = no_faults,
     begin_at = 0\<rparr>"

definition sample_token :: dbconn where
  "sample_token = \<lparr>disk = empty_tables\<lparr>auths := [\<lparr>auth = sample_session\<lparr>as_refreshHash :=
     toHex (bytes_of ''r'')\<rparr>, created_at = 1, last_used_at = 1\<rparr>]\<rparr>, txn = None\<rparr>"

lemma sample_env_simps [simp]:
  "now (sample_env t) = t" "rnd (sample_env t) i = Some [of_nat i + 1]" "sql (sample_env t) = no_faults"
  "tokenHash (ext (sample_env t)) k = Some (toHex (bytes_of k))"
  by (simp_all add: sample_env_def tokenHash_def)

lemma sample_rotates:
  obtains p m1 c1 where
    "rotateRefresh (sample_env 5) ''r'' ''d'' ''q'' [] sample_token = (Returns (Some p, 0), m1, c1)"
  by (simp add: rotateRefresh_def Let_def purge_cache_def uget_def findByRefreshHash_def sample_token_def
      sample_session_def randomToken_def rotate.faultless rotate_effect_def update_auths_def
      upd_where_def changes_def rotated_from_def empty_tables_def cstr_one)

subsection \<open>The properties of the tokens\<close>

text \<open>
  A token pair that was issued is stored only as hashes, lives five minutes and two days, and
  until it expires its access token is valid for the device it was issued to, names the user it
  was issued for, and is valid for no other device.
\<close>

theorem issued_token_validates:
  assumes inv: "auths_ok (disk c)" "txn c = None" and dev: "CHR 0x00 \<notin> set dev"
    and iss: "issue e u dev c = (Returns p, c1)"
    and env: "sql e2 = no_faults" "ext e2 = ext e" and tok: "tp_accessToken p \<noteq> []"
  shows "tp_accessExpiresAt p = now e + 300 \<and> tp_refreshExpiresAt p = now e + 172800 \<and>
         validateAccess e2 (tp_accessToken p) [] dev' c1 =
           Returns (if dev' = dev \<and> dev \<noteq> [] \<and> now e2 < now e + 300
                    then Some (u, cstr (tp_sessionId p), now e + 300) else None)"
proof -
  obtain aH rH where h: "tokenHash (ext e) (tp_accessToken p) = Some aH"
    and x: "tp_accessExpiresAt p = now e + 300" "tp_refreshExpiresAt p = now e + 172800"
    and cr: "createAuthSession (sql e) (now e) (tp_sessionId p) (tp_familyId p) u dev aH
           (tp_accessExpiresAt p) rH (tp_refreshExpiresAt p) c = (True, c1)"
    using issue_success [OF iss] by metis
  have aH: "cstr aH = aH" using cstr_tokenHash [OF h] .
  let ?s = "\<lparr>as_sessionId = cstr (tp_sessionId p), as_familyId = cstr (tp_familyId p), as_userId = u,
      as_deviceId = cstr dev, as_accessHash = aH, as_accessExpiresAt = now e + 300,
      as_refreshHash = cstr rH, as_refreshExpiresAt = now e + 172800, as_generation = 1,
      as_revoked = False\<rparr>"
  obtain t where t: "insert_auth ?s (now e) (disk c) = Some t" "c1 = put_tables t c"
    using createAuthSession_True [OF cr] inv(2) by (auto simp: x aH)
  have new: "\<forall>r \<in> set (auths (disk c)). as_accessHash (auth r) \<noteq> aH"
    and rows: "auths (disk c1) = auths (disk c) @ [\<lparr>auth = ?s, created_at = now e, last_used_at = now e\<rparr>]"
    using insert_auth_Some [THEN iffD1, OF t(1)] inv(2) t(2) by simp_all
  have "find (\<lambda>r. as_accessHash (auth r) = aH) (auths (disk c)) = None"
    using new by (simp add: find_None_conv)
  then have "findByAccessHash no_faults aH c1 = Some ?s"
    by (simp add: findByAccessHash_def rows find_append aH)
  then show ?thesis
    using h tok env x by (auto simp: validateAccess_def cstr_id [OF dev])
qed

theorem issued_token_validates_witness:
  "\<exists>p c1. issue (sample_env 0) 7 ''d'' \<lparr>disk = empty_tables, txn = None\<rparr> = (Returns p, c1) \<and>
     validateAccess (sample_env 299) (tp_accessToken p) [] ''d'' c1 =
       Returns (Some (7, cstr (tp_sessionId p), 300)) \<and>
     validateAccess (sample_env 300) (tp_accessToken p) [] ''d'' c1 = Returns None"
proof -
  let ?c = "\<lparr>disk = empty_tables, txn = None\<rparr>"
  obtain p c1 where i: "issue (sample_env 0) 7 ''d'' ?c = (Returns p, c1)"
    and a: "tp_accessToken p \<noteq> []"
    by (simp add: issue_def Let_def randomToken_def createAuthSession_def insert_auth_def
        empty_tables_def toHex_Cons)
  have ok: "auths_ok (disk ?c)" by simp
  have d: "CHR 0x00 \<notin> set ''d''" by simp
  from issued_token_validates [OF ok _ d i _ _ a, of "sample_env 299" "''d''"]
    issued_token_validates [OF ok _ d i _ _ a, of "sample_env 300" "''d''"] i
  show ?thesis by (simp add: sample_env_def)
qed



text \<open>
  A lost answer can be asked for again: for two minutes the same request id, token and device
  get the same pair without touching the database, whatever has happened to the database since.
\<close>

theorem refresh_retry_idempotent:
  assumes rot: "rotateRefresh e R dev q m c = (Returns (Some p, uid), m1, c1)"
    and new: "uget (purge_cache (now e) m) q = None" and ok: "uvalid m"
    and later: "now e2 < now e + 120" and "ext e2 = ext e"
  shows "rotateRefresh e2 R dev q m1 c2 = (Returns (Some p, 0), purge_cache (now e2) m1, c2)"
proof -
  from rotateRefresh_fresh [OF rot new] obtain H where h: "tokenHash (ext e) R = Some H"
      and ne: "R \<noteq> []" "dev \<noteq> []" "q \<noteq> []"
      and m1: "m1 = remember (begin_at e) q \<lparr>ce_refreshHash = H, ce_deviceId = dev, ce_pair = p,
           ce_expiresAt = now e + 120\<rparr> (purge_cache (now e) m)"
    by metis
  have "uget (purge_cache (now e2) m1) q = Some \<lparr>ce_refreshHash = H, ce_deviceId = dev, ce_pair = p,
      ce_expiresAt = now e + 120\<rparr>"
    using later by (simp add: m1 remember_def uput_def purge_cache_def uget_def)
  then show ?thesis
    using h ne assms(5) by (simp add: rotateRefresh_def Let_def)
qed

theorem refresh_retry_idempotent_witness:
  "\<exists>p m1 c1. rotateRefresh (sample_env 5) ''r'' ''d'' ''q'' [] sample_token = (Returns (Some p, 0), m1, c1) \<and>
     fst (rotateRefresh (sample_env 124) ''r'' ''d'' ''q'' m1 (revoke_where (\<lambda>_. True) c1)) =
       Returns (Some p, 0)"
proof -
  obtain p m1 c1 where r:
    "rotateRefresh (sample_env 5) ''r'' ''d'' ''q'' [] sample_token = (Returns (Some p, 0), m1, c1)"
    by (rule sample_rotates)
  have "uget (purge_cache t []) k = None" for t k by (simp add: purge_cache_def uget_def)
  then show ?thesis
    using r refresh_retry_idempotent [OF r, of "sample_env 124"]
    by (simp add: uvalid_def sample_env_def)
qed

lemma auths_revoke_where:
  "txn c = None \<Longrightarrow> auths (disk (revoke_where p c)) = upd_where p revoke_row (auths (disk c))"
  by (simp add: revoke_where_def)

lemma validateAccess_row:
  assumes "validateAccess e t s d c = Returns (Some (u, sid, x))"
  shows "\<exists>q \<in> set (auths (disk c)). \<not> as_revoked (auth q) \<and> as_sessionId (auth q) = sid \<and>
     as_userId (auth q) = u \<and> as_deviceId (auth q) = d \<and> as_accessExpiresAt (auth q) = x \<and> now e < x"
proof -
  obtain h r where r: "findByAccessHash (sql e) h c = Some r" "\<not> as_revoked r" "as_sessionId r = sid"
    "as_userId r = u" "as_deviceId r = d" "as_accessExpiresAt r = x" "now e < x"
    using assms unfolding validateAccess_def by (auto simp: not_le split: if_splits option.splits)
  then show ?thesis unfolding findByAccessHash_def by (auto dest: read_row_SomeD)
qed

text \<open>What a replay answers, and what revoking a family leaves valid.\<close>

definition family_user :: "string \<Rightarrow> dbconn \<Rightarrow> int" where
  "family_user f c =
     (case find (\<lambda>r. as_familyId (auth r) = f) (auths (disk c)) of None \<Rightarrow> 0 | Some r \<Rightarrow> as_userId (auth r))"

lemma family_user_member:
  assumes "family_user f c \<noteq> 0"
  shows "\<exists>r \<in> set (auths (disk c)). as_familyId (auth r) = f \<and> as_userId (auth r) = family_user f c"
proof (cases "find (\<lambda>r. as_familyId (auth r) = f) (auths (disk c))")
  case (Some r)
  then have "as_familyId (auth r) = f \<and> r \<in> set (auths (disk c))" by (rule find_SomeD)
  with Some show ?thesis by (intro bexI [of _ r]) (simp_all add: family_user_def)
qed (use assms in \<open>simp add: family_user_def\<close>)

lemma replay_outcome:
  assumes ok: "auths_ok (disk c)" "txn c = None"
    and h: "h \<in> set (hist (disk c))" "h_family h \<noteq> []" "cstr (h_family h) = h_family h"
      "\<forall>r \<in> set (auths (disk c)). as_refreshHash (auth r) \<noteq> h_token h"
    and tok: "tokenHash (ext e) R = Some (h_token h)" "R \<noteq> []" "dev \<noteq> []" "q \<noteq> []"
    and env: "sql e = no_faults" "uget (purge_cache (now e) m) q = None"
  shows "rotateRefresh e R dev q m c =
      (Returns (None, if 0 < family_user (h_family h) c then family_user (h_family h) c else 0), purge_cache (now e) m,
       revoke_where (\<lambda>r. as_familyId (auth r) = h_family h) c)"
proof -
  have cs: "cstr (h_token h) = h_token h" using cstr_tokenHash [OF tok(1)] .
  have "find (\<lambda>r. h_token r = h_token h) (hist (disk c)) = Some h"
    using ok(1) h(1) by (intro find_unique [of h_token]) (simp_all add: auths_ok_def)
  then have used: "wasRefreshTokenUsed no_faults (h_token h) c = Some (h_family h)"
    by (simp add: wasRefreshTokenUsed_def cs)
  have none: "findByRefreshHash no_faults (h_token h) c = None"
    using h(4) by (simp add: findByRefreshHash_def cs find_None_conv)
  show ?thesis
    using tok env used none h(2) ok(2) unfolding family_user_def
    by (simp add: rotateRefresh_def Let_def revoke_replayed_def revokeTokenFamily_def h(3))
qed

lemma revoked_family_is_dead:
  fixes f :: string and c :: dbconn
  defines "c' \<equiv> revoke_where (\<lambda>r. as_familyId (auth r) = f) c"
  assumes ok: "auths_ok (disk c)" "txn c = None"
  shows "\<forall>r \<in> set (auths (disk c')). as_familyId (auth r) = f \<longrightarrow> as_revoked (auth r)"
    and "\<forall>r \<in> set (auths (disk c)). as_familyId (auth r) \<noteq> f \<longrightarrow> r \<in> set (auths (disk c'))"
    and "validateAccess e2 t s d c' = Returns (Some (u, sid, x)) \<Longrightarrow> r \<in> set (auths (disk c')) \<Longrightarrow>
      as_sessionId (auth r) = sid \<Longrightarrow> as_familyId (auth r) \<noteq> f"
proof -
  have rows: "auths (disk c') = upd_where (\<lambda>r. as_familyId (auth r) = f) revoke_row (auths (disk c))"
    unfolding c'_def using ok(2) by (rule auths_revoke_where)
  show dead: "\<forall>r \<in> set (auths (disk c')). as_familyId (auth r) = f \<longrightarrow> as_revoked (auth r)"
  proof (intro ballI impI)
    fix r assume "r \<in> set (auths (disk c'))" and fam: "as_familyId (auth r) = f"
    then obtain q where q: "r = (if as_familyId (auth q) = f then revoke_row q else q)"
      unfolding rows set_upd_where by blast
    then show "as_revoked (auth r)" using fam by (cases "as_familyId (auth q) = f") simp_all
  qed
  have "r \<in> set (auths (disk c'))" if "r \<in> set (auths (disk c))" "as_familyId (auth r) \<noteq> f" for r
    unfolding rows set_upd_where by (rule image_eqI [of _ _ r]) (use that in simp_all)
  then show "\<forall>r \<in> set (auths (disk c)). as_familyId (auth r) \<noteq> f \<longrightarrow> r \<in> set (auths (disk c'))" by blast
  assume val: "validateAccess e2 t s d c' = Returns (Some (u, sid, x))"
    and r: "r \<in> set (auths (disk c'))" "as_sessionId (auth r) = sid"
  have dist: "distinct (map (\<lambda>r. as_sessionId (auth r)) (auths (disk c')))"
    using ok(1) by (simp add: rows map_upd_where_same auths_ok_def)
  obtain q where q: "q \<in> set (auths (disk c'))" "\<not> as_revoked (auth q)" "as_sessionId (auth q) = sid"
    using validateAccess_row [OF val] by blast
  then have "q = r" using distinct_map_eq [OF dist q(1) r(1)] r(2) by simp
  then show "as_familyId (auth r) \<noteq> f" using dead q by blast
qed



subsection \<open>The cache of answers\<close>

lemma length_udel: "length (udel k m) \<le> length m"
  by (simp add: udel_def)

lemma length_udel_member: "k \<in> fst ` set m \<Longrightarrow> length (udel k m) < length m"
  unfolding udel_def by (induction m) (auto simp: le_imp_less_Suc)

lemma length_erase_begin: "m \<noteq> [] \<Longrightarrow> length (erase_begin i m) < length m"
proof -
  assume "m \<noteq> []"
  then have "fst (m ! (i mod length m)) \<in> fst ` set m" by simp
  then show ?thesis
    using \<open>m \<noteq> []\<close> length_udel_member [of "fst (m ! (i mod length m))" m]
    by (cases m) (simp_all add: erase_begin_def)
qed

lemma uvalid_erase_begin: "uvalid m \<Longrightarrow> uvalid (erase_begin i m)"
  by (auto simp: erase_begin_def umap.valid_del split: list.split)

lemma remember_bound:
  assumes "uvalid m" and "length m \<le> 1024"
  shows "uvalid (remember i k en m) \<and> length (remember i k en m) \<le> 1024"
proof -
  let ?m = "if 1024 \<le> length m then erase_begin i m else m"
  have "uvalid ?m" using assms(1) uvalid_erase_begin by simp
  moreover have "length ?m < 1024"
    using assms(2) length_erase_begin [of m i] by (cases "m = []") auto
  moreover have "length (uput k en ?m) \<le> Suc (length ?m)"
    using length_udel [of k ?m] by (simp add: uput_def)
  ultimately show ?thesis by (simp add: remember_def umap.valid_put)
qed

lemma purge_bound: "uvalid m \<Longrightarrow> uvalid (purge_cache t m) \<and> length (purge_cache t m) \<le> length m"
  by (simp add: purge_cache_def uvalid_def distinct_map_filter)

text \<open>
  The cache of refresh answers never holds more than 1024 entries, never two for one request
  id, and only answers that have not expired survive a call.
\<close>

theorem refresh_cache_bounded:
  assumes "uvalid m" and "length m \<le> 1024" and "rotateRefresh e R dev q m c = (r, m', c')"
  shows "uvalid m' \<and> length m' \<le> 1024 \<and>
         (m' \<noteq> m \<longrightarrow> (\<forall>(k, en) \<in> set m'. now e < ce_expiresAt en))"
proof -
  let ?m = "purge_cache (now e) m"
  have p: "uvalid ?m" "length ?m \<le> 1024" using purge_bound [OF assms(1), of "now e"] assms(2) by auto
  have live: "\<forall>(k, en) \<in> set ?m. now e < ce_expiresAt en" by (auto simp: purge_cache_def)
  have "m' = m \<or> m' = ?m \<or> (\<exists>en. now e < ce_expiresAt en \<and> m' = remember (begin_at e) q en ?m)"
  proof (cases "\<exists>p uid. r = Returns (Some p, uid) \<and> uget ?m q = None")
    case True
    then obtain p uid where "r = Returns (Some p, uid)" and new: "uget ?m q = None" by blast
    then have "rotateRefresh e R dev q m c = (Returns (Some p, uid), m', c')" using assms(3) by simp
    from rotateRefresh_fresh [OF this new] obtain H
      where "m' = remember (begin_at e) q \<lparr>ce_refreshHash = H, ce_deviceId = dev, ce_pair = p,
           ce_expiresAt = now e + 120\<rparr> ?m" by metis
    moreover have "now e < ce_expiresAt \<lparr>ce_refreshHash = H, ce_deviceId = dev, ce_pair = p,
        ce_expiresAt = now e + 120\<rparr>" by simp
    ultimately show ?thesis by blast
  next
    case False
    then show ?thesis
      using assms(3) unfolding rotateRefresh_def Let_def
      by (auto split: if_splits option.splits prod.splits)
  qed
  then show ?thesis
  proof (elim disjE exE conjE)
    fix en assume en: "now e < ce_expiresAt en" and m': "m' = remember (begin_at e) q en ?m"
    have "set m' \<subseteq> insert (q, en) (set ?m)"
      by (auto simp: m' remember_def uput_def udel_def erase_begin_def split: list.splits if_splits)
    then show ?thesis
      using remember_bound [OF p, of "begin_at e" q en] live en m' by auto
  qed (use assms p live in auto)
qed

theorem refresh_cache_bounded_witness:
  "length (fst (snd (rotateRefresh (sample_env 5) ''r'' ''d'' ''q'' [] sample_token))) \<le> 1024"
  using refresh_cache_bounded [of "[]" "sample_env 5" "''r''" "''d''" "''q''" sample_token]
  by (simp add: uvalid_def prod_eq_iff)

end
