(* ===== verification/Presence.thy ===== *)
theory Presence
  imports Prelude
begin

text \<open>
  \<open>Presence\<close>: which session a user is online with. An entry holds a weak pointer, so a lookup
  answers only while the session is \<open>alive\<close>. The contract the handlers and the server rely on is
  the locale \<open>online_table\<close>: a login takes the entry over, and a session that leaves removes the
  entry only while it is still its own.
\<close>

record pres_entry =
  pe_sess :: nat
  pe_last :: int

type_synonym presence = "(int \<times> pres_entry) list"

definition pres_lock :: "(nat \<Rightarrow> bool) \<Rightarrow> pres_entry \<Rightarrow> nat option" where
  "pres_lock alive en = (if alive (pe_sess en) then Some (pe_sess en) else None)"

definition pres_online :: "int \<Rightarrow> nat \<Rightarrow> int \<Rightarrow> presence \<Rightarrow> presence" where
  "pres_online userId s t m = oput userId \<lparr>pe_sess = s, pe_last = t\<rparr> m"

definition pres_get :: "(nat \<Rightarrow> bool) \<Rightarrow> presence \<Rightarrow> int \<Rightarrow> nat option" where
  "pres_get alive m userId = (case oget m userId of None \<Rightarrow> None | Some en \<Rightarrow> pres_lock alive en)"

definition pres_replace ::
  "(nat \<Rightarrow> bool) \<Rightarrow> int \<Rightarrow> nat \<Rightarrow> int \<Rightarrow> presence \<Rightarrow> nat option \<times> presence" where
  "pres_replace alive userId s t m =
     (pres_get alive m userId, oput userId \<lparr>pe_sess = s, pe_last = t\<rparr> m)"

definition pres_offline :: "(nat \<Rightarrow> bool) \<Rightarrow> int \<Rightarrow> nat \<Rightarrow> presence \<Rightarrow> presence" where
  "pres_offline alive userId s m =
     (case oget m userId of
        None \<Rightarrow> m
      | Some en \<Rightarrow> if pres_lock alive en = Some s then odel userId m else m)"

definition pres_touch :: "int \<Rightarrow> int \<Rightarrow> presence \<Rightarrow> presence" where
  "pres_touch userId t m =
     (case oget m userId of None \<Rightarrow> m | Some en \<Rightarrow> oput userId (en\<lparr>pe_last := t\<rparr>) m)"

text \<open>
  One pass over the map: entries whose session is gone are skipped, an entry never touched gets
  the current time, an entry silent for longer than the timeout is reported.
\<close>

fun scanStale :: "(nat \<Rightarrow> bool) \<Rightarrow> int \<Rightarrow> int \<Rightarrow> presence \<Rightarrow> (int \<times> nat) list \<times> presence" where
  "scanStale alive t timeoutSec [] = ([], [])"
| "scanStale alive t timeoutSec ((u, en) # m) =
     (let (stale, m') = scanStale alive t timeoutSec m in
      case pres_lock alive en of
        None \<Rightarrow> (stale, (u, en) # m')
      | Some s \<Rightarrow>
          if pe_last en = 0 then (stale, (u, en\<lparr>pe_last := t\<rparr>) # m')
          else if timeoutSec < t - pe_last en then ((u, s) # stale, (u, en) # m')
          else (stale, (u, en) # m'))"

subsection \<open>The contract\<close>

locale online_table =
  fixes locate :: "'m \<Rightarrow> int \<Rightarrow> nat option"
    and enter :: "int \<Rightarrow> nat \<Rightarrow> 'm \<Rightarrow> 'm"
    and leave :: "int \<Rightarrow> nat \<Rightarrow> 'm \<Rightarrow> 'm"
    and ok :: "'m \<Rightarrow> bool"
    and alive :: "nat \<Rightarrow> bool"
  assumes enter: "ok m \<Longrightarrow> alive s \<Longrightarrow> locate (enter u s m) = (locate m)(u := Some s)"
    and leave: "ok m \<Longrightarrow> locate (leave u s m) =
      (if locate m u = Some s then (locate m)(u := None) else locate m)"
    and ok_enter: "ok m \<Longrightarrow> ok (enter u s m)"
    and ok_leave: "ok m \<Longrightarrow> ok (leave u s m)"
begin

lemma enter_locate: "ok m \<Longrightarrow> alive s \<Longrightarrow> locate (enter u s m) u = Some s"
  by (simp add: enter)

lemma other_users: "ok m \<Longrightarrow> alive s \<Longrightarrow> v \<noteq> u \<Longrightarrow> locate (enter u s m) v = locate m v"
  by (simp add: enter)

lemma stale_leave_harmless:
  "ok m \<Longrightarrow> alive s \<Longrightarrow> s' \<noteq> s \<Longrightarrow> locate (leave u s' (enter u s m)) u = Some s"
  by (simp add: enter leave ok_enter)

lemma leave_own: "ok m \<Longrightarrow> locate m u = Some s \<Longrightarrow> locate (leave u s m) u = None"
  by (simp add: leave)

lemma leave_other_user: "ok m \<Longrightarrow> v \<noteq> u \<Longrightarrow> locate (leave u s m) v = locate m v"
  by (simp add: leave)

lemma leave_twice: "ok m \<Longrightarrow> locate (leave u s (leave u s m)) = locate (leave u s m)"
  by (simp add: leave ok_leave)

text \<open>
  After any sequence of other sessions' entries and departures of one user, the user is located
  at the last entered session that has not left.
\<close>

lemma leaves_of_others:
  "ok m \<Longrightarrow> alive s \<Longrightarrow> s \<notin> set ss \<Longrightarrow>
     locate (fold (leave u) ss (enter u s m)) u = Some s"
proof -
  assume ok: "ok m" and s: "alive s" "s \<notin> set ss"
  have "ok m' \<Longrightarrow> locate m' u = Some s \<Longrightarrow> s \<notin> set ss \<Longrightarrow> locate (fold (leave u) ss m') u = Some s" for m' ss
    by (induction ss arbitrary: m') (auto simp: leave ok_leave)
  then show ?thesis using ok s by (simp add: ok_enter enter)
qed

end

lemma pres_get_oput:
  "ovalid m \<Longrightarrow> pres_get alive (oput u en m) = (pres_get alive m)(u := pres_lock alive en)"
  by (auto simp: pres_get_def omap.get_put fun_eq_iff)

lemma pres_get_odel: "ovalid m \<Longrightarrow> pres_get alive (odel u m) = (pres_get alive m)(u := None)"
  by (auto simp: pres_get_def omap.get_del fun_eq_iff)

lemma pres_get_offline:
  "ovalid m \<Longrightarrow> pres_get alive (pres_offline alive u s m) =
     (if pres_get alive m u = Some s then (pres_get alive m)(u := None) else pres_get alive m)"
  by (auto simp: pres_offline_def pres_get_odel pres_get_def split: option.split)

interpretation presence: online_table "pres_get alive" "\<lambda>u s m. snd (pres_replace alive u s t m)"
    "pres_offline alive" ovalid alive
  for alive t
  by unfold_locales
    (auto simp: pres_replace_def pres_get_oput pres_lock_def pres_get_offline omap.valid_put,
     auto simp: pres_offline_def omap.valid_del split: option.split)

lemma pres_get_touch [simp]: "ovalid m \<Longrightarrow> pres_get alive (pres_touch u t m) = pres_get alive m"
proof (cases "oget m u")
  case (Some en)
  assume "ovalid m"
  then have "pres_get alive (pres_touch u t m) = (pres_get alive m)(u := pres_lock alive en)"
    by (simp add: pres_touch_def Some pres_get_oput pres_lock_def)
  also have "\<dots> = pres_get alive m" by (simp add: fun_eq_iff pres_get_def Some)
  finally show ?thesis .
qed (simp add: pres_touch_def)

lemma ovalid_touch: "ovalid m \<Longrightarrow> ovalid (pres_touch u t m)"
  by (auto simp: pres_touch_def omap.valid_put split: option.split)

text \<open>
  A login takes over the user's entry from any other connection; from then on neither the
  departure of any number of older connections of that user nor the login or departure of other
  users can take it away, and only its own departure does.
\<close>

theorem takeover_survives_old_connections:
  assumes "ovalid m" and "alive s" and "s \<notin> set olds" and "v \<noteq> u"
    and "m1 = fold (pres_offline alive u) olds (snd (pres_replace alive u s t m))"
  shows "pres_get alive m1 u = Some s \<and>
         pres_get alive (snd (pres_replace alive v s' t' m1)) u = Some s \<and>
         pres_get alive (pres_offline alive v s' m1) u = Some s \<and>
         pres_get alive (pres_offline alive u s m1) u = None"
proof -
  have ok: "ovalid (snd (pres_replace alive u s t m))" using assms(1) by (rule presence.ok_enter)
  have "ovalid m' \<Longrightarrow> ovalid (fold (pres_offline alive u) ss m')" for ss m'
    by (induction ss arbitrary: m') (simp_all add: presence.ok_leave)
  then have ok1: "ovalid m1" using ok assms(5) by simp
  have s: "pres_get alive m1 u = Some s"
    unfolding assms(5) 
    by (rule presence.leaves_of_others [where alive = alive, OF assms(1) assms(2) assms(3)])
  have "pres_get alive (snd (pres_replace alive v s' t' m1)) u = Some s"
    using s assms(4) by (simp add: pres_replace_def pres_get_oput [OF ok1])
  then show ?thesis
    using s presence.leave_own [OF ok1 s] assms(4) by (simp add: pres_get_offline [OF ok1])
qed

theorem takeover_survives_old_connections_witness:
  "pres_get (\<lambda>_. True) (pres_offline (\<lambda>_. True) 7 1
     (snd (pres_replace (\<lambda>_. True) 7 2 50 [(7, \<lparr>pe_sess = 1, pe_last = 40\<rparr>)]))) 7 = Some 2"
  using takeover_survives_old_connections
    [of "[(7, \<lparr>pe_sess = 1, pe_last = 40\<rparr>)]" "\<lambda>_. True" 2 "[1]" 8 7 _ 50]
  by (simp add: ovalid_def)

text \<open>The scan in closed form.\<close>

definition silent :: "(nat \<Rightarrow> bool) \<Rightarrow> int \<Rightarrow> int \<Rightarrow> int \<times> pres_entry \<Rightarrow> bool" where
  "silent alive t timeoutSec p \<longleftrightarrow>
     alive (pe_sess (snd p)) \<and> pe_last (snd p) \<noteq> 0 \<and> timeoutSec < t - pe_last (snd p)"

lemma scan_eq:
  "scanStale alive t k m =
     (map (\<lambda>(u, en). (u, pe_sess en)) (filter (silent alive t k) m),
      map (\<lambda>(u, en). (u, if alive (pe_sess en) \<and> pe_last en = 0 then en\<lparr>pe_last := t\<rparr> else en)) m)"
proof (induction m)
  case (Cons p m)
  obtain u en where p: "p = (u, en)" by (cases p)
  show ?case by (simp add: p Cons silent_def pres_lock_def)
qed simp

lemma oget_iff: "ovalid m \<Longrightarrow> oget m u = Some en \<longleftrightarrow> (u, en) \<in> set m"
  unfolding oget_def ovalid_def by (rule map_of_eq_Some_iff) (simp add: strict_sorted_iff)

lemma oget_map: "oget (map (\<lambda>(u, en). (u, f en)) m) u = map_option f (oget m u)"
  unfolding oget_def by (induction m) auto

text \<open>
  A heartbeat scan reports exactly the live sessions that have been silent for longer than the
  timeout, each user once; it does not change who is online with which session, and gives an
  entry that was never touched its grace period.
\<close>

theorem scan_reports_silent_sessions:
  assumes "ovalid m" and "scanStale alive t timeoutSec m = (stale, m')"
  shows "(\<forall>u s. (u, s) \<in> set stale \<longleftrightarrow>
            (\<exists>en. oget m u = Some en \<and> pe_sess en = s \<and> alive s \<and> pe_last en \<noteq> 0 \<and>
                  timeoutSec < t - pe_last en)) \<and>
         distinct (map fst stale) \<and>
         (\<forall>u. pres_get alive m' u = pres_get alive m u) \<and>
         (\<forall>u en. oget m' u = Some en \<longrightarrow> alive (pe_sess en) \<longrightarrow> t \<noteq> 0 \<longrightarrow> pe_last en \<noteq> 0)"
proof -
  let ?f = "\<lambda>en. if alive (pe_sess en) \<and> pe_last en = 0 then en\<lparr>pe_last := t\<rparr> else en"
  have stale: "stale = map (\<lambda>(u, en). (u, pe_sess en)) (filter (silent alive t timeoutSec) m)"
    and m': "m' = map (\<lambda>(u, en). (u, ?f en)) m"
    using assms(2) by (simp_all add: scan_eq)
  have g: "oget m' u = map_option ?f (oget m u)" for u
    unfolding m' by (rule oget_map)
  have d: "distinct (map fst m)" using assms(1) by (simp add: ovalid_def strict_sorted_iff)
  have "map fst stale = map fst (filter (silent alive t timeoutSec) m)"
    by (simp add: stale comp_def split_beta)
  then have "distinct (map fst stale)" using d by (simp add: distinct_map_filter)
  moreover have "pres_get alive m' u = pres_get alive m u" for u
    by (auto simp: pres_get_def g pres_lock_def split: option.split)
  moreover have "(u, s) \<in> set stale \<longleftrightarrow> (\<exists>en. oget m u = Some en \<and> pe_sess en = s \<and> alive s \<and>
      pe_last en \<noteq> 0 \<and> timeoutSec < t - pe_last en)" for u s
    unfolding stale oget_iff [OF assms(1)] by (force simp: silent_def)
  moreover have "pe_last en \<noteq> 0" if en: "oget m' u = Some en" "alive (pe_sess en)" "t \<noteq> 0" for u en
  proof -
    obtain x where "en = ?f x" using en(1) by (auto simp: g)
    then show ?thesis using en(2,3) by (cases "alive (pe_sess x) \<and> pe_last x = 0") auto
  qed
  ultimately show ?thesis by blast
qed

theorem scan_reports_silent_sessions_witness:
  "(7, 3) \<in> set (fst (scanStale (\<lambda>_. True) 200 90 [(7, \<lparr>pe_sess = 3, pe_last = 100\<rparr>)]))"
proof -
  have v: "ovalid [(7 :: int, \<lparr>pe_sess = 3, pe_last = 100\<rparr>)]" by (simp add: ovalid_def)
  show ?thesis
    using scan_reports_silent_sessions [OF v prod.collapse [symmetric], of "\<lambda>_. True" 200 90]
    by (simp add: oget_def)
qed

end
