(* ===== verification/AiLimiter.thy ===== *)
theory AiLimiter
  imports Prelude
begin

text \<open>
  \<open>ai/AiRequestLimiter\<close>: who may ask the model. Time points are integers of the steady clock in
  nanoseconds; the mutex makes each call one step. The lemmas show what the limiter promises
  over any sequence of calls: a rate per user and minute, one request of a user at a time, a
  bound on all that run, and no request id twice within the replay window.
\<close>

datatype lim_result = Accepted | Busy | RateLimited | Duplicate | QueueFull

record limiter =
  lim_perMinute :: int
  lim_maxPending :: int
  lim_replayWindow :: int
  lim_inFlight :: "int list"
  lim_recent :: "(int, int list) umap"
  lim_seen :: "(int, (string, int) umap) umap"

definition SECOND :: int where
  "SECOND = 1000000000"

definition MINUTE :: int where
  "MINUTE = 60 * SECOND"

definition new_limiter :: "int \<Rightarrow> int \<Rightarrow> int \<Rightarrow> limiter" where
  "new_limiter perMinute maxPending replayWindowSeconds =
     \<lparr>lim_perMinute = max perMinute 1, lim_maxPending = max maxPending 1,
      lim_replayWindow = max replayWindowSeconds 1 * SECOND,
      lim_inFlight = [], lim_recent = [], lim_seen = []\<rparr>"

text \<open>\<open>operator[]\<close>: the entry, or a new empty one.\<close>

definition recent_of :: "limiter \<Rightarrow> int \<Rightarrow> int list" where
  "recent_of l u = (case uget (lim_recent l) u of None \<Rightarrow> [] | Some q \<Rightarrow> q)"

definition seen_of :: "limiter \<Rightarrow> int \<Rightarrow> (string, int) umap" where
  "seen_of l u = (case uget (lim_seen l) u of None \<Rightarrow> [] | Some s \<Rightarrow> s)"

definition tryAcquire :: "int \<Rightarrow> string \<Rightarrow> int \<Rightarrow> limiter \<Rightarrow> lim_result \<times> limiter" where
  "tryAcquire userId requestId t l0 =
     (let rateCutoff = t - MINUTE; replayCutoff = t - lim_replayWindow l0;
          seen = filter (\<lambda>(_, s). \<not> s < replayCutoff) (seen_of l0 userId);
          l1 = l0\<lparr>lim_seen := uput userId seen (lim_seen l0)\<rparr>
      in if uget seen requestId \<noteq> None then (Duplicate, l1)
         else if userId \<in> set (lim_inFlight l1) then (Busy, l1)
         else if lim_maxPending l1 \<le> int (length (lim_inFlight l1)) then (QueueFull, l1)
         else let recent = dropWhile (\<lambda>s. s < rateCutoff) (recent_of l1 userId);
                  l2 = l1\<lparr>lim_recent := uput userId recent (lim_recent l1)\<rparr>
              in if lim_perMinute l2 \<le> int (length recent) then (RateLimited, l2)
                 else (Accepted, l2\<lparr>
                   lim_recent := uput userId (recent @ [t]) (lim_recent l2),
                   lim_seen := uput userId (uput requestId t seen) (lim_seen l2),
                   lim_inFlight := userId # lim_inFlight l2\<rparr>))"

definition release :: "int \<Rightarrow> limiter \<Rightarrow> limiter" where
  "release userId l = l\<lparr>lim_inFlight := filter (\<lambda>v. v \<noteq> userId) (lim_inFlight l)\<rparr>"

subsection \<open>Runs\<close>

text \<open>A run of calls, and the accepted requests in their order.\<close>

datatype lim_call = Acquire int string int | Release int

fun lim_run :: "lim_call list \<Rightarrow> limiter \<Rightarrow> limiter \<times> (int \<times> string \<times> int) list" where
  "lim_run [] l = (l, [])"
| "lim_run (Release u # cs) l = lim_run cs (release u l)"
| "lim_run (Acquire u r t # cs) l =
     (case tryAcquire u r t l of (res, l1) \<Rightarrow>
        (case lim_run cs l1 of (l2, log) \<Rightarrow>
          (l2, if res = Accepted then (u, r, t) # log else log)))"

fun call_times :: "lim_call list \<Rightarrow> int list" where
  "call_times [] = []"
| "call_times (Release u # cs) = call_times cs"
| "call_times (Acquire u r t # cs) = t # call_times cs"

definition times_of :: "int \<Rightarrow> (int \<times> string \<times> int) list \<Rightarrow> int list" where
  "times_of u log = map (\<lambda>(_, _, t). t) (filter (\<lambda>(v, _, _). v = u) log)"

lemma times_of_simps [simp]:
  "times_of u [] = []"
  "times_of u (log @ [(v, r, t)]) = times_of u log @ (if v = u then [t] else [])"
  by (simp_all add: times_of_def)

text \<open>What the state remembers of the accepted requests so far, \<open>T\<close> being the last clock reading.\<close>

definition lim_inv :: "int \<Rightarrow> int \<Rightarrow> int \<Rightarrow> int \<Rightarrow> limiter \<Rightarrow> (int \<times> string \<times> int) list \<Rightarrow> bool" where
  "lim_inv P M W T l log \<longleftrightarrow>
     1 \<le> P \<and> lim_perMinute l = P \<and> lim_maxPending l = M \<and> lim_replayWindow l = W \<and>
     distinct (lim_inFlight l) \<and> int (length (lim_inFlight l)) \<le> M \<and>
     (\<forall>u. \<exists>old. times_of u log = old @ recent_of l u \<and> (\<forall>x \<in> set old. x < T - MINUTE)) \<and>
     (\<forall>u i. i + nat P < length (times_of u log) \<longrightarrow>
        times_of u log ! i + MINUTE < times_of u log ! (i + nat P)) \<and>
     (\<forall>(u, r, t) \<in> set log. t \<le> T \<and> (T - W \<le> t \<longrightarrow> (\<exists>s. uget (seen_of l u) r = Some s \<and> t \<le> s))) \<and>
     sorted_wrt (\<lambda>(u, r, t) (u', r', t'). u = u' \<and> r = r' \<longrightarrow> t + W < t') log"

lemma recent_of_simps [simp]:
  "recent_of (l\<lparr>lim_seen := x\<rparr>) u = recent_of l u"
  "recent_of (l\<lparr>lim_inFlight := y\<rparr>) u = recent_of l u"
  "recent_of (l\<lparr>lim_recent := uput v q m\<rparr>) u = (if u = v then q else recent_of (l\<lparr>lim_recent := m\<rparr>) u)"
  by (simp_all add: recent_of_def uget_uput)

lemma seen_of_simps [simp]:
  "seen_of (l\<lparr>lim_recent := x\<rparr>) u = seen_of l u"
  "seen_of (l\<lparr>lim_inFlight := y\<rparr>) u = seen_of l u"
  "seen_of (l\<lparr>lim_seen := uput v q m\<rparr>) u = (if u = v then q else seen_of (l\<lparr>lim_seen := m\<rparr>) u)"
  by (simp_all add: seen_of_def uget_uput)

lemma lim_inv_later: "lim_inv P M W T l log \<Longrightarrow> T \<le> t \<Longrightarrow> lim_inv P M W t l log"
  unfolding lim_inv_def by (fastforce simp: split_beta)

lemma lim_inv_purge:
  assumes "lim_inv P M W t l log"
  shows "lim_inv P M W t (l\<lparr>lim_seen := uput u
           (filter (\<lambda>(_, s). \<not> s < t - W) (seen_of l u)) (lim_seen l)\<rparr>) log"
proof -
  have "\<exists>s. uget (filter (\<lambda>(_, s). \<not> s < t - W) (seen_of l u)) r = Some s \<and> x \<le> s"
    if "t - W \<le> x" and "\<exists>s. uget (seen_of l u) r = Some s \<and> x \<le> s" for r x
    using that by (auto intro!: uget_filter_keeps)
  then show ?thesis
    using assms unfolding lim_inv_def by (force simp: split_beta)
qed

lemma lim_inv_drop:
  assumes "lim_inv P M W t l log"
  shows "lim_inv P M W t (l\<lparr>lim_recent := uput u
           (dropWhile (\<lambda>s. s < t - MINUTE) (recent_of l u)) (lim_recent l)\<rparr>) log"
proof -
  obtain old where old: "times_of u log = old @ recent_of l u" "\<forall>x \<in> set old. x < t - MINUTE"
    using assms unfolding lim_inv_def by blast
  let ?d = "dropWhile (\<lambda>s. s < t - MINUTE) (recent_of l u)"
    and ?k = "takeWhile (\<lambda>s. s < t - MINUTE) (recent_of l u)"
  have "times_of u log = (old @ ?k) @ ?d \<and> (\<forall>x \<in> set (old @ ?k). x < t - MINUTE)"
    using old by (auto dest: set_takeWhileD)
  then have "\<exists>old'. times_of u log = old' @ ?d \<and> (\<forall>x \<in> set old'. x < t - MINUTE)" by blast
  then show ?thesis
    using assms unfolding lim_inv_def by auto
qed

lemma lim_inv_accept:
  assumes inv: "lim_inv P M W t l log" and "uget (seen_of l u) r = None"
    and "u \<notin> set (lim_inFlight l)" and "int (length (lim_inFlight l)) < M"
    and short: "int (length (recent_of l u)) < P"
  shows "lim_inv P M W t (l\<lparr>lim_recent := uput u (recent_of l u @ [t]) (lim_recent l),
           lim_seen := uput u (uput r t (seen_of l u)) (lim_seen l),
           lim_inFlight := u # lim_inFlight l\<rparr>) (log @ [(u, r, t)])"
proof -
  obtain old where old: "times_of u log = old @ recent_of l u" "\<forall>x \<in> set old. x < t - MINUTE"
    using inv unfolding lim_inv_def by blast
  have rate: "(old @ recent_of l u @ [t]) ! i + MINUTE < (old @ recent_of l u @ [t]) ! (i + nat P)"
    if "i + nat P \<le> length (old @ recent_of l u)" for i
  proof (cases "i + nat P = length (old @ recent_of l u)")
    case True
    then have "i < length old" using short by simp
    moreover have "(old @ recent_of l u @ [t]) ! (i + nat P) = t"
      using nth_append_length [of "old @ recent_of l u" t "[]"] unfolding True by simp
    ultimately show ?thesis using old(2) nth_mem [of i old] by (fastforce simp: nth_append)
  next
    case False
    then have "i + nat P < length (times_of u log)" using that old(1) by simp
    then show ?thesis
      using inv unfolding lim_inv_def old(1) [symmetric] append_assoc [symmetric]
      by (auto simp: nth_append)
  qed
  have fresh: "\<forall>(v, r', s) \<in> set log. v = u \<and> r' = r \<longrightarrow> s + W < t"
    using inv assms(2) unfolding lim_inv_def by (force simp: split_beta)
  show ?thesis
    unfolding lim_inv_def
  proof (intro conjI allI impI)
    fix v
    show "\<exists>old. times_of v (log @ [(u, r, t)]) = old @ recent_of (l\<lparr>lim_recent :=
        uput u (recent_of l u @ [t]) (lim_recent l), lim_seen := uput u (uput r t (seen_of l u))
        (lim_seen l), lim_inFlight := u # lim_inFlight l\<rparr>) v \<and> (\<forall>x \<in> set old. x < t - MINUTE)"
      using inv old unfolding lim_inv_def by auto
  next
    fix v i
    assume "i + nat P < length (times_of v (log @ [(u, r, t)]))"
    then show "times_of v (log @ [(u, r, t)]) ! i + MINUTE < times_of v (log @ [(u, r, t)]) ! (i + nat P)"
      using inv rate [of i] old(1) unfolding lim_inv_def by (cases "v = u") auto
  next
    show "\<forall>(v, r', s) \<in> set (log @ [(u, r, t)]). s \<le> t \<and> (t - W \<le> s \<longrightarrow>
       (\<exists>s'. uget (seen_of (l\<lparr>lim_recent := uput u (recent_of l u @ [t]) (lim_recent l),
           lim_seen := uput u (uput r t (seen_of l u)) (lim_seen l),
           lim_inFlight := u # lim_inFlight l\<rparr>) v) r' = Some s' \<and> s \<le> s'))"
      using inv unfolding lim_inv_def by (force simp: split_beta uget_uput)
  next
    show "sorted_wrt (\<lambda>(u, r, t) (u', r', t'). u = u' \<and> r = r' \<longrightarrow> t + W < t') (log @ [(u, r, t)])"
      using inv fresh unfolding lim_inv_def by (auto simp: sorted_wrt_append split_beta)
  qed (use inv assms(3,4) in \<open>auto simp: lim_inv_def\<close>)
qed

lemma tryAcquire_inv:
  assumes "lim_inv P M W T l log" and "T \<le> t" and "tryAcquire u r t l = (res, l1)"
  shows "lim_inv P M W t l1 (if res = Accepted then log @ [(u, r, t)] else log)"
proof -
  have params: "lim_replayWindow l = W" "lim_maxPending l = M" "lim_perMinute l = P"
    using assms(1) by (simp_all add: lim_inv_def)
  let ?seen = "filter (\<lambda>(_, s). \<not> s < t - W) (seen_of l u)"
  let ?l1 = "l\<lparr>lim_seen := uput u ?seen (lim_seen l)\<rparr>"
  let ?rec = "dropWhile (\<lambda>s. s < t - MINUTE) (recent_of l u)"
  let ?l2 = "?l1\<lparr>lim_recent := uput u ?rec (lim_recent l)\<rparr>"
  have l1: "lim_inv P M W t ?l1 log"
    by (rule lim_inv_purge [OF lim_inv_later [OF assms(1,2)]])
  have l2: "lim_inv P M W t ?l2 log"
    using lim_inv_drop [OF l1, of u] by simp
  show ?thesis
    using assms(3) l1 l2 lim_inv_accept [OF l2, of u r]
    by (auto simp: tryAcquire_def Let_def params split: if_splits)
qed

lemma release_inv:
  assumes "lim_inv P M W T l log"
  shows "lim_inv P M W T (release u l) log"
proof -
  have "int (length (filter (\<lambda>v. v \<noteq> u) (lim_inFlight l))) \<le> M"
    using assms length_filter_le [of "\<lambda>v. v \<noteq> u" "lim_inFlight l"]
    unfolding lim_inv_def by linarith
  then show ?thesis
    using assms unfolding lim_inv_def release_def by (simp add: recent_of_def seen_of_def)
qed

lemma lim_run_inv:
  assumes "lim_inv P M W T l log0" and "sorted (T # call_times cs)" and "lim_run cs l = (l', log)"
  shows "\<exists>T'. lim_inv P M W T' l' (log0 @ log)"
  using assms
proof (induction cs l arbitrary: T log0 log rule: lim_run.induct)
  case (1 l)
  then show ?case by auto
next
  case (2 u cs l)
  then show ?case using release_inv by fastforce
next
  case (3 u r t cs l)
  obtain res l1 where acq: "tryAcquire u r t l = (res, l1)" by fastforce
  obtain log1 where rest: "lim_run cs l1 = (l', log1)" "log = (if res = Accepted then (u, r, t) # log1 else log1)"
    using "3.prems"(3) acq by (auto split: prod.splits)
  have "lim_inv P M W t l1 (if res = Accepted then log0 @ [(u, r, t)] else log0)"
    using tryAcquire_inv [OF "3.prems"(1) _ acq] "3.prems"(2) by simp
  from "3.IH" [OF acq [symmetric] this _ rest(1)] "3.prems"(2) rest(2) show ?case
    by (auto split: if_splits)
qed

lemma new_limiter_inv:
  "lim_inv (max p 1) (max m 1) (max w 1 * SECOND) T (new_limiter p m w) []"
  by (simp add: lim_inv_def new_limiter_def recent_of_def)

text \<open>
  C32. Whatever calls a new limiter gets, in the order of their clock readings: of any user's
  accepted requests, no more than the configured number lie within one minute; a request id of a
  user is not accepted again within the replay window; and at no time are more requests in flight
  than the configured bound, nor two of one user.
\<close>

theorem limiter_promises:
  assumes "sorted (call_times cs)" and "lim_run cs (new_limiter p m w) = (l, log)"
  shows "(\<forall>u i. i + nat (max p 1) < length (times_of u log) \<longrightarrow>
            times_of u log ! i + MINUTE < times_of u log ! (i + nat (max p 1))) \<and>
         sorted_wrt (\<lambda>(u, r, t) (u', r', t'). u = u' \<and> r = r' \<longrightarrow> t + max w 1 * SECOND < t') log \<and>
         distinct (lim_inFlight l) \<and> int (length (lim_inFlight l)) \<le> max m 1"
proof -
  have "sorted (Min (insert 0 (set (call_times cs))) # call_times cs)"
    using assms(1) by simp
  from lim_run_inv [OF new_limiter_inv this assms(2)] show ?thesis
    unfolding lim_inv_def by auto
qed

theorem limiter_promises_witness:
  "let cs = [Acquire 7 ''a'' 0, Release 7, Acquire 7 ''b'' SECOND, Release 7, Acquire 7 ''c'' (2 * SECOND)];
       log = snd (lim_run cs (new_limiter 2 8 600))
   in log = [(7, ''a'', 0), (7, ''b'', SECOND)] \<and>
      sorted_wrt (\<lambda>(u, r, t) (u', r', t'). u = u' \<and> r = r' \<longrightarrow> t + max 600 1 * SECOND < t') log"
  using limiter_promises [of "[Acquire 7 ''a'' 0, Release 7, Acquire 7 ''b'' SECOND, Release 7,
      Acquire 7 ''c'' (2 * SECOND)]" 2 8 600, OF _ surjective_pairing]
  by (simp add: tryAcquire_def new_limiter_def release_def seen_of_def recent_of_def uget_def
      uput_def udel_def MINUTE_def SECOND_def Let_def)

end
