(* ===== verification/AiConfig.thy ===== *)
theory AiConfig
  imports Prelude
begin

text \<open>
  \<open>ai/AiConfig\<close>: the settings of the model service, read from the environment. The environment is
  a function from names to values; an absent variable is None. The messages of
  \<open>validationError\<close> are the constructors of \<open>config_error\<close>, no error being the empty message.
\<close>

datatype AiProvider = OpenAI | Anthropic

record AiConfig =
  cf_featureEnabled :: bool
  cf_rolloutPercent :: int
  cf_provider :: AiProvider
  cf_apiKey :: string
  cf_model :: string
  cf_host :: string
  cf_port :: int
  cf_path :: string
  cf_requestTimeoutMs :: int
  cf_maxOutputTokens :: int
  cf_disableThinking :: bool
  cf_maxContextMessages :: int
  cf_maxContextBytes :: int
  cf_maxMessageBytes :: int
  cf_rateLimitPerMinute :: int
  cf_maxPendingRequests :: int
  cf_replayWindowSeconds :: int
  cf_caCertPath :: string
  cf_anthropicVersion :: string

definition default_config :: AiConfig where
  "default_config = \<lparr>cf_featureEnabled = True, cf_rolloutPercent = 100, cf_provider = OpenAI,
     cf_apiKey = [], cf_model = [], cf_host = ''api.openai.com'', cf_port = 443,
     cf_path = ''/v1/responses'', cf_requestTimeoutMs = 15000, cf_maxOutputTokens = 180,
     cf_disableThinking = True, cf_maxContextMessages = 20, cf_maxContextBytes = 12000,
     cf_maxMessageBytes = 2000, cf_rateLimitPerMinute = 5, cf_maxPendingRequests = 8,
     cf_replayWindowSeconds = 300, cf_caCertPath = [], cf_anthropicVersion = ''2023-06-01''\<rparr>"

type_synonym environment = "string \<Rightarrow> string option"

definition env_str :: "environment \<Rightarrow> string \<Rightarrow> string" where
  "env_str en name = (case en name of None \<Rightarrow> [] | Some v \<Rightarrow> v)"

text \<open>
  \<open>std::stol\<close> with a 64-bit \<open>long\<close>: leading white space, an optional sign, decimal digits, and the
  rest ignored. None is an exception: no digits, or out of range.
\<close>

definition is_space :: "char \<Rightarrow> bool" where
  "is_space c \<longleftrightarrow> c \<in> {CHR '' '', CHR 0x09, CHR 0x0A, CHR 0x0B, CHR 0x0C, CHR 0x0D}"

definition digit_value :: "char \<Rightarrow> int option" where
  "digit_value c = (if between CHR ''0'' CHR ''9'' c then Some (of_char c - 48) else None)"

fun digits :: "int \<Rightarrow> string \<Rightarrow> int" where
  "digits acc [] = acc"
| "digits acc (c # s) = (case digit_value c of None \<Rightarrow> acc | Some d \<Rightarrow> digits (10 * acc + d) s)"

definition stol :: "string \<Rightarrow> int option" where
  "stol s0 =
     (let s1 = dropWhile is_space s0;
          neg = (s1 \<noteq> [] \<and> hd s1 = CHR ''-'');
          s2 = (if s1 \<noteq> [] \<and> (hd s1 = CHR ''-'' \<or> hd s1 = CHR ''+'') then tl s1 else s1)
      in if s2 = [] \<or> digit_value (hd s2) = None then None
         else let v = (if neg then - digits 0 s2 else digits 0 s2)
              in if - (2 ^ 63) \<le> v \<and> v < 2 ^ 63 then Some v else None)"

definition envInt :: "environment \<Rightarrow> string \<Rightarrow> int \<Rightarrow> int \<Rightarrow> int \<Rightarrow> int" where
  "envInt en name fallback minimum maximum =
     (if env_str en name = [] then fallback
      else case stol (env_str en name) of
        None \<Rightarrow> fallback
      | Some parsed \<Rightarrow> if parsed < minimum \<or> maximum < parsed then fallback else parsed)"

definition envBool :: "environment \<Rightarrow> string \<Rightarrow> bool \<Rightarrow> bool" where
  "envBool en name fallback =
     (let v = env_str en name in
      if v = [] then fallback else v \<in> {''1'', ''true'', ''TRUE'', ''yes'', ''on''})"

definition starts_with :: "string \<Rightarrow> string \<Rightarrow> bool" where
  "starts_with pre s \<longleftrightarrow> take (length pre) s = pre"

definition strip_slashes :: "string \<Rightarrow> string" where
  "strip_slashes s = rev (dropWhile (\<lambda>c. c = CHR ''/'') (rev s))"

definition applyBaseUrl :: "string \<Rightarrow> AiConfig \<Rightarrow> AiConfig" where
  "applyBaseUrl baseUrl c0 =
     (if baseUrl = [] then c0
      else let (value, c1) =
            (if starts_with ''https://'' baseUrl then (drop 8 baseUrl, c0\<lparr>cf_port := 443\<rparr>)
             else if starts_with ''http://'' baseUrl then (drop 7 baseUrl, c0\<lparr>cf_port := 80\<rparr>)
             else (baseUrl, c0));
          host = takeWhile (\<lambda>c. c \<noteq> CHR ''/'') value;
          rest = dropWhile (\<lambda>c. c \<noteq> CHR ''/'') value;
          c2 = c1\<lparr>cf_host := host\<rparr>
      in if rest \<noteq> [] \<and> tl rest \<noteq> [] then c2\<lparr>cf_path := strip_slashes rest @ ''/v1/messages''\<rparr> else c2)"

text \<open>The first part of \<open>fromEnvironment\<close>: provider, key, model and endpoint.\<close>

definition endpoint_settings :: "environment \<Rightarrow> AiConfig" where
  "endpoint_settings en =
     (let c0 = default_config\<lparr>cf_featureEnabled := envBool en ''IM_AI_ENABLED'' True,
            cf_rolloutPercent := envInt en ''IM_AI_ROLLOUT_PERCENT'' 100 0 100\<rparr>;
          baseUrl = env_str en ''IM_AI_BASE_URL'';
          c1 = (if env_str en ''IM_AI_PROVIDER'' = ''anthropic''
                then let c = applyBaseUrl baseUrl (c0\<lparr>cf_provider := Anthropic,
                           cf_host := ''api.anthropic.com'', cf_path := ''/v1/messages'',
                           cf_apiKey := env_str en ''IM_AI_API_KEY'', cf_model := env_str en ''IM_AI_MODEL''\<rparr>);
                         version = env_str en ''IM_AI_ANTHROPIC_VERSION''
                     in if version \<noteq> [] then c\<lparr>cf_anthropicVersion := version\<rparr> else c
                else applyBaseUrl baseUrl (c0\<lparr>cf_apiKey := env_str en ''IM_AI_API_KEY'',
                       cf_model := env_str en ''IM_AI_MODEL''\<rparr>));
          host = env_str en ''IM_AI_API_HOST''; path = env_str en ''IM_AI_API_PATH'';
          caCertPath = env_str en ''IM_AI_CA_CERT_PATH'';
          c2 = (if host \<noteq> [] then applyBaseUrl host c1 else c1);
          c3 = (if path \<noteq> [] then c2\<lparr>cf_path := path\<rparr> else c2)
      in if caCertPath \<noteq> [] then c3\<lparr>cf_caCertPath := caCertPath\<rparr> else c3)"

definition fromEnvironment :: "environment \<Rightarrow> AiConfig" where
  "fromEnvironment en = (endpoint_settings en)
           \<lparr>cf_port := envInt en ''IM_AI_API_PORT'' 443 1 65535,
            cf_requestTimeoutMs := envInt en ''IM_AI_REQUEST_TIMEOUT_MS'' 15000 1000 120000,
            cf_maxOutputTokens := envInt en ''IM_AI_MAX_OUTPUT_TOKENS'' 180 64 2000,
            cf_disableThinking := envBool en ''IM_AI_DISABLE_THINKING'' True,
            cf_maxContextMessages := envInt en ''IM_AI_MAX_CONTEXT_MESSAGES'' 20 1 100,
            cf_maxContextBytes := envInt en ''IM_AI_MAX_CONTEXT_BYTES'' 12000 1000 100000,
            cf_maxMessageBytes := envInt en ''IM_AI_MAX_MESSAGE_BYTES'' 2000 100 10000,
            cf_rateLimitPerMinute := envInt en ''IM_AI_RATE_LIMIT_PER_MINUTE'' 5 1 60,
            cf_maxPendingRequests := envInt en ''IM_AI_MAX_PENDING_REQUESTS'' 8 1 100,
            cf_replayWindowSeconds := envInt en ''IM_AI_REPLAY_WINDOW_SECONDS'' 300 30 3600\<rparr>"

definition config_enabled :: "AiConfig \<Rightarrow> bool" where
  "config_enabled c \<longleftrightarrow> cf_featureEnabled c \<and> cf_apiKey c \<noteq> [] \<and> cf_model c \<noteq> []"

datatype config_error = FeatureOff | NoKey | NoModel | NoHost | BadPath | BadPort

definition validationError :: "AiConfig \<Rightarrow> config_error option" where
  "validationError c =
     (if \<not> cf_featureEnabled c then Some FeatureOff
      else if cf_apiKey c = [] then Some NoKey
      else if cf_model c = [] then Some NoModel
      else if cf_host c = [] then Some NoHost
      else if cf_path c = [] \<or> hd (cf_path c) \<noteq> CHR ''/'' then Some BadPath
      else if cf_port c < 1 \<or> 65535 < cf_port c then Some BadPort
      else None)"

lemma envInt_range: "lo \<le> d \<Longrightarrow> d \<le> hi \<Longrightarrow> lo \<le> envInt en n d lo hi \<and> envInt en n d lo hi \<le> hi"
  by (auto simp: envInt_def split: option.split)

text \<open>
  Whatever the environment holds, well-formed or not, every numeric setting is within its
  documented range, so the port check of the validation never fires; and a configuration that
  passes the validation is enabled.
\<close>

theorem config_in_range:
  "let c = fromEnvironment en in
     cf_rolloutPercent c \<in> {0..100} \<and> cf_port c \<in> {1..65535} \<and>
     cf_requestTimeoutMs c \<in> {1000..120000} \<and> cf_maxOutputTokens c \<in> {64..2000} \<and>
     cf_maxContextMessages c \<in> {1..100} \<and> cf_maxContextBytes c \<in> {1000..100000} \<and>
     cf_maxMessageBytes c \<in> {100..10000} \<and> cf_rateLimitPerMinute c \<in> {1..60} \<and>
     cf_maxPendingRequests c \<in> {1..100} \<and> cf_replayWindowSeconds c \<in> {30..3600} \<and>
     validationError c \<noteq> Some BadPort \<and> \<not> (validationError c = None \<and> \<not> config_enabled c)"
proof -
  have "cf_rolloutPercent (applyBaseUrl b c) = cf_rolloutPercent c" for b c
    by (simp add: applyBaseUrl_def Let_def)
  then have "cf_rolloutPercent (endpoint_settings en) = envInt en ''IM_AI_ROLLOUT_PERCENT'' 100 0 100"
    by (simp add: endpoint_settings_def Let_def)
  moreover have "\<not> envInt en ''IM_AI_API_PORT'' 443 1 65535 < 1"
      "\<not> 65535 < envInt en ''IM_AI_API_PORT'' 443 1 65535"
    using envInt_range [of 1 443 65535 en "''IM_AI_API_PORT''"] by auto
  ultimately show ?thesis
    by (simp add: fromEnvironment_def Let_def envInt_range validationError_def config_enabled_def)
qed

text \<open>
  The port is never taken from a base URL: a server given by a base URL with scheme
  \<open>http\<close> is contacted at 443 unless the port variable says otherwise.
\<close>

theorem base_url_port_ignored:
  "cf_port (applyBaseUrl (''http://'' @ h) c) = 80 \<and>
   cf_port (fromEnvironment en) = envInt en ''IM_AI_API_PORT'' 443 1 65535"
  by (simp add: applyBaseUrl_def starts_with_def fromEnvironment_def Let_def)

end
