(* ===== verification/World.thy ===== *)
theory World
  imports TokenService Presence AiLimiter AiConfig
begin

text \<open>
  The state the handlers of \<open>im_server\<close> share: the database, the online table, the cached
  refresh answers, the authentication fields of each connection, the unclaimed uploads, and the
  calls of \<open>Session::deliver\<close>, \<open>close\<close> and \<open>closeAfterWrite\<close> in their order. A session is named by
  a number; it is alive while the table of sessions has it. Parsed requests are values (None when
  \<open>ParseFromArray\<close> fails): the generated protobuf code is not under \<open>src/\<close>.
\<close>

record sess =
  s_userId :: int
  s_authSessionId :: string
  s_deviceId :: string
  s_accessExpiresAt :: int

record UploadRecord =
  up_uploaderId :: int
  up_receiverId :: int
  up_mediaPath :: string
  up_sha256 :: string
  up_size :: int
  up_contentType :: string
  up_uploadedAt :: int

datatype out_event = Deliver nat packet | Close nat | CloseAfterWrite nat

text \<open>
  What \<open>AiHandler\<close> keeps: its limiter, the requests that run or were cancelled (keys of user and
  request id), the tasks posted to its two workers, and its counters.
\<close>

record ai_task =
  at_session :: nat
  at_user :: int
  at_peer :: int
  at_requestId :: string
  at_tone :: string
  at_maxSuggestions :: int

record ai_state =
  ai_config :: AiConfig
  ai_limiter :: limiter
  ai_active :: "string list"
  ai_cancelled :: "string list"
  ai_tasks :: "ai_task list"
  ai_n_accepted :: nat
  ai_n_succeeded :: nat
  ai_n_failed :: nat
  ai_n_rejected :: nat
  ai_n_cancelled :: nat

record world =
  db :: dbconn
  online :: presence
  refreshes :: refresh_cache
  sessions :: "(nat, sess) umap"
  uploads :: "(string, UploadRecord) umap"
  msg_counter :: nat
  ai :: ai_state
  out :: "out_event list"

text \<open>A handler returns or throws; in both cases with the state it leaves.\<close>

type_synonym handled = "unit exc \<times> world"

definition fresh_sess :: sess where
  "fresh_sess = \<lparr>s_userId = 0, s_authSessionId = [], s_deviceId = [], s_accessExpiresAt = 0\<rparr>"

definition sess_of :: "world \<Rightarrow> nat \<Rightarrow> sess" where
  "sess_of w sid = (case uget (sessions w) sid of None \<Rightarrow> fresh_sess | Some s \<Rightarrow> s)"

definition alive :: "world \<Rightarrow> nat \<Rightarrow> bool" where
  "alive w sid \<longleftrightarrow> uget (sessions w) sid \<noteq> None"

definition userId :: "world \<Rightarrow> nat \<Rightarrow> int" where
  "userId w sid = s_userId (sess_of w sid)"

definition authenticated :: "world \<Rightarrow> nat \<Rightarrow> bool" where
  "authenticated w sid \<longleftrightarrow> 0 < userId w sid"

definition bindAuth :: "nat \<Rightarrow> int \<Rightarrow> string \<Rightarrow> string \<Rightarrow> int \<Rightarrow> world \<Rightarrow> world" where
  "bindAuth sid u authSessionId deviceId expiresAt w =
     w\<lparr>sessions := uput sid \<lparr>s_userId = u, s_authSessionId = authSessionId, s_deviceId = deviceId,
        s_accessExpiresAt = expiresAt\<rparr> (sessions w)\<rparr>"

definition deliver :: "nat \<Rightarrow> packet \<Rightarrow> world \<Rightarrow> world" where
  "deliver sid p w = w\<lparr>out := out w @ [Deliver sid p]\<rparr>"

definition close :: "nat \<Rightarrow> world \<Rightarrow> world" where
  "close sid w = w\<lparr>out := out w @ [Close sid]\<rparr>"

definition closeAfterWrite :: "nat \<Rightarrow> world \<Rightarrow> world" where
  "closeAfterWrite sid w = w\<lparr>out := out w @ [CloseAfterWrite sid]\<rparr>"

definition located :: "world \<Rightarrow> int \<Rightarrow> nat option" where
  "located w u = pres_get (alive w) (online w) u"

subsection \<open>\<open>HandlerUtils.h\<close>\<close>

definition sendFriendInfo :: "tenv \<Rightarrow> nat \<Rightarrow> int \<Rightarrow> int \<Rightarrow> world \<Rightarrow> world" where
  "sendFriendInfo e to u onlineStatus w =
     (case getUser (sql e) u (db w) of
        None \<Rightarrow> w
      | Some user \<Rightarrow> deliver to (P_FriendInfo \<lparr>fi_userid = ur_id user, fi_iconid = ur_iconId user,
          fi_status = onlineStatus, fi_nick = ur_nick user, fi_feeling = ur_feeling user\<rparr>) w)"

definition fillChatInfo :: "ChatInfoRq \<Rightarrow> StoredMessage \<Rightarrow> ChatInfoRq" where
  "fillChatInfo o0 m =
     (let o1 = o0\<lparr>c_myid := senderId m, c_friid := receiverId m, c_msg_id := msgId m, c_ts := mts m,
            c_seq := mseq m\<rparr>
      in if mtype m = 1
         then o1\<lparr>c_type := IMAGE, c_image_width := imgW m, c_image_height := imgH m,
            c_file_id := fileId m, c_file_size := fileSize m, c_content_type := contentType m,
            c_sha256 := sha256 m\<rparr>
         else if mtype m = 2
         then o1\<lparr>c_type := FILE, c_file_id := fileId m, c_file_name := content m,
            c_file_size := fileSize m, c_content_type := contentType m, c_sha256 := sha256 m\<rparr>
         else o1\<lparr>c_type := TEXT, c_msg := content m\<rparr>)"

subsection \<open>Frame conditions\<close>

lemma deliver_simps [simp, world_simps]:
  "db (deliver sid p w) = db w" "online (deliver sid p w) = online w"
  "refreshes (deliver sid p w) = refreshes w" "sessions (deliver sid p w) = sessions w"
  "uploads (deliver sid p w) = uploads w" "msg_counter (deliver sid p w) = msg_counter w" "ai (deliver sid p w) = ai w"
  "out (deliver sid p w) = out w @ [Deliver sid p]"
  by (simp_all add: deliver_def)

lemma close_simps [simp, world_simps]:
  "db (close sid w) = db w" "online (close sid w) = online w"
  "refreshes (close sid w) = refreshes w" "sessions (close sid w) = sessions w"
  "uploads (close sid w) = uploads w" "msg_counter (close sid w) = msg_counter w" "ai (close sid w) = ai w"
  "out (close sid w) = out w @ [Close sid]"
  by (simp_all add: close_def)

lemma closeAfterWrite_simps [simp, world_simps]:
  "db (closeAfterWrite sid w) = db w" "online (closeAfterWrite sid w) = online w"
  "refreshes (closeAfterWrite sid w) = refreshes w"
  "sessions (closeAfterWrite sid w) = sessions w" "uploads (closeAfterWrite sid w) = uploads w"
  "msg_counter (closeAfterWrite sid w) = msg_counter w" "ai (closeAfterWrite sid w) = ai w"
  "out (closeAfterWrite sid w) = out w @ [CloseAfterWrite sid]"
  by (simp_all add: closeAfterWrite_def)

lemma bindAuth_simps [simp, world_simps]:
  "db (bindAuth sid u a d x w) = db w" "online (bindAuth sid u a d x w) = online w"
  "refreshes (bindAuth sid u a d x w) = refreshes w" "uploads (bindAuth sid u a d x w) = uploads w"
  "msg_counter (bindAuth sid u a d x w) = msg_counter w" "ai (bindAuth sid u a d x w) = ai w" "out (bindAuth sid u a d x w) = out w"
  by (simp_all add: bindAuth_def)

lemma alive_deliver [simp, world_simps]:
  "alive (deliver sid p w) = alive w" "alive (close sid w) = alive w"
  "alive (closeAfterWrite sid w) = alive w"
  by (simp_all add: alive_def fun_eq_iff)

lemma located_deliver [simp, world_simps]:
  "located (deliver sid p w) = located w" "located (close sid w) = located w"
  "located (closeAfterWrite sid w) = located w"
  by (simp_all add: located_def fun_eq_iff)

lemma sess_deliver [simp, world_simps]:
  "sess_of (deliver sid p w) = sess_of w" "sess_of (close sid w) = sess_of w"
  "sess_of (closeAfterWrite sid w) = sess_of w"
  "userId (deliver sid p w) = userId w" "userId (close sid w) = userId w"
  "userId (closeAfterWrite sid w) = userId w"
  by (simp_all add: sess_of_def userId_def fun_eq_iff)

lemma sess_bindAuth: "uvalid (sessions w) \<Longrightarrow> sess_of (bindAuth sid u a d x w) =
    (sess_of w)(sid := \<lparr>s_userId = u, s_authSessionId = a, s_deviceId = d, s_accessExpiresAt = x\<rparr>)"
  by (simp add: sess_of_def bindAuth_def umap.get_put fun_eq_iff)

lemma sendFriendInfo_cases:
  "sendFriendInfo e to u st w = w \<or>
   (\<exists>fi. fi_userid fi = u \<and> fi_status fi = st \<and> sendFriendInfo e to u st w = deliver to (P_FriendInfo fi) w)"
proof (cases "getUser (sql e) u (db w)")
  case (Some r)
  then have "ur_id r = u"
    unfolding getUser_def by (auto simp: user_record_def dest: read_row_SomeD)
  show ?thesis unfolding sendFriendInfo_def Some option.case
    by (rule disjI2, rule exI, intro conjI, rule_tac [3] refl) (simp_all add: \<open>ur_id r = u\<close>)
qed (simp add: sendFriendInfo_def)

lemma sendFriendInfo_simps [simp, world_simps]:
  "db (sendFriendInfo e to u st w) = db w" "online (sendFriendInfo e to u st w) = online w"
  "refreshes (sendFriendInfo e to u st w) = refreshes w"
  "sessions (sendFriendInfo e to u st w) = sessions w"
  "uploads (sendFriendInfo e to u st w) = uploads w"
  "msg_counter (sendFriendInfo e to u st w) = msg_counter w" "ai (sendFriendInfo e to u st w) = ai w"
  "alive (sendFriendInfo e to u st w) = alive w" "located (sendFriendInfo e to u st w) = located w"
  "sess_of (sendFriendInfo e to u st w) = sess_of w" "userId (sendFriendInfo e to u st w) = userId w"
  by (simp_all add: sendFriendInfo_def split: option.split)

text \<open>
  What a stored message is turned into for offline delivery and roaming keeps its sender,
  receiver, id, time and number, and its text or its file with name, size, type and digest,
  according to its kind.
\<close>

theorem fillChatInfo_faithful:
  "let c = fillChatInfo empty_ChatInfoRq m in
     c_myid c = senderId m \<and> c_friid c = receiverId m \<and> c_msg_id c = msgId m \<and> c_ts c = mts m \<and>
     c_seq c = mseq m \<and>
     c_type c = (if mtype m = 1 then IMAGE else if mtype m = 2 then FILE else TEXT) \<and>
     c_msg c = (if mtype m = 1 \<or> mtype m = 2 then [] else content m) \<and>
     c_file_name c = (if mtype m = 2 then content m else []) \<and>
     (c_file_id c, c_file_size c, c_content_type c, c_sha256 c) =
       (if mtype m = 1 \<or> mtype m = 2 then (fileId m, fileSize m, contentType m, sha256 m)
        else ([], 0, [], []))"
  by (simp add: fillChatInfo_def empty_ChatInfoRq_def Let_def)

end
