(* ===== verification/AiContext.thy ===== *)
theory AiContext
  imports Wire Database "HOL-Library.Sublist"
begin

text \<open>
  \<open>ai/AiContextBuilder\<close>: which part of a conversation is sent to the model. The four patterns of
  \<open>redactSensitiveText\<close> are sequences of greedy character-class repetitions and two kinds of
  boundary groups; they are matched here as \<open>std::regex\<close> (ECMAScript) matches them: leftmost,
  greedy, with backtracking, \<open>^\<close> only at the start of the text. The lemmas bound what the model
  gets, and show where the redaction does not reach.
\<close>

subsection \<open>The patterns\<close>

datatype rx =
    Rep "char \<Rightarrow> bool" nat "nat option"
  | Bol_or "char \<Rightarrow> bool"
  | Or_eol "char \<Rightarrow> bool"

fun first_some :: "('a \<Rightarrow> 'b option) \<Rightarrow> 'a list \<Rightarrow> 'b option" where
  "first_some f [] = None"
| "first_some f (x # xs) = (case f x of None \<Rightarrow> first_some f xs | Some y \<Rightarrow> Some y)"

text \<open>The match at the start of a text: the piece each item took, and the rest.\<close>

primrec rx_match :: "rx list \<Rightarrow> bool \<Rightarrow> string \<Rightarrow> (string list \<times> string) option" where
  "rx_match [] b s = Some ([], s)"
| "rx_match (r # rs) b s =
     (let try_take = (\<lambda>k. case rx_match rs (b \<and> k = 0) (drop k s) of
            None \<Rightarrow> None | Some (g, rest) \<Rightarrow> Some (take k s # g, rest))
      in case r of
           Rep p lo hi \<Rightarrow>
             (let n = length (takeWhile p s); top = (case hi of None \<Rightarrow> n | Some h \<Rightarrow> min h n)
              in first_some try_take (rev [lo..<Suc top]))
         | Bol_or p \<Rightarrow>
             first_some try_take ((if b then [0] else []) @ (if s \<noteq> [] \<and> p (hd s) then [1] else []))
         | Or_eol p \<Rightarrow>
             first_some try_take ((if s \<noteq> [] \<and> p (hd s) then [1] else []) @ (if s = [] then [0] else [])))"

text \<open>
  \<open>std::regex_replace\<close> of every match; the search goes on behind a match, where \<open>^\<close> no longer
  matches. None of the patterns matches the empty string.
\<close>

function rx_replace :: "rx list \<Rightarrow> (string list \<Rightarrow> string) \<Rightarrow> bool \<Rightarrow> string \<Rightarrow> string" where
  "rx_replace rs f b [] = []"
| "rx_replace rs f b (c # s) =
     (case rx_match rs b (c # s) of
        None \<Rightarrow> c # rx_replace rs f False s
      | Some (g, rest) \<Rightarrow>
          if length rest < Suc (length s) then f g @ rx_replace rs f False rest
          else c # rx_replace rs f False s)"
  by pat_completeness auto
termination by (relation "measure (\<lambda>(_, _, _, s). length s)") auto

definition is_digit :: "char \<Rightarrow> bool" where
  "is_digit c \<longleftrightarrow> between CHR ''0'' CHR ''9'' c"

definition is_alpha :: "char \<Rightarrow> bool" where
  "is_alpha c \<longleftrightarrow> between CHR ''a'' CHR ''z'' c \<or> between CHR ''A'' CHR ''Z'' c"

definition rx_email :: "rx list" where
  "rx_email =
     [Rep (\<lambda>c. is_alpha c \<or> is_digit c \<or> c \<in> set ''._%+-'') 1 None, Rep (\<lambda>c. c = CHR ''@'') 1 (Some 1),
      Rep (\<lambda>c. is_alpha c \<or> is_digit c \<or> c \<in> set ''.-'') 1 None, Rep (\<lambda>c. c = CHR ''.'') 1 (Some 1),
      Rep is_alpha 2 None]"

definition rx_mobile :: "rx list" where
  "rx_mobile =
     [Bol_or (\<lambda>c. \<not> is_digit c), Rep (\<lambda>c. c = CHR ''1'') 1 (Some 1),
      Rep (\<lambda>c. between CHR ''3'' CHR ''9'' c) 1 (Some 1), Rep is_digit 9 (Some 9),
      Or_eol (\<lambda>c. \<not> is_digit c)]"

definition rx_idCard :: "rx list" where
  "rx_idCard =
     [Bol_or (\<lambda>c. \<not> is_digit c), Rep (\<lambda>c. between CHR ''1'' CHR ''9'' c) 1 (Some 1),
      Rep is_digit 16 (Some 16), Rep (\<lambda>c. is_digit c \<or> c = CHR ''X'' \<or> c = CHR ''x'') 1 (Some 1),
      Or_eol (\<lambda>c. \<not> is_digit c)]"

definition rx_apiKey :: "rx list" where
  "rx_apiKey =
     [Rep (\<lambda>c. c = CHR ''s'') 1 (Some 1), Rep (\<lambda>c. c = CHR ''k'') 1 (Some 1), Rep (\<lambda>c. c = CHR ''-'') 1 (Some 1),
      Rep (\<lambda>c. is_alpha c \<or> is_digit c \<or> c = CHR ''_'' \<or> c = CHR ''-'') 8 None]"

text \<open>The replacement texts, in UTF-8; the two in the middle keep the groups \<open>$1\<close> and \<open>$2\<close>.\<close>

definition hidden :: "string \<Rightarrow> string" where
  "hidden what = CHR ''['' # what @ [CHR 0xE5, CHR 0xB7, CHR 0xB2, CHR 0xE9, CHR 0x9A, CHR 0x90,
     CHR 0xE8, CHR 0x97, CHR 0x8F, CHR '']'']"

definition hide_email :: string where
  "hide_email = hidden [CHR 0xE9, CHR 0x82, CHR 0xAE, CHR 0xE7, CHR 0xAE, CHR 0xB1]"

definition hide_mobile :: string where
  "hide_mobile = hidden [CHR 0xE6, CHR 0x89, CHR 0x8B, CHR 0xE6, CHR 0x9C, CHR 0xBA, CHR 0xE5,
     CHR 0x8F, CHR 0xB7]"

definition hide_idCard :: string where
  "hide_idCard = hidden [CHR 0xE8, CHR 0xBA, CHR 0xAB, CHR 0xE4, CHR 0xBB, CHR 0xBD, CHR 0xE8,
     CHR 0xAF, CHR 0x81, CHR 0xE5, CHR 0x8F, CHR 0xB7]"

definition hide_apiKey :: string where
  "hide_apiKey = hidden [CHR 0xE5, CHR 0xAF, CHR 0x86, CHR 0xE9, CHR 0x92, CHR 0xA5]"

definition redactSensitiveText :: "string \<Rightarrow> string" where
  "redactSensitiveText text =
     (let r1 = rx_replace rx_email (\<lambda>_. hide_email) True text;
          r2 = rx_replace rx_mobile (\<lambda>g. g ! 0 @ hide_mobile @ g ! 4) True r1;
          r3 = rx_replace rx_idCard (\<lambda>g. g ! 0 @ hide_idCard @ g ! 4) True r2
      in rx_replace rx_apiKey (\<lambda>_. hide_apiKey) True r3)"

subsection \<open>The context\<close>

datatype Role = Me | Peer

record AiContextPolicy =
  pol_maxMessages :: int
  pol_maxMessageBytes :: int
  pol_maxContextBytes :: int

record AiReplyRequest =
  arq_requestId :: string
  arq_turns :: "(Role \<times> string) list"
  arq_tone :: string
  arq_maxSuggestions :: int

text \<open>The rows the loop does not skip: texts, with some text, between the two users.\<close>

definition usable :: "int \<Rightarrow> int \<Rightarrow> StoredMessage \<Rightarrow> bool" where
  "usable u p row \<longleftrightarrow> mtype row = 0 \<and> content row \<noteq> [] \<and>
     (senderId row = u \<and> receiverId row = p \<or> senderId row = p \<and> receiverId row = u)"

text \<open>The loop over the rows, newest first; \<open>acc\<close> is \<open>newestFirst\<close>, in its order.\<close>

fun collect_turns ::
  "int \<Rightarrow> int \<Rightarrow> int \<Rightarrow> nat \<Rightarrow> nat \<Rightarrow> StoredMessage list \<Rightarrow> (Role \<times> string) list \<Rightarrow> nat \<Rightarrow>
   (Role \<times> string) list" where
  "collect_turns u p messageCount messageLimit totalLimit [] acc used = acc"
| "collect_turns u p messageCount messageLimit totalLimit (row # rows) acc used =
     (if messageCount \<le> int (length acc) then acc
      else if \<not> usable u p row then collect_turns u p messageCount messageLimit totalLimit rows acc used
      else let sanitized = utf8Truncate (redactSensitiveText (content row)) messageLimit in
        if sanitized = [] then collect_turns u p messageCount messageLimit totalLimit rows acc used
        else let remaining = totalLimit - min used totalLimit in
          if remaining = 0 then acc
          else let kept = utf8Truncate sanitized remaining in
            if kept = [] then acc
            else collect_turns u p messageCount messageLimit totalLimit rows
                   (acc @ [(if senderId row = u then Me else Peer, kept)]) (used + length kept))"

definition buildReplyContext ::
  "StoredMessage list \<Rightarrow> int \<Rightarrow> int \<Rightarrow> string \<Rightarrow> string \<Rightarrow> int \<Rightarrow> AiContextPolicy \<Rightarrow> AiReplyRequest" where
  "buildReplyContext rows userId peerId requestId tone maxSuggestions policy =
     \<lparr>arq_requestId = requestId,
      arq_turns = rev (collect_turns userId peerId (max (pol_maxMessages policy) 1)
        (nat (max (pol_maxMessageBytes policy) 1)) (nat (max (pol_maxContextBytes policy) 1)) rows [] 0),
      arq_tone = tone, arq_maxSuggestions = min (max maxSuggestions 1) 3\<rparr>"

subsection \<open>What the model gets\<close>

definition bytes_used :: "(Role \<times> string) list \<Rightarrow> nat" where
  "bytes_used ts = sum_list (map (\<lambda>t. length (snd t)) ts)"

definition turn_of :: "int \<Rightarrow> int \<Rightarrow> StoredMessage \<Rightarrow> Role \<times> string \<Rightarrow> bool" where
  "turn_of u p m t \<longleftrightarrow> mtype m = 0 \<and>
     (senderId m = u \<and> receiverId m = p \<and> fst t = Me \<or>
      senderId m = p \<and> receiverId m = u \<and> (fst t = Peer \<or> u = p)) \<and>
     snd t \<noteq> [] \<and> (\<exists>rest. redactSensitiveText (content m) = snd t @ rest)"

lemma bytes_used_snoc [simp]: "bytes_used (ts @ [t]) = bytes_used ts + length (snd t)"
  by (simp add: bytes_used_def)

lemma bytes_used_rev [simp]: "bytes_used (rev ts) = bytes_used ts"
  by (induction ts) (auto simp: bytes_used_def)

lemma truncated_twice:
  "\<exists>rest. s = utf8Truncate (utf8Truncate s n) k @ rest"
  using utf8Truncate_prefix [of s n] utf8Truncate_prefix [of "utf8Truncate s n" k]
  by (metis append_assoc)

lemma collect_turns_bounds:
  assumes "used = bytes_used acc" and "bytes_used acc \<le> T" and "int (length acc) \<le> N"
    and "\<forall>t \<in> set acc. length (snd t) \<le> L"
  shows "let ts = collect_turns u p N L T rows acc used in
     bytes_used ts \<le> T \<and> int (length ts) \<le> N \<and> (\<forall>t \<in> set ts. length (snd t) \<le> L) \<and>
     (\<exists>ms new. ts = acc @ new \<and> subseq ms rows \<and> list_all2 (turn_of u p) ms new)"
  using assms
proof (induction u p N L T rows acc used rule: collect_turns.induct)
  case (1 u p N L T acc used)
  then show ?case by auto
next
  case (2 u p N L T row rows acc used)
  let ?s = "utf8Truncate (redactSensitiveText (content row)) L"
  let ?k = "utf8Truncate ?s (T - min used T)"
  let ?acc = "acc @ [(if senderId row = u then Me else Peer, ?k)]"
  have stop: ?case if "collect_turns u p N L T (row # rows) acc used = acc"
    unfolding that using "2.prems" by (auto simp: Let_def intro: exI [of _ "[]"])
  have skip: ?case
    if "let ts = collect_turns u p N L T rows acc used in
        bytes_used ts \<le> T \<and> int (length ts) \<le> N \<and> (\<forall>t \<in> set ts. length (snd t) \<le> L) \<and>
        (\<exists>ms new. ts = acc @ new \<and> subseq ms rows \<and> list_all2 (turn_of u p) ms new)"
      and "collect_turns u p N L T (row # rows) acc used = collect_turns u p N L T rows acc used"
    using that(1) unfolding that(2) Let_def by (blast intro: list_emb_Cons)
  show ?case
  proof (cases "N \<le> int (length acc) \<or> usable u p row \<and> ?s \<noteq> [] \<and> (T - min used T = 0 \<or> ?k = [])")
    case True
    show ?thesis by (rule stop) (use True in \<open>auto simp: Let_def\<close>)
  next
    case not_stop: False
    then have more: "\<not> N \<le> int (length acc)" by simp
    show ?thesis
    proof (cases "usable u p row")
      case False
      then have u: "\<not> usable u p row" .
      show ?thesis by (rule skip [OF "2.IH"(1) [OF more u "2.prems"]]) (simp add: more u)
    next
      case us: True
      show ?thesis
      proof (cases "?s = []")
        case True
        show ?thesis
          by (rule skip [OF "2.IH"(2) [OF more _ refl True "2.prems"]]) (simp_all add: more us True)
      next
        case some: False
        then have room: "T - min used T \<noteq> 0" and kept: "?k \<noteq> []" using not_stop us by auto
        have kT: "length ?k \<le> T - min used T" and kL: "length ?k \<le> L"
          using length_utf8Truncate [of ?s "T - min used T"] utf8Truncate_prefix [of ?s "T - min used T"]
            length_utf8Truncate [of "redactSensitiveText (content row)" L]
          by (auto dest: arg_cong [where f = length])
        have eq: "collect_turns u p N L T (row # rows) acc used =
            collect_turns u p N L T rows ?acc (used + length ?k)"
          using more us some room kept by (simp add: Let_def)
        have "turn_of u p row (if senderId row = u then Me else Peer, ?k)"
          using us kept truncated_twice [of "redactSensitiveText (content row)" L "T - min used T"]
          by (auto simp: turn_of_def usable_def)
        then have one: "subseq (row # ms) (row # rows) \<and> list_all2 (turn_of u p) (row # ms)
            ((if senderId row = u then Me else Peer, ?k) # new)"
          if "subseq ms rows" "list_all2 (turn_of u p) ms new" for ms new
          using that by (simp del: if_split_asm)
        have "let ts = collect_turns u p N L T rows ?acc (used + length ?k) in
            bytes_used ts \<le> T \<and> int (length ts) \<le> N \<and> (\<forall>t \<in> set ts. length (snd t) \<le> L) \<and>
            (\<exists>ms new. ts = ?acc @ new \<and> subseq ms rows \<and> list_all2 (turn_of u p) ms new)"
          by (rule "2.IH"(3) [OF more _ refl some refl room refl kept])
            (use us "2.prems" kT kL more in auto)
        then obtain ms new where rest: "collect_turns u p N L T rows ?acc (used + length ?k) = ?acc @ new"
            "bytes_used (?acc @ new) \<le> T" "int (length (?acc @ new)) \<le> N"
            "\<forall>t \<in> set (?acc @ new). length (snd t) \<le> L" "subseq ms rows" "list_all2 (turn_of u p) ms new"
          unfolding Let_def by auto
        show ?thesis
          unfolding eq rest(1) Let_def using rest(2-4) one [OF rest(5,6)]
          by (intro conjI exI [of _ "row # ms"]
              exI [of _ "(if senderId row = u then Me else Peer, ?k) # new"]) simp_all
      qed
    qed
  qed
qed

text \<open>
  What is sent to the model is at most the configured number of turns and bytes, no turn
  longer than the configured limit or empty; the turns are, in the order they were written,
  text messages between the two users and nobody else, each the beginning of its redacted text,
  with the author told apart.
\<close>

theorem reply_context_bounded:
  "let q = buildReplyContext rows u p rid tone n pol; ts = arq_turns q in
     int (length ts) \<le> max (pol_maxMessages pol) 1 \<and>
     int (bytes_used ts) \<le> max (pol_maxContextBytes pol) 1 \<and>
     list_all (\<lambda>t. int (length (snd t)) \<le> max (pol_maxMessageBytes pol) 1) ts \<and>
     1 \<le> arq_maxSuggestions q \<and> arq_maxSuggestions q \<le> 3 \<and>
     (\<exists>ms. subseq ms rows \<and> list_all2 (turn_of u p) (rev ms) ts)"
proof -
  define N L T where "N = max (pol_maxMessages pol) 1" and "L = nat (max (pol_maxMessageBytes pol) 1)"
    and "T = nat (max (pol_maxContextBytes pol) 1)"
  define new where "new = collect_turns u p N L T rows [] 0"
  have "let ts = collect_turns u p N L T rows [] 0 in
     bytes_used ts \<le> T \<and> int (length ts) \<le> N \<and> (\<forall>t \<in> set ts. length (snd t) \<le> L) \<and>
     (\<exists>ms new. ts = [] @ new \<and> subseq ms rows \<and> list_all2 (turn_of u p) ms new)"
    by (rule collect_turns_bounds) (simp_all add: bytes_used_def N_def)
  then obtain ms where new: "bytes_used new \<le> T" "int (length new) \<le> N"
      "\<forall>t \<in> set new. length (snd t) \<le> L" "subseq ms rows" "list_all2 (turn_of u p) ms new"
    by (auto simp only: Let_def append_Nil new_def [symmetric])
  have turns: "arq_turns (buildReplyContext rows u p rid tone n pol) = rev new"
    by (simp add: buildReplyContext_def new_def N_def L_def T_def)
  have T: "int T = max (pol_maxContextBytes pol) 1" and L: "int L = max (pol_maxMessageBytes pol) 1"
    by (simp_all add: T_def L_def max_def)
  have "list_all2 (turn_of u p) (rev ms) (rev new)" using new(5) by simp
  moreover have "1 \<le> arq_maxSuggestions (buildReplyContext rows u p rid tone n pol) \<and>
      arq_maxSuggestions (buildReplyContext rows u p rid tone n pol) \<le> 3"
    by (simp add: buildReplyContext_def)
  ultimately show ?thesis
    unfolding Let_def list_all_iff turns T [symmetric] L [symmetric] N_def [symmetric]
    using new(1-4) by auto
qed

text \<open>
  A mobile number on its own is hidden, but of two numbers with one character between them
  only the first is: the match of the first takes the character the match of the second needs.
\<close>

theorem redaction_misses_second_number:
  "redactSensitiveText ''tel 13800000001.'' = ''tel '' @ hide_mobile @ ''.'' \<and>
   redactSensitiveText ''13800000001 13900000002'' = hide_mobile @ '' 13900000002''"
  by code_simp

end
