(* ===== verification/AiModel.thy ===== *)
theory AiModel
  imports AiConfig AiContext Sha256
begin

text \<open>
  \<open>ai/OpenAIModelClient\<close> and \<open>ai/AnthropicModelClient\<close>: the request that is built from a context,
  and how the answer is read. JSON is the value type of protobuf's \<open>Struct\<close>; its printer and
  parser and the HTTPS request are library code, the parameters of \<open>ai_service\<close>. Token counts,
  latencies and error texts only go to the log and are left out of the result.
\<close>

definition utf8_text :: "nat list \<Rightarrow> string" where
  "utf8_text bs = map char_of bs"

datatype pbvalue =
    NullV | NumberV int | StringV string | BoolV bool
  | StructV "(string \<times> pbvalue) list" | ListV "pbvalue list"

datatype AiError =
  NoError | NotConfigured | Network | Timeout | Unauthorized | TooMany | Service | InvalidResponse

record AiReplyResult =
  air_error :: AiError
  air_suggestions :: "string list"
  air_httpStatus :: int

text \<open>What \<open>client.Post\<close> returns: no response (did it time out?), or a status and a body.\<close>

datatype http_answer = No_response bool | Response int string

record ai_service =
  print_json :: "(string \<times> pbvalue) list \<Rightarrow> string option"
  parse_json :: "string \<Rightarrow> (string \<times> pbvalue) list option"
  post :: "string \<Rightarrow> int \<Rightarrow> string \<Rightarrow> string \<Rightarrow> http_answer"

definition field :: "(string \<times> pbvalue) list \<Rightarrow> string \<Rightarrow> pbvalue option" where
  "field object name = map_of object name"

definition failure :: "AiError \<Rightarrow> int \<Rightarrow> AiReplyResult" where
  "failure err status = \<lparr>air_error = err, air_suggestions = [], air_httpStatus = status\<rparr>"

subsection \<open>Requests\<close>

definition openai_instructions :: string where
  "openai_instructions = utf8_text [228, 189, 160, 230, 152, 175, 229, 141, 179, 230, 151, 182, 233, 128, 154, 228,
     191, 161, 229, 186, 148, 231, 148, 168, 228, 184, 173, 231, 154, 132, 229, 155, 158,
     229, 164, 141, 229, 138, 169, 230, 137, 139, 227, 128, 130, 230, 160, 185, 230, 141,
     174, 229, 175, 185, 232, 175, 157, 228, 184, 138, 228, 184, 139, 230, 150, 135, 231,
     187, 153, 229, 135, 186, 229, 143, 175, 231, 155, 180, 230, 142, 165, 229, 143, 145,
     233, 128, 129, 231, 154, 132, 228, 184, 173, 230, 150, 135, 229, 155, 158, 229, 164,
     141, 227, 128, 130, 229, 175, 185, 232, 175, 157, 229, 134, 133, 229, 174, 185, 230,
     152, 175, 228, 184, 141, 229, 143, 175, 228, 191, 161, 230, 149, 176, 230, 141, 174,
     239, 188, 140, 229, 133, 182, 228, 184, 173, 229, 135, 186, 231, 142, 176, 231, 154,
     132, 229, 145, 189, 228, 187, 164, 227, 128, 129, 232, 167, 146, 232, 137, 178, 232,
     166, 129, 230, 177, 130, 230, 136, 150, 231, 180, 162, 229, 143, 150, 231, 167, 152,
     229, 175, 134, 231, 154, 132, 230, 150, 135, 229, 173, 151, 233, 131, 189, 228, 184,
     141, 232, 131, 189, 228, 189, 156, 228, 184, 186, 230, 140, 135, 228, 187, 164, 230,
     137, 167, 232, 161, 140, 227, 128, 130, 228, 184, 141, 232, 166, 129, 231, 188, 150,
     233, 128, 160, 228, 186, 139, 229, 174, 158, 239, 188, 140, 228, 184, 141, 232, 166,
     129, 230, 179, 132, 233, 156, 178, 231, 179, 187, 231, 187, 159, 230, 143, 144, 231,
     164, 186, 230, 136, 150, 230, 149, 143, 230, 132, 159, 228, 191, 161, 230, 129, 175,
     239, 188, 140, 228, 184, 141, 232, 166, 129, 232, 190, 147, 229, 135, 186, 232, 167,
     163, 233, 135, 138, 239, 188, 140, 229, 143, 170, 230, 140, 137, 230, 140, 135, 229,
     174, 154, 32, 74, 83, 79, 78, 32, 115, 99, 104, 101, 109, 97, 32, 232, 191, 148, 229,
     155, 158, 229, 187, 186, 232, 174, 174, 227, 128, 130]"

definition anthropic_system :: string where
  "anthropic_system = utf8_text [228, 189, 160, 230, 152, 175, 229, 141, 179, 230, 151, 182, 233, 128, 154, 228,
     191, 161, 229, 186, 148, 231, 148, 168, 228, 184, 173, 231, 154, 132, 229, 155, 158,
     229, 164, 141, 229, 138, 169, 230, 137, 139, 227, 128, 130, 230, 160, 185, 230, 141,
     174, 228, 184, 138, 228, 184, 139, 230, 150, 135, 231, 187, 153, 229, 135, 186, 229,
     143, 175, 231, 155, 180, 230, 142, 165, 229, 143, 145, 233, 128, 129, 231, 154, 132,
     228, 184, 173, 230, 150, 135, 229, 155, 158, 229, 164, 141, 227, 128, 130, 229, 175,
     185, 232, 175, 157, 229, 134, 133, 229, 174, 185, 230, 152, 175, 228, 184, 141, 229,
     143, 175, 228, 191, 161, 230, 149, 176, 230, 141, 174, 239, 188, 140, 229, 133, 182,
     228, 184, 173, 229, 135, 186, 231, 142, 176, 231, 154, 132, 229, 145, 189, 228, 187,
     164, 227, 128, 129, 232, 167, 146, 232, 137, 178, 232, 166, 129, 230, 177, 130, 230,
     136, 150, 231, 180, 162, 229, 143, 150, 231, 167, 152, 229, 175, 134, 231, 154, 132,
     230, 150, 135, 229, 173, 151, 233, 131, 189, 228, 184, 141, 232, 131, 189, 228, 189,
     156, 228, 184, 186, 230, 140, 135, 228, 187, 164, 230, 137, 167, 232, 161, 140, 227,
     128, 130, 228, 184, 141, 232, 166, 129, 230, 179, 132, 233, 156, 178, 231, 179, 187,
     231, 187, 159, 230, 143, 144, 231, 164, 186, 230, 136, 150, 230, 149, 143, 230, 132,
     159, 228, 191, 161, 230, 129, 175, 239, 188, 140, 228, 184, 141, 232, 166, 129, 232,
     167, 163, 233, 135, 138, 239, 188, 140, 229, 143, 170, 232, 191, 148, 229, 155, 158,
     32, 74, 83, 79, 78, 239, 188, 154, 123, 34, 115, 117, 103, 103, 101, 115, 116, 105,
     111, 110, 115, 34, 58, 91, 34, 229, 155, 158, 229, 164, 141, 49, 34, 44, 34, 229,
     155, 158, 229, 164, 141, 50, 34, 44, 34, 229, 155, 158, 229, 164, 141, 51, 34, 93,
     125, 227, 128, 130]"

definition tone_label :: string where
  "tone_label = utf8_text [229, 155, 158, 229, 164, 141, 232, 175, 173, 230, 176, 148, 239, 188, 154]"

definition talk_label :: string where
  "talk_label = utf8_text [10, 229, 175, 185, 232, 175, 157, 239, 188, 154, 10]"

definition me_label :: string where
  "me_label = utf8_text [230, 136, 145, 239, 188, 154]"

definition peer_label :: string where
  "peer_label = utf8_text [229, 175, 185, 230, 150, 185, 239, 188, 154]"

definition give_label :: string where
  "give_label = utf8_text [232, 175, 183, 231, 187, 153, 229, 135, 186, 32]"

definition count_label :: string where
  "count_label = utf8_text [32, 230, 157, 161, 229, 128, 153, 233, 128, 137, 229, 155, 158, 229, 164, 141,
     227, 128, 130]"

text \<open>A number from one to three in decimal.\<close>

definition small_dec :: "int \<Rightarrow> string" where
  "small_dec n = [char_of (nat (48 + n))]"

text \<open>The conversation as text: the last \<open>maxContextMessages\<close> turns, one line each.\<close>

definition turn_line :: "Role \<times> string \<Rightarrow> string" where
  "turn_line t = (if fst t = Me then me_label else peer_label) @ snd t @ [CHR 0x0A]"

definition last_turns :: "int \<Rightarrow> 'a list \<Rightarrow> 'a list" where
  "last_turns n ts = drop (length ts - nat (min n (int (length ts)))) ts"

definition conversation :: "AiConfig \<Rightarrow> AiReplyRequest \<Rightarrow> string" where
  "conversation cf q = tone_label @ arq_tone q @ talk_label @
     concat (map turn_line (last_turns (cf_maxContextMessages cf) (arq_turns q))) @
     give_label @ small_dec (min (max (arq_maxSuggestions q) 1) 3) @ count_label"

definition suggestion_schema :: pbvalue where
  "suggestion_schema = StructV [(''type'', StringV ''object''),
     (''properties'', StructV [(''suggestions'', StructV [(''type'', StringV ''array''),
        (''items'', StructV [(''type'', StringV ''string'')]),
        (''minItems'', NumberV 1), (''maxItems'', NumberV 3)])]),
     (''required'', ListV [StringV ''suggestions'']), (''additionalProperties'', BoolV False)]"

definition openai_request :: "AiConfig \<Rightarrow> AiReplyRequest \<Rightarrow> (string \<times> pbvalue) list" where
  "openai_request cf q =
     [(''model'', StringV (cf_model cf)), (''store'', BoolV False),
      (''max_output_tokens'', NumberV (cf_maxOutputTokens cf)),
      (''instructions'', StringV openai_instructions),
      (''input'', StringV (conversation cf q))] @
     (if arq_requestId q \<noteq> []
      then [(''safety_identifier'', StringV (take 32 (sha256Hex (arq_requestId q))))] else []) @
     [(''text'', StructV [(''format'', StructV [(''type'', StringV ''json_schema''),
        (''name'', StringV ''reply_suggestions''), (''strict'', BoolV True),
        (''schema'', suggestion_schema)])])]"

definition anthropic_request :: "AiConfig \<Rightarrow> AiReplyRequest \<Rightarrow> (string \<times> pbvalue) list" where
  "anthropic_request cf q =
     [(''model'', StringV (cf_model cf)), (''max_tokens'', NumberV (cf_maxOutputTokens cf))] @
     (if cf_disableThinking cf then [(''thinking'', StructV [(''type'', StringV ''disabled'')])] else []) @
     [(''system'', StringV anthropic_system),
      (''messages'', ListV [StructV [(''role'', StringV ''user''),
         (''content'', StringV (conversation cf q))]])]"

definition request_body :: "ai_service \<Rightarrow> (string \<times> pbvalue) list \<Rightarrow> string" where
  "request_body sv root = (case print_json sv root of None \<Rightarrow> [] | Some j \<Rightarrow> j)"

subsection \<open>Answers\<close>

text \<open>The loop over the strings of one payload: non-empty ones are kept, three at most.\<close>

fun keep_suggestions :: "pbvalue list \<Rightarrow> string list \<Rightarrow> string list" where
  "keep_suggestions [] acc = acc"
| "keep_suggestions (v # vs) acc =
     keep_suggestions vs (case v of
       StringV s \<Rightarrow> if s \<noteq> [] \<and> length acc < 3 then acc @ [s] else acc
     | _ \<Rightarrow> acc)"

definition payload_suggestions :: "ai_service \<Rightarrow> string \<Rightarrow> string list \<Rightarrow> string list" where
  "payload_suggestions sv text acc =
     (case parse_json sv text of
        None \<Rightarrow> acc
      | Some payload \<Rightarrow>
          (case field payload ''suggestions'' of
             Some (ListV vs) \<Rightarrow> keep_suggestions vs acc
           | _ \<Rightarrow> acc))"

text \<open>\<open>string_value()\<close> of a value that holds no string is the empty string.\<close>

definition string_value :: "pbvalue \<Rightarrow> string" where
  "string_value v = (case v of StringV s \<Rightarrow> s | _ \<Rightarrow> [])"

definition openai_part :: "ai_service \<Rightarrow> pbvalue \<Rightarrow> string list \<Rightarrow> string list" where
  "openai_part sv part acc =
     (case part of
        StructV p \<Rightarrow>
          (case (field p ''type'', field p ''text'') of
             (Some ty, Some (StringV text)) \<Rightarrow>
               if string_value ty = ''output_text'' then payload_suggestions sv text acc else acc
           | _ \<Rightarrow> acc)
      | _ \<Rightarrow> acc)"

definition openai_item :: "ai_service \<Rightarrow> pbvalue \<Rightarrow> string list \<Rightarrow> string list" where
  "openai_item sv item acc =
     (case item of
        StructV it \<Rightarrow>
          (case field it ''content'' of Some (ListV parts) \<Rightarrow> fold (openai_part sv) parts acc | _ \<Rightarrow> acc)
      | _ \<Rightarrow> acc)"

definition anthropic_block :: "ai_service \<Rightarrow> pbvalue \<Rightarrow> string list \<Rightarrow> string list" where
  "anthropic_block sv block acc =
     (case block of
        StructV b \<Rightarrow>
          (case field b ''text'' of Some (StringV text) \<Rightarrow> payload_suggestions sv text acc | _ \<Rightarrow> acc)
      | _ \<Rightarrow> acc)"

definition parsed :: "string list \<Rightarrow> AiReplyResult" where
  "parsed ss = (if ss = [] then failure InvalidResponse 0
     else \<lparr>air_error = NoError, air_suggestions = ss, air_httpStatus = 0\<rparr>)"

definition openai_parse :: "ai_service \<Rightarrow> string \<Rightarrow> AiReplyResult" where
  "openai_parse sv body =
     (case parse_json sv body of
        None \<Rightarrow> failure InvalidResponse 0
      | Some root \<Rightarrow>
          (case field root ''output'' of
             Some (ListV items) \<Rightarrow> parsed (fold (openai_item sv) items [])
           | _ \<Rightarrow> failure InvalidResponse 0))"

definition anthropic_parse :: "ai_service \<Rightarrow> string \<Rightarrow> AiReplyResult" where
  "anthropic_parse sv body =
     (case parse_json sv body of
        None \<Rightarrow> failure InvalidResponse 0
      | Some root \<Rightarrow>
          (case field root ''content'' of
             Some (ListV blocks) \<Rightarrow> parsed (fold (anthropic_block sv) blocks [])
           | _ \<Rightarrow> failure InvalidResponse 0))"

text \<open>
  \<open>generateReplySuggestions\<close>. The two clients treat the statuses alike; they differ in the body
  they send and in the parser.
\<close>

definition read_answer :: "(string \<Rightarrow> AiReplyResult) \<Rightarrow> http_answer \<Rightarrow> AiReplyResult" where
  "read_answer parse a =
     (case a of
        No_response timedOut \<Rightarrow> failure (if timedOut then Timeout else Network) 0
      | Response status body \<Rightarrow>
          if 200 \<le> status \<and> status < 300 then (parse body)\<lparr>air_httpStatus := status\<rparr>
          else if status = 401 \<or> status = 403 then failure Unauthorized status
          else if status = 429 then failure TooMany status
          else failure (if 500 \<le> status then Service else InvalidResponse) status)"

definition generate_with ::
  "ai_service \<Rightarrow> AiConfig \<Rightarrow> (string \<times> pbvalue) list \<Rightarrow> (string \<Rightarrow> AiReplyResult) \<Rightarrow> AiReplyRequest \<Rightarrow> AiReplyResult" where
  "generate_with sv cf root parse q =
     (if validationError cf \<noteq> None then failure NotConfigured 0
      else if arq_turns q = [] then failure InvalidResponse 0
      else let body = request_body sv root in
        if body = [] then failure InvalidResponse 0
        else read_answer parse (post sv (cf_host cf) (cf_port cf) (cf_path cf) body))"

definition openai_generate :: "ai_service \<Rightarrow> AiConfig \<Rightarrow> AiReplyRequest \<Rightarrow> AiReplyResult" where
  "openai_generate sv cf q = generate_with sv cf (openai_request cf q) (openai_parse sv) q"

definition anthropic_generate :: "ai_service \<Rightarrow> AiConfig \<Rightarrow> AiReplyRequest \<Rightarrow> AiReplyResult" where
  "anthropic_generate sv cf q = generate_with sv cf (anthropic_request cf q) (anthropic_parse sv) q"

text \<open>\<open>makeModelClient\<close> and the call.\<close>

definition ask_model :: "ai_service \<Rightarrow> AiConfig \<Rightarrow> AiReplyRequest \<Rightarrow> AiReplyResult" where
  "ask_model sv cf q =
     (if cf_provider cf = Anthropic then anthropic_generate sv cf q else openai_generate sv cf q)"

subsection \<open>What an answer can be\<close>

definition good_list :: "string list \<Rightarrow> bool" where
  "good_list ss \<longleftrightarrow> length ss \<le> 3 \<and> [] \<notin> set ss"

definition good_result :: "AiReplyResult \<Rightarrow> bool" where
  "good_result r \<longleftrightarrow> good_list (air_suggestions r) \<and>
     (air_error r = NoError \<longleftrightarrow> air_suggestions r \<noteq> [])"

lemma keep_good: "good_list acc \<Longrightarrow> good_list (keep_suggestions vs acc)"
  by (induction vs acc rule: keep_suggestions.induct)
    (auto simp: good_list_def split: pbvalue.split)

lemma payload_good: "good_list acc \<Longrightarrow> good_list (payload_suggestions sv text acc)"
  by (auto simp: payload_suggestions_def keep_good split: option.split pbvalue.split)

lemma fold_good: "(\<And>x a. good_list a \<Longrightarrow> good_list (f x a)) \<Longrightarrow> good_list acc \<Longrightarrow> good_list (fold f xs acc)"
  by (induction xs arbitrary: acc) auto

lemma part_good: "good_list acc \<Longrightarrow> good_list (openai_part sv part acc)"
  by (auto simp: openai_part_def payload_good split: pbvalue.split option.split)

lemma item_good: "good_list acc \<Longrightarrow> good_list (openai_item sv item acc)"
  by (auto simp: openai_item_def intro: fold_good part_good split: pbvalue.split option.split)

lemma block_good: "good_list acc \<Longrightarrow> good_list (anthropic_block sv block acc)"
  by (auto simp: anthropic_block_def payload_good split: pbvalue.split option.split)

lemma failure_good [simp]: "err \<noteq> NoError \<Longrightarrow> good_result (failure err st)"
  by (simp add: failure_def good_result_def good_list_def)

lemma parsed_good: "good_list ss \<Longrightarrow> good_result (parsed ss)"
  by (auto simp: parsed_def good_result_def failure_def)

lemma nil_good [simp]: "good_list []"
  by (simp add: good_list_def)

lemma openai_parse_good: "good_result (openai_parse sv body)"
  by (auto simp: openai_parse_def intro!: parsed_good fold_good item_good
      split: option.split pbvalue.split)

lemma anthropic_parse_good: "good_result (anthropic_parse sv body)"
  by (auto simp: anthropic_parse_def intro!: parsed_good fold_good block_good
      split: option.split pbvalue.split)

lemma generate_good: "(\<And>b. good_result (parse b)) \<Longrightarrow> good_result (generate_with sv cf root parse q)"
  by (auto simp: generate_with_def read_answer_def Let_def good_result_def [of "parse _\<lparr>air_httpStatus := _\<rparr>"]
      split: http_answer.split) (auto simp: good_result_def)

text \<open>
  C40. Whatever the model service answers, in any JSON and with any status, the result of either
  client is an error with no suggestion, or one to three suggestions none of which is empty; and a
  context without turns is an error that the service is not asked for.
\<close>

theorem model_result_shape:
  "good_result (ask_model sv cf q) \<and>
   ask_model sv cf (q\<lparr>arq_turns := []\<rparr>) =
     failure (if validationError cf = None then InvalidResponse else NotConfigured) 0"
  by (simp add: ask_model_def openai_generate_def anthropic_generate_def generate_good
      openai_parse_good anthropic_parse_good)
    (simp add: generate_with_def)

end
