(* ===== verification/AuthHandler.thy ===== *)
theory AuthHandler
  imports World
begin

text \<open>
  \<open>handlers/AuthHandler\<close>: registration, login by password or token, refresh and logout, and the
  activation of a session that has just been authenticated.
\<close>

subsection \<open>Checks\<close>

definition isdigit :: "char \<Rightarrow> bool" where
  "isdigit c \<longleftrightarrow> between CHR ''0'' CHR ''9'' c"

definition validMainlandMobile :: "string \<Rightarrow> bool" where
  "validMainlandMobile tel \<longleftrightarrow> length tel = 11 \<and> tel ! 0 = CHR ''1'' \<and> CHR ''3'' \<le> tel ! 1 \<and>
     tel ! 1 \<le> CHR ''9'' \<and> (\<forall>c \<in> set tel. isdigit c)"

definition validSha256Proof :: "string \<Rightarrow> bool" where
  "validSha256Proof proof' \<longleftrightarrow> length proof' = 64 \<and>
     (\<forall>c \<in> set proof'. isdigit c \<or> between CHR ''a'' CHR ''f'' c \<or> between CHR ''A'' CHR ''F'' c)"

subsection \<open>Registration\<close>

definition onRegister :: "tenv \<Rightarrow> nat \<Rightarrow> RegisterRq option \<Rightarrow> world \<Rightarrow> handled" where
  "onRegister e sid rq0 w =
     (case rq0 of
        None \<Rightarrow> (Returns (), w)
      | Some rq \<Rightarrow>
          if rg_nick rq = [] \<or> USER_NICK_LEN \<le> length (rg_nick rq) \<or>
             \<not> validMainlandMobile (rg_tel rq) \<or> \<not> validSha256Proof (rg_pass rq)
          then (Returns (), deliver sid (P_RegisterRs REGISTER_INVALID) w)
          else let (result, c) = registerUser (ext e) (sql e) (rg_nick rq) (rg_tel rq) (rg_pass rq) (db w)
               in (Returns (), deliver sid (P_RegisterRs result) (w\<lparr>db := c\<rparr>)))"

subsection \<open>Activation\<close>

text \<open>One friend: its state to the new session, the user's arrival to the friend.\<close>

definition announce :: "tenv \<Rightarrow> nat \<Rightarrow> int \<Rightarrow> UserRecord \<Rightarrow> world \<Rightarrow> world" where
  "announce e sid u fr w =
     (let w1 = sendFriendInfo e sid (ur_id fr)
            (if located w (ur_id fr) \<noteq> None then STATUS_ONLINE else STATUS_OFFLINE) w
      in case located w1 (ur_id fr) of
           None \<Rightarrow> w1 | Some fs \<Rightarrow> sendFriendInfo e fs u STATUS_ONLINE w1)"

text \<open>One offline message, and the receipt to its sender.\<close>

definition hand_over :: "nat \<Rightarrow> int \<Rightarrow> StoredMessage \<Rightarrow> world \<Rightarrow> world" where
  "hand_over sid u m w =
     (let w1 = deliver sid (P_ChatInfoRq (fillChatInfo empty_ChatInfoRq m)) w
      in case located w1 (senderId m) of
           None \<Rightarrow> w1
         | Some s \<Rightarrow> deliver s (P_ChatInfoRs \<lparr>cr_myid = u, cr_friid = senderId m,
             cr_result = CHAT_RESULT_SUCC, cr_msg_id = msgId m, cr_seq = mseq m\<rparr>) w1)"

definition take_over :: "tenv \<Rightarrow> nat \<Rightarrow> int \<Rightarrow> world \<Rightarrow> world" where
  "take_over e sid u w =
     (case pres_replace (alive w) u sid (now e) (online w) of
        (old, m) \<Rightarrow>
          let w1 = w\<lparr>online := m\<rparr> in
          case old of
            None \<Rightarrow> w1
          | Some prev \<Rightarrow>
              if prev \<noteq> sid then closeAfterWrite prev (deliver prev P_KickedOffline w1) else w1)"

definition activateSession :: "tenv \<Rightarrow> nat \<Rightarrow> int \<Rightarrow> world \<Rightarrow> world" where
  "activateSession e sid u w0 =
     (let w1 = take_over e sid u w0;
          w2 = sendFriendInfo e sid u STATUS_ONLINE w1;
          w3 = fold (announce e sid u) (getFriends (sql e) u (db w2)) w2;
          undelivered = pullUndelivered (sql e) u (db w3);
          w4 = fold (hand_over sid u) undelivered w3
      in w4\<lparr>db := markDelivered (sql e) (map msgId undelivered) (db w4)\<rparr>)"

subsection \<open>Login\<close>

definition login_failed :: "int \<Rightarrow> packet" where
  "login_failed result = P_LoginRs (empty_LoginRs\<lparr>lrs_result := result\<rparr>)"

definition login_answer :: "int \<Rightarrow> TokenPair \<Rightarrow> packet" where
  "login_answer uid tokens = P_LoginRs \<lparr>lrs_userid = uid, lrs_result = LOGIN_SUCCESS,
     lrs_access_token = tp_accessToken tokens, lrs_refresh_token = tp_refreshToken tokens,
     lrs_access_expire = tp_accessExpiresAt tokens, lrs_refresh_expire = tp_refreshExpiresAt tokens,
     lrs_session_id = tp_sessionId tokens\<rparr>"

definition onLogin :: "tenv \<Rightarrow> nat \<Rightarrow> LoginRq option \<Rightarrow> world \<Rightarrow> handled" where
  "onLogin e sid rq0 w =
     (case rq0 of
        None \<Rightarrow> (Returns (), w)
      | Some rq \<Rightarrow>
          if \<not> validMainlandMobile (lg_tel rq) \<or> \<not> validSha256Proof (lg_pass rq)
          then (Returns (), deliver sid (login_failed LOGIN_INVALID) w)
          else let (result, uid, c1) = loginUser (ext e) (sql e) (lg_tel rq) (lg_pass rq) (db w);
                   w1 = w\<lparr>db := c1\<rparr>
               in if result \<noteq> LOGIN_SUCCESS then (Returns (), deliver sid (login_failed result) w1)
                  else if lg_device_id rq = [] \<or> 128 < length (lg_device_id rq) \<or> authenticated w1 sid
                  then (Returns (), deliver sid (login_failed LOGIN_PASSERROR) w1)
                  else (case issue e uid (lg_device_id rq) (db w1) of
                          (Throws, c2) \<Rightarrow>
                            (Returns (), deliver sid (login_failed LOGIN_PASSERROR) (w1\<lparr>db := c2\<rparr>))
                        | (Returns tokens, c2) \<Rightarrow>
                            let w2 = bindAuth sid uid (tp_sessionId tokens) (lg_device_id rq)
                                  (tp_accessExpiresAt tokens) (w1\<lparr>db := c2\<rparr>);
                                w3 = deliver sid (login_answer uid tokens) w2
                            in (Returns (), activateSession e sid uid w3)))"

definition token_login_answer :: "(int \<times> string \<times> int) option \<Rightarrow> packet" where
  "token_login_answer v = P_TokenLoginRs
     (case v of None \<Rightarrow> empty_TokenLoginRs\<lparr>trs_result := LOGIN_PASSERROR\<rparr>
      | Some (uid, _, expiresAt) \<Rightarrow>
          \<lparr>trs_result = LOGIN_SUCCESS, trs_userid = uid, trs_access_expire = expiresAt\<rparr>)"

definition onTokenLogin :: "tenv \<Rightarrow> nat \<Rightarrow> TokenLoginRq option \<Rightarrow> world \<Rightarrow> handled" where
  "onTokenLogin e sid rq0 w =
     (case rq0 of
        None \<Rightarrow> (Returns (), w)
      | Some rq \<Rightarrow>
          if authenticated w sid then (Returns (), deliver sid (token_login_answer None) w)
          else case (if length (tl_device_id rq) \<le> 128
                     then validateAccess e (tl_access_token rq) [] (tl_device_id rq) (db w)
                     else Returns None) of
            Throws \<Rightarrow> (Throws, w)
          | Returns None \<Rightarrow> (Returns (), deliver sid (token_login_answer None) w)
          | Returns (Some (uid, sessionId, expiresAt)) \<Rightarrow>
              let w1 = bindAuth sid uid sessionId (tl_device_id rq) expiresAt w;
                  w2 = deliver sid (token_login_answer (Some (uid, sessionId, expiresAt))) w1
              in (Returns (), activateSession e sid uid w2))"

subsection \<open>Refresh and logout\<close>

definition refresh_answer :: "TokenPair option \<Rightarrow> packet" where
  "refresh_answer p = P_RefreshTokenRs
     (case p of None \<Rightarrow> empty_RefreshTokenRs\<lparr>rrs_result := 1\<rparr>
      | Some tokens \<Rightarrow> \<lparr>rrs_result = 0, rrs_access_token = tp_accessToken tokens,
          rrs_refresh_token = tp_refreshToken tokens, rrs_access_expire = tp_accessExpiresAt tokens,
          rrs_refresh_expire = tp_refreshExpiresAt tokens, rrs_session_id = tp_sessionId tokens\<rparr>)"

definition kick_revoked :: "int \<Rightarrow> world \<Rightarrow> world" where
  "kick_revoked u w =
     (if u \<le> 0 then w
      else case located w u of
        None \<Rightarrow> w | Some live \<Rightarrow> closeAfterWrite live (deliver live P_KickedOffline w))"

definition onTokenRefresh :: "tenv \<Rightarrow> nat \<Rightarrow> RefreshTokenRq option \<Rightarrow> world \<Rightarrow> handled" where
  "onTokenRefresh e sid rq0 w =
     (case rq0 of
        None \<Rightarrow> (Returns (), w)
      | Some rq \<Rightarrow>
          (case (if length (rf_device_id rq) \<le> 128 \<and> length (rf_request_id rq) \<le> 128
                 then rotateRefresh e (rf_refresh_token rq) (rf_device_id rq) (rf_request_id rq)
                        (refreshes w) (db w)
                 else (Returns (None, 0), refreshes w, db w)) of
             (Throws, m, c) \<Rightarrow> (Throws, w\<lparr>refreshes := m, db := c\<rparr>)
           | (Returns (tokens, revokedUserId), m, c) \<Rightarrow>
               let w1 = kick_revoked revokedUserId (w\<lparr>refreshes := m, db := c\<rparr>);
                   w2 = (case tokens of
                           None \<Rightarrow> w1
                         | Some p \<Rightarrow>
                             if authenticated w1 sid
                             then bindAuth sid (userId w1 sid) (tp_sessionId p) (rf_device_id rq)
                                    (tp_accessExpiresAt p) w1
                             else w1)
               in (Returns (), deliver sid (refresh_answer tokens) w2)))"

text \<open>Whose session a logout request may revoke: the record of its token, held by this connection.\<close>

definition owned_session :: "tenv \<Rightarrow> nat \<Rightarrow> LogoutRq \<Rightarrow> world \<Rightarrow> AuthSessionRecord option exc" where
  "owned_session e sid rq w =
     (if lo_refresh_token rq = [] then Returns None
      else case tokenHash (ext e) (lo_refresh_token rq) of
        None \<Rightarrow> Throws
      | Some h \<Rightarrow>
          (case findByRefreshHash (sql e) h (db w) of
             None \<Rightarrow> Returns None
           | Some r \<Rightarrow>
               if \<not> as_revoked r \<and> as_deviceId r = lo_device_id rq \<and> authenticated w sid \<and>
                  userId w sid = as_userId r \<and> s_deviceId (sess_of w sid) = as_deviceId r \<and>
                  s_authSessionId (sess_of w sid) = as_sessionId r
               then Returns (Some r) else Returns None))"

definition onLogout :: "tenv \<Rightarrow> nat \<Rightarrow> LogoutRq option \<Rightarrow> world \<Rightarrow> handled" where
  "onLogout e sid rq0 w =
     (case rq0 of
        None \<Rightarrow> (Returns (), w)
      | Some rq \<Rightarrow>
          (case owned_session e sid rq w of
             Throws \<Rightarrow> (Throws, w)
           | Returns None \<Rightarrow> (Returns (), deliver sid (P_LogoutRs 1) w)
           | Returns (Some r) \<Rightarrow>
               let c = (if lo_all_devices rq then revokeAllForUser e (as_userId r) (db w)
                        else revokeSession e (as_sessionId r) (db w))
               in (Returns (), closeAfterWrite sid (deliver sid (P_LogoutRs 0) (w\<lparr>db := c\<rparr>)))))"

end
