(* ===== verification/FriendHandler.thy ===== *)
theory FriendHandler
  imports World
begin

text \<open>\<open>handlers/FriendHandler\<close>: asking, answering, listing the open requests, deleting a friend.\<close>

definition onAddFriend :: "tenv \<Rightarrow> nat \<Rightarrow> AddFriendRq option \<Rightarrow> world \<Rightarrow> handled" where
  "onAddFriend e sid rq0 w =
     (case rq0 of
        None \<Rightarrow> (Returns (), w)
      | Some rq1 \<Rightarrow>
          let u = userId w sid in
          if u \<le> 0 then (Returns (), w)
          else let rq = rq1\<lparr>af_myid := u\<rparr>;
                   friendId = getUserIdByNick (sql e)
                     (utf8Truncate (af_frinick rq) (USER_NICK_LEN - 1)) (db w);
                   rs = empty_AddFriendRs\<lparr>ar_mynick := af_frinick rq\<rparr>;
                   answer = (\<lambda>r. P_AddFriendRs (rs\<lparr>ar_result := r\<rparr>))
               in if friendId = 0 then (Returns (), deliver sid (answer ADD_FRIEND_NOTEXIT) w)
                  else if u = friendId then (Returns (), deliver sid (answer ADD_FRIEND_SELF) w)
                  else if isFriend (sql e) u friendId (db w)
                  then (Returns (), deliver sid (answer ADD_FRIEND_ALREADY) w)
                  else (case createFriendRequest (sql e) (now e) u friendId (db w) of
                     (created, c) \<Rightarrow>
                       let w1 = w\<lparr>db := c\<rparr> in
                       if \<not> created then (Returns (), deliver sid (answer ADD_FRIEND_DB_ERROR) w1)
                       else let nick = (case getUser (sql e) friendId (db w1) of
                                  None \<Rightarrow> af_frinick rq | Some r \<Rightarrow> ur_nick r);
                                w2 = (case located w1 friendId of
                                  None \<Rightarrow> w1 | Some t \<Rightarrow> deliver t (P_AddFriendRq rq) w1)
                            in (Returns (), deliver sid (P_AddFriendRs (rs\<lparr>ar_result := ADD_FRIEND_PENDING,
                                  ar_myid := friendId, ar_mynick := nick\<rparr>)) w2)))"

text \<open>The loop that sends the whole friend list of a user to a session.\<close>

definition send_friend :: "tenv \<Rightarrow> nat \<Rightarrow> UserRecord \<Rightarrow> world \<Rightarrow> world" where
  "send_friend e to fr w = sendFriendInfo e to (ur_id fr)
     (if located w (ur_id fr) \<noteq> None then STATUS_ONLINE else STATUS_OFFLINE) w"

definition send_friend_list :: "tenv \<Rightarrow> nat \<Rightarrow> int \<Rightarrow> world \<Rightarrow> world" where
  "send_friend_list e to u w =
     (let w1 = sendFriendInfo e to u STATUS_ONLINE w
      in fold (send_friend e to) (getFriends (sql e) u (db w1)) w1)"

definition onAddFriendReply :: "tenv \<Rightarrow> nat \<Rightarrow> AddFriendRs option \<Rightarrow> world \<Rightarrow> handled" where
  "onAddFriendReply e sid rs0 w =
     (case rs0 of
        None \<Rightarrow> (Returns (), w)
      | Some rs1 \<Rightarrow>
          let u = userId w sid in
          if u \<le> 0 then (Returns (), w)
          else let rs = rs1\<lparr>ar_myid := u\<rparr>; accepted = (ar_result rs = ADD_FRIEND_AGREE)
               in if ar_result rs \<noteq> ADD_FRIEND_AGREE \<and> ar_result rs \<noteq> ADD_FRIEND_REJECT
                  then (Returns (), w)
                  else (case resolveFriendRequest (sql e) (now e) (ar_destid rs) u accepted (db w) of
                     (resolved, c) \<Rightarrow>
                       let w1 = w\<lparr>db := c\<rparr> in
                       if \<not> resolved then (Returns (), w1)
                       else let w2 = (if accepted
                                then let wa = send_friend_list e sid u w1
                                     in case located wa (ar_destid rs) of
                                          None \<Rightarrow> wa | Some r \<Rightarrow> send_friend_list e r (ar_destid rs) wa
                                else w1)
                            in (Returns (), case located w2 (ar_destid rs) of
                                  None \<Rightarrow> w2 | Some r \<Rightarrow> deliver r (P_AddFriendRs rs) w2)))"

definition request_item :: "FriendRequestRecord \<Rightarrow> FriendRequestItem" where
  "request_item r = \<lparr>it_requester_id = fq_requesterId r, it_target_id = fq_targetId r,
     it_requester_nick = fq_requesterNick r, it_target_nick = fq_targetNick r,
     it_created_at = fq_createdAt r\<rparr>"

text \<open>The request is an empty message; the argument says whether it parsed.\<close>

definition onFriendRequestList :: "tenv \<Rightarrow> nat \<Rightarrow> unit option \<Rightarrow> world \<Rightarrow> handled" where
  "onFriendRequestList e sid rq0 w =
     (case rq0 of
        None \<Rightarrow> (Returns (), w)
      | Some _ \<Rightarrow>
          if userId w sid \<le> 0 then (Returns (), w)
          else (Returns (), deliver sid (P_FriendRequestListRs
                 (map request_item (pendingFriendRequests (sql e) (userId w sid) (db w)))) w))"

text \<open>The request is the friend's id.\<close>

definition onDeleteFriend :: "tenv \<Rightarrow> nat \<Rightarrow> int option \<Rightarrow> world \<Rightarrow> handled" where
  "onDeleteFriend e sid rq0 w =
     (case rq0 of
        None \<Rightarrow> (Returns (), w)
      | Some friendId \<Rightarrow>
          let u = userId w sid; nick = getUserNickById (sql e) u (db w);
              answer = (\<lambda>r f. P_DeleteFriendRs \<lparr>df_result = r, df_friend_id = f,
                          df_operator_id = u, df_operator_nick = nick\<rparr>)
          in if u \<le> 0 \<or> friendId \<le> 0 \<or> u = friendId
             then (Returns (), deliver sid (answer DELETE_FRIEND_INVALID friendId) w)
             else if \<not> isFriend (sql e) u friendId (db w)
             then (Returns (), deliver sid (answer DELETE_FRIEND_NOT_FRIEND friendId) w)
             else (case removeFriendBidirectional (sql e) u friendId (db w) of
                (removed, c) \<Rightarrow>
                  let w1 = w\<lparr>db := c\<rparr> in
                  if \<not> removed
                  then (Returns (), deliver sid (answer DELETE_FRIEND_DB_ERROR friendId) w1)
                  else let w2 = deliver sid (answer DELETE_FRIEND_SUCCESS friendId) w1
                       in (Returns (), case located w2 friendId of
                             None \<Rightarrow> w2
                           | Some f \<Rightarrow> deliver f (answer DELETE_FRIEND_SUCCESS u) w2)))"

end
