(* ===== verification/MessageHandler.thy ===== *)
theory MessageHandler
  imports World
begin

text \<open>
  \<open>handlers/MessageHandler\<close>, \<open>handlers/RoamHandler\<close> and \<open>handlers/SystemHandler\<close>: sending a
  message, reading the history, leaving and keeping alive.
\<close>

subsection \<open>Decimal numbers: \<open>std::to_string\<close>\<close>

definition digit_char :: "nat \<Rightarrow> char" where
  "digit_char d = char_of (48 + d)"

fun nat_dec :: "nat \<Rightarrow> string" where
  "nat_dec n = (if n < 10 then [digit_char n] else nat_dec (n div 10) @ [digit_char (n mod 10)])"

declare nat_dec.simps [simp del]

definition int_dec :: "int \<Rightarrow> string" where
  "int_dec i = (if i < 0 then CHR ''-'' # nat_dec (nat (- i)) else nat_dec (nat i))"

subsection \<open>Uploads\<close>

text \<open>
  \<open>HttpFileServer::findUploadRecord\<close> and \<open>eraseUploadRecord\<close>, which the chat handler calls.
\<close>

definition findUploadRecord :: "string \<Rightarrow> world \<Rightarrow> UploadRecord option" where
  "findUploadRecord fid w = uget (uploads w) fid"

definition eraseUploadRecord :: "string \<Rightarrow> world \<Rightarrow> world" where
  "eraseUploadRecord fid w = w\<lparr>uploads := udel fid (uploads w)\<rparr>"

subsection \<open>Sending\<close>

definition fallbackMsgId :: "int \<Rightarrow> int \<Rightarrow> int \<Rightarrow> nat \<Rightarrow> string \<Rightarrow> string" where
  "fallbackMsgId sender receiver t n text =
     sha256Hex (int_dec sender @ ''|'' @ int_dec receiver @ ''|'' @ int_dec t @ ''|'' @
       nat_dec n @ ''|'' @ text)"

definition deliverFailure :: "nat \<Rightarrow> ChatInfoRq \<Rightarrow> int \<Rightarrow> world \<Rightarrow> world" where
  "deliverFailure sid rq result w = deliver sid (P_ChatInfoRs \<lparr>cr_myid = c_friid rq,
     cr_friid = c_myid rq, cr_result = result, cr_msg_id = c_msg_id rq, cr_seq = 0\<rparr>) w"

definition is_media :: "ChatInfoRq \<Rightarrow> bool" where
  "is_media rq \<longleftrightarrow> c_type rq = IMAGE \<or> c_type rq = FILE"

text \<open>The upload a media message refers to: it must be the sender's, and for this receiver.\<close>

definition owned_upload :: "world \<Rightarrow> ChatInfoRq \<Rightarrow> UploadRecord option" where
  "owned_upload w rq =
     (case findUploadRecord (c_file_id rq) w of
        None \<Rightarrow> None
      | Some r \<Rightarrow> if up_uploaderId r \<noteq> c_myid rq \<or> up_receiverId r \<noteq> c_friid rq then None else Some r)"

definition message_of :: "string \<Rightarrow> int \<Rightarrow> ChatInfoRq \<Rightarrow> string \<Rightarrow> int \<Rightarrow> StoredMessage" where
  "message_of mid t rq path size' =
     \<lparr>msgId = mid, senderId = c_myid rq, receiverId = c_friid rq,
      mtype = (if c_type rq = IMAGE then 1 else if c_type rq = FILE then 2 else 0),
      content = (if c_type rq = FILE then c_file_name rq else c_msg rq), mediaPath = path,
      imgW = c_image_width rq, imgH = c_image_height rq, mts = t, mseq = 0,
      fileId = c_file_id rq, fileSize = size', contentType = c_content_type rq, sha256 = c_sha256 rq\<rparr>"

text \<open>From the construction of the message on: \<open>rq\<close> has its sender and its file data.\<close>

definition store_and_forward ::
  "tenv \<Rightarrow> nat \<Rightarrow> ChatInfoRq \<Rightarrow> string \<Rightarrow> int \<Rightarrow> world \<Rightarrow> world" where
  "store_and_forward e sid rq path size' w0 =
     (let (mid, w) = (if c_msg_id rq = []
            then (fallbackMsgId (c_myid rq) (c_friid rq) (now e) (msg_counter w0) (c_msg rq),
                  w0\<lparr>msg_counter := msg_counter w0 + 1\<rparr>)
            else (c_msg_id rq, w0));
          target = located w (c_friid rq)
      in case saveMessage (sql e) (message_of mid (now e) rq path size') (target \<noteq> None) (db w) of
           (saved, m, c) \<Rightarrow>
             let w1 = w\<lparr>db := c\<rparr> in
             if \<not> saved then deliverFailure sid rq CHAT_RESULT_SERVER_ERROR w1
             else let w2 = (if mtype m = 1 \<or> mtype m = 2 then eraseUploadRecord (fileId m) w1 else w1);
                      rq1 = rq\<lparr>c_msg_id := msgId m, c_ts := mts m, c_seq := mseq m\<rparr>;
                      receipt = (\<lambda>r. P_ChatInfoRs \<lparr>cr_myid = c_friid rq1, cr_friid = c_myid rq1,
                         cr_result = r, cr_msg_id = msgId m, cr_seq = mseq m\<rparr>)
                  in case target of
                       Some t \<Rightarrow> deliver sid (receipt CHAT_RESULT_SUCC) (deliver t (P_ChatInfoRq rq1) w2)
                     | None \<Rightarrow> deliver sid (receipt CHAT_RESULT_FAIL) w2)"

definition onChat :: "tenv \<Rightarrow> nat \<Rightarrow> ChatInfoRq option \<Rightarrow> world \<Rightarrow> handled" where
  "onChat e sid rq0 w =
     (case rq0 of
        None \<Rightarrow> (Returns (), w)
      | Some rq1 \<Rightarrow>
          let u = userId w sid in
          if u \<le> 0 then (Returns (), w)
          else let rq = rq1\<lparr>c_myid := u\<rparr> in
               if \<not> isFriend (sql e) u (c_friid rq) (db w)
               then (Returns (), deliverFailure sid rq CHAT_RESULT_NOT_FRIEND w)
               else if is_media rq
               then (case owned_upload w rq of
                       None \<Rightarrow> (Returns (), deliverFailure sid rq CHAT_RESULT_FILE_NOT_OWNED w)
                     | Some r \<Rightarrow> (Returns (), store_and_forward e sid (rq\<lparr>c_file_size := up_size r,
                         c_content_type := up_contentType r, c_sha256 := up_sha256 r\<rparr>)
                         (up_mediaPath r) (up_size r) w))
               else (Returns (), store_and_forward e sid rq [] 0 w))"

subsection \<open>History\<close>

definition roam_message :: "StoredMessage \<Rightarrow> ChatInfoRq" where
  "roam_message m = fillChatInfo empty_ChatInfoRq m"

definition onConversations :: "tenv \<Rightarrow> nat \<Rightarrow> world \<Rightarrow> handled" where
  "onConversations e sid w =
     (if userId w sid \<le> 0 then (Returns (), w)
      else (Returns (), deliver sid (P_RoamConvRs
             (map roam_message (roamConversations (sql e) (userId w sid) (db w)))) w))"

definition page_limit :: "int \<Rightarrow> int" where
  "page_limit l = min (if 0 < l then l else 20) 100"

definition page_before :: "int \<Rightarrow> int" where
  "page_before b = (if 0 < b then b else INT64_MAX)"

definition onMessages :: "tenv \<Rightarrow> nat \<Rightarrow> RoamMsgRq option \<Rightarrow> world \<Rightarrow> handled" where
  "onMessages e sid rq0 w =
     (if userId w sid \<le> 0 then (Returns (), w)
      else case rq0 of
        None \<Rightarrow> (Returns (), w)
      | Some rq \<Rightarrow>
          let limit = page_limit (rq_limit rq);
              rows = roamMessages (sql e) (userId w sid) (rq_peer_id rq)
                (page_before (rq_before_seq rq)) limit (db w)
          in (Returns (), deliver sid (P_RoamMsgRs \<lparr>rs_peer_id = rq_peer_id rq,
                rs_msgs = map roam_message rows, rs_has_more = (int (length rows) = limit),
                rs_min_seq = (if rows = [] then 0 else mseq (last rows))\<rparr>) w))"

subsection \<open>Leaving and keeping alive\<close>

text \<open>The content of the packet is not used; the argument says whether it parsed.\<close>

definition onOffline :: "nat \<Rightarrow> unit option \<Rightarrow> world \<Rightarrow> handled" where
  "onOffline sid rq w =
     (case rq of
        None \<Rightarrow> (Returns (), w)
      | Some _ \<Rightarrow> (Returns (), close sid (w\<lparr>online :=
          pres_offline (alive w) (userId w sid) sid (online w)\<rparr>)))"

definition onHeartbeat :: "tenv \<Rightarrow> nat \<Rightarrow> world \<Rightarrow> handled" where
  "onHeartbeat e sid w =
     (Returns (), deliver sid P_Heartbeat (if 0 < userId w sid
        then w\<lparr>online := pres_touch (userId w sid) (now e) (online w)\<rparr> else w))"

end
