(* ===== verification/AiHandler.thy ===== *)
theory AiHandler
  imports MessageHandler AiModel
begin

text \<open>
  \<open>handlers/AiHandler\<close>: suggestions for a reply. A request is checked on the session's strand and
  posted to the workers; a worker first builds the context (\<open>ai_begin\<close>) and, when the model has
  answered, delivers the result (\<open>ai_end\<close>); cancellations, logouts and other packets come in
  between. The latency total of the metrics is not modelled.
\<close>

subsection \<open>Texts for the user\<close>

definition msg_format :: string where
  "msg_format = utf8_text [232, 175, 183, 230, 177, 130, 230, 160, 188, 229, 188, 143, 233, 148, 153, 232,
     175, 175]"

definition msg_login :: string where
  "msg_login = utf8_text [232, 175, 183, 229, 133, 136, 231, 153, 187, 229, 189, 149]"

definition msg_params :: string where
  "msg_params = utf8_text [232, 175, 183, 230, 177, 130, 229, 143, 130, 230, 149, 176, 230, 151, 160, 230,
     149, 136]"

definition msg_closed :: string where
  "msg_closed = utf8_text [65, 73, 32, 229, 138, 159, 232, 131, 189, 230, 154, 130, 230, 156, 170, 229,
     188, 128, 230, 148, 190]"

definition msg_friends_only :: string where
  "msg_friends_only = utf8_text [229, 143, 170, 232, 131, 189, 229, 136, 134, 230, 158, 144, 229, 165, 189, 229,
     143, 139, 228, 188, 154, 232, 175, 157]"

definition msg_unconfigured :: string where
  "msg_unconfigured = utf8_text [65, 73, 32, 230, 156, 141, 229, 138, 161, 230, 156, 170, 233, 133, 141, 231,
     189, 174]"

definition msg_duplicate :: string where
  "msg_duplicate = utf8_text [233, 135, 141, 229, 164, 141, 231, 154, 132, 32, 65, 73, 32, 232, 175, 183,
     230, 177, 130]"

definition msg_too_often :: string where
  "msg_too_often = utf8_text [232, 175, 183, 230, 177, 130, 232, 191, 135, 228, 186, 142, 233, 162, 145, 231,
     185, 129, 239, 188, 140, 232, 175, 183, 231, 168, 141, 229, 144, 142, 229, 134, 141,
     232, 175, 149]"

definition msg_queue_full :: string where
  "msg_queue_full = utf8_text [65, 73, 32, 230, 156, 141, 229, 138, 161, 231, 185, 129, 229, 191, 153, 239,
     188, 140, 232, 175, 183, 231, 168, 141, 229, 144, 142, 229, 134, 141, 232, 175, 149]"

definition msg_busy :: string where
  "msg_busy = utf8_text [229, 183, 178, 230, 156, 137, 32, 65, 73, 32, 232, 175, 183, 230, 177, 130,
     230, 173, 163, 229, 156, 168, 229, 164, 132, 231, 144, 134]"

definition msg_no_text :: string where
  "msg_no_text = utf8_text [229, 189, 147, 229, 137, 141, 228, 188, 154, 232, 175, 157, 230, 154, 130, 230,
     151, 160, 230, 150, 135, 230, 156, 172, 230, 182, 136, 230, 129, 175]"

definition msg_unavailable :: string where
  "msg_unavailable = utf8_text [65, 73, 32, 230, 156, 141, 229, 138, 161, 230, 154, 130, 230, 151, 182, 228,
     184, 141, 229, 143, 175, 231, 148, 168]"

definition msg_bad_answer :: string where
  "msg_bad_answer = utf8_text [65, 73, 32, 232, 191, 148, 229, 155, 158, 229, 134, 133, 229, 174, 185, 230,
     151, 160, 230, 149, 136]"

definition default_tone :: string where
  "default_tone = utf8_text [232, 135, 170, 231, 132, 182, 227, 128, 129, 231, 174, 128, 230, 180, 129]"

subsection \<open>Bookkeeping\<close>

definition sendResult ::
  "nat \<Rightarrow> string \<Rightarrow> AiReplyStatus \<Rightarrow> string \<Rightarrow> string list \<Rightarrow> world \<Rightarrow> world" where
  "sendResult sid requestId status error suggestions w =
     deliver sid (P_AiReplyRs \<lparr>ai_request_id = requestId, ai_status = status,
       ai_suggestions = suggestions, ai_error_message = error, ai_done = True\<rparr>) w"

definition mapError :: "AiError \<Rightarrow> AiReplyStatus" where
  "mapError err = (case err of
     NotConfigured \<Rightarrow> AI_REPLY_NOT_CONFIGURED
   | TooMany \<Rightarrow> AI_REPLY_RATE_LIMITED
   | NoError \<Rightarrow> AI_REPLY_OK
   | _ \<Rightarrow> AI_REPLY_UPSTREAM_ERROR)"

definition requestKey :: "int \<Rightarrow> string \<Rightarrow> string" where
  "requestKey u requestId = int_dec u @ '':'' @ requestId"

definition upd_ai :: "(ai_state \<Rightarrow> ai_state) \<Rightarrow> world \<Rightarrow> world" where
  "upd_ai f w = w\<lparr>ai := f (ai w)\<rparr>"

definition markCancelled :: "int \<Rightarrow> string \<Rightarrow> ai_state \<Rightarrow> bool \<times> ai_state" where
  "markCancelled u requestId a =
     (let key = requestKey u requestId in
      if key \<notin> set (ai_active a) then (False, a)
      else (True, a\<lparr>ai_cancelled := key # filter (\<lambda>k. k \<noteq> key) (ai_cancelled a)\<rparr>))"

definition isCancelled :: "int \<Rightarrow> string \<Rightarrow> ai_state \<Rightarrow> bool" where
  "isCancelled u requestId a \<longleftrightarrow> requestKey u requestId \<in> set (ai_cancelled a)"

definition finishRequest :: "int \<Rightarrow> string \<Rightarrow> ai_state \<Rightarrow> ai_state" where
  "finishRequest u requestId a =
     (let key = requestKey u requestId in
      a\<lparr>ai_active := filter (\<lambda>k. k \<noteq> key) (ai_active a),
        ai_cancelled := filter (\<lambda>k. k \<noteq> key) (ai_cancelled a),
        ai_limiter := release u (ai_limiter a)\<rparr>)"

definition count_rejected :: "world \<Rightarrow> world" where
  "count_rejected w = upd_ai (\<lambda>a. a\<lparr>ai_n_rejected := ai_n_rejected a + 1\<rparr>) w"

subsection \<open>Requests\<close>

text \<open>The request is the id of the request to cancel.\<close>

definition onCancel :: "nat \<Rightarrow> string option \<Rightarrow> world \<Rightarrow> handled" where
  "onCancel sid rq w =
     (case rq of
        None \<Rightarrow> (Returns (), w)
      | Some requestId \<Rightarrow>
          if userId w sid \<le> 0 \<or> requestId = [] \<or> 64 < length requestId then (Returns (), w)
          else case markCancelled (userId w sid) requestId (ai w) of
            (False, _) \<Rightarrow> (Returns (), w)
          | (True, a) \<Rightarrow> (Returns (), w\<lparr>ai := a\<lparr>ai_n_cancelled := ai_n_cancelled a + 1\<rparr>\<rparr>))"

text \<open>\<open>static_cast<unsigned>(userId) * 2654435761u % 100u\<close>.\<close>

definition rolloutBucket :: "int \<Rightarrow> nat" where
  "rolloutBucket u = unat (word_of_int u * 2654435761 :: 32 word) mod 100"

definition ai_params_ok :: "int \<Rightarrow> AiReplyRq \<Rightarrow> bool" where
  "ai_params_ok u rq \<longleftrightarrow> aq_request_id rq \<noteq> [] \<and> length (aq_request_id rq) \<le> 64 \<and>
     0 < aq_peer_id rq \<and> aq_peer_id rq \<noteq> u \<and> length (aq_tone rq) \<le> 32 \<and>
     0 \<le> aq_max_suggestions rq \<and> aq_max_suggestions rq \<le> 3"

definition limiter_refusal :: "lim_result \<Rightarrow> AiReplyStatus \<times> string" where
  "limiter_refusal r = (case r of
     Duplicate \<Rightarrow> (AI_REPLY_INVALID_REQUEST, msg_duplicate)
   | RateLimited \<Rightarrow> (AI_REPLY_RATE_LIMITED, msg_too_often)
   | QueueFull \<Rightarrow> (AI_REPLY_BUSY, msg_queue_full)
   | _ \<Rightarrow> (AI_REPLY_BUSY, msg_busy))"

text \<open>The checks before the limiter is asked: the refusal, if there is one.\<close>

definition ai_refusal :: "tenv \<Rightarrow> int \<Rightarrow> AiReplyRq \<Rightarrow> world \<Rightarrow> (AiReplyStatus \<times> string) option" where
  "ai_refusal e u rq w =
     (let cf = ai_config (ai w) in
      if u \<le> 0 then Some (AI_REPLY_UNAUTHORIZED, msg_login)
      else if \<not> ai_params_ok u rq then Some (AI_REPLY_INVALID_REQUEST, msg_params)
      else if \<not> cf_featureEnabled cf \<or> nat (cf_rolloutPercent cf) \<le> rolloutBucket u
      then Some (AI_REPLY_NOT_CONFIGURED, msg_closed)
      else if \<not> isFriend (sql e) u (aq_peer_id rq) (db w) then Some (AI_REPLY_NOT_FRIEND, msg_friends_only)
      else if \<not> config_enabled cf then Some (AI_REPLY_NOT_CONFIGURED, msg_unconfigured)
      else None)"

text \<open>\<open>clk\<close> is the steady clock the limiter reads.\<close>

definition onReply :: "tenv \<Rightarrow> int \<Rightarrow> nat \<Rightarrow> AiReplyRq option \<Rightarrow> world \<Rightarrow> handled" where
  "onReply e clk sid rq0 w =
     (case rq0 of
        None \<Rightarrow> (Returns (), sendResult sid [] AI_REPLY_INVALID_REQUEST msg_format [] w)
      | Some rq \<Rightarrow>
          let u = userId w sid; rid = aq_request_id rq in
          case ai_refusal e u rq w of
            Some (status, msg) \<Rightarrow> (Returns (), sendResult sid rid status msg [] (count_rejected w))
          | None \<Rightarrow>
              (case tryAcquire u rid clk (ai_limiter (ai w)) of
                 (res, l) \<Rightarrow>
                   let w1 = upd_ai (\<lambda>a. a\<lparr>ai_limiter := l\<rparr>) w in
                   if res \<noteq> Accepted
                   then (case limiter_refusal res of (status, msg) \<Rightarrow>
                           (Returns (), sendResult sid rid status msg [] (count_rejected w1)))
                   else (Returns (), upd_ai (\<lambda>a. a\<lparr>ai_n_accepted := ai_n_accepted a + 1,
                      ai_active := requestKey u rid # filter (\<lambda>k. k \<noteq> requestKey u rid) (ai_active a),
                      ai_tasks := ai_tasks a @ [\<lparr>at_session = sid, at_user = u, at_peer = aq_peer_id rq,
                        at_requestId = rid, at_tone = (if aq_tone rq = [] then default_tone else aq_tone rq),
                        at_maxSuggestions = (if aq_max_suggestions rq = 0 then 3 else aq_max_suggestions rq)\<rparr>]\<rparr>) w1)))"

subsection \<open>The worker\<close>

definition task_gone :: "ai_task \<Rightarrow> world \<Rightarrow> bool" where
  "task_gone t w \<longleftrightarrow> \<not> alive w (at_session t) \<or> userId w (at_session t) \<noteq> at_user t"

text \<open>The guard's destructor.\<close>

definition finish_task :: "ai_task \<Rightarrow> world \<Rightarrow> world" where
  "finish_task t w = upd_ai (finishRequest (at_user t) (at_requestId t)) w"

definition ai_policy :: "AiConfig \<Rightarrow> AiContextPolicy" where
  "ai_policy cf = \<lparr>pol_maxMessages = cf_maxContextMessages cf,
     pol_maxMessageBytes = cf_maxMessageBytes cf, pol_maxContextBytes = cf_maxContextBytes cf\<rparr>"

text \<open>Up to the call of the model: its request, or None when the task ends here.\<close>

definition ai_begin :: "tenv \<Rightarrow> ai_task \<Rightarrow> world \<Rightarrow> AiReplyRequest option \<times> world" where
  "ai_begin e t w =
     (if isCancelled (at_user t) (at_requestId t) (ai w) then (None, finish_task t w)
      else let cf = ai_config (ai w);
               rows = roamMessages (sql e) (at_user t) (at_peer t) INT64_MAX
                 (min 100 (cf_maxContextMessages cf * 3)) (db w);
               q = buildReplyContext rows (at_user t) (at_peer t) (at_requestId t) (at_tone t)
                 (at_maxSuggestions t) (ai_policy cf)
           in if task_gone t w then (None, finish_task t w)
              else if arq_turns q = []
              then (None, finish_task t (sendResult (at_session t) (at_requestId t)
                      AI_REPLY_INVALID_REQUEST msg_no_text [] w))
              else (Some q, w))"

definition safe_suggestions :: "string list \<Rightarrow> string list" where
  "safe_suggestions ss = fold (\<lambda>s acc.
     (let safe = utf8Truncate s 240 in
      if safe \<noteq> [] \<and> length acc < 3 then acc @ [safe] else acc)) ss []"

text \<open>From the model's answer on.\<close>

definition ai_end :: "ai_task \<Rightarrow> AiReplyResult \<Rightarrow> world \<Rightarrow> world" where
  "ai_end t r w =
     (if isCancelled (at_user t) (at_requestId t) (ai w) \<or> task_gone t w then finish_task t w
      else if air_error r \<noteq> NoError
      then finish_task t (sendResult (at_session t) (at_requestId t) (mapError (air_error r))
             msg_unavailable [] (upd_ai (\<lambda>a. a\<lparr>ai_n_failed := ai_n_failed a + 1\<rparr>) w))
      else let safe = safe_suggestions (air_suggestions r) in
        if safe = []
        then finish_task t (sendResult (at_session t) (at_requestId t) AI_REPLY_UPSTREAM_ERROR
               msg_bad_answer [] (upd_ai (\<lambda>a. a\<lparr>ai_n_failed := ai_n_failed a + 1\<rparr>) w))
        else finish_task t (sendResult (at_session t) (at_requestId t) AI_REPLY_OK [] safe
               (upd_ai (\<lambda>a. a\<lparr>ai_n_succeeded := ai_n_succeeded a + 1\<rparr>) w)))"

end
