(* ===== verification/HandlerFacts.thy ===== *)
theory HandlerFacts
  imports AuthHandler FriendHandler AiHandler
begin

text \<open>
  What the handlers leave alone. An \<open>effect\<close> changes the database by its own operations only,
  appends to the calls on sessions, and touches neither the online table nor any session's
  identity; all handlers but login, refresh and leaving have no more than an effect.
\<close>

definition effect :: "world \<Rightarrow> world \<Rightarrow> bool" where
  "effect w w' \<longleftrightarrow> db_step\<^sup>*\<^sup>* (db w) (db w') \<and> online w' = online w \<and> sessions w' = sessions w \<and>
     (\<exists>evs. out w' = out w @ evs)"

lemma effect_refl [simp, intro]: "effect w w"
  by (simp add: effect_def)

lemma effect_trans [trans]: "effect w1 w2 \<Longrightarrow> effect w2 w3 \<Longrightarrow> effect w1 w3"
  unfolding effect_def by (auto intro: rtranclp_trans)

lemma effect_deliver: "effect w w' \<Longrightarrow> effect w (deliver sid p w')"
  by (auto simp: effect_def)

lemma effect_close: "effect w w' \<Longrightarrow> effect w (close sid w')"
  by (auto simp: effect_def)

lemma effect_closeAfterWrite: "effect w w' \<Longrightarrow> effect w (closeAfterWrite sid w')"
  by (auto simp: effect_def)

lemma effect_info: "effect w w' \<Longrightarrow> effect w (sendFriendInfo e to u st w')"
  by (simp add: sendFriendInfo_def effect_deliver split: option.split)

lemma effect_other:
  "effect w w' \<Longrightarrow> effect w (w'\<lparr>refreshes := m\<rparr>)"
  "effect w w' \<Longrightarrow> effect w (w'\<lparr>uploads := u\<rparr>)"
  "effect w w' \<Longrightarrow> effect w (w'\<lparr>msg_counter := n\<rparr>)"
  "effect w w' \<Longrightarrow> effect w (w'\<lparr>ai := a\<rparr>)"
  by (auto simp: effect_def)

lemma effect_db: "effect w w' \<Longrightarrow> db_step\<^sup>*\<^sup>* (db w') c \<Longrightarrow> effect w (w'\<lparr>db := c\<rparr>)"
  unfolding effect_def by (auto intro: rtranclp_trans)

lemmas effects = effect_refl effect_deliver effect_close effect_closeAfterWrite effect_info effect_other
  effect_db

lemma effect_fold: "(\<And>x w'. effect w w' \<Longrightarrow> effect w (f x w')) \<Longrightarrow> effect w w' \<Longrightarrow> effect w (fold f xs w')"
  by (induction xs arbitrary: w') auto

lemma steps_cong: "db_step c c' \<Longrightarrow> db_step\<^sup>*\<^sup>* c c'"
  by (rule r_into_rtranclp)

lemma steps_save: "saveMessage e m d c = (r, m', c') \<Longrightarrow> db_step\<^sup>*\<^sup>* c c'"
  using db_step.Save [of c e m d] by auto

lemma steps_create_request: "createFriendRequest e t a b c = (r, c') \<Longrightarrow> db_step\<^sup>*\<^sup>* c c'"
  using db_step.RequestFriend [of c e t a b] by auto

lemma steps_resolve: "resolveFriendRequest e t a b acc c = (r, c') \<Longrightarrow> db_step\<^sup>*\<^sup>* c c'"
  using db_step.Resolve [of c e t a b acc] by auto

lemma steps_remove: "removeFriendBidirectional e a b c = (r, c') \<Longrightarrow> db_step\<^sup>*\<^sup>* c c'"
  using db_step.RemoveFriend [of c e a b] by auto

lemma steps_register: "registerUser x e n t p c = (r, c') \<Longrightarrow> db_step\<^sup>*\<^sup>* c c'"
  using db_step.Register [of c x e n t p] by auto

lemma steps_login: "loginUser x e t p c = (r, u, c') \<Longrightarrow> db_step\<^sup>*\<^sup>* c c'"
  using db_step.Login [of c x e t p] by auto

lemma steps_issue: "issue e u d c = (r, c') \<Longrightarrow> db_step\<^sup>*\<^sup>* c c'"
  unfolding issue_def
  by (auto split: option.splits prod.splits if_splits simp: Let_def)
    (metis db_step.CreateAuth r_into_rtranclp snd_conv)+

lemma steps_family: "revokeTokenFamily e f c = (u, c') \<Longrightarrow> db_step c c'"
  using db_step.RevokeFamily [of c e f] by simp

lemma steps_replayed: "revoke_replayed e h c = (u, c') \<Longrightarrow> db_step\<^sup>*\<^sup>* c c'"
  unfolding revoke_replayed_def
  by (auto split: option.splits prod.splits if_splits simp: Let_def dest: steps_family)

lemma steps_rotate_row: "rotateRefreshToken e t old h aH aE rH rE c = (r, c') \<Longrightarrow> db_step c c'"
  using db_step.Rotate [of c e t old h aH aE rH rE] by simp

lemma steps_rotate: "rotateRefresh e rt d rid m c = (r, m', c') \<Longrightarrow> db_step\<^sup>*\<^sup>* c c'"
  unfolding rotateRefresh_def Let_def
  by (auto split: option.splits prod.splits if_splits dest!: steps_rotate_row steps_replayed
      intro: converse_rtranclp_into_rtranclp)

lemmas db_steps = steps_save steps_create_request steps_resolve steps_remove steps_register
  steps_login steps_issue steps_rotate

subsection \<open>Friends\<close>

lemma effect_send_friends: "effect w w' \<Longrightarrow> effect w (send_friend_list e to u w')"
  unfolding send_friend_list_def Let_def
  by (rule effect_fold) (auto simp: send_friend_def intro!: effect_info)

lemmas friend_effects = effects effect_send_friends

lemma effect_add_friend: "effect w (snd (onAddFriend e sid rq w))"
  unfolding onAddFriend_def Let_def
  by (auto split: option.split prod.split dest!: db_steps intro!: effects)

lemma effect_reply_friend: "effect w (snd (onAddFriendReply e sid rq w))"
  unfolding onAddFriendReply_def Let_def
  by (auto split: option.split prod.split dest!: db_steps intro!: friend_effects)

lemma effect_list: "effect w (snd (onFriendRequestList e sid rq w))"
  unfolding onFriendRequestList_def by (auto split: option.split intro!: effects)

lemma effect_delete: "effect w (snd (onDeleteFriend e sid rq w))"
  unfolding onDeleteFriend_def Let_def
  by (auto split: option.split prod.split dest!: db_steps intro!: effects)

subsection \<open>Messages\<close>

lemma effect_failure: "effect w w' \<Longrightarrow> effect w (deliverFailure sid rq r w')"
  by (auto simp: deliverFailure_def intro!: effects)

lemma effect_erase: "effect w w' \<Longrightarrow> effect w (eraseUploadRecord f w')"
  by (auto simp: eraseUploadRecord_def intro!: effects)

lemmas chat_effects = effects effect_failure effect_erase

lemma effect_store: "effect w (store_and_forward e sid rq path sz w)"
  unfolding store_and_forward_def Let_def
  by (auto split: option.split prod.split dest!: db_steps intro!: chat_effects)

lemma effect_chat: "effect w (snd (onChat e sid rq w))"
  unfolding onChat_def Let_def
  by (auto split: option.split intro!: chat_effects effect_store)

lemma effect_roam: "effect w (snd (onConversations e sid w))" "effect w (snd (onMessages e sid rq w))"
  unfolding onConversations_def onMessages_def Let_def
  by (auto split: option.split intro!: effects)

subsection \<open>The model\<close>

lemma effect_sendResult: "effect w w' \<Longrightarrow> effect w (sendResult sid rid st err ss w')"
  by (auto simp: sendResult_def intro!: effects)

lemma effect_upd_ai: "effect w w' \<Longrightarrow> effect w (upd_ai f w')"
  by (auto simp: upd_ai_def intro!: effects)

lemmas ai_effects = effects effect_sendResult effect_upd_ai

lemma effect_ai_reply: "effect w (snd (onReply e clk sid rq w))"
  unfolding onReply_def Let_def count_rejected_def
  by (auto split: option.split prod.split intro!: ai_effects)

lemma effect_ai_cancel: "effect w (snd (onCancel sid rq w))"
  unfolding onCancel_def by (auto split: option.split prod.split bool.split intro!: effects)

lemma effect_ai_begin: "effect w (snd (ai_begin e t w))"
  unfolding ai_begin_def finish_task_def Let_def by (auto intro!: ai_effects)

lemma effect_ai_end: "effect w (ai_end t r w)"
  unfolding ai_end_def finish_task_def Let_def by (auto intro!: ai_effects)

subsection \<open>Authentication\<close>

lemma effect_register: "effect w (snd (onRegister e sid rq w))"
  unfolding onRegister_def by (auto split: option.split prod.split dest!: db_steps intro!: effects)

lemma effect_logout: "effect w (snd (onLogout e sid rq w))"
proof -
  have "db_step\<^sup>*\<^sup>* c (revokeAllForUser e u c)" "db_step\<^sup>*\<^sup>* c (revokeSession e s c)" for u s c
    by (auto simp: revokeAllForUser_def revokeSession_def intro: db_step.RevokeAll db_step.RevokeSession)
  then show ?thesis
    unfolding onLogout_def Let_def by (auto split: option.split exc.split intro!: effects)
qed

lemma effect_announce: "effect w w' \<Longrightarrow> effect w (announce e sid u fr w')"
  unfolding announce_def Let_def by (auto split: option.split intro!: effects)

lemma effect_hand_over: "effect w w' \<Longrightarrow> effect w (hand_over sid u m w')"
  unfolding hand_over_def Let_def by (auto split: option.split intro!: effects)

text \<open>Activation is an effect behind the takeover of the online entry.\<close>

lemma effect_activate:
  "effect (w\<lparr>online := snd (pres_replace (alive w) u sid (now e) (online w))\<rparr>) (activateSession e sid u w)"
proof -
  let ?w = "w\<lparr>online := snd (pres_replace (alive w) u sid (now e) (online w))\<rparr>"
  have "effect ?w (take_over e sid u w)"
    unfolding take_over_def Let_def by (auto split: prod.split option.split intro!: effects)
  then have "effect ?w (fold (hand_over sid u) ms (fold (announce e sid u) frs
      (sendFriendInfo e sid u STATUS_ONLINE (take_over e sid u w))))" for ms frs
    by (intro effect_fold effect_hand_over effect_announce effect_info)
  then show ?thesis
    unfolding activateSession_def Let_def by (intro effect_db r_into_rtranclp db_step.Mark)
qed

end
