(* ===== verification/Router.thy ===== *)
theory Router
  imports HandlerFacts
begin

text \<open>
  \<open>routing/ProtocolRouter\<close>, \<open>Dispatcher\<close> and the parts of \<open>Server\<close> that work on packets and
  sessions: the route table, the entry check of every packet, what happens when a connection
  closes, the heartbeat scan. The protobuf parsers are generated code, the parameters of \<open>parsers\<close>.
\<close>

record parsers =
  parse_RegisterRq :: "bytes \<Rightarrow> RegisterRq option"
  parse_LoginRq :: "bytes \<Rightarrow> LoginRq option"
  parse_TokenLoginRq :: "bytes \<Rightarrow> TokenLoginRq option"
  parse_RefreshTokenRq :: "bytes \<Rightarrow> RefreshTokenRq option"
  parse_LogoutRq :: "bytes \<Rightarrow> LogoutRq option"
  parse_AiReplyRq :: "bytes \<Rightarrow> AiReplyRq option"
  parse_AiCancelRq :: "bytes \<Rightarrow> string option"
  parse_ChatInfoRq :: "bytes \<Rightarrow> ChatInfoRq option"
  parse_AddFriendRq :: "bytes \<Rightarrow> AddFriendRq option"
  parse_AddFriendRs :: "bytes \<Rightarrow> AddFriendRs option"
  parse_FriendRequestListRq :: "bytes \<Rightarrow> unit option"
  parse_DeleteFriendRq :: "bytes \<Rightarrow> int option"
  parse_RoamMsgRq :: "bytes \<Rightarrow> RoamMsgRq option"
  parse_FriendOffline :: "bytes \<Rightarrow> unit option"

text \<open>The clocks and outside calls of one packet: \<open>tenv\<close> and the steady clock of the limiter.\<close>

type_synonym handler = "tenv \<Rightarrow> int \<Rightarrow> nat \<Rightarrow> bytes \<Rightarrow> world \<Rightarrow> handled"
type_synonym routes = "(32 word, handler) umap"

subsection \<open>The route table\<close>

text \<open>An empty handler or a second route for a number is an exception.\<close>

definition router_add :: "32 word \<Rightarrow> handler option \<Rightarrow> routes \<Rightarrow> routes exc" where
  "router_add type h m =
     (case h of
        None \<Rightarrow> Throws
      | Some f \<Rightarrow> if uget m type \<noteq> None then Throws else Returns (uput type f m))"

definition router_contains :: "routes \<Rightarrow> 32 word \<Rightarrow> bool" where
  "router_contains m type \<longleftrightarrow> uget m type \<noteq> None"

text \<open>An unknown number is ignored; an exception of the handler closes the session.\<close>

definition router_dispatch :: "routes \<Rightarrow> tenv \<Rightarrow> int \<Rightarrow> nat \<Rightarrow> 32 word \<Rightarrow> bytes \<Rightarrow> world \<Rightarrow> world" where
  "router_dispatch m e clk sid type payload w =
     (case uget m type of
        None \<Rightarrow> w
      | Some h \<Rightarrow> (case h e clk sid payload w of
          (Returns _, w') \<Rightarrow> w' | (Throws, w') \<Rightarrow> close sid w'))"

definition dispatcher_routes :: "parsers \<Rightarrow> (32 word \<times> handler) list" where
  "dispatcher_routes P =
     [(DEF_PROT_REGISTER_RQ, \<lambda>e clk s p. onRegister e s (parse_RegisterRq P p)),
      (DEF_PROT_LOGIN_RQ, \<lambda>e clk s p. onLogin e s (parse_LoginRq P p)),
      (DEF_PROT_TOKEN_LOGIN_RQ, \<lambda>e clk s p. onTokenLogin e s (parse_TokenLoginRq P p)),
      (DEF_PROT_TOKEN_REFRESH_RQ, \<lambda>e clk s p. onTokenRefresh e s (parse_RefreshTokenRq P p)),
      (DEF_PROT_LOGOUT_RQ, \<lambda>e clk s p. onLogout e s (parse_LogoutRq P p)),
      (DEF_PROT_AI_REPLY_RQ, \<lambda>e clk s p. onReply e clk s (parse_AiReplyRq P p)),
      (DEF_PROT_AI_CANCEL_RQ, \<lambda>e clk s p. onCancel s (parse_AiCancelRq P p)),
      (DEF_PROT_CHAT_INFO_RQ, \<lambda>e clk s p. onChat e s (parse_ChatInfoRq P p)),
      (DEF_PROT_ADD_FRIEND_RQ, \<lambda>e clk s p. onAddFriend e s (parse_AddFriendRq P p)),
      (DEF_PROT_ADD_FRIEND_RS, \<lambda>e clk s p. onAddFriendReply e s (parse_AddFriendRs P p)),
      (DEF_PROT_FRIEND_REQUEST_LIST_RQ, \<lambda>e clk s p. onFriendRequestList e s (parse_FriendRequestListRq P p)),
      (DEF_PROT_DELETE_FRIEND_RQ, \<lambda>e clk s p. onDeleteFriend e s (parse_DeleteFriendRq P p)),
      (DEF_PROT_ROAM_CONV_RQ, \<lambda>e clk s p. onConversations e s),
      (DEF_PROT_ROAM_MSG_RQ, \<lambda>e clk s p. onMessages e s (parse_RoamMsgRq P p)),
      (DEF_PROT_FRIEND_OFFLINE, \<lambda>e clk s p. onOffline s (parse_FriendOffline P p)),
      (DEF_PROT_HEARTBEAT_RQ, \<lambda>e clk s p. onHeartbeat e s)]"

fun add_routes :: "(32 word \<times> handler) list \<Rightarrow> routes \<Rightarrow> routes exc" where
  "add_routes [] m = Returns m"
| "add_routes ((type, h) # rs) m =
     (case router_add type (Some h) m of Throws \<Rightarrow> Throws | Returns m' \<Rightarrow> add_routes rs m')"

text \<open>The constructor of \<open>Dispatcher\<close>.\<close>

definition new_dispatcher :: "parsers \<Rightarrow> routes exc" where
  "new_dispatcher P = add_routes (dispatcher_routes P) []"

subsection \<open>The server\<close>

definition token_expired :: "tenv \<Rightarrow> nat \<Rightarrow> world \<Rightarrow> bool" where
  "token_expired e sid w \<longleftrightarrow> authenticated w sid \<and> 0 < s_accessExpiresAt (sess_of w sid) \<and>
     s_accessExpiresAt (sess_of w sid) < now e"

definition dispatchPacket :: "routes \<Rightarrow> tenv \<Rightarrow> int \<Rightarrow> nat \<Rightarrow> 32 word \<Rightarrow> bytes \<Rightarrow> world \<Rightarrow> world" where
  "dispatchPacket m e clk sid type payload w =
     (let w1 = (if 0 < userId w sid
                then w\<lparr>online := pres_touch (userId w sid) (now e) (online w)\<rparr> else w);
          authMaintenance = (type = DEF_PROT_TOKEN_REFRESH_RQ \<or> type = DEF_PROT_LOGOUT_RQ)
      in if \<not> authMaintenance \<and> token_expired e sid w1 then close sid w1
         else router_dispatch m e clk sid type payload w1)"

text \<open>
  \<open>onSessionClosed\<close> takes the entry away and posts the broadcast, which runs later as a task of
  its own; \<open>drop_session\<close> is the end of the object's life.
\<close>

definition onSessionClosed :: "nat \<Rightarrow> world \<Rightarrow> world" where
  "onSessionClosed sid w =
     (if userId w sid \<le> 0 then w
      else w\<lparr>online := pres_offline (alive w) (userId w sid) sid (online w)\<rparr>)"

definition tell_offline :: "int \<Rightarrow> UserRecord \<Rightarrow> world \<Rightarrow> world" where
  "tell_offline u fr w =
     (case located w (ur_id fr) of None \<Rightarrow> w | Some fs \<Rightarrow> deliver fs (P_FriendOffline u) w)"

definition broadcast_offline :: "tenv \<Rightarrow> int \<Rightarrow> world \<Rightarrow> world" where
  "broadcast_offline e u w = fold (tell_offline u) (getFriends (sql e) u (db w)) w"

definition new_session :: "nat \<Rightarrow> world \<Rightarrow> world" where
  "new_session sid w = w\<lparr>sessions := uput sid fresh_sess (sessions w)\<rparr>"

definition drop_session :: "nat \<Rightarrow> world \<Rightarrow> world" where
  "drop_session sid w = w\<lparr>sessions := udel sid (sessions w)\<rparr>"

text \<open>One pass of \<open>hbScanLoop\<close>.\<close>

definition hbScan :: "int \<Rightarrow> world \<Rightarrow> world" where
  "hbScan t w =
     (case scanStale (alive w) t 90 (online w) of
        (stale, m) \<Rightarrow> fold (\<lambda>(u, s). close s) stale (w\<lparr>online := m\<rparr>))"

text \<open>A worker of the model takes the oldest task; the answer of a started task comes later.\<close>

definition ai_take :: "world \<Rightarrow> (ai_task \<times> world) option" where
  "ai_take w = (case ai_tasks (ai w) of
     [] \<Rightarrow> None | t # ts \<Rightarrow> Some (t, upd_ai (\<lambda>a. a\<lparr>ai_tasks := ts\<rparr>) w))"

text \<open>
  The number of a new session was never used: no entry and no task refers to it, as no weak
  pointer refers to an object that has just been created.
\<close>

definition fresh_id :: "world \<Rightarrow> nat \<Rightarrow> bool" where
  "fresh_id w sid \<longleftrightarrow> \<not> alive w sid \<and> (\<forall>(u, en) \<in> set (online w). pe_sess en \<noteq> sid) \<and>
     (\<forall>t \<in> set (ai_tasks (ai w)). at_session t \<noteq> sid)"

inductive server_step :: "routes \<Rightarrow> world \<Rightarrow> world \<Rightarrow> bool" for m where
  Connect: "fresh_id w sid \<Longrightarrow> server_step m w (new_session sid w)"
| Packet: "alive w sid \<Longrightarrow> server_step m w (dispatchPacket m e clk sid type payload w)"
| Closed: "alive w sid \<Longrightarrow> server_step m w (onSessionClosed sid w)"
| Broadcast: "server_step m w (broadcast_offline e u w)"
| Gone: "server_step m w (drop_session sid w)"
| Scan: "server_step m w (hbScan t w)"
| Upload: "server_step m w (w\<lparr>uploads := ups\<rparr>)"
| Ask: "ai_take w = Some (t, w1) \<Longrightarrow> server_step m w (snd (ai_begin e t w1))"
| Answer: "server_step m w (ai_end t r w)"

inductive_simps server_step_iff: "server_step m w w'"

subsection \<open>The table the constructor builds\<close>

lemma add_routes_ok:
  assumes "distinct (map fst rs)" and "\<forall>r \<in> set rs. uget m (fst r) = None"
  shows "\<exists>m'. add_routes rs m = Returns m' \<and> uget m' = (\<lambda>t. case map_of rs t of None \<Rightarrow> uget m t | Some h \<Rightarrow> Some h)"
  using assms
proof (induction rs arbitrary: m)
  case (Cons r rs)
  obtain t h where r: "r = (t, h)" by (cases r)
  have "\<exists>m'. add_routes rs (uput t h m) = Returns m' \<and>
      uget m' = (\<lambda>x. case map_of rs x of None \<Rightarrow> uget (uput t h m) x | Some h \<Rightarrow> Some h)"
    using Cons.prems by (intro Cons.IH) (auto simp: r uget_uput)
  moreover have "t \<notin> dom (map_of rs)" using Cons.prems(1) by (auto simp: r dom_map_of_conv_image_fst)
  ultimately show ?case
    using Cons.prems(2) by (auto simp: r router_add_def uget_uput fun_eq_iff split: option.split)
qed auto

lemma distinct_routes: "distinct (map fst (dispatcher_routes P))"
  by (simp add: dispatcher_routes_def prot_defs)

definition request_types :: "32 word list" where
  "request_types = [DEF_PROT_REGISTER_RQ, DEF_PROT_LOGIN_RQ, DEF_PROT_TOKEN_LOGIN_RQ,
     DEF_PROT_TOKEN_REFRESH_RQ, DEF_PROT_LOGOUT_RQ, DEF_PROT_AI_REPLY_RQ, DEF_PROT_AI_CANCEL_RQ,
     DEF_PROT_CHAT_INFO_RQ, DEF_PROT_ADD_FRIEND_RQ, DEF_PROT_ADD_FRIEND_RS,
     DEF_PROT_FRIEND_REQUEST_LIST_RQ, DEF_PROT_DELETE_FRIEND_RQ, DEF_PROT_ROAM_CONV_RQ,
     DEF_PROT_ROAM_MSG_RQ, DEF_PROT_FRIEND_OFFLINE, DEF_PROT_HEARTBEAT_RQ]"

lemma new_dispatcher_table:
  "\<exists>m. new_dispatcher P = Returns m \<and> uget m = map_of (dispatcher_routes P)"
proof -
  have "\<forall>r \<in> set (dispatcher_routes P). uget ([] :: routes) (fst r) = None" by simp
  from add_routes_ok [OF distinct_routes this] show ?thesis
    by (auto simp: new_dispatcher_def fun_eq_iff split: option.split)
qed

text \<open>
  The constructor of the dispatcher does not throw: no number has two routes. Its table
  answers exactly the sixteen request numbers; a packet with any other number changes nothing.
\<close>

theorem dispatcher_table:
  "case new_dispatcher P of
     Throws \<Rightarrow> False
   | Returns m \<Rightarrow> {t. router_contains m t} = set request_types \<and>
       (\<forall>t e clk sid payload w. t \<in> set request_types \<or> router_dispatch m e clk sid t payload w = w)"
proof -
  obtain m where m: "new_dispatcher P = Returns m" "uget m = map_of (dispatcher_routes P)"
    using new_dispatcher_table by blast
  have "set request_types = fst ` set (dispatcher_routes P)"
    by (simp add: request_types_def dispatcher_routes_def)
  then have "{t. router_contains m t} = set request_types"
    using dom_map_of_conv_image_fst [of "dispatcher_routes P"] m(2)
    by (auto simp: router_contains_def dom_def)
  moreover from this have "t \<in> set request_types \<or> router_dispatch m e clk sid t payload w = w"
    for t e clk sid payload w
    by (auto simp: router_dispatch_def router_contains_def split: option.splits)
  ultimately show ?thesis using m(1) by simp
qed

end
