(* ===== verification/ServerInv.thy ===== *)
theory ServerInv
  imports Router
begin

text \<open>
  What holds of the server over all packets, connections, scans and model tasks: who a session is,
  what a session that is not logged in can do, and where the online table leads.
\<close>

subsection \<open>Packets that have no more than an effect\<close>

definition login_types :: "32 word set" where
  "login_types = {DEF_PROT_LOGIN_RQ, DEF_PROT_TOKEN_LOGIN_RQ, DEF_PROT_TOKEN_REFRESH_RQ,
     DEF_PROT_FRIEND_OFFLINE, DEF_PROT_HEARTBEAT_RQ}"

text \<open>The outcome of a handler: an exception closes the session.\<close>

definition outcome :: "nat \<Rightarrow> handled \<Rightarrow> world" where
  "outcome sid r = (case r of (Returns _, w') \<Rightarrow> w' | (Throws, w') \<Rightarrow> close sid w')"

lemma outcome_cases: "outcome sid r = snd r \<or> outcome sid r = close sid (snd r)"
  by (cases r) (auto simp: outcome_def split: exc.split)

lemma effect_outcome: "effect w (snd r) \<Longrightarrow> effect w (outcome sid r)"
  using outcome_cases [of sid r] by (auto intro!: effects)

lemma router_dispatch_eq:
  assumes "uget m = map_of (dispatcher_routes P)"
  shows "router_dispatch m e clk sid t p w =
    (case map_of (dispatcher_routes P) t of None \<Rightarrow> w | Some h \<Rightarrow> outcome sid (h e clk sid p w))"
  by (simp add: router_dispatch_def assms) (simp add: outcome_def split: option.split)

lemma effect_dispatch:
  assumes "uget m = map_of (dispatcher_routes P)" and "t \<notin> login_types"
  shows "effect w (router_dispatch m e clk sid t p w)"
proof (cases "map_of (dispatcher_routes P) t")
  case (Some h)
  then have "(t, h) \<in> set (dispatcher_routes P)" by (rule map_of_SomeD)
  then have "effect w (snd (h e clk sid p w))"
    using assms(2) unfolding dispatcher_routes_def login_types_def
    by (auto intro: effect_register effect_logout effect_ai_reply effect_ai_cancel effect_chat
        effect_add_friend effect_reply_friend effect_list effect_delete effect_roam)
  then show ?thesis using Some by (simp add: router_dispatch_eq [OF assms(1)] effect_outcome)
qed (simp add: router_dispatch_eq [OF assms(1)])

lemma login_routes:
  "map_of (dispatcher_routes P) DEF_PROT_LOGIN_RQ = Some (\<lambda>e clk s p. onLogin e s (parse_LoginRq P p))"
  "map_of (dispatcher_routes P) DEF_PROT_TOKEN_LOGIN_RQ =
     Some (\<lambda>e clk s p. onTokenLogin e s (parse_TokenLoginRq P p))"
  "map_of (dispatcher_routes P) DEF_PROT_TOKEN_REFRESH_RQ =
     Some (\<lambda>e clk s p. onTokenRefresh e s (parse_RefreshTokenRq P p))"
  "map_of (dispatcher_routes P) DEF_PROT_FRIEND_OFFLINE =
     Some (\<lambda>e clk s p. onOffline s (parse_FriendOffline P p))"
  "map_of (dispatcher_routes P) DEF_PROT_HEARTBEAT_RQ = Some (\<lambda>e clk s p. onHeartbeat e s)"
  by (simp_all add: dispatcher_routes_def prot_defs)

subsection \<open>Who a session is\<close>

lemma effect_same:
  assumes "effect w w'"
  shows "sessions w' = sessions w" "alive w' = alive w" "userId w' = userId w" "sess_of w' = sess_of w"
    "online w' = online w" "located w' = located w" "authenticated w' = authenticated w"
proof -
  show s: "sessions w' = sessions w" and o: "online w' = online w"
    using assms by (simp_all add: effect_def)
  show "alive w' = alive w" using s by (simp add: alive_def fun_eq_iff)
  then show "located w' = located w" using o by (intro ext) (simp add: located_def)
  show "userId w' = userId w" "sess_of w' = sess_of w" "authenticated w' = authenticated w"
    using s by (simp_all add: userId_def sess_of_def authenticated_def fun_eq_iff)
qed

lemma outcome_same [simp]:
  "sessions (outcome sid r) = sessions (snd r)" "online (outcome sid r) = online (snd r)"
  "db (outcome sid r) = db (snd r)"
  using outcome_cases [of sid r] by auto

lemma userId_cong: "sessions w' = sessions w \<Longrightarrow> userId w' = userId w"
  by (simp add: userId_def sess_of_def fun_eq_iff)

lemma located_cong: "online w' = online w \<Longrightarrow> sessions w' = sessions w \<Longrightarrow> located w' = located w"
  by (intro ext) (simp add: located_def alive_def [abs_def])

lemma userId_bindAuth [simp]: "userId (bindAuth sid u a d x w) = (userId w)(sid := u)"
  by (simp add: userId_def sess_of_def bindAuth_def uget_uput fun_eq_iff)

lemma alive_bindAuth: "alive w sid \<Longrightarrow> alive (bindAuth sid u a d x w) = alive w"
  by (auto simp: alive_def bindAuth_def uget_uput fun_eq_iff)

lemma activate_sessions [simp]: "sessions (activateSession e sid u w) = sessions w"
  using effect_same(1) [OF effect_activate [of w u sid e]] by simp

lemma activate_userId [simp]: "userId (activateSession e sid u w) = userId w"
  by (rule userId_cong) simp

lemma upd_userId [simp]:
  "userId (w\<lparr>db := c\<rparr>) = userId w" "userId (w\<lparr>online := m\<rparr>) = userId w"
  "userId (w\<lparr>refreshes := r\<rparr>) = userId w" "authenticated (w\<lparr>db := c\<rparr>) = authenticated w"
  "authenticated (w\<lparr>online := m\<rparr>) = authenticated w"
  by (simp_all add: userId_def sess_of_def authenticated_def fun_eq_iff)

text \<open>
  The evidence behind a login: the row of the account and its password; behind a token login: the
  session record of the token, not revoked, not expired, for the same device.
\<close>

definition password_proof :: "tenv \<Rightarrow> LoginRq \<Rightarrow> world \<Rightarrow> int \<Rightarrow> bool" where
  "password_proof e rq w u \<longleftrightarrow> (\<exists>row \<in> set (users (disk (db w))). u_tel row = cstr (lg_tel rq) \<and> u_id row = u \<and>
     (if u_algo row = ''argon2id'' then argon2_verify (ext e) (u_passwd row) (lg_pass rq)
      else sha256Hex (u_salt row @ lg_pass rq) = u_passwd row))"

definition token_proof :: "tenv \<Rightarrow> TokenLoginRq \<Rightarrow> world \<Rightarrow> int \<Rightarrow> bool" where
  "token_proof e rq w u \<longleftrightarrow> (\<exists>h. tokenHash (ext e) (tl_access_token rq) = Some h \<and>
     (\<exists>r \<in> set (auths (disk (db w))). as_accessHash (auth r) = cstr h \<and> as_userId (auth r) = u \<and>
        \<not> as_revoked (auth r) \<and> now e < as_accessExpiresAt (auth r) \<and>
        as_deviceId (auth r) = tl_device_id rq))"

lemma loginUser_proof:
  assumes "loginUser (ext e) (sql e) (lg_tel rq) (lg_pass rq) (db w) = (LOGIN_SUCCESS, u, c)"
  shows "password_proof e rq w u"
proof -
  have "\<exists>row. find (\<lambda>r. u_tel r = cstr (lg_tel rq)) (users (disk (db w))) = Some row \<and> u_id row = u \<and>
     (if u_algo row = ''argon2id'' then argon2_verify (ext e) (u_passwd row) (lg_pass rq)
      else sha256Hex (u_salt row @ lg_pass rq) = u_passwd row)"
    using assms unfolding loginUser_def
    by (auto simp: prot_defs split: if_splits option.splits)
  then show ?thesis
    unfolding password_proof_def by (auto simp: find_Some_iff dest: nth_mem)
qed

lemma validate_proof:
  assumes "validateAccess e (tl_access_token rq) [] (tl_device_id rq) (db w) = Returns (Some (u, s, x))"
  shows "token_proof e rq w u"
proof -
  obtain h r where h: "tokenHash (ext e) (tl_access_token rq) = Some h"
      "findByAccessHash (sql e) h (db w) = Some r" "as_userId r = u" "\<not> as_revoked r"
      "now e < as_accessExpiresAt r" "as_deviceId r = tl_device_id rq"
    using assms unfolding validateAccess_def
    by (auto split: if_splits option.splits)
  then obtain row where "row \<in> set (auths (disk (db w)))" "as_accessHash (auth row) = cstr h" "auth row = r"
    unfolding findByAccessHash_def by (auto dest: read_row_SomeD)
  then show ?thesis using h unfolding token_proof_def by blast
qed

lemma login_identity:
  assumes "userId (snd (onLogin e sid rq0 w)) s \<noteq> userId w s"
  shows "s = sid \<and> \<not> authenticated w sid \<and>
    (\<exists>rq. rq0 = Some rq \<and> password_proof e rq w (userId (snd (onLogin e sid rq0 w)) sid))"
proof (cases rq0)
  case (Some rq)
  obtain res u c where l: "loginUser (ext e) (sql e) (lg_tel rq) (lg_pass rq) (db w) = (res, u, c)"
    by (rule prod_cases3)
  have c: "res = LOGIN_SUCCESS" "\<not> authenticated w sid"
      "userId (snd (onLogin e sid rq0 w)) = (userId w)(sid := u)"
    using assms by (auto simp: onLogin_def Some l Let_def split: if_splits prod.splits exc.splits)
  then show ?thesis
    using assms loginUser_proof [of e rq w u c] l by (auto simp: Some split: if_splits)
qed (use assms in \<open>simp add: onLogin_def\<close>)

lemma token_login_identity:
  assumes "userId (snd (onTokenLogin e sid rq0 w)) s \<noteq> userId w s"
  shows "s = sid \<and> \<not> authenticated w sid \<and>
    (\<exists>rq. rq0 = Some rq \<and> token_proof e rq w (userId (snd (onTokenLogin e sid rq0 w)) sid))"
proof (cases rq0)
  case (Some rq)
  obtain u x y where v: "\<not> authenticated w sid"
      "validateAccess e (tl_access_token rq) [] (tl_device_id rq) (db w) = Returns (Some (u, x, y))"
      "userId (snd (onTokenLogin e sid rq0 w)) = (userId w)(sid := u)"
    using assms
    by (auto simp: onTokenLogin_def Some Let_def split: if_splits prod.splits exc.splits option.splits)
  then show ?thesis
    using assms validate_proof [OF v(2)] by (auto simp: Some split: if_splits)
qed (use assms in \<open>simp add: onTokenLogin_def\<close>)

lemma refresh_identity: "userId (snd (onTokenRefresh e sid rq0 w)) = userId w"
  by (auto simp: onTokenRefresh_def kick_revoked_def Let_def fun_eq_iff
      split: option.split prod.split exc.split)

lemma dispatch_userId:
  assumes "uget m = map_of (dispatcher_routes P)"
    and "userId (router_dispatch m e clk sid t p w) s \<noteq> userId w s"
  shows "s = sid \<and> \<not> authenticated w sid \<and>
    (t = DEF_PROT_LOGIN_RQ \<and> (\<exists>rq. parse_LoginRq P p = Some rq \<and>
        password_proof e rq w (userId (router_dispatch m e clk sid t p w) sid)) \<or>
     t = DEF_PROT_TOKEN_LOGIN_RQ \<and> (\<exists>rq. parse_TokenLoginRq P p = Some rq \<and>
        token_proof e rq w (userId (router_dispatch m e clk sid t p w) sid)))"
proof (cases "t \<in> login_types")
  case False
  then show ?thesis using assms(2) effect_same(3) [OF effect_dispatch [OF assms(1) False]] by simp
next
  case True
  have o: "userId (outcome sid r) = userId (snd r)" for r
    by (rule userId_cong) simp
  from True assms(2) show ?thesis
    unfolding login_types_def router_dispatch_eq [OF assms(1)]
    by (elim insertE emptyE)
      (simp_all add: login_routes o login_identity token_login_identity refresh_identity
        onOffline_def onHeartbeat_def split: option.splits if_splits)
qed

text \<open>The evidence a packet carries that its sender is a user.\<close>

definition login_evidence :: "parsers \<Rightarrow> tenv \<Rightarrow> 32 word \<Rightarrow> bytes \<Rightarrow> world \<Rightarrow> int \<Rightarrow> bool" where
  "login_evidence P e type payload w u \<longleftrightarrow>
    (type = DEF_PROT_LOGIN_RQ \<and> (\<exists>rq. parse_LoginRq P payload = Some rq \<and> password_proof e rq w u) \<or>
     type = DEF_PROT_TOKEN_LOGIN_RQ \<and>
       (\<exists>rq. parse_TokenLoginRq P payload = Some rq \<and> token_proof e rq w u))"

lemma packet_identity:
  assumes "uget m = map_of (dispatcher_routes P)" and "w' = dispatchPacket m e clk sid type payload w"
    and "userId w' s \<noteq> userId w s"
  shows "s = sid \<and> \<not> authenticated w sid \<and> login_evidence P e type payload w (userId w' sid)"
proof -
  define w1 where "w1 = (if 0 < userId w sid
     then w\<lparr>online := pres_touch (userId w sid) (now e) (online w)\<rparr> else w)"
  have w1: "userId w1 = userId w" "db w1 = db w" "authenticated w1 = authenticated w"
    by (simp_all add: w1_def)
  have proofs: "password_proof e rq w1 = password_proof e rq w" "token_proof e rq' w1 = token_proof e rq' w"
    for rq rq' by (simp_all add: password_proof_def token_proof_def w1(2) fun_eq_iff)
  have "w' = router_dispatch m e clk sid type payload w1"
    using assms(2,3) w1(1) unfolding dispatchPacket_def w1_def [symmetric] Let_def
    by (auto split: if_splits)
  then show ?thesis
    using dispatch_userId [OF assms(1), of e clk sid type payload w1 s] assms(3)
    by (simp only: w1 proofs simp_thms login_evidence_def)
qed

text \<open>
  C6. No packet, whatever its bytes, makes a session someone else: the user of a session changes
  only on that session's own packet, only while it is not logged in, and only by a login with the
  right password of that account or with an access token of that user that is stored, not revoked,
  not expired and was issued for the same device.
\<close>

theorem identity_needs_proof:
  assumes "new_dispatcher P = Returns m" and "w' = dispatchPacket m e clk sid type payload w"
    and "userId w' s \<noteq> userId w s"
  shows "s = sid \<and> \<not> authenticated w sid \<and>
    (type = DEF_PROT_LOGIN_RQ \<and>
       (\<exists>rq. parse_LoginRq P payload = Some rq \<and> password_proof e rq w (userId w' sid)) \<or>
     type = DEF_PROT_TOKEN_LOGIN_RQ \<and>
       (\<exists>rq. parse_TokenLoginRq P payload = Some rq \<and> token_proof e rq w (userId w' sid)))"
proof -
  have "uget m = map_of (dispatcher_routes P)" using new_dispatcher_table [of P] assms(1) by simp
  then show ?thesis
    using packet_identity [OF _ assms(2,3)] unfolding login_evidence_def by blast
qed

text \<open>
  A server for the examples: users 7 and 8 are friends, 8 is online on session 2, session 1 has just
  connected, and the file holds an access token of user 7. The clock stands at 5.
\<close>

definition sample_auth_row :: auth_row where
  "sample_auth_row = \<lparr>auth = \<lparr>as_sessionId = ''s'', as_familyId = ''f'', as_userId = 7, as_deviceId = ''d'',
     as_accessHash = toHex (bytes_of ''a''), as_accessExpiresAt = 50, as_refreshHash = toHex (bytes_of ''r''),
     as_refreshExpiresAt = 90, as_generation = 1, as_revoked = False\<rparr>, created_at = 1, last_used_at = 1\<rparr>"

definition sample_world :: world where
  "sample_world = \<lparr>db = \<lparr>disk = empty_tables\<lparr>friends := [(7, 8), (8, 7)], auths := [sample_auth_row]\<rparr>, txn = None\<rparr>,
     online = [(8, \<lparr>pe_sess = 2, pe_last = 4\<rparr>)], refreshes = [],
     sessions = [(1, fresh_sess), (2, fresh_sess\<lparr>s_userId := 8, s_accessExpiresAt := 60\<rparr>)], uploads = [],
     msg_counter = 0,
     ai = \<lparr>ai_config = default_config, ai_limiter = new_limiter 5 8 300, ai_active = [], ai_cancelled = [],
       ai_tasks = [], ai_n_accepted = 0, ai_n_succeeded = 0, ai_n_failed = 0, ai_n_rejected = 0,
       ai_n_cancelled = 0\<rparr>, out = []\<rparr>"

definition sample_chat :: ChatInfoRq where
  "sample_chat = empty_ChatInfoRq\<lparr>c_myid := 99, c_friid := 7, c_msg := ''hi'', c_msg_id := ''k''\<rparr>"

definition sample_parsers :: parsers where
  "sample_parsers = \<lparr>parse_RegisterRq = \<lambda>_. None, parse_LoginRq = \<lambda>_. None,
     parse_TokenLoginRq = \<lambda>_. Some \<lparr>tl_access_token = ''a'', tl_device_id = ''d''\<rparr>,
     parse_RefreshTokenRq = \<lambda>_. None, parse_LogoutRq = \<lambda>_. None, parse_AiReplyRq = \<lambda>_. None,
     parse_AiCancelRq = \<lambda>_. None, parse_ChatInfoRq = \<lambda>_. Some sample_chat, parse_AddFriendRq = \<lambda>_. None,
     parse_AddFriendRs = \<lambda>_. None, parse_FriendRequestListRq = \<lambda>_. None, parse_DeleteFriendRq = \<lambda>_. None,
     parse_RoamMsgRq = \<lambda>_. None, parse_FriendOffline = \<lambda>_. None\<rparr>"

lemma sample_sess [simp]:
  "userId sample_world = (\<lambda>s. if s = 2 then 8 else 0)" "authenticated sample_world s \<longleftrightarrow> s = 2"
  "alive sample_world s \<longleftrightarrow> s = 1 \<or> s = 2"
  by (auto simp: userId_def sess_of_def sample_world_def uget_def fresh_sess_def authenticated_def
      alive_def fun_eq_iff)

lemma sample_validates:
  "validateAccess (sample_env 5) ''a'' [] ''d'' (db sample_world) = Returns (Some (7, ''s'', 50))"
  by (simp add: validateAccess_def findByAccessHash_def sample_world_def sample_auth_row_def)

lemma sample_token_login:
  assumes "new_dispatcher sample_parsers = Returns m" and "db w = db sample_world" and "userId w 1 = 0"
  shows "dispatchPacket m (sample_env 5) 0 1 DEF_PROT_TOKEN_LOGIN_RQ p w =
    activateSession (sample_env 5) 1 7 (deliver 1 (token_login_answer (Some (7, ''s'', 50)))
      (bindAuth 1 7 ''s'' ''d'' 50 w))"
proof -
  have m: "uget m = map_of (dispatcher_routes sample_parsers)"
    using new_dispatcher_table [of sample_parsers] assms(1) by simp
  have a: "authenticated w 1 = False" using assms(3) by (simp add: authenticated_def)
  show ?thesis
    unfolding dispatchPacket_def Let_def
    by (simp add: token_expired_def router_dispatch_eq [OF m] login_routes onTokenLogin_def outcome_def
        assms(3) [unfolded One_nat_def] a [unfolded One_nat_def]) (simp add: sample_parsers_def assms(2) sample_validates a [unfolded One_nat_def])
qed

theorem identity_needs_proof_witness:
  "\<exists>m. new_dispatcher sample_parsers = Returns m \<and>
     token_proof (sample_env 5) \<lparr>tl_access_token = ''a'', tl_device_id = ''d''\<rparr> sample_world 7"
proof -
  obtain m where m: "new_dispatcher sample_parsers = Returns m"
    using new_dispatcher_table [of sample_parsers] by blast
  let ?w = "dispatchPacket m (sample_env 5) 0 1 DEF_PROT_TOKEN_LOGIN_RQ [] sample_world"
  have u: "userId ?w 1 = 7" using sample_token_login [OF m refl] by simp
  then show ?thesis
    using identity_needs_proof [OF m refl, of "sample_env 5" 0 1 DEF_PROT_TOKEN_LOGIN_RQ "[]" sample_world 1] m
    by (simp add: sample_parsers_def prot_defs)
qed

subsection \<open>What a session that is not logged in can do\<close>

fun event_session :: "out_event \<Rightarrow> nat" where
  "event_session (Deliver s p) = s"
| "event_session (Close s) = s"
| "event_session (CloseAfterWrite s) = s"

text \<open>
  Nothing but answers to the session itself: no change of the database, of a session, of an upload,
  of the refresh cache, of the requests to the model, or of where a user is reached.
\<close>

definition quiet :: "nat \<Rightarrow> world \<Rightarrow> world \<Rightarrow> bool" where
  "quiet sid w w' \<longleftrightarrow> db w' = db w \<and> sessions w' = sessions w \<and> uploads w' = uploads w \<and>
     refreshes w' = refreshes w \<and> ai_limiter (ai w') = ai_limiter (ai w) \<and> ai_tasks (ai w') = ai_tasks (ai w) \<and>
     ai_cancelled (ai w') = ai_cancelled (ai w) \<and>
     (\<exists>evs. out w' = out w @ evs \<and> (\<forall>ev \<in> set evs. event_session ev = sid)) \<and>
     (ovalid (online w) \<longrightarrow> (\<forall>u > 0. located w' u = located w u))"

lemma quiet_simps [simp]:
  "quiet sid w w" "quiet sid w (deliver sid p w)" "quiet sid w (close sid w)"
  "quiet sid w (sendResult sid rid st msg ss (count_rejected w))"
  "quiet sid w (sendResult sid rid st msg ss w)"
  by (simp_all add: quiet_def sendResult_def count_rejected_def upd_ai_def located_def alive_def [abs_def])

lemma quiet_close: "quiet sid w w' \<Longrightarrow> quiet sid w (close sid w')"
  unfolding quiet_def by (auto simp: located_def)

lemma quiet_outcome: "quiet sid w (snd r) \<Longrightarrow> quiet sid w (outcome sid r)"
  using outcome_cases [of sid r] quiet_close by metis

lemma quiet_handlers:
  assumes "userId w sid \<le> 0"
  shows "quiet sid w (snd (onLogout e sid a1 w))" "quiet sid w (snd (onReply e clk sid a2 w))"
    "quiet sid w (snd (onCancel sid a3 w))" "quiet sid w (snd (onChat e sid a4 w))"
    "quiet sid w (snd (onAddFriend e sid a5 w))" "quiet sid w (snd (onAddFriendReply e sid a6 w))"
    "quiet sid w (snd (onFriendRequestList e sid a7 w))" "quiet sid w (snd (onDeleteFriend e sid a8 w))"
    "quiet sid w (snd (onConversations e sid w))" "quiet sid w (snd (onMessages e sid a9 w))"
    "quiet sid w (snd (onHeartbeat e sid w))"
  using assms
  by (auto simp: onLogout_def owned_session_def authenticated_def onReply_def ai_refusal_def onCancel_def
      onChat_def onAddFriend_def onAddFriendReply_def onFriendRequestList_def onDeleteFriend_def
      onConversations_def onMessages_def onHeartbeat_def Let_def split: option.split exc.split)

lemma quiet_offline:
  assumes "userId w sid \<le> 0"
  shows "quiet sid w (snd (onOffline sid rq w))"
proof (cases rq)
  case (Some x)
  let ?w = "w\<lparr>online := pres_offline (alive w) (userId w sid) sid (online w)\<rparr>"
  have "located (close sid ?w) u = located w u" if "ovalid (online w)" "0 < u" for u
    using that assms by (simp add: located_def alive_def [abs_def] pres_get_offline)
  then show ?thesis by (simp add: Some onOffline_def quiet_def)
qed (simp add: onOffline_def)

definition open_types :: "32 word set" where
  "open_types = {DEF_PROT_REGISTER_RQ, DEF_PROT_LOGIN_RQ, DEF_PROT_TOKEN_LOGIN_RQ, DEF_PROT_TOKEN_REFRESH_RQ}"

lemma quiet_dispatch:
  assumes "uget m = map_of (dispatcher_routes P)" and "userId w sid \<le> 0" and "t \<notin> open_types"
  shows "quiet sid w (router_dispatch m e clk sid t p w)"
proof (cases "map_of (dispatcher_routes P) t")
  case (Some h)
  then have "(t, h) \<in> set (dispatcher_routes P)" by (rule map_of_SomeD)
  then have "quiet sid w (snd (h e clk sid p w))"
    using assms(3) unfolding dispatcher_routes_def open_types_def
    by (auto simp: quiet_handlers [OF assms(2)] quiet_offline [OF assms(2)])
  then show ?thesis using Some by (simp add: router_dispatch_eq [OF assms(1)] quiet_outcome)
qed (simp add: router_dispatch_eq [OF assms(1)])



subsection \<open>Where the online table leads\<close>

text \<open>
  The state is well-formed: the database invariant holds of the file and of an open transaction,
  and the session a user is found at is logged in as that user.
\<close>

definition world_ok :: "world \<Rightarrow> bool" where
  "world_ok w \<longleftrightarrow> conn_inv db_inv (db w) \<and> ovalid (online w) \<and>
     (\<forall>u s. 0 < u \<longrightarrow> located w u = Some s \<longrightarrow> userId w s = u)"

lemma world_ok_effect:
  assumes "effect w w'" and "world_ok w"
  shows "world_ok w'"
  using assms effect_same [OF assms(1)] reach_db_inv [of "db w" "db w'"]
  by (simp add: world_ok_def) (simp add: effect_def)

lemma world_ok_online:
  assumes "world_ok w" and "ovalid m"
    and "\<And>u s. 0 < u \<Longrightarrow> pres_get (alive w) m u = Some s \<Longrightarrow> userId w s = u"
  shows "world_ok (w\<lparr>online := m\<rparr>)"
  using assms by (simp add: world_ok_def located_def alive_def [abs_def])

lemma world_ok_touch: "world_ok w \<Longrightarrow> world_ok (w\<lparr>online := pres_touch u t (online w)\<rparr>)"
  by (rule world_ok_online) (simp_all add: world_ok_def ovalid_touch located_def)

lemma ovalid_offline: "ovalid m \<Longrightarrow> ovalid (pres_offline al u s m)"
  by (auto simp: pres_offline_def omap.valid_del split: option.split)

lemma world_ok_offline: "world_ok w \<Longrightarrow> world_ok (w\<lparr>online := pres_offline (alive w) u s (online w)\<rparr>)"
  by (rule world_ok_online)
    (auto simp: world_ok_def ovalid_offline pres_get_offline located_def split: if_splits)

text \<open>A login on a session that was nobody's: identity, then activation.\<close>

lemma world_ok_login:
  assumes ok: "world_ok w" and "alive w sid" and "\<not> authenticated w sid"
  shows "world_ok (activateSession e sid u (deliver sid p (bindAuth sid u a d x w)))"
proof -
  let ?w = "deliver sid p (bindAuth sid u a d x w)"
  have al: "alive ?w = alive w" using alive_bindAuth [OF assms(2)] by simp
  have us: "userId ?w = (userId w)(sid := u)" by simp
  have free: "located w v \<noteq> Some sid" if "0 < v" for v
    using ok that assms(3) unfolding world_ok_def authenticated_def by force
  have ok1: "world_ok ?w"
    using ok free unfolding world_ok_def us by (auto simp: located_def alive_bindAuth [OF assms(2)])
  have "world_ok (?w\<lparr>online := snd (pres_replace (alive ?w) u sid (now e) (online ?w))\<rparr>)"
  proof (rule world_ok_online [OF ok1])
    show "ovalid (snd (pres_replace (alive ?w) u sid (now e) (online ?w)))"
      using ok1 by (simp add: world_ok_def pres_replace_def omap.valid_put)
    fix v s
    assume v: "0 < v" "pres_get (alive ?w) (snd (pres_replace (alive ?w) u sid (now e) (online ?w))) v = Some s"
    have "pres_get (alive ?w) (snd (pres_replace (alive ?w) u sid (now e) (online ?w))) =
        (pres_get (alive ?w) (online ?w))(u := Some sid)"
      using ok1 assms(2) by (simp add: world_ok_def pres_replace_def pres_get_oput pres_lock_def alive_bindAuth [OF assms(2)])
    with v ok1 show "userId ?w s = v"
      by (auto simp: world_ok_def located_def us split: if_splits)
  qed
  then show ?thesis by (rule world_ok_effect [OF effect_activate])
qed

lemma world_ok_refresh:
  assumes "world_ok w" and "alive w sid"
  shows "world_ok (snd (onTokenRefresh e sid rq0 w))"
proof (cases rq0)
  case (Some rq)
  define r where "r = (if length (rf_device_id rq) \<le> 128 \<and> length (rf_request_id rq) \<le> 128
     then rotateRefresh e (rf_refresh_token rq) (rf_device_id rq) (rf_request_id rq) (refreshes w) (db w)
     else (Returns (None, 0), refreshes w, db w))"
  obtain a m c where r: "r = (a, m, c)" by (rule prod_cases3)
  have "db_step\<^sup>*\<^sup>* (db w) c" using r unfolding r_def by (auto dest: steps_rotate split: if_splits)
  then have "effect w (w\<lparr>refreshes := m, db := c\<rparr>)" by (auto intro!: effects)
  then have e1: "effect w (kick_revoked u (w\<lparr>refreshes := m, db := c\<rparr>))" for u
    by (auto simp: kick_revoked_def intro!: effects split: option.split)
  have bind: "world_ok (bindAuth sid (userId w1 sid) x y z w1)" if "effect w w1" for w1 x y z
  proof -
    have ok: "world_ok w1" and al: "alive w1 sid"
      using world_ok_effect [OF that assms(1)] effect_same(2) [OF that] assms(2) by simp_all
    show ?thesis using ok by (simp add: world_ok_def located_def alive_bindAuth [OF al])
  qed
  have "world_ok (deliver sid p w2)" if "world_ok w2" for p w2
    by (rule world_ok_effect [OF _ that]) (auto intro!: effects)
  moreover have "world_ok (w\<lparr>refreshes := m, db := c\<rparr>)"
    by (rule world_ok_effect [OF _ assms(1)]) fact
  ultimately show ?thesis
    using bind [OF e1] world_ok_effect [OF e1 assms(1)]
    by (simp add: onTokenRefresh_def Some r_def [symmetric] r Let_def split: exc.split prod.split option.split)
qed (simp add: onTokenRefresh_def assms(1))

lemma world_ok_deliver: "world_ok w \<Longrightarrow> world_ok (deliver sid p w)"
  by (rule world_ok_effect) (auto intro!: effects)

lemma world_ok_close: "world_ok w \<Longrightarrow> world_ok (close sid w)"
  by (rule world_ok_effect) (auto intro!: effects)

lemma effect_db_only: "db_step\<^sup>*\<^sup>* (db w) c \<Longrightarrow> effect w (w\<lparr>db := c\<rparr>)"
  by (auto intro!: effects)

lemma world_ok_onLogin:
  assumes "world_ok w" and "alive w sid"
  shows "world_ok (snd (onLogin e sid rq0 w))"
proof (cases rq0)
  case (Some rq)
  obtain res u c where l: "loginUser (ext e) (sql e) (lg_tel rq) (lg_pass rq) (db w) = (res, u, c)"
    by (rule prod_cases3)
  obtain t c2 where i: "issue e u (lg_device_id rq) c = (t, c2)" by fastforce
  have ok1: "world_ok (w\<lparr>db := c\<rparr>)" and ok2: "world_ok (w\<lparr>db := c2\<rparr>)"
    using world_ok_effect [OF effect_db_only assms(1)] steps_login [OF l] steps_issue [OF i]
    by (blast intro: rtranclp_trans)+
  have "alive (w\<lparr>db := c2\<rparr>) sid" using assms(2) by (simp add: alive_def)
  then show ?thesis
    using assms(1) ok1 ok2 world_ok_login [OF ok2] i
    by (auto simp: onLogin_def Some l Let_def world_ok_deliver split: exc.split)
qed (simp add: onLogin_def assms(1))

lemma world_ok_onTokenLogin:
  assumes "world_ok w" and "alive w sid"
  shows "world_ok (snd (onTokenLogin e sid rq0 w))"
  using assms world_ok_login [OF assms]
  by (auto simp: onTokenLogin_def Let_def world_ok_deliver split: exc.split option.split prod.split)

lemma world_ok_router:
  assumes m: "uget m = map_of (dispatcher_routes P)" and ok: "world_ok w" "alive w sid"
  shows "world_ok (router_dispatch m e clk sid t p w)"
proof (cases "t \<in> login_types")
  case False
  show ?thesis by (rule world_ok_effect [OF effect_dispatch [OF m False] ok(1)])
next
  case True
  have o: "world_ok (outcome sid r)" if "world_ok (snd r)" for r
    using outcome_cases [of sid r] world_ok_close [OF that, of sid] that by metis
  have "world_ok (snd (onOffline sid rq w))" for rq
    by (cases rq) (simp_all add: onOffline_def ok(1) world_ok_close world_ok_offline)
  moreover have "world_ok (snd (onHeartbeat e sid w))"
    using ok(1) by (simp add: onHeartbeat_def world_ok_deliver world_ok_touch)
  ultimately show ?thesis
    using True ok unfolding login_types_def router_dispatch_eq [OF m]
    by (elim insertE emptyE)
      (simp_all add: login_routes o world_ok_onLogin world_ok_onTokenLogin world_ok_refresh)
qed

lemma world_ok_scan:
  assumes "world_ok w"
  shows "world_ok (hbScan t w)"
proof -
  let ?m = "snd (scanStale (alive w) t 90 (online w))"
  have v: "ovalid (online w)" using assms by (simp add: world_ok_def)
  have m: "?m = map (\<lambda>(u, en). (u, if alive w (pe_sess en) \<and> pe_last en = 0 then en\<lparr>pe_last := t\<rparr> else en)) (online w)"
    by (simp add: scan_eq)
  have "map fst ?m = map fst (online w)" unfolding m by (simp add: case_prod_unfold)
  then have "ovalid ?m" using v by (simp add: ovalid_def)
  moreover have "pres_get (alive w) ?m u = pres_get (alive w) (online w) u" for u
    unfolding m pres_get_def oget_map by (auto simp: pres_lock_def split: option.split)
  ultimately have "world_ok (w\<lparr>online := ?m\<rparr>)"
    using assms by (intro world_ok_online) (auto simp: world_ok_def located_def)
  then have "world_ok (fold (\<lambda>(u, s). close s) stale (w\<lparr>online := ?m\<rparr>))" for stale
    by (induction stale arbitrary: w rule: rev_induct) (auto simp: world_ok_close)
  then show ?thesis by (simp add: hbScan_def split_beta)
qed

lemma located_drop: "located (drop_session sid w) u = Some s \<Longrightarrow> located w u = Some s \<and> s \<noteq> sid"
  by (auto simp: located_def drop_session_def pres_get_def pres_lock_def alive_def uget_udel
      split: option.splits if_splits)

lemma world_ok_step:
  assumes m: "uget m = map_of (dispatcher_routes P)" and "server_step m w w'" and ok: "world_ok w"
  shows "world_ok w'"
  using assms(2)
proof cases
  case (Connect sid)
  have "located (new_session sid w) u = located w u" for u
  proof (cases "oget (online w) u")
    case (Some en)
    then have "(u, en) \<in> set (online w)" by (simp add: oget_def map_of_SomeD)
    then have "pe_sess en \<noteq> sid" using Connect(2) by (auto simp: fresh_id_def)
    then show ?thesis
      by (simp add: located_def pres_get_def Some pres_lock_def new_session_def alive_def uget_uput)
  qed (simp add: located_def pres_get_def new_session_def)
  moreover have "userId (new_session sid w) s = userId w s" if "located w u = Some s" for u s
  proof -
    have "alive w s" using that by (auto simp: located_def pres_get_def pres_lock_def split: option.splits if_splits)
    then have "s \<noteq> sid" using Connect(2) by (auto simp: fresh_id_def)
    then show ?thesis by (simp add: userId_def sess_of_def new_session_def uget_uput)
  qed
  ultimately show ?thesis
    using ok unfolding Connect(1) by (simp add: world_ok_def) (simp add: new_session_def)
next
  case (Packet sid e clk t p)
  let ?w = "w\<lparr>online := pres_touch (userId w sid) (now e) (online w)\<rparr>"
  have "world_ok ?w" by (rule world_ok_touch [OF ok])
  moreover have "alive ?w sid" using Packet(2) by (simp add: alive_def)
  ultimately show ?thesis
    using world_ok_router [OF m, of _ sid e clk t p] world_ok_close ok Packet(2)
    unfolding Packet(1) dispatchPacket_def Let_def by simp
next
  case (Closed sid)
  then show ?thesis using ok by (simp add: onSessionClosed_def world_ok_offline)
next
  case (Broadcast e u)
  have "effect w (broadcast_offline e u w)"
    unfolding broadcast_offline_def
    by (rule effect_fold) (auto simp: tell_offline_def intro!: effects split: option.split)
  then show ?thesis using world_ok_effect ok Broadcast by simp
next
  case (Gone sid)
  have "userId (drop_session sid w) s = userId w s" if "s \<noteq> sid" for s
    using that by (simp add: userId_def sess_of_def drop_session_def uget_udel)
  then show ?thesis
    using ok located_drop [of sid w] unfolding Gone world_ok_def
    by (auto simp: drop_session_def)
next
  case (Scan t)
  then show ?thesis using world_ok_scan [OF ok] by simp
next
  case (Upload ups)
  have "effect w w'" unfolding Upload by (auto intro!: effects)
  then show ?thesis by (rule world_ok_effect [OF _ ok])
next
  case (Ask t w1 e)
  have "effect w w1" using Ask(2) by (auto simp: ai_take_def intro!: effect_upd_ai split: list.splits)
  then have "effect w w'" unfolding Ask(1) using effect_ai_begin effect_trans by blast
  then show ?thesis by (rule world_ok_effect [OF _ ok])
next
  case (Answer t r)
  then show ?thesis using world_ok_effect [OF effect_ai_end ok] by simp
qed

text \<open>
  C2. In every state the server reaches from a well-formed one, by connections, packets of any
  content, closings, scans, uploads, model tasks and any failures of the database in any order: the
  database is well-formed, and whoever is delivered to as user \<open>u\<close> is a live session logged in as \<open>u\<close>.
\<close>

theorem online_means_logged_in:
  assumes "new_dispatcher P = Returns m" and "world_ok w" and "(server_step m)\<^sup>*\<^sup>* w w'"
  shows "db_inv (disk (db w')) \<and>
         (\<forall>u s. 0 < u \<and> located w' u = Some s \<longrightarrow> alive w' s \<and> authenticated w' s \<and> userId w' s = u)"
proof -
  have m: "uget m = map_of (dispatcher_routes P)" using new_dispatcher_table [of P] assms(1) by simp
  have "world_ok w'"
    using assms(3,2) by (induction rule: rtranclp_induct) (auto intro: world_ok_step [OF m])
  moreover have "alive w' s" if "located w' u = Some s" for u s
    using that by (auto simp: located_def pres_get_def pres_lock_def split: option.splits if_splits)
  ultimately show ?thesis
    by (auto simp: world_ok_def authenticated_def intro: conn_inv_disk)
qed

lemma sample_world_ok: "world_ok sample_world"
proof -
  have "located sample_world u = Some s \<Longrightarrow> u = 8 \<and> s = 2" for u s
    by (auto simp: located_def sample_world_def pres_get_def oget_def pres_lock_def alive_def uget_def
        split: if_splits)
  moreover have "conn_inv db_inv (db sample_world)"
    by (simp add: conn_inv_def db_inv_def sample_world_def users_ok_def friends_ok_def mutual_def
        messages_ok_def auths_ok_def contiguous_def conv_seqs_def conv_rows_def empty_tables_def)
  moreover have "ovalid (online sample_world)" by (simp add: sample_world_def ovalid_def)
  ultimately show ?thesis by (fastforce simp: world_ok_def)
qed

theorem online_means_logged_in_witness:
  "\<exists>m. new_dispatcher sample_parsers = Returns m \<and>
     db_inv (disk (db (dispatchPacket m (sample_env 5) 0 1 DEF_PROT_TOKEN_LOGIN_RQ [] sample_world)))"
proof -
  obtain m where m: "new_dispatcher sample_parsers = Returns m"
    using new_dispatcher_table [of sample_parsers] by blast
  have "server_step m sample_world (dispatchPacket m (sample_env 5) 0 1 DEF_PROT_TOKEN_LOGIN_RQ [] sample_world)"
    by (rule server_step.Packet) simp
  then show ?thesis
    using online_means_logged_in [OF m sample_world_ok r_into_rtranclp] m by blast
qed

end
