(* ===== verification/ChatFacts.thy ===== *)
theory ChatFacts
  imports ServerInv
begin

text \<open>
  What the users of the server can rely on: a message is stored before it is acknowledged, its sender
  is the session's user and nobody else, a login hands over the offline messages, a token that is
  logged out is dead, and requests to the model are gated and can be cancelled.
\<close>

subsection \<open>Messages\<close>

lemma save_summary:
  assumes "saveMessage e m d c = (ok, m', c')"
  shows "(\<not> ok \<longrightarrow> c' = c)"
    and "(ok \<longrightarrow> (\<exists>row \<in> set (messages (disk c')). msgId (row_msg row) = cstr (msgId m) \<and>
             mseq (row_msg row) = mseq m') \<and> (\<exists>s. m' = m\<lparr>mseq := s\<rparr>))"
    and "\<forall>row \<in> set (messages (disk c')). row \<in> set (messages (disk c)) \<or>
           senderId (row_msg row) = senderId m \<and> receiverId (row_msg row) = receiverId m"
proof -
  have "(\<not> ok \<longrightarrow> c' = c) \<and>
      (ok \<longrightarrow> (\<exists>row \<in> set (messages (disk c')). msgId (row_msg row) = cstr (msgId m) \<and>
             mseq (row_msg row) = mseq m') \<and> (\<exists>s. m' = m\<lparr>mseq := s\<rparr>)) \<and>
      (\<forall>row \<in> set (messages (disk c')). row \<in> set (messages (disk c)) \<or>
           senderId (row_msg row) = senderId m \<and> receiverId (row_msg row) = receiverId m)"
    using assms
  proof (cases rule: saveMessage_cases)
    case (Stored t s)
    then show ?thesis
      using insert_message_Some [THEN iffD1, OF Stored(4)] by (auto simp: stored_form_def)
  qed auto
  then show "(\<not> ok \<longrightarrow> c' = c)"
    and "(ok \<longrightarrow> (\<exists>row \<in> set (messages (disk c')). msgId (row_msg row) = cstr (msgId m) \<and>
             mseq (row_msg row) = mseq m') \<and> (\<exists>s. m' = m\<lparr>mseq := s\<rparr>))"
    and "\<forall>row \<in> set (messages (disk c')). row \<in> set (messages (disk c)) \<or>
           senderId (row_msg row) = senderId m \<and> receiverId (row_msg row) = receiverId m"
    by blast+
qed

text \<open>What a chat request from user \<open>u\<close> to user \<open>v\<close> may have done between two states.\<close>

definition acknowledged :: "ChatInfoRs \<Rightarrow> bool" where
  "acknowledged rs \<longleftrightarrow> cr_result rs = CHAT_RESULT_SUCC \<or> cr_result rs = CHAT_RESULT_FAIL"

definition forwards :: "world \<Rightarrow> int \<Rightarrow> int \<Rightarrow> ChatInfoRs \<Rightarrow> out_event list \<Rightarrow> bool" where
  "forwards w u v rs fwd \<longleftrightarrow>
     (case located w v of
        None \<Rightarrow> fwd = [] \<and> cr_result rs = CHAT_RESULT_FAIL
      | Some s \<Rightarrow> cr_result rs = CHAT_RESULT_SUCC \<and>
          (\<exists>c. fwd = [Deliver s (P_ChatInfoRq c)] \<and> c_myid c = u \<and> c_friid c = v \<and>
               c_msg_id c = cr_msg_id rs \<and> c_seq c = cr_seq rs))"

definition chat_done :: "world \<Rightarrow> nat \<Rightarrow> int \<Rightarrow> world \<Rightarrow> bool" where
  "chat_done w sid v w' \<longleftrightarrow> (\<exists>fwd rs.
     out w' = out w @ fwd @ [Deliver sid (P_ChatInfoRs rs)] \<and>
     (if acknowledged rs
      then forwards w (userId w sid) v rs fwd \<and>
           (\<exists>row \<in> set (messages (disk (db w'))). msgId (row_msg row) = cstr (cr_msg_id rs) \<and>
              mseq (row_msg row) = cr_seq rs)
      else fwd = [] \<and> db w' = db w \<and> uploads w' = uploads w))"

lemma failure_done:
  assumes "r \<noteq> CHAT_RESULT_SUCC" "r \<noteq> CHAT_RESULT_FAIL"
  shows "chat_done w sid v (deliverFailure sid rq r w)"
  using assms by (auto simp: chat_done_def deliverFailure_def acknowledged_def)

lemma chat_codes:
  "CHAT_RESULT_NOT_FRIEND \<noteq> CHAT_RESULT_SUCC" "CHAT_RESULT_NOT_FRIEND \<noteq> CHAT_RESULT_FAIL"
  "CHAT_RESULT_FILE_NOT_OWNED \<noteq> CHAT_RESULT_SUCC" "CHAT_RESULT_FILE_NOT_OWNED \<noteq> CHAT_RESULT_FAIL"
  "CHAT_RESULT_SERVER_ERROR \<noteq> CHAT_RESULT_SUCC" "CHAT_RESULT_SERVER_ERROR \<noteq> CHAT_RESULT_FAIL"
  by (simp_all add: prot_defs)

lemma store_done:
  assumes "c_myid rq = userId w sid"
  shows "chat_done w sid (c_friid rq) (store_and_forward e sid rq path sz w)"
    and "\<forall>row \<in> set (messages (disk (db (store_and_forward e sid rq path sz w)))).
           row \<in> set (messages (disk (db w))) \<or>
           senderId (row_msg row) = c_myid rq \<and> receiverId (row_msg row) = c_friid rq"
proof -
  define mid w1 where "mid = (if c_msg_id rq = []
      then fallbackMsgId (c_myid rq) (c_friid rq) (now e) (msg_counter w) (c_msg rq) else c_msg_id rq)"
    and "w1 = (if c_msg_id rq = [] then w\<lparr>msg_counter := msg_counter w + 1\<rparr> else w)"
  let ?m = "message_of mid (now e) rq path sz"
  obtain ok m c where s: "saveMessage (sql e) ?m (located w1 (c_friid rq) \<noteq> None) (db w1) = (ok, m, c)"
    by (rule prod_cases3)
  note sum = save_summary [OF s]
  have "located w1 = located w" by (rule located_cong) (simp_all add: w1_def)
  then have w1: "db w1 = db w" "out w1 = out w" "located w1 = located w" "uploads w1 = uploads w"
    by (simp_all add: w1_def)
  have cond: "(if c_msg_id rq = [] then (fallbackMsgId (c_myid rq) (c_friid rq) (now e) (msg_counter w) (c_msg rq),
      w\<lparr>msg_counter := msg_counter w + 1\<rparr>) else (c_msg_id rq, w)) = (mid, w1)"
    by (simp add: mid_def w1_def)
  have up: "out (if b then eraseUploadRecord f w2 else w2) = out w2"
    "db (if b then eraseUploadRecord f w2 else w2) = db w2" for b f w2
    by (simp_all add: eraseUploadRecord_def)
  have ids: "senderId ?m = c_myid rq" "receiverId ?m = c_friid rq" "msgId ?m = mid"
    by (simp_all add: message_of_def)
  show "chat_done w sid (c_friid rq) (store_and_forward e sid rq path sz w)"
  proof (cases ok)
    case False
    then have "c = db w" using sum(1) w1 by simp
    then have "chat_done w sid (c_friid rq) (deliverFailure sid rq CHAT_RESULT_SERVER_ERROR (w1\<lparr>db := c\<rparr>))"
      using w1 chat_codes by (auto simp: chat_done_def deliverFailure_def acknowledged_def)
    then show ?thesis
      unfolding store_and_forward_def Let_def cond using s False by simp
  next
    case True
    then obtain row q where row: "row \<in> set (messages (disk c))" "msgId (row_msg row) = cstr mid"
        "mseq (row_msg row) = mseq m" "m = ?m\<lparr>mseq := q\<rparr>"
      using sum(2) by (auto simp: ids)
    then have "msgId m = mid" by (simp add: ids)
    then show ?thesis
      unfolding store_and_forward_def Let_def cond using s True row(1-3) assms w1(2,3)
      by (cases "located w (c_friid rq)")
        (auto simp: chat_done_def acknowledged_def forwards_def up)
  qed
  show "\<forall>row \<in> set (messages (disk (db (store_and_forward e sid rq path sz w)))).
           row \<in> set (messages (disk (db w))) \<or>
           senderId (row_msg row) = c_myid rq \<and> receiverId (row_msg row) = c_friid rq"
    unfolding store_and_forward_def Let_def cond using s sum(3) w1(1,3)
    by (cases "located w (c_friid rq)") (auto simp: ids up deliverFailure_def)
qed


text \<open>
  C14. The sender of a message cannot be forged and strangers cannot write: whatever a chat request
  claims, every message it adds to the database is from the session's user to the friend it names,
  and the two are friends in the file.
\<close>

theorem sender_cannot_be_forged:
  assumes "onChat e sid (Some rq) w = (r, w')" and "row \<in> set (messages (disk (db w')))"
    and "row \<notin> set (messages (disk (db w)))"
  shows "0 < userId w sid \<and> senderId (row_msg row) = userId w sid \<and> receiverId (row_msg row) = c_friid rq \<and>
         (userId w sid, c_friid rq) \<in> set (friends (disk (db w)))"
proof -
  let ?rq = "rq\<lparr>c_myid := userId w sid\<rparr>"
  have store: "\<forall>row \<in> set (messages (disk (db (store_and_forward e sid q p z w)))).
      row \<in> set (messages (disk (db w))) \<or>
      senderId (row_msg row) = userId w sid \<and> receiverId (row_msg row) = c_friid rq"
    if "c_myid q = userId w sid" "c_friid q = c_friid rq" for q p z
    using store_done(2) [of q w sid e p z] that by simp
  have u: "0 < userId w sid" "isFriend (sql e) (userId w sid) (c_friid rq) (db w)"
    using assms by (auto simp: onChat_def deliverFailure_def Let_def split: if_splits)
  have "senderId (row_msg row) = userId w sid \<and> receiverId (row_msg row) = c_friid rq"
    using assms u store [of ?rq "[]" 0]
      store [of "?rq\<lparr>c_file_size := up_size x, c_content_type := up_contentType x, c_sha256 := up_sha256 x\<rparr>"
        "up_mediaPath x" "up_size x" for x]
    by (auto simp: onChat_def deliverFailure_def Let_def split: if_splits option.splits)
  then show ?thesis
    using u by (auto simp: isFriend_def dest: read_row_SomeD)
qed

text \<open>User 8 of the sample server writes to user 7; the request claims to be from user 99.\<close>

lemma sample_chat_runs:
  obtains r w' row where "onChat (sample_env 5) 2 (Some sample_chat) sample_world = (r, w')"
    and "row \<in> set (messages (disk (db w')))" and "row \<notin> set (messages (disk (db sample_world)))"
    and "senderId (row_msg row) = 8"
proof -
  let ?r = "onChat (sample_env 5) 2 (Some sample_chat) sample_world"
  have "map (\<lambda>r. senderId (row_msg r)) (messages (disk (db (snd ?r)))) = [8]"
    by code_simp
  then obtain row where "messages (disk (db (snd ?r))) = [row]" "senderId (row_msg row) = 8"
    by auto
  moreover have "messages (disk (db sample_world)) = []" by (simp add: sample_world_def empty_tables_def)
  ultimately show ?thesis using that [of "fst ?r" "snd ?r"] by auto
qed


theorem sender_cannot_be_forged_witness:
  "(8, 7) \<in> set (friends (disk (db sample_world)))"
proof -
  obtain r w' row where "onChat (sample_env 5) 2 (Some sample_chat) sample_world = (r, w')"
    "row \<in> set (messages (disk (db w')))" "row \<notin> set (messages (disk (db sample_world)))"
    by (rule sample_chat_runs)
  from sender_cannot_be_forged [OF this] show ?thesis by (simp add: sample_chat_def)
qed

subsection \<open>A login\<close>

text \<open>The messages among the events that are delivered to a session.\<close>

fun chats_to :: "nat \<Rightarrow> out_event list \<Rightarrow> ChatInfoRq list" where
  "chats_to sid [] = []"
| "chats_to sid (Deliver s (P_ChatInfoRq c) # evs) = (if s = sid then c # chats_to sid evs else chats_to sid evs)"
| "chats_to sid (ev # evs) = chats_to sid evs"

lemma chats_to_append [simp]: "chats_to sid (xs @ ys) = chats_to sid xs @ chats_to sid ys"
  by (induction sid xs rule: chats_to.induct) auto

text \<open>\<open>adds w w' cs\<close>: only calls on sessions were added, among them the messages \<open>cs\<close> for \<open>sid\<close>.\<close>

definition adds :: "nat \<Rightarrow> world \<Rightarrow> world \<Rightarrow> ChatInfoRq list \<Rightarrow> bool" where
  "adds sid w w' cs \<longleftrightarrow> db w' = db w \<and> online w' = online w \<and> sessions w' = sessions w \<and>
     (\<exists>evs. out w' = out w @ evs \<and> chats_to sid evs = cs)"

lemma adds_refl [simp]: "adds sid w w []"
  by (simp add: adds_def)

lemma adds_trans: "adds sid w1 w2 xs \<Longrightarrow> adds sid w2 w3 ys \<Longrightarrow> adds sid w1 w3 (xs @ ys)"
  by (auto simp: adds_def)

lemma adds_info: "adds sid w (sendFriendInfo e to u st w) []"
  by (auto simp: adds_def sendFriendInfo_def split: option.split)

lemma adds_infos: "adds sid w (sendFriendInfo e to u st (sendFriendInfo e' to' u' st' w)) []"
  using adds_trans [OF adds_info adds_info, of sid w] by simp

lemma adds_announce: "adds sid w (announce e s u fr w) []"
  unfolding announce_def Let_def using adds_info adds_infos by (auto split: option.split)

lemma adds_hand_over: "adds sid w (hand_over sid u m w) [roam_message m]"
  by (auto simp: adds_def hand_over_def roam_message_def Let_def split: option.split)

lemma adds_fold:
  assumes "\<And>x w. adds sid w (f x w) (g x)"
  shows "adds sid w (fold f xs w) (concat (map g xs))"
proof (induction xs arbitrary: w)
  case (Cons x xs)
  show ?case using adds_trans [OF assms Cons] by simp
qed simp

lemma concat_nils [simp]: "concat (map (\<lambda>_. []) xs) = []"
  by (induction xs) auto

lemma adds_takeover:
  "adds sid (w\<lparr>online := snd (pres_replace (alive w) u sid (now e) (online w))\<rparr>) (take_over e sid u w) []"
  by (auto simp: adds_def take_over_def Let_def split: prod.split option.split)

lemma adds_activate:
  "\<exists>w1. adds sid (w\<lparr>online := snd (pres_replace (alive w) u sid (now e) (online w))\<rparr>) w1
     (map roam_message (pullUndelivered (sql e) u (db w))) \<and>
   activateSession e sid u w =
     w1\<lparr>db := markDelivered (sql e) (map msgId (pullUndelivered (sql e) u (db w))) (db w)\<rparr>"
proof -
  let ?w0 = "w\<lparr>online := snd (pres_replace (alive w) u sid (now e) (online w))\<rparr>"
  let ?w2 = "sendFriendInfo e sid u STATUS_ONLINE (take_over e sid u w)"
  let ?w3 = "fold (announce e sid u) (getFriends (sql e) u (db ?w2)) ?w2"
  let ?ms = "pullUndelivered (sql e) u (db ?w3)"
  let ?w4 = "fold (hand_over sid u) ?ms ?w3"
  have "adds sid ?w2 ?w3 []"
    using adds_fold [where f = "announce e sid u" and g = "\<lambda>_. []", OF adds_announce] by simp
  from adds_trans [OF adds_trans [OF adds_takeover adds_info] this]
  have w3: "adds sid ?w0 ?w3 []" by simp
  have "adds sid ?w3 ?w4 (map roam_message ?ms)"
    using adds_fold [where f = "hand_over sid u" and g = "\<lambda>m. [roam_message m]", OF adds_hand_over]
    by simp
  from adds_trans [OF w3 this] have w4: "adds sid ?w0 ?w4 (map roam_message ?ms)" by simp
  have "db ?w3 = db w" "db ?w4 = db w" using w3 w4 by (simp_all add: adds_def)
  then show ?thesis
    using w4 unfolding activateSession_def Let_def by auto
qed

text \<open>
  When a session is activated for a user, the user is from then on reached there; the session
  gets exactly the messages that were waiting for the user, each once and in the order of the
  database, and they are what is marked as delivered; no other row changes its owner, and a session
  the user had before is told that it was replaced, and closed.
\<close>

theorem login_hands_over:
  assumes "alive w sid" and "ovalid (online w)" and "w' = activateSession e sid u w"
  shows "located w' u = Some sid \<and>
         db w' = markDelivered (sql e) (map msgId (pullUndelivered (sql e) u (db w))) (db w) \<and>
         (\<exists>evs. out w' = out w @ evs \<and>
            chats_to sid evs = map roam_message (pullUndelivered (sql e) u (db w))) \<and>
         (case located w u of
            None \<Rightarrow> True
          | Some old \<Rightarrow> old = sid \<or> Deliver old P_KickedOffline \<in> set (out w') \<and> CloseAfterWrite old \<in> set (out w'))"
proof -
  let ?w0 = "w\<lparr>online := snd (pres_replace (alive w) u sid (now e) (online w))\<rparr>"
  obtain w1 where w1: "adds sid ?w0 w1 (map roam_message (pullUndelivered (sql e) u (db w)))"
    "w' = w1\<lparr>db := markDelivered (sql e) (map msgId (pullUndelivered (sql e) u (db w))) (db w)\<rparr>"
    using adds_activate [of sid w u e] assms(3) by blast
  have eq: "located w' = located ?w0"
    by (rule located_cong) (use w1 in \<open>simp_all add: adds_def\<close>)
  have "located ?w0 u = Some sid"
    using assms(1,2) by (simp add: located_def alive_def [abs_def] pres_replace_def pres_get_oput pres_lock_def)
  then have "located w' u = Some sid" by (simp only: eq)
  moreover have "Deliver old P_KickedOffline \<in> set (out w') \<and> CloseAfterWrite old \<in> set (out w')"
    if "located w u = Some old" "old \<noteq> sid" for old
  proof -
    have "set (out (take_over e sid u w)) \<subseteq> set (out w')"
      using adds_takeover assms(3)
    proof -
      have "effect (take_over e sid u w) w'"
        unfolding assms(3) activateSession_def Let_def
        by (intro effect_db r_into_rtranclp db_step.Mark effect_fold effect_hand_over effect_announce
            effect_info effect_refl)
      then show ?thesis by (auto simp: effect_def)
    qed
    moreover have "Deliver old P_KickedOffline \<in> set (out (take_over e sid u w))"
        "CloseAfterWrite old \<in> set (out (take_over e sid u w))"
      using that by (simp_all add: take_over_def pres_replace_def located_def Let_def)
    ultimately show ?thesis by blast
  qed
  ultimately show ?thesis
    using w1 by (auto simp: adds_def split: option.split)
qed

theorem login_hands_over_witness:
  "located (activateSession (sample_env 5) 1 8 sample_world) 8 = Some 1 \<and>
   CloseAfterWrite 2 \<in> set (out (activateSession (sample_env 5) 1 8 sample_world))"
proof -
  have "oget (online sample_world) 8 = Some \<lparr>pe_sess = 2, pe_last = 4\<rparr>"
    by (simp add: sample_world_def oget_def)
  then have "located sample_world 8 = Some 2"
    by (simp add: located_def pres_get_def pres_lock_def)
  then show ?thesis
    using login_hands_over [OF _ _ refl, of sample_world 1 "sample_env 5" 8] sample_world_ok
    by (simp add: world_ok_def)
qed

subsection \<open>Requests to the model\<close>

definition ai_answers :: "nat \<Rightarrow> string \<Rightarrow> world \<Rightarrow> world \<Rightarrow> AiReplyStatus \<Rightarrow> string list \<Rightarrow> bool" where
  "ai_answers sid rid w w' status ss \<longleftrightarrow>
     (\<exists>msg. out w' = out w @ [Deliver sid (P_AiReplyRs \<lparr>ai_request_id = rid, ai_status = status,
        ai_suggestions = ss, ai_error_message = msg, ai_done = True\<rparr>)])"

lemma answers_sendResult:
  "out w1 = out w \<Longrightarrow> ai_answers sid rid w (sendResult sid rid status msg ss w1) status ss"
  by (simp add: ai_answers_def sendResult_def)

lemma upd_ai_simps [simp]:
  "out (upd_ai f w) = out w" "ai (upd_ai f w) = f (ai w)" "db (upd_ai f w) = db w"
  "ai (sendResult sid rid st msg ss w) = ai w" "db (sendResult sid rid st msg ss w) = db w"
  "out (count_rejected w) = out w" "ai_tasks (ai (count_rejected w)) = ai_tasks (ai w)"
  "out (finish_task t w) = out w"
  by (simp_all add: upd_ai_def sendResult_def count_rejected_def finish_task_def)

text \<open>
  C33. A request for suggestions is either refused with one answer that is not OK, and starts nothing;
  or starts one task without an answer yet. It starts one only for a logged-in user and a friend of
  that user, on a valid request, with the service enabled, and when the limiter accepts.
\<close>

theorem ai_request_gated:
  assumes "onReply e clk sid (Some rq) w = (r, w')"
  shows "(\<exists>status. status \<noteq> AI_REPLY_OK \<and> ai_answers sid (aq_request_id rq) w w' status [] \<and>
            ai_tasks (ai w') = ai_tasks (ai w)) \<or>
         (out w' = out w \<and> 0 < userId w sid \<and> ai_params_ok (userId w sid) rq \<and>
          config_enabled (ai_config (ai w)) \<and>
          (userId w sid, aq_peer_id rq) \<in> set (friends (disk (db w))) \<and>
          fst (tryAcquire (userId w sid) (aq_request_id rq) clk (ai_limiter (ai w))) = Accepted \<and>
          (\<exists>t. ai_tasks (ai w') = ai_tasks (ai w) @ [t] \<and> at_session t = sid \<and> at_user t = userId w sid \<and>
             at_peer t = aq_peer_id rq \<and> 1 \<le> at_maxSuggestions t \<and> at_maxSuggestions t \<le> 3))"
proof (cases "ai_refusal e (userId w sid) rq w")
  case (Some p)
  obtain st msg where p: "p = (st, msg)" by (cases p)
  have "st \<noteq> AI_REPLY_OK" using Some by (auto simp: ai_refusal_def p Let_def split: if_splits)
  moreover have w': "w' = sendResult sid (aq_request_id rq) st msg [] (count_rejected w)"
    using assms Some by (simp add: onReply_def p Let_def)
  ultimately show ?thesis
    using answers_sendResult [of "count_rejected w" w sid "aq_request_id rq" st msg "[]"] by auto
next
  case None
  then have ok: "0 < userId w sid" "ai_params_ok (userId w sid) rq" "config_enabled (ai_config (ai w))"
      "isFriend (sql e) (userId w sid) (aq_peer_id rq) (db w)"
    by (auto simp: ai_refusal_def Let_def split: if_splits)
  obtain res l where acq: "tryAcquire (userId w sid) (aq_request_id rq) clk (ai_limiter (ai w)) = (res, l)"
    by fastforce
  let ?w1 = "upd_ai (\<lambda>a. a\<lparr>ai_limiter := l\<rparr>) w"
  obtain st msg where ref: "limiter_refusal res = (st, msg)" by fastforce
  show ?thesis
  proof (cases "res = Accepted")
    case False
    have "st \<noteq> AI_REPLY_OK" using ref by (auto simp: limiter_refusal_def split: lim_result.splits)
    moreover have "w' = sendResult sid (aq_request_id rq) st msg [] (count_rejected ?w1)"
      using assms None acq False ref by (simp add: onReply_def Let_def)
    ultimately show ?thesis
      using answers_sendResult [of "count_rejected ?w1" w sid "aq_request_id rq" st msg "[]"] by auto
  next
    case True
    have "(userId w sid, aq_peer_id rq) \<in> set (friends (disk (db w)))"
      using ok(4) by (auto simp: isFriend_def dest: read_row_SomeD)
    then show ?thesis
      using assms None acq True ok(1-3)
      by (auto simp: onReply_def Let_def ai_params_ok_def)
  qed
qed

definition sample_asker :: world where
  "sample_asker = sample_world\<lparr>ai := (ai sample_world)\<lparr>ai_config :=
     default_config\<lparr>cf_apiKey := ''k'', cf_model := ''m''\<rparr>\<rparr>\<rparr>"

definition sample_question :: AiReplyRq where
  "sample_question = \<lparr>aq_request_id = ''r'', aq_peer_id = 7, aq_tone = [], aq_max_suggestions = 0\<rparr>"

lemma sample_asked: "out (snd (onReply (sample_env 5) 0 2 (Some sample_question) sample_asker)) = []"
proof -
  have "userId sample_asker 2 = 8" "ai_params_ok 8 sample_question"
    "isFriend (sql (sample_env 5)) 8 (aq_peer_id sample_question) (db sample_asker)"
    "cf_featureEnabled (ai_config (ai sample_asker))" "cf_rolloutPercent (ai_config (ai sample_asker)) = 100"
    "config_enabled (ai_config (ai sample_asker))" by code_simp+
  moreover have "rolloutBucket 8 < 100" by (simp add: rolloutBucket_def)
  ultimately have "ai_refusal (sample_env 5) (userId sample_asker 2) sample_question sample_asker = None"
    by (simp add: ai_refusal_def Let_def)
  moreover have "fst (tryAcquire (userId sample_asker 2) (aq_request_id sample_question) 0
      (ai_limiter (ai sample_asker))) = Accepted" by code_simp
  moreover have "out sample_asker = []" by code_simp
  ultimately show ?thesis by (auto simp: onReply_def Let_def split: prod.splits)
qed

theorem ai_request_gated_witness:
  "length (ai_tasks (ai (snd (onReply (sample_env 5) 0 2 (Some sample_question) sample_asker)))) = 1"
proof -
  let ?r = "onReply (sample_env 5) 0 2 (Some sample_question) sample_asker"
  have "\<not> ai_answers 2 x sample_asker (snd ?r) st []" for x st
    using sample_asked by (auto simp: ai_answers_def)
  moreover have "ai_tasks (ai sample_asker) = []" by code_simp
  ultimately show ?thesis
    using ai_request_gated [of "sample_env 5" 0 2 sample_question sample_asker "fst ?r" "snd ?r"] by auto
qed

lemma safe_suggestions_good:
  "good_list (safe_suggestions ss) \<and> (\<forall>s \<in> set (safe_suggestions ss). length s \<le> 240)"
proof -
  let ?f = "\<lambda>s acc. let safe = utf8Truncate s 240 in if safe \<noteq> [] \<and> length acc < 3 then acc @ [safe] else acc"
  have "good_list (fold ?f ss acc) \<and> (\<forall>s \<in> set (fold ?f ss acc). length s \<le> 240)"
    if "good_list acc" "\<forall>s \<in> set acc. length s \<le> 240" for acc
    using that
  proof (induction ss arbitrary: acc)
    case (Cons s ss)
    have "good_list (?f s acc) \<and> (\<forall>s \<in> set (?f s acc). length s \<le> 240)"
      using Cons.prems length_utf8Truncate [of s 240] by (auto simp: good_list_def Let_def)
    then have "good_list (fold ?f ss (?f s acc)) \<and> (\<forall>x \<in> set (fold ?f ss (?f s acc)). length x \<le> 240)"
      by (elim conjE) (rule Cons.IH)
    then show ?case unfolding fold_simps .
  qed simp
  from this [of "[]"] show ?thesis by (simp add: safe_suggestions_def)
qed

text \<open>
  The end of a task frees its user and its key in any case. It answers once, and only the session
  that asked, when the request was not cancelled and the session is alive and still the same user's;
  otherwise not at all. An answer that is OK carries one to three suggestions, none empty or longer
  than 240 bytes; any other carries none.
\<close>

theorem ai_answer_reaches_asker:
  "let w' = ai_end t r w; key = requestKey (at_user t) (at_requestId t) in
     at_user t \<notin> set (lim_inFlight (ai_limiter (ai w'))) \<and>
     key \<notin> set (ai_active (ai w')) \<and> key \<notin> set (ai_cancelled (ai w')) \<and>
     (if isCancelled (at_user t) (at_requestId t) (ai w) \<or> task_gone t w then out w' = out w
      else \<exists>status ss. ai_answers (at_session t) (at_requestId t) w w' status ss \<and>
             good_list ss \<and> list_all (\<lambda>s. length s \<le> 240) ss \<and> (status = AI_REPLY_OK \<longleftrightarrow> ss \<noteq> []))"
proof -
  have fin: "at_user t \<notin> set (lim_inFlight (ai_limiter (ai (finish_task t w1))))"
    "requestKey (at_user t) (at_requestId t) \<notin> set (ai_active (ai (finish_task t w1)))"
    "requestKey (at_user t) (at_requestId t) \<notin> set (ai_cancelled (ai (finish_task t w1)))" for w1
    by (simp_all add: finish_task_def finishRequest_def release_def Let_def)
  have st: "mapError err \<noteq> AI_REPLY_OK" if "err \<noteq> NoError" for err
    using that by (simp add: mapError_def split: AiError.split)
  have ans: "ai_answers s rid w (finish_task t (sendResult s rid status msg ss w1)) status ss"
    if "out w1 = out w" for s rid status msg ss w1
    using answers_sendResult [OF that] by (simp add: ai_answers_def)
  have finished: ?thesis
    if "ai_end t r w = finish_task t w1" and "if isCancelled (at_user t) (at_requestId t) (ai w) \<or> task_gone t w
      then out w1 = out w
      else \<exists>status ss. ai_answers (at_session t) (at_requestId t) w (finish_task t w1) status ss \<and>
             good_list ss \<and> (\<forall>s \<in> set ss. length s \<le> 240) \<and> (status = AI_REPLY_OK \<longleftrightarrow> ss \<noteq> [])" for w1
    unfolding that(1) Let_def list_all_iff using that(2) fin [of w1] by (simp split: if_splits)
  show ?thesis
  proof (cases "isCancelled (at_user t) (at_requestId t) (ai w) \<or> task_gone t w")
    case True
    then show ?thesis by (intro finished [of w]) (simp_all add: ai_end_def)
  next
    case running: False
    show ?thesis
    proof (cases "air_error r = NoError")
      case False
      show ?thesis
      proof (rule finished)
        show "ai_end t r w = finish_task t (sendResult (at_session t) (at_requestId t) (mapError (air_error r))
            msg_unavailable [] (upd_ai (\<lambda>a. a\<lparr>ai_n_failed := ai_n_failed a + 1\<rparr>) w))"
          using running False by (simp add: ai_end_def)
      qed (use running st [OF False] ans in \<open>auto intro!: exI\<close>)
    next
      case True
      note good = safe_suggestions_good [of "air_suggestions r"]
      show ?thesis
      proof (cases "safe_suggestions (air_suggestions r) = []")
        case empty: True
        show ?thesis
        proof (rule finished)
          show "ai_end t r w = finish_task t (sendResult (at_session t) (at_requestId t) AI_REPLY_UPSTREAM_ERROR
              msg_bad_answer [] (upd_ai (\<lambda>a. a\<lparr>ai_n_failed := ai_n_failed a + 1\<rparr>) w))"
            using running True empty by (simp add: ai_end_def Let_def)
        qed (use running ans in \<open>auto intro!: exI\<close>)
      next
        case some: False
        show ?thesis
        proof (rule finished)
          show "ai_end t r w = finish_task t (sendResult (at_session t) (at_requestId t) AI_REPLY_OK []
              (safe_suggestions (air_suggestions r)) (upd_ai (\<lambda>a. a\<lparr>ai_n_succeeded := ai_n_succeeded a + 1\<rparr>) w))"
            using running True some by (simp add: ai_end_def Let_def)
        qed (use running ans good some in \<open>auto intro!: exI\<close>)
      qed
    qed
  qed
qed

end
