(* ===== verification/AppCrypto.thy ===== *)
theory AppCrypto
  imports Wire
begin

text \<open>
  \<open>crypto/AppCrypto.cpp\<close>: the wrappers around OpenSSL that the application channel uses. The
  primitives of OpenSSL are the fields of \<open>openssl\<close>, one call each; None is a call that fails. A
  primitive that fills a buffer of fixed size is a function from the position to the byte, so that
  the size is the one the code allocates. Every C++ exception is the value \<open>Throws\<close>.
\<close>

datatype key_type = X25519 | ED25519

record openssl =
  ossl_public :: "key_type \<Rightarrow> bytes \<Rightarrow> bytes option"
  ossl_derive :: "bytes \<Rightarrow> bytes \<Rightarrow> bytes option"
  ossl_sign :: "bytes \<Rightarrow> bytes \<Rightarrow> (nat \<Rightarrow> byte) option"
  ossl_verify :: "bytes \<Rightarrow> bytes \<Rightarrow> bytes \<Rightarrow> bool option"
  ossl_hmac :: "bytes \<Rightarrow> bytes \<Rightarrow> (nat \<Rightarrow> byte) option"
  ossl_sha256 :: "bytes \<Rightarrow> (nat \<Rightarrow> byte) option"
  ossl_seal :: "bytes \<Rightarrow> bytes \<Rightarrow> bytes \<Rightarrow> bytes \<Rightarrow> (bytes \<times> (nat \<Rightarrow> byte)) option"
  ossl_open :: "bytes \<Rightarrow> bytes \<Rightarrow> bytes \<Rightarrow> bytes \<Rightarrow> bytes \<Rightarrow> bytes option option"

definition X25519_KEY_SIZE :: nat where "X25519_KEY_SIZE = 32"
definition ED25519_KEY_SIZE :: nat where "ED25519_KEY_SIZE = 32"
definition ED25519_SIGNATURE_SIZE :: nat where "ED25519_SIGNATURE_SIZE = 64"
definition SHA256_SIZE :: nat where "SHA256_SIZE = 32"
definition AES256_KEY_SIZE :: nat where "AES256_KEY_SIZE = 32"
definition GCM_NONCE_SIZE :: nat where "GCM_NONCE_SIZE = 12"
definition GCM_TAG_SIZE :: nat where "GCM_TAG_SIZE = 16"

lemmas crypto_sizes = X25519_KEY_SIZE_def ED25519_KEY_SIZE_def ED25519_SIGNATURE_SIZE_def
  SHA256_SIZE_def AES256_KEY_SIZE_def GCM_NONCE_SIZE_def GCM_TAG_SIZE_def

definition buffer :: "nat \<Rightarrow> (nat \<Rightarrow> byte) \<Rightarrow> bytes" where
  "buffer n f = map f [0..<n]"

lemma length_buffer [simp]: "length (buffer n f) = n"
  by (simp add: buffer_def)

definition filled :: "nat \<Rightarrow> (nat \<Rightarrow> byte) option \<Rightarrow> bytes exc" where
  "filled n r = (case r of None \<Rightarrow> Throws | Some f \<Rightarrow> Returns (buffer n f))"

lemma filled_length: "filled n r = Returns b \<Longrightarrow> length b = n"
  by (auto simp: filled_def split: option.splits)

definition returned :: "'a option \<Rightarrow> 'a exc" where
  "returned r = (case r of None \<Rightarrow> Throws | Some v \<Rightarrow> Returns v)"

definition requireSize :: "bytes \<Rightarrow> nat \<Rightarrow> bool" where
  "requireSize v expected \<longleftrightarrow> length v = expected"

subsection \<open>Random bytes and keys\<close>

text \<open>\<open>drawn\<close> is what \<open>RAND_bytes\<close> writes; a request of no bytes does not call it.\<close>

definition randomBytes :: "(nat \<Rightarrow> byte) option \<Rightarrow> nat \<Rightarrow> bytes exc" where
  "randomBytes drawn size' =
     (if 2147483647 < size' then Throws
      else if size' = 0 then Returns [] else filled size' drawn)"

text \<open>\<open>drawn\<close> is the private and public key \<open>EVP_PKEY_keygen\<close> makes.\<close>

definition generateX25519KeyPair ::
  "((nat \<Rightarrow> byte) \<times> (nat \<Rightarrow> byte)) option \<Rightarrow> (bytes \<times> bytes) exc" where
  "generateX25519KeyPair drawn =
     (case drawn of
        None \<Rightarrow> Throws
      | Some (f, g) \<Rightarrow> Returns (buffer X25519_KEY_SIZE f, buffer X25519_KEY_SIZE g))"

definition x25519PublicFromPrivate :: "openssl \<Rightarrow> bytes \<Rightarrow> bytes exc" where
  "x25519PublicFromPrivate o' privateKey =
     (if \<not> requireSize privateKey X25519_KEY_SIZE then Throws
      else returned (ossl_public o' X25519 privateKey))"

definition x25519SharedSecret :: "openssl \<Rightarrow> bytes \<Rightarrow> bytes \<Rightarrow> bytes exc" where
  "x25519SharedSecret o' privateKey peerPublicKey =
     (if \<not> requireSize privateKey X25519_KEY_SIZE then Throws
      else if \<not> requireSize peerPublicKey X25519_KEY_SIZE then Throws
      else case ossl_derive o' privateKey peerPublicKey of
        None \<Rightarrow> Throws
      | Some secret \<Rightarrow> if list_all (\<lambda>b. b = 0) secret then Throws else Returns secret)"

definition ed25519PublicFromPrivate :: "openssl \<Rightarrow> bytes \<Rightarrow> bytes exc" where
  "ed25519PublicFromPrivate o' privateKey =
     (if \<not> requireSize privateKey ED25519_KEY_SIZE then Throws
      else returned (ossl_public o' ED25519 privateKey))"

definition ed25519Sign :: "openssl \<Rightarrow> bytes \<Rightarrow> bytes \<Rightarrow> bytes exc" where
  "ed25519Sign o' privateKey message =
     (if \<not> requireSize privateKey ED25519_KEY_SIZE then Throws
      else filled ED25519_SIGNATURE_SIZE (ossl_sign o' privateKey message))"

definition ed25519Verify :: "openssl \<Rightarrow> bytes \<Rightarrow> bytes \<Rightarrow> bytes \<Rightarrow> bool exc" where
  "ed25519Verify o' publicKey message signature =
     (if \<not> requireSize publicKey ED25519_KEY_SIZE then Throws
      else if length signature \<noteq> ED25519_SIGNATURE_SIZE then Returns False
      else returned (ossl_verify o' publicKey message signature))"

subsection \<open>Digests and key derivation\<close>

definition hmacSha256 :: "openssl \<Rightarrow> bytes \<Rightarrow> bytes \<Rightarrow> bytes exc" where
  "hmacSha256 o' key data = filled SHA256_SIZE (ossl_hmac o' key data)"

definition sha256_bytes :: "openssl \<Rightarrow> bytes \<Rightarrow> bytes exc" where
  "sha256_bytes o' data = filled SHA256_SIZE (ossl_sha256 o' data)"

lemma length_hmac: "hmacSha256 o' k d = Returns b \<Longrightarrow> length b = 32"
  by (auto simp: hmacSha256_def SHA256_SIZE_def dest: filled_length)

text \<open>The loop of \<open>hkdfSha256\<close>: its counter has 16 bits, of which the low 8 enter the block.\<close>

function hkdf_loop ::
  "openssl \<Rightarrow> bytes \<Rightarrow> bytes \<Rightarrow> nat \<Rightarrow> 16 word \<Rightarrow> bytes \<Rightarrow> bytes \<Rightarrow> bytes exc" where
  "hkdf_loop o' prk info outputLength counter previous output =
     (if length output < outputLength
      then (case hmacSha256 o' prk (previous @ info @ [ucast counter]) of
              Throws \<Rightarrow> Throws
            | Returns block \<Rightarrow>
                hkdf_loop o' prk info outputLength (counter + 1) block
                  (output @ take (min (length block) (outputLength - length output)) block))
      else Returns output)"
  by pat_completeness auto
termination
  by (relation "measure (\<lambda>(_, _, _, n, _, _, out). n - length out)") (auto dest: length_hmac)

declare hkdf_loop.simps [simp del]

definition hkdfSha256 :: "openssl \<Rightarrow> bytes \<Rightarrow> bytes \<Rightarrow> bytes \<Rightarrow> nat \<Rightarrow> bytes exc" where
  "hkdfSha256 o' inputKeyMaterial salt info outputLength =
     (if 255 * SHA256_SIZE < outputLength then Throws
      else case hmacSha256 o' (if salt = [] then replicate SHA256_SIZE 0 else salt) inputKeyMaterial of
        Throws \<Rightarrow> Throws
      | Returns prk \<Rightarrow> hkdf_loop o' prk info outputLength 1 [] [])"

subsection \<open>Authenticated encryption\<close>

definition aes256GcmEncrypt ::
  "openssl \<Rightarrow> bytes \<Rightarrow> bytes \<Rightarrow> bytes \<Rightarrow> bytes \<Rightarrow> (bytes \<times> bytes) exc" where
  "aes256GcmEncrypt o' key nonce plaintext aad =
     (if \<not> requireSize key AES256_KEY_SIZE \<or> \<not> requireSize nonce GCM_NONCE_SIZE then Throws
      else case ossl_seal o' key nonce plaintext aad of
        None \<Rightarrow> Throws
      | Some (ciphertext, tag) \<Rightarrow> Returns (ciphertext, buffer GCM_TAG_SIZE tag))"

text \<open>A tag that does not fit is \<open>Returns None\<close>; an error of OpenSSL throws.\<close>

definition aes256GcmDecrypt ::
  "openssl \<Rightarrow> bytes \<Rightarrow> bytes \<Rightarrow> bytes \<Rightarrow> bytes \<Rightarrow> bytes \<Rightarrow> bytes option exc" where
  "aes256GcmDecrypt o' key nonce ciphertext aad tag =
     (if \<not> requireSize key AES256_KEY_SIZE \<or> \<not> requireSize nonce GCM_NONCE_SIZE \<or>
         \<not> requireSize tag GCM_TAG_SIZE then Throws
      else returned (ossl_open o' key nonce ciphertext aad tag))"

definition constantTimeEqual :: "bytes \<Rightarrow> bytes \<Rightarrow> bool" where
  "constantTimeEqual left right \<longleftrightarrow> length left = length right \<and> (left = [] \<or> left = right)"

lemma constantTimeEqual_iff [simp]: "constantTimeEqual left right \<longleftrightarrow> left = right"
  by (auto simp: constantTimeEqual_def)

definition secureClear :: "bytes \<Rightarrow> bytes" where
  "secureClear b = []"

subsection \<open>The derivation of RFC 5869\<close>

text \<open>\<open>T(0)\<close> is empty and \<open>T(n + 1) = HMAC(prk, T(n) | info | n + 1)\<close>.\<close>

definition mac :: "openssl \<Rightarrow> bytes \<Rightarrow> bytes \<Rightarrow> bytes" where
  "mac o' key data = (case hmacSha256 o' key data of Throws \<Rightarrow> [] | Returns b \<Rightarrow> b)"

primrec hkdf_T :: "openssl \<Rightarrow> bytes \<Rightarrow> bytes \<Rightarrow> nat \<Rightarrow> bytes" where
  "hkdf_T o' prk info 0 = []"
| "hkdf_T o' prk info (Suc n) = mac o' prk (hkdf_T o' prk info n @ info @ [of_nat (Suc n)])"

definition hkdf_blocks :: "openssl \<Rightarrow> bytes \<Rightarrow> bytes \<Rightarrow> nat \<Rightarrow> bytes" where
  "hkdf_blocks o' prk info n = concat (map (hkdf_T o' prk info) [1..<Suc n])"

definition rfc5869 :: "openssl \<Rightarrow> bytes \<Rightarrow> bytes \<Rightarrow> bytes \<Rightarrow> nat \<Rightarrow> bytes" where
  "rfc5869 o' ikm salt info len =
     (let prk = mac o' (if salt = [] then replicate 32 0 else salt) ikm
      in take len (hkdf_blocks o' prk info ((len + 31) div 32)))"

definition hmac_works :: "openssl \<Rightarrow> bool" where
  "hmac_works o' \<longleftrightarrow> (\<forall>k d. ossl_hmac o' k d \<noteq> None)"

lemma hmac_mac: "hmac_works o' \<Longrightarrow> hmacSha256 o' k d = Returns (mac o' k d)"
  by (auto simp: hmac_works_def mac_def hmacSha256_def filled_def split: option.splits)

lemma length_mac: "hmac_works o' \<Longrightarrow> length (mac o' k d) = 32"
  using hmac_mac length_hmac by blast

lemma length_T: "hmac_works o' \<Longrightarrow> length (hkdf_T o' prk info (Suc n)) = 32"
  by (simp add: length_mac)

lemma hkdf_blocks_Suc: "hkdf_blocks o' prk info (Suc n) =
    hkdf_blocks o' prk info n @ hkdf_T o' prk info (Suc n)"
  by (simp add: hkdf_blocks_def del: hkdf_T.simps)

lemma length_hkdf_blocks: "hmac_works o' \<Longrightarrow> length (hkdf_blocks o' prk info n) = 32 * n"
proof (induction n)
  case (Suc n)
  then show ?case unfolding hkdf_blocks_Suc by (simp add: length_T del: hkdf_T.simps)
qed (simp add: hkdf_blocks_def)

lemma counter_byte: "n < 256 \<Longrightarrow> (ucast (of_nat n :: 16 word) :: 8 word) = of_nat n"
  by (simp add: word_unat_eq_iff unsigned_ucast_eq unsigned_of_nat take_bit_nat_eq_self)

lemma hkdf_loop_blocks:
  assumes "hmac_works o'" and "len \<le> 255 * 32" and "32 * n < len + 32"
  shows "hkdf_loop o' prk info len (of_nat (Suc n)) (hkdf_T o' prk info n)
      (take len (hkdf_blocks o' prk info n)) =
    Returns (take len (hkdf_blocks o' prk info ((len + 31) div 32)))"
  using assms(3)
proof (induction "len - 32 * n" arbitrary: n rule: less_induct)
  case less
  have len: "length (hkdf_blocks o' prk info n) = 32 * n" for n
    by (rule length_hkdf_blocks [OF assms(1)])
  show ?case
  proof (cases "32 * n < len")
    case False
    then have "(len + 31) div 32 = n" using less.prems by auto
    then show ?thesis using False by (simp add: hkdf_loop.simps len)
  next
    case True
    have n: "Suc n < 256" using True assms(2) by simp
    let ?T = "hkdf_T o' prk info (Suc n)"
    have T: "hmacSha256 o' prk (hkdf_T o' prk info n @ info @ [ucast (of_nat (Suc n) :: 16 word)]) = Returns ?T"
      unfolding counter_byte [OF n] hkdf_T.simps by (rule hmac_mac [OF assms(1)])
    have app: "take len (hkdf_blocks o' prk info n) @ take (min (length ?T) (len - 32 * n)) ?T =
        take len (hkdf_blocks o' prk info (Suc n))"
      using True unfolding hkdf_blocks_Suc by (simp add: len min_def length_T [OF assms(1)] del: hkdf_T.simps)
    have next_counter: "of_nat (Suc n) + 1 = (of_nat (Suc (Suc n)) :: 16 word)" by simp
    have min_len: "min (32 * n) len = 32 * n" using True by simp
    have step: "hkdf_loop o' prk info len (of_nat (Suc n)) (hkdf_T o' prk info n)
        (take len (hkdf_blocks o' prk info n)) =
      hkdf_loop o' prk info len (of_nat (Suc (Suc n))) ?T (take len (hkdf_blocks o' prk info (Suc n)))"
      using True unfolding hkdf_loop.simps [of o' prk info len "of_nat (Suc n)"] T exc.case
        length_take len min_len app next_counter by simp
    show ?thesis unfolding step by (rule less.hyps) (use True less.prems in auto)
  qed
qed

lemma hkdf_value:
  assumes "hmac_works o'" and "len \<le> 8160"
  shows "hkdfSha256 o' ikm salt info len = Returns (rfc5869 o' ikm salt info len)"
    and "length (rfc5869 o' ikm salt info len) = len"
proof -
  let ?prk = "mac o' (if salt = [] then replicate 32 0 else salt) ikm"
  have "hkdf_loop o' ?prk info len 1 [] [] = Returns (rfc5869 o' ikm salt info len)"
    using hkdf_loop_blocks [OF assms(1), of len 0 ?prk info] assms(2)
    by (simp add: hkdf_blocks_def rfc5869_def Let_def)
  then show "hkdfSha256 o' ikm salt info len = Returns (rfc5869 o' ikm salt info len)"
    using assms(2) unfolding hkdfSha256_def SHA256_SIZE_def hmac_mac [OF assms(1)] exc.case by simp
  show "length (rfc5869 o' ikm salt info len) = len"
    by (simp add: rfc5869_def Let_def length_hkdf_blocks [OF assms(1)])
qed

text \<open>
  C38. The derivation of the channel keys is HKDF of RFC 5869: as long as HMAC answers, a request of
  up to 255 blocks gives exactly the first bytes of the blocks of the reference derivation, as many
  as asked for, and a longer request is refused.
\<close>

theorem hkdf_is_rfc5869:
  assumes "hmac_works o'"
  shows "hkdfSha256 o' ikm salt info len =
      (if len \<le> 8160 then Returns (rfc5869 o' ikm salt info len) else Throws) \<and>
    (len \<le> 8160 \<longrightarrow> length (rfc5869 o' ikm salt info len) = len)"
  using hkdf_value [OF assms] by (simp add: hkdfSha256_def SHA256_SIZE_def)

definition sample_ssl :: openssl where
  "sample_ssl = \<lparr>ossl_public = \<lambda>_ k. Some k, ossl_derive = \<lambda>a b. Some (a @ b),
     ossl_sign = \<lambda>k d. Some (\<lambda>i. of_nat (length d)), ossl_verify = \<lambda>_ _ _. Some True,
     ossl_hmac = \<lambda>k d. Some (\<lambda>i. of_nat (i + length k + length d)),
     ossl_sha256 = \<lambda>d. Some (\<lambda>i. of_nat (i + length d)),
     ossl_seal = \<lambda>k n p a. Some (p, \<lambda>i. of_nat i),
     ossl_open = \<lambda>k n c a t. Some (Some c)\<rparr>"

theorem hkdf_is_rfc5869_witness:
  "hkdfSha256 sample_ssl [1] [] [2] 40 = Returns (rfc5869 sample_ssl [1] [] [2] 40) \<and>
   length (rfc5869 sample_ssl [1] [] [2] 40) = 40"
proof -
  have "hmac_works sample_ssl" by (simp add: hmac_works_def sample_ssl_def)
  from hkdf_is_rfc5869 [OF this, of "[1]" "[]" "[2]" 40] show ?thesis by simp
qed

end
