(* ===== verification/Channel.thy ===== *)
theory Channel
  imports AppCrypto Protocol
begin

text \<open>
  \<open>Session.cpp\<close>: one connection. The security state machine of the application channel, the
  frames it reads and writes, and its end. Everything here runs on the strand of the connection, one
  handler at a time: a callback is a function on the state of the connection, and \<open>deliver\<close>,
  \<open>close\<close> and \<open>closeAfterWrite\<close>, which any thread may call, post a job that the strand runs
  later, in order. The calls the connection makes (encryption, writes to the socket, packets for
  the dispatcher, the report of its end) are recorded in their order. TLS, the sockets and the
  protobuf codec are outside: their results are arguments.
\<close>

datatype SecurityState = TlsHandshake | WaitClientHello | WaitClientFinished | Established | Closed

record AppClientHello =
  ah_version :: "32 word"
  ah_client_ephemeral_public_key :: bytes
  ah_client_nonce :: bytes
  ah_client_random_id :: bytes
  ah_cipher_suite :: "32 word"

record AppServerHello =
  as_version :: "32 word"
  as_server_ephemeral_public_key :: bytes
  as_server_nonce :: bytes
  as_session_id :: bytes
  as_key_id :: "32 word"
  as_signature :: bytes
  as_cipher_suite :: "32 word"

record AppEncryptedFrame =
  ef_version :: "32 word"
  ef_session_id :: bytes
  ef_sequence :: "64 word"
  ef_ciphertext :: bytes
  ef_tag :: bytes

text \<open>\<open>AppFinished\<close> has one field, its \<open>verify_data\<close>.\<close>

record app_codec =
  parse_ClientHello :: "bytes \<Rightarrow> AppClientHello option"
  ser_ServerHello :: "AppServerHello \<Rightarrow> bytes"
  parse_Finished :: "bytes \<Rightarrow> bytes option"
  ser_Finished :: "bytes \<Rightarrow> bytes"
  parse_EncryptedFrame :: "bytes \<Rightarrow> AppEncryptedFrame option"
  ser_EncryptedFrame :: "AppEncryptedFrame \<Rightarrow> bytes"

text \<open>The environment: OpenSSL, the codec, and the identity of the server.\<close>

record chan_env =
  ce_ssl :: openssl
  ce_codec :: app_codec
  ce_keyId :: "32 word"
  ce_identity :: bytes

text \<open>What is drawn when a ClientHello is answered: key pair, nonce, session id.\<close>

record hello_draws =
  hd_keypair :: "((nat \<Rightarrow> byte) \<times> (nat \<Rightarrow> byte)) option"
  hd_nonce :: "(nat \<Rightarrow> byte) option"
  hd_session :: "(nat \<Rightarrow> byte) option"

datatype chan_job = Job_Deliver "32 word" bytes | Job_Close | Job_CloseAfterWrite

datatype chan_event =
    Seal bytes bytes
  | WriteStart bytes
  | Dispatch "32 word" bytes
  | SessionClosed

text \<open>
  \<open>Seal\<close> has the key and the nonce of a call of \<open>aes256GcmEncrypt\<close>, \<open>WriteStart\<close> the buffer of an
  \<open>async_write\<close>. \<open>ch_tls\<close>, \<open>ch_reading\<close> and \<open>ch_writing\<close> say which completion the connection waits
  for, \<open>ch_open\<close> whether its socket is open.
\<close>

record chan =
  ch_state :: SecurityState
  ch_tls :: bool
  ch_reading :: bool
  ch_writing :: bool
  ch_open :: bool
  ch_jobs :: "chan_job list"
  ch_writeQueue :: "bytes list"
  ch_closeAfterWrite :: bool
  ch_closedNotified :: bool
  ch_transcriptHash :: bytes
  ch_clientFinishedKey :: bytes
  ch_serverFinishedKey :: bytes
  ch_clientToServerKey :: bytes
  ch_serverToClientKey :: bytes
  ch_clientNoncePrefix :: bytes
  ch_serverNoncePrefix :: bytes
  ch_appSessionId :: bytes
  ch_sendSequence :: "64 word"
  ch_receiveSequence :: "64 word"
  ch_events :: "chan_event list"

text \<open>After \<open>start\<close>: the TLS handshake runs.\<close>

definition new_chan :: chan where
  "new_chan = \<lparr>ch_state = TlsHandshake, ch_tls = True, ch_reading = False, ch_writing = False,
     ch_open = True, ch_jobs = [], ch_writeQueue = [], ch_closeAfterWrite = False,
     ch_closedNotified = False, ch_transcriptHash = [], ch_clientFinishedKey = [],
     ch_serverFinishedKey = [], ch_clientToServerKey = [], ch_serverToClientKey = [],
     ch_clientNoncePrefix = [], ch_serverNoncePrefix = [], ch_appSessionId = [],
     ch_sendSequence = 0, ch_receiveSequence = 0, ch_events = []\<rparr>"

subsection \<open>Encodings\<close>

definition signingTranscript ::
  "bytes \<Rightarrow> 32 word \<Rightarrow> bytes \<Rightarrow> bytes \<Rightarrow> bytes \<Rightarrow> 32 word \<Rightarrow> 32 word \<Rightarrow> bytes" where
  "signingTranscript clientPayload version serverPublic serverNonce sessionId keyId cipherSuite =
     bytes_of ''jitong-app-handshake-v1'' @ appendU32 [] (of_nat (length clientPayload)) @ clientPayload @
     appendU32 [] version @ serverPublic @ serverNonce @ sessionId @ appendU32 [] keyId @ appendU32 [] cipherSuite"

definition finishedTranscript :: "bytes \<Rightarrow> bytes \<Rightarrow> bytes" where
  "finishedTranscript clientPayload serverPayload =
     appendU32 [] (of_nat (length clientPayload)) @ clientPayload @
     appendU32 [] (of_nat (length serverPayload)) @ serverPayload"

definition finishedTranscriptHash :: "openssl \<Rightarrow> bytes \<Rightarrow> bytes \<Rightarrow> bytes exc" where
  "finishedTranscriptHash o' clientPayload serverPayload =
     sha256_bytes o' (finishedTranscript clientPayload serverPayload)"

definition slice :: "bytes \<Rightarrow> nat \<Rightarrow> nat \<Rightarrow> bytes" where
  "slice input offset size' = take size' (drop offset input)"

definition frameNonce :: "bytes \<Rightarrow> 64 word \<Rightarrow> bytes exc" where
  "frameNonce prefix sequence =
     (if length prefix \<noteq> 4 \<or> sequence = 0 then Throws else Returns (appendU64 prefix sequence))"

definition frameAad :: "bytes \<Rightarrow> 64 word \<Rightarrow> bytes" where
  "frameAad sessionId sequence =
     bytes_of ''jitong-app-frame-v1'' @ appendU32 [] APP_SECURITY_VERSION @ sessionId @ appendU64 [] sequence"

subsection \<open>Closing and writing\<close>

definition post_job :: "chan_job \<Rightarrow> chan \<Rightarrow> chan" where
  "post_job j ch = ch\<lparr>ch_jobs := ch_jobs ch @ [j]\<rparr>"

definition chan_close :: "chan \<Rightarrow> chan" where
  "chan_close ch = post_job Job_Close ch"

definition emit :: "chan_event \<Rightarrow> chan \<Rightarrow> chan" where
  "emit ev ch = ch\<lparr>ch_events := ch_events ch @ [ev]\<rparr>"

definition onClosed :: "chan \<Rightarrow> chan" where
  "onClosed ch =
     (if ch_closedNotified ch then ch
      else emit SessionClosed (ch\<lparr>ch_closedNotified := True, ch_state := Closed,
        ch_clientFinishedKey := secureClear (ch_clientFinishedKey ch),
        ch_serverFinishedKey := secureClear (ch_serverFinishedKey ch),
        ch_clientToServerKey := secureClear (ch_clientToServerKey ch),
        ch_serverToClientKey := secureClear (ch_serverToClientKey ch),
        ch_transcriptHash := secureClear (ch_transcriptHash ch),
        ch_sendSequence := 0, ch_receiveSequence := 0, ch_open := False\<rparr>))"

definition failApplicationHandshake :: "chan \<Rightarrow> chan" where
  "failApplicationHandshake ch =
     (if ch_state ch = Closed then ch else chan_close (ch\<lparr>ch_state := Closed\<rparr>))"

definition doWrite :: "chan \<Rightarrow> chan" where
  "doWrite ch =
     (case ch_writeQueue ch of
        [] \<Rightarrow> if ch_closeAfterWrite ch then chan_close ch else ch
      | buf # _ \<Rightarrow> emit (WriteStart buf) (ch\<lparr>ch_writing := True\<rparr>))"

text \<open>The completion of an \<open>async_write\<close>.\<close>

definition write_done :: "bool \<Rightarrow> chan \<Rightarrow> chan" where
  "write_done ok ch =
     (let ch0 = ch\<lparr>ch_writing := False\<rparr> in
      if \<not> ok then onClosed ch0
      else let ch1 = ch0\<lparr>ch_writeQueue := tl (ch_writeQueue ch0)\<rparr> in
        if ch_writeQueue ch1 \<noteq> [] then doWrite ch1
        else if ch_closeAfterWrite ch1 then chan_close ch1 else ch1)"

definition enqueueRawFrame :: "32 word \<Rightarrow> bytes \<Rightarrow> chan \<Rightarrow> chan" where
  "enqueueRawFrame type payload ch =
     (let ch1 = ch\<lparr>ch_writeQueue := ch_writeQueue ch @ [raw_frame type payload]\<rparr> in
      if length (ch_writeQueue ch1) = 1 then doWrite ch1 else ch1)"

subsection \<open>Business frames\<close>

definition encryptBusinessFrame :: "chan_env \<Rightarrow> 32 word \<Rightarrow> bytes \<Rightarrow> chan \<Rightarrow> bytes exc \<times> chan" where
  "encryptBusinessFrame ce type payload ch =
     (if ch_sendSequence ch = - 1 then (Throws, ch)
      else
        let sequence = ch_sendSequence ch + 1;
            ch1 = ch\<lparr>ch_sendSequence := sequence\<rparr>;
            plaintext = encodeType32 type @ payload
        in case frameNonce (ch_serverNoncePrefix ch1) sequence of
             Throws \<Rightarrow> (Throws, ch1)
           | Returns nonce \<Rightarrow>
               let aad = frameAad (ch_appSessionId ch1) sequence;
                   ch2 = emit (Seal (ch_serverToClientKey ch1) nonce) ch1
               in case aes256GcmEncrypt (ce_ssl ce) (ch_serverToClientKey ch1) nonce plaintext aad of
                    Throws \<Rightarrow> (Throws, ch2)
                  | Returns (ciphertext, tag) \<Rightarrow>
                      (Returns (ser_EncryptedFrame (ce_codec ce)
                         \<lparr>ef_version = APP_SECURITY_VERSION, ef_session_id = ch_appSessionId ch2,
                          ef_sequence = sequence, ef_ciphertext = ciphertext, ef_tag = tag\<rparr>), ch2))"

text \<open>The job that \<open>deliver\<close> posts.\<close>

definition run_deliver :: "chan_env \<Rightarrow> 32 word \<Rightarrow> bytes \<Rightarrow> chan \<Rightarrow> chan" where
  "run_deliver ce type payload ch =
     (if DEF_PROT_APP_CLIENT_HELLO \<le> type \<and> type \<le> DEF_PROT_APP_SERVER_FINISHED
      then enqueueRawFrame type payload ch
      else if ch_state ch \<noteq> Established then failApplicationHandshake ch
      else case encryptBusinessFrame ce type payload ch of
        (Returns f, ch1) \<Rightarrow> enqueueRawFrame DEF_PROT_APP_ENCRYPTED_FRAME f ch1
      | (Throws, ch1) \<Rightarrow> failApplicationHandshake ch1)"

definition frame_ok :: "chan \<Rightarrow> AppEncryptedFrame \<Rightarrow> bool" where
  "frame_ok ch f \<longleftrightarrow> ef_version f = APP_SECURITY_VERSION \<and>
     constantTimeEqual (ef_session_id f) (ch_appSessionId ch) \<and> length (ef_tag f) = APP_GCM_TAG_LEN \<and>
     4 \<le> length (ef_ciphertext f) \<and> ef_sequence f \<noteq> 0 \<and> ef_sequence f = ch_receiveSequence ch + 1"

definition open_frame :: "chan_env \<Rightarrow> AppEncryptedFrame \<Rightarrow> chan \<Rightarrow> bytes option exc" where
  "open_frame ce f ch =
     (case frameNonce (ch_clientNoncePrefix ch) (ef_sequence f) of
        Throws \<Rightarrow> Throws
      | Returns nonce \<Rightarrow>
          aes256GcmDecrypt (ce_ssl ce) (ch_clientToServerKey ch) nonce (ef_ciphertext f)
            (frameAad (ch_appSessionId ch) (ef_sequence f)) (ef_tag f))"

definition handleEncryptedFrame :: "chan_env \<Rightarrow> bytes \<Rightarrow> chan \<Rightarrow> chan" where
  "handleEncryptedFrame ce payload ch =
     (case parse_EncryptedFrame (ce_codec ce) payload of
        None \<Rightarrow> failApplicationHandshake ch
      | Some f \<Rightarrow>
          if \<not> frame_ok ch f then failApplicationHandshake ch
          else case open_frame ce f ch of
            Throws \<Rightarrow> failApplicationHandshake ch
          | Returns None \<Rightarrow> failApplicationHandshake ch
          | Returns (Some plaintext) \<Rightarrow>
              if length plaintext < 4 then failApplicationHandshake ch
              else let innerType = decodeType32 plaintext in
                if DEF_PROT_APP_CLIENT_HELLO \<le> innerType \<and> innerType \<le> DEF_PROT_APP_ENCRYPTED_FRAME
                then failApplicationHandshake ch
                else emit (Dispatch innerType (drop 4 plaintext))
                       (ch\<lparr>ch_receiveSequence := ef_sequence f\<rparr>))"

subsection \<open>The handshake\<close>

definition hello_ok :: "AppClientHello \<Rightarrow> bool" where
  "hello_ok h \<longleftrightarrow> ah_version h = APP_SECURITY_VERSION \<and> ah_cipher_suite h = APP_CIPHER_SUITE_V1 \<and>
     length (ah_client_ephemeral_public_key h) = APP_X25519_KEY_LEN \<and>
     length (ah_client_nonce h) = APP_NONCE_LEN \<and> length (ah_client_random_id h) = APP_RANDOM_ID_LEN"

definition server_hello ::
  "chan_env \<Rightarrow> bytes \<Rightarrow> bytes \<Rightarrow> bytes \<Rightarrow> bytes \<Rightarrow> bytes exc" where
  "server_hello ce payload publicKey serverNonce sessionId =
     (case ed25519Sign (ce_ssl ce) (ce_identity ce)
             (signingTranscript payload APP_SECURITY_VERSION publicKey serverNonce sessionId
                (ce_keyId ce) APP_CIPHER_SUITE_V1) of
        Throws \<Rightarrow> Throws
      | Returns signature \<Rightarrow>
          Returns (ser_ServerHello (ce_codec ce)
            \<lparr>as_version = APP_SECURITY_VERSION, as_server_ephemeral_public_key = publicKey,
             as_server_nonce = serverNonce, as_session_id = sessionId, as_key_id = ce_keyId ce,
             as_signature = signature, as_cipher_suite = APP_CIPHER_SUITE_V1\<rparr>))"

text \<open>The 136 bytes the six keys are cut from.\<close>

definition channel_material ::
  "openssl \<Rightarrow> AppClientHello \<Rightarrow> bytes \<Rightarrow> bytes \<Rightarrow> bytes \<Rightarrow> bytes \<Rightarrow> bytes exc" where
  "channel_material o' hello privateKey serverNonce sessionId transcriptHash =
     (case x25519SharedSecret o' privateKey (ah_client_ephemeral_public_key hello) of
        Throws \<Rightarrow> Throws
      | Returns sharedSecret \<Rightarrow>
          (case sha256_bytes o' (ah_client_nonce hello @ serverNonce) of
             Throws \<Rightarrow> Throws
           | Returns salt \<Rightarrow> hkdfSha256 o' sharedSecret salt
               (bytes_of ''jitong-app-channel-v1'' @ sessionId @ transcriptHash) 136))"

definition install_keys :: "bytes \<Rightarrow> chan \<Rightarrow> chan" where
  "install_keys material ch =
     ch\<lparr>ch_clientToServerKey := slice material 0 32, ch_serverToClientKey := slice material 32 32,
        ch_clientNoncePrefix := slice material 64 4, ch_serverNoncePrefix := slice material 68 4,
        ch_clientFinishedKey := slice material 72 32, ch_serverFinishedKey := slice material 104 32\<rparr>"

text \<open>The \<open>try\<close> block: what had been assigned when it throws stays assigned.\<close>

definition answer_hello :: "chan_env \<Rightarrow> hello_draws \<Rightarrow> bytes \<Rightarrow> AppClientHello \<Rightarrow> chan \<Rightarrow> chan" where
  "answer_hello ce dr payload hello ch =
     (case (generateX25519KeyPair (hd_keypair dr), randomBytes (hd_nonce dr) APP_NONCE_LEN,
            randomBytes (hd_session dr) APP_SESSION_ID_LEN) of
        (Returns (privateKey, publicKey), Returns serverNonce, Returns sessionId) \<Rightarrow>
          let ch1 = ch\<lparr>ch_appSessionId := sessionId\<rparr> in
          (case server_hello ce payload publicKey serverNonce sessionId of
             Throws \<Rightarrow> failApplicationHandshake ch1
           | Returns serverPayload \<Rightarrow>
               (case finishedTranscriptHash (ce_ssl ce) payload serverPayload of
                  Throws \<Rightarrow> failApplicationHandshake ch1
                | Returns transcriptHash \<Rightarrow>
                    let ch2 = ch1\<lparr>ch_transcriptHash := transcriptHash\<rparr> in
                    (case channel_material (ce_ssl ce) hello privateKey serverNonce sessionId transcriptHash of
                       Throws \<Rightarrow> failApplicationHandshake ch2
                     | Returns material \<Rightarrow>
                         post_job (Job_Deliver DEF_PROT_APP_SERVER_HELLO serverPayload)
                           ((install_keys material ch2)\<lparr>ch_state := WaitClientFinished\<rparr>))))
      | _ \<Rightarrow> failApplicationHandshake ch)"

definition handleClientHello :: "chan_env \<Rightarrow> hello_draws \<Rightarrow> bytes \<Rightarrow> chan \<Rightarrow> chan" where
  "handleClientHello ce dr payload ch =
     (case parse_ClientHello (ce_codec ce) payload of
        None \<Rightarrow> failApplicationHandshake ch
      | Some hello \<Rightarrow>
          if \<not> hello_ok hello then failApplicationHandshake ch
          else answer_hello ce dr payload hello ch)"

text \<open>
  Outside any \<open>try\<close> block: a failing HMAC leaves the handler by an exception, which ends the thread
  that runs the handlers and with it the process.
\<close>

definition handleClientFinished :: "chan_env \<Rightarrow> bytes \<Rightarrow> chan \<Rightarrow> unit exc \<times> chan" where
  "handleClientFinished ce payload ch =
     (case parse_Finished (ce_codec ce) payload of
        None \<Rightarrow> (Returns (), failApplicationHandshake ch)
      | Some actual \<Rightarrow>
          if length actual \<noteq> APP_FINISHED_LEN then (Returns (), failApplicationHandshake ch)
          else case hmacSha256 (ce_ssl ce) (ch_clientFinishedKey ch) (ch_transcriptHash ch) of
            Throws \<Rightarrow> (Throws, ch)
          | Returns expected \<Rightarrow>
              if \<not> constantTimeEqual actual expected then (Returns (), failApplicationHandshake ch)
              else case hmacSha256 (ce_ssl ce) (ch_serverFinishedKey ch) (ch_transcriptHash ch @ actual) of
                Throws \<Rightarrow> (Throws, ch)
              | Returns serverVerify \<Rightarrow>
                  (Returns (), post_job (Job_Deliver DEF_PROT_APP_SERVER_FINISHED
                     (ser_Finished (ce_codec ce) serverVerify)) (ch\<lparr>ch_state := Established\<rparr>)))"

definition handleApplicationHandshake ::
  "chan_env \<Rightarrow> hello_draws \<Rightarrow> 32 word \<Rightarrow> bytes \<Rightarrow> chan \<Rightarrow> unit exc \<times> chan" where
  "handleApplicationHandshake ce dr type payload ch =
     (if APP_MAX_HANDSHAKE_PAYLOAD < length payload then (Returns (), failApplicationHandshake ch)
      else if ch_state ch = WaitClientHello \<and> type = DEF_PROT_APP_CLIENT_HELLO
      then (Returns (), handleClientHello ce dr payload ch)
      else if ch_state ch = WaitClientFinished \<and> type = DEF_PROT_APP_CLIENT_FINISHED
      then handleClientFinished ce payload ch
      else (Returns (), failApplicationHandshake ch))"

text \<open>The handler of a complete frame; it reads on unless the connection is closed.\<close>

definition body_done ::
  "chan_env \<Rightarrow> hello_draws \<Rightarrow> 32 word \<Rightarrow> bytes \<Rightarrow> chan \<Rightarrow> unit exc \<times> chan" where
  "body_done ce dr type payload ch0 =
     (let ch = ch0\<lparr>ch_reading := False\<rparr>;
          (r, ch1) = (if ch_state ch \<noteq> Established
                      then handleApplicationHandshake ce dr type payload ch
                      else if type \<noteq> DEF_PROT_APP_ENCRYPTED_FRAME
                      then (Returns (), failApplicationHandshake ch)
                      else (Returns (), handleEncryptedFrame ce payload ch))
      in (r, if r = Throws \<or> ch_state ch1 = Closed then ch1 else ch1\<lparr>ch_reading := True\<rparr>))"

text \<open>What the bytes received so far amount to: no frame yet, a bad length, or a frame.\<close>

definition read_done ::
  "chan_env \<Rightarrow> hello_draws \<Rightarrow> (32 word \<times> bytes) verdict \<Rightarrow> chan \<Rightarrow> unit exc \<times> chan" where
  "read_done ce dr v ch =
     (case v of
        Incomplete \<Rightarrow> (Returns (), ch)
      | Reject \<Rightarrow> (Returns (), onClosed (ch\<lparr>ch_reading := False\<rparr>))
      | Accept (type, payload) _ \<Rightarrow> body_done ce dr type payload ch)"

text \<open>The other callbacks: the TLS handshake, a failed read, the handshake timer.\<close>

definition tls_done :: "bool \<Rightarrow> chan \<Rightarrow> chan" where
  "tls_done ok ch =
     (let ch0 = ch\<lparr>ch_tls := False\<rparr> in
      if \<not> ok then onClosed ch0 else ch0\<lparr>ch_state := WaitClientHello, ch_reading := True\<rparr>)"

definition read_failed :: "chan \<Rightarrow> chan" where
  "read_failed ch = onClosed (ch\<lparr>ch_reading := False\<rparr>)"

definition timer_fired :: "chan \<Rightarrow> chan" where
  "timer_fired ch = (if ch_state ch \<noteq> Established then failApplicationHandshake ch else ch)"

definition run_job :: "chan_env \<Rightarrow> chan_job \<Rightarrow> chan \<Rightarrow> chan" where
  "run_job ce j ch =
     (case j of
        Job_Deliver type payload \<Rightarrow> run_deliver ce type payload ch
      | Job_Close \<Rightarrow> onClosed (ch\<lparr>ch_open := False\<rparr>)
      | Job_CloseAfterWrite \<Rightarrow>
          let ch1 = ch\<lparr>ch_closeAfterWrite := True\<rparr> in
          if ch_writeQueue ch1 = [] then chan_close ch1 else ch1)"

subsection \<open>Steps\<close>

text \<open>
  The callbacks and jobs of a connection in any order they can come in. The rest of the server has
  the connection only from the packets it dispatches, so it posts jobs once the TLS handshake is
  over. The timer runs from then on; a cancelled timer may still fire when its callback was queued.
  A handler that throws has no successor state.
\<close>

inductive chan_step :: "chan_env \<Rightarrow> chan \<Rightarrow> chan \<Rightarrow> bool" for ce where
  Tls: "ch_tls ch \<Longrightarrow> ch' = tls_done ok ch \<Longrightarrow> chan_step ce ch ch'"
| Read: "ch_reading ch \<Longrightarrow> read_done ce dr v ch = (Returns (), ch') \<Longrightarrow> chan_step ce ch ch'"
| Read_error: "ch_reading ch \<Longrightarrow> ch' = read_failed ch \<Longrightarrow> chan_step ce ch ch'"
| Written: "ch_writing ch \<Longrightarrow> ch' = write_done ok ch \<Longrightarrow> chan_step ce ch ch'"
| Timer: "\<not> ch_tls ch \<Longrightarrow> ch' = timer_fired ch \<Longrightarrow> chan_step ce ch ch'"
| Post: "\<not> ch_tls ch \<Longrightarrow> ch' = post_job j ch \<Longrightarrow> chan_step ce ch ch'"
| Job: "ch_jobs ch = j # js \<Longrightarrow> ch' = run_job ce j (ch\<lparr>ch_jobs := js\<rparr>) \<Longrightarrow> chan_step ce ch ch'"

inductive_cases chan_stepE: "chan_step ce ch ch'"

end
