(* ===== verification/ChanFacts.thy ===== *)
theory ChanFacts
  imports Channel
begin

text \<open>
  What holds of a connection in every state it can reach: which frames reach the dispatcher, which
  nonces are used, and how often its end is reported. Most callbacks are \<open>calm\<close>: they encrypt and
  dispatch nothing and leave the channel as it is or close it.
\<close>

subsection \<open>What a connection has done\<close>

definition seals :: "chan \<Rightarrow> (bytes \<times> bytes) list" where
  "seals ch = concat (map (\<lambda>ev. case ev of Seal k n \<Rightarrow> [(k, n)] | _ \<Rightarrow> []) (ch_events ch))"

definition dispatched :: "chan \<Rightarrow> (32 word \<times> bytes) list" where
  "dispatched ch = concat (map (\<lambda>ev. case ev of Dispatch t p \<Rightarrow> [(t, p)] | _ \<Rightarrow> []) (ch_events ch))"

definition closings :: "chan \<Rightarrow> nat" where
  "closings ch = length (filter (\<lambda>ev. ev = SessionClosed) (ch_events ch))"

definition core where
  "core ch = (ch_state ch, ch_sendSequence ch, ch_receiveSequence ch, ch_clientToServerKey ch,
     ch_serverToClientKey ch, ch_clientNoncePrefix ch, ch_serverNoncePrefix ch, ch_appSessionId ch,
     ch_transcriptHash ch, ch_clientFinishedKey ch)"

definition calm :: "chan \<Rightarrow> chan \<Rightarrow> bool" where
  "calm ch ch' \<longleftrightarrow> seals ch' = seals ch \<and> dispatched ch' = dispatched ch \<and> ch_tls ch' = ch_tls ch \<and>
     (ch_state ch' = Closed \<or> core ch' = core ch) \<and> (ch_state ch = Closed \<longrightarrow> ch_state ch' = Closed) \<and>
     closings ch' + (if ch_closedNotified ch then 1 else 0) =
       closings ch + (if ch_closedNotified ch' then 1 else 0) \<and>
     (ch_closedNotified ch' \<longrightarrow> ch_closedNotified ch \<or> ch_state ch' = Closed)"

lemma history_emit [simp]:
  "seals (emit ev ch) = seals ch @ (case ev of Seal k n \<Rightarrow> [(k, n)] | _ \<Rightarrow> [])"
  "dispatched (emit ev ch) = dispatched ch @ (case ev of Dispatch t p \<Rightarrow> [(t, p)] | _ \<Rightarrow> [])"
  "closings (emit ev ch) = closings ch + (if ev = SessionClosed then 1 else 0)"
  by (simp_all add: seals_def dispatched_def closings_def emit_def)

lemma emit_fields [simp]:
  "core (emit ev ch) = core ch" "ch_tls (emit ev ch) = ch_tls ch" "ch_state (emit ev ch) = ch_state ch"
  "ch_closedNotified (emit ev ch) = ch_closedNotified ch" "ch_jobs (emit ev ch) = ch_jobs ch"
  "ch_writeQueue (emit ev ch) = ch_writeQueue ch" "ch_sendSequence (emit ev ch) = ch_sendSequence ch"
  "ch_receiveSequence (emit ev ch) = ch_receiveSequence ch"
  by (simp_all add: emit_def core_def)

lemma history_cong:
  "ch_events ch' = ch_events ch \<Longrightarrow> seals ch' = seals ch \<and> dispatched ch' = dispatched ch \<and> closings ch' = closings ch"
  by (simp add: seals_def dispatched_def closings_def)

lemma calm_refl: "calm ch ch"
  by (simp add: calm_def)

lemma calm_trans: "calm a b \<Longrightarrow> calm b c \<Longrightarrow> calm a c"
  by (auto simp: calm_def core_def split: if_splits)

text \<open>A change of the other fields.\<close>

lemma calm_same:
  assumes "ch_events ch' = ch_events ch" and "core ch' = core ch" and "ch_tls ch' = ch_tls ch"
    and "ch_closedNotified ch' = ch_closedNotified ch"
  shows "calm ch ch'"
  using assms history_cong [OF assms(1)] by (auto simp: calm_def core_def)

lemma calm_post: "calm ch (post_job j ch)"
  by (rule calm_same) (simp_all add: post_job_def core_def)

lemma calm_close: "calm ch (chan_close ch)"
  unfolding chan_close_def by (rule calm_post)

lemma calm_onClosed: "calm ch (onClosed ch)"
proof (cases "ch_closedNotified ch")
  case False
  have "seals (onClosed ch) = seals ch \<and> dispatched (onClosed ch) = dispatched ch \<and>
      closings (onClosed ch) = closings ch + 1"
    using False by (simp add: onClosed_def) (simp add: seals_def dispatched_def closings_def)
  then show ?thesis using False by (simp add: calm_def onClosed_def)
qed (simp add: onClosed_def calm_refl)

lemma calm_fail: "calm ch (failApplicationHandshake ch)"
proof (cases "ch_state ch = Closed")
  case False
  have "calm ch (ch\<lparr>ch_state := Closed\<rparr>)"
    by (simp add: calm_def seals_def dispatched_def closings_def)
  then show ?thesis using False calm_close calm_trans by (simp add: failApplicationHandshake_def)
qed (simp add: failApplicationHandshake_def calm_refl)

lemma calm_doWrite: "calm ch (doWrite ch)"
proof (cases "ch_writeQueue ch")
  case Nil
  then show ?thesis by (simp add: doWrite_def calm_close calm_refl)
next
  case (Cons b bs)
  have "calm ch (ch\<lparr>ch_writing := True\<rparr>)" by (rule calm_same) (simp_all add: core_def)
  moreover have "calm c (emit (WriteStart b) c)" for c by (simp add: calm_def)
  ultimately show ?thesis using Cons calm_trans by (simp add: doWrite_def)
qed

lemma calm_enqueue: "calm ch (enqueueRawFrame type payload ch)"
proof -
  have "calm ch (ch\<lparr>ch_writeQueue := ch_writeQueue ch @ [raw_frame type payload]\<rparr>)"
    by (rule calm_same) (simp_all add: core_def)
  then show ?thesis using calm_doWrite calm_trans by (simp add: enqueueRawFrame_def Let_def)
qed

lemma calm_write_done: "calm ch (write_done ok ch)"
proof -
  let ?c0 = "ch\<lparr>ch_writing := False\<rparr>" and ?c1 = "ch\<lparr>ch_writing := False, ch_writeQueue := tl (ch_writeQueue ch)\<rparr>"
  have c: "calm ch ?c0" "calm ch ?c1" by (rule calm_same; simp add: core_def)+
  have "write_done ok ch \<in> {onClosed ?c0, doWrite ?c1, chan_close ?c1, ?c1}"
    by (simp add: write_done_def Let_def)
  then show ?thesis
    using c calm_trans [OF c(1) calm_onClosed] calm_trans [OF c(2) calm_doWrite]
      calm_trans [OF c(2) calm_close] by auto
qed

lemma calm_read_failed: "calm ch (onClosed (ch\<lparr>ch_reading := b\<rparr>))"
  by (rule calm_trans [OF _ calm_onClosed], rule calm_same) (simp_all add: core_def)

lemma calm_timer: "calm ch (timer_fired ch)"
  by (simp add: timer_fired_def calm_fail calm_refl)

lemmas calm_intros = calm_refl calm_post calm_close calm_onClosed calm_fail calm_doWrite calm_enqueue
  calm_write_done calm_read_failed calm_timer

subsection \<open>The other steps\<close>

lemma run_deliver_calm: "ch_state ch \<noteq> Established \<Longrightarrow> calm ch (run_deliver ce type payload ch)"
  by (simp add: run_deliver_def calm_enqueue calm_fail)

text \<open>In an established channel, one encryption with the next number, or none.\<close>

lemma run_deliver_seals:
  assumes "ch_state ch = Established"
  shows "calm ch (run_deliver ce type payload ch) \<or>
    (ch_sendSequence ch \<noteq> - 1 \<and>
     calm (emit (Seal (ch_serverToClientKey ch) (appendU64 (ch_serverNoncePrefix ch) (ch_sendSequence ch + 1)))
       (ch\<lparr>ch_sendSequence := ch_sendSequence ch + 1\<rparr>)) (run_deliver ce type payload ch))"
proof -
  let ?c1 = "ch\<lparr>ch_sendSequence := ch_sendSequence ch + 1\<rparr>"
  let ?c2 = "\<lambda>n. emit (Seal (ch_serverToClientKey ch) n) ?c1"
  obtain r c where enc: "encryptBusinessFrame ce type payload ch = (r, c)" by fastforce
  have c: "c = ch \<or> (r = Throws \<and> c = ?c1) \<or>
      (ch_sendSequence ch \<noteq> - 1 \<and>
       c = ?c2 (appendU64 (ch_serverNoncePrefix ch) (ch_sendSequence ch + 1)))"
    using enc by (auto simp: encryptBusinessFrame_def frameNonce_def Let_def split: if_splits exc.splits)
  have closed: "calm ch (failApplicationHandshake ?c1)"
  proof -
    have "ch_state (failApplicationHandshake ?c1) = Closed"
      using assms by (simp add: failApplicationHandshake_def chan_close_def post_job_def)
    moreover have "calm ?c1 (failApplicationHandshake ?c1)" by (rule calm_fail)
    ultimately show ?thesis by (simp add: calm_def assms seals_def dispatched_def closings_def)
  qed
  have "run_deliver ce type payload ch \<in> {enqueueRawFrame type payload ch, failApplicationHandshake c} \<or>
      (r \<noteq> Throws \<and> (\<exists>f. run_deliver ce type payload ch = enqueueRawFrame DEF_PROT_APP_ENCRYPTED_FRAME f c))"
    using assms by (cases r) (auto simp: run_deliver_def enc)
  then show ?thesis using c closed by (auto intro: calm_enqueue calm_fail)
qed

lemma run_job_cases:
  "(calm ch (run_job ce j ch)) \<or> (\<exists>type payload. j = Job_Deliver type payload \<and> ch_state ch = Established)"
proof (cases j)
  case (Job_Deliver type payload)
  then show ?thesis using run_deliver_calm by (auto simp: run_job_def)
next
  case Job_Close
  have "calm ch (ch\<lparr>ch_open := False\<rparr>)" by (rule calm_same) (simp_all add: core_def)
  then show ?thesis using Job_Close calm_trans [OF _ calm_onClosed] by (simp add: run_job_def)
next
  case Job_CloseAfterWrite
  have "calm ch (ch\<lparr>ch_closeAfterWrite := True\<rparr>)" by (rule calm_same) (simp_all add: core_def)
  then show ?thesis
    using Job_CloseAfterWrite calm_trans [OF _ calm_close] by (simp add: run_job_def Let_def)
qed

text \<open>The frame that reaches the dispatcher: authentic under the key and the next number.\<close>

definition authentic :: "chan_env \<Rightarrow> chan \<Rightarrow> AppEncryptedFrame \<Rightarrow> 32 word \<Rightarrow> bytes \<Rightarrow> bool" where
  "authentic ce ch f type payload \<longleftrightarrow>
     ef_session_id f = ch_appSessionId ch \<and> ef_sequence f = ch_receiveSequence ch + 1 \<and> ef_sequence f \<noteq> 0 \<and>
     (\<exists>plaintext. ossl_open (ce_ssl ce) (ch_clientToServerKey ch)
        (appendU64 (ch_clientNoncePrefix ch) (ef_sequence f)) (ef_ciphertext f)
        (frameAad (ch_appSessionId ch) (ef_sequence f)) (ef_tag f) = Some (Some plaintext) \<and>
        4 \<le> length plaintext \<and> type = decodeType32 plaintext \<and> payload = drop 4 plaintext) \<and>
     \<not> (DEF_PROT_APP_CLIENT_HELLO \<le> type \<and> type \<le> DEF_PROT_APP_ENCRYPTED_FRAME)"

lemma open_frame_Some:
  "open_frame ce f ch = Returns (Some p) \<Longrightarrow>
     ossl_open (ce_ssl ce) (ch_clientToServerKey ch) (appendU64 (ch_clientNoncePrefix ch) (ef_sequence f))
       (ef_ciphertext f) (frameAad (ch_appSessionId ch) (ef_sequence f)) (ef_tag f) = Some (Some p)"
  by (auto simp: open_frame_def frameNonce_def aes256GcmDecrypt_def returned_def
      split: if_splits exc.splits option.splits)

lemma handleEncryptedFrame_cases:
  "calm ch (handleEncryptedFrame ce payload ch) \<or>
   (\<exists>f type p. parse_EncryptedFrame (ce_codec ce) payload = Some f \<and> authentic ce ch f type p \<and>
      handleEncryptedFrame ce payload ch =
        emit (Dispatch type p) (ch\<lparr>ch_receiveSequence := ch_receiveSequence ch + 1\<rparr>))"
proof (cases "handleEncryptedFrame ce payload ch = failApplicationHandshake ch")
  case True
  then show ?thesis by (simp add: calm_fail)
next
  case False
  then obtain f where f: "parse_EncryptedFrame (ce_codec ce) payload = Some f" "frame_ok ch f"
    by (auto simp: handleEncryptedFrame_def split: option.splits if_splits)
  with False obtain p where p: "open_frame ce f ch = Returns (Some p)"
    by (auto simp: handleEncryptedFrame_def split: option.splits exc.splits)
  have "authentic ce ch f (decodeType32 p) (drop 4 p)" and
    "handleEncryptedFrame ce payload ch = emit (Dispatch (decodeType32 p) (drop 4 p))
        (ch\<lparr>ch_receiveSequence := ch_receiveSequence ch + 1\<rparr>)"
    using False f(2) open_frame_Some [OF p]
    by (auto simp: handleEncryptedFrame_def f p authentic_def frame_ok_def Let_def split: if_splits)
  then show ?thesis using f(1) by blast
qed

text \<open>The two frames of the handshake.\<close>

lemma calm_fail_same:
  "ch_events ch' = ch_events ch \<Longrightarrow> ch_tls ch' = ch_tls ch \<Longrightarrow> ch_closedNotified ch' = ch_closedNotified ch \<Longrightarrow>
   ch_state ch' = ch_state ch \<Longrightarrow> calm ch (failApplicationHandshake ch')"
  using calm_fail [of ch'] history_cong [of ch' ch]
  by (auto simp: calm_def failApplicationHandshake_def chan_close_def post_job_def)

definition hello_answered :: "chan_env \<Rightarrow> bytes \<Rightarrow> chan \<Rightarrow> chan \<Rightarrow> bool" where
  "hello_answered ce payload ch ch' \<longleftrightarrow>
     (\<exists>hello privateKey serverNonce sessionId serverPayload transcriptHash material.
       parse_ClientHello (ce_codec ce) payload = Some hello \<and> hello_ok hello \<and>
       finishedTranscriptHash (ce_ssl ce) payload serverPayload = Returns transcriptHash \<and>
       channel_material (ce_ssl ce) hello privateKey serverNonce sessionId transcriptHash = Returns material \<and>
       ch' = post_job (Job_Deliver DEF_PROT_APP_SERVER_HELLO serverPayload)
         ((install_keys material (ch\<lparr>ch_appSessionId := sessionId, ch_transcriptHash := transcriptHash\<rparr>))
           \<lparr>ch_state := WaitClientFinished\<rparr>))"

lemma answer_hello_cases:
  assumes "parse_ClientHello (ce_codec ce) payload = Some hello" and "hello_ok hello"
  shows "calm ch (answer_hello ce dr payload hello ch) \<or>
    hello_answered ce payload ch (answer_hello ce dr payload hello ch)"
proof (cases "(generateX25519KeyPair (hd_keypair dr), randomBytes (hd_nonce dr) APP_NONCE_LEN,
    randomBytes (hd_session dr) APP_SESSION_ID_LEN)")
  case draws: (fields k n i)
  show ?thesis
  proof (cases "k = Throws \<or> n = Throws \<or> i = Throws")
    case True
    then have "answer_hello ce dr payload hello ch = failApplicationHandshake ch"
      unfolding answer_hello_def draws by (auto split: exc.splits)
    then show ?thesis by (simp add: calm_fail)
  next
    case False
    then obtain priv pub nonce sid where d: "k = Returns (priv, pub)" "n = Returns nonce" "i = Returns sid"
      by (metis exc.exhaust surj_pair)
    let ?c1 = "ch\<lparr>ch_appSessionId := sid\<rparr>"
    have failed: "calm ch (failApplicationHandshake ?c1)"
      "calm ch (failApplicationHandshake (?c1\<lparr>ch_transcriptHash := h\<rparr>))" for h
      by (rule calm_fail_same; simp)+
    show ?thesis
    proof (cases "server_hello ce payload pub nonce sid")
      case Throws
      then show ?thesis using failed(1) by (simp add: answer_hello_def draws d Let_def)
    next
      case sp: (Returns sp)
      show ?thesis
      proof (cases "finishedTranscriptHash (ce_ssl ce) payload sp")
        case Throws
        then show ?thesis using failed(1) by (simp add: answer_hello_def draws d sp Let_def)
      next
        case th: (Returns th)
        show ?thesis
        proof (cases "channel_material (ce_ssl ce) hello priv nonce sid th")
          case Throws
          then show ?thesis using failed(2) [of th] by (simp add: answer_hello_def draws d sp th Let_def)
        next
          case m: (Returns material)
          have "answer_hello ce dr payload hello ch = post_job (Job_Deliver DEF_PROT_APP_SERVER_HELLO sp)
              ((install_keys material (?c1\<lparr>ch_transcriptHash := th\<rparr>))\<lparr>ch_state := WaitClientFinished\<rparr>)"
            by (simp add: answer_hello_def draws d sp th m Let_def)
          then have "hello_answered ce payload ch (answer_hello ce dr payload hello ch)"
            using assms th m unfolding hello_answered_def by blast
          then show ?thesis ..
        qed
      qed
    qed
  qed
qed

lemma handleClientHello_cases:
  "calm ch (handleClientHello ce dr payload ch) \<or> hello_answered ce payload ch (handleClientHello ce dr payload ch)"
  using answer_hello_cases by (auto simp: handleClientHello_def calm_fail split: option.splits)

lemma handleClientFinished_cases:
  assumes "handleClientFinished ce payload ch = (Returns (), ch')"
  shows "calm ch ch' \<or> (\<exists>actual verify. parse_Finished (ce_codec ce) payload = Some actual \<and>
     hmacSha256 (ce_ssl ce) (ch_clientFinishedKey ch) (ch_transcriptHash ch) = Returns actual \<and>
     ch' = post_job (Job_Deliver DEF_PROT_APP_SERVER_FINISHED (ser_Finished (ce_codec ce) verify))
       (ch\<lparr>ch_state := Established\<rparr>))"
  using assms by (auto simp: handleClientFinished_def calm_fail split: option.splits exc.splits if_splits)

text \<open>Every step, sorted by what it can do.\<close>

lemma calm_reading: "calm ch (ch\<lparr>ch_reading := b\<rparr>)"
  by (rule calm_same) (simp_all add: core_def)

lemma authentic_reading [simp]: "authentic ce (ch\<lparr>ch_reading := b\<rparr>) f type p = authentic ce ch f type p"
  by (simp add: authentic_def)

lemma hello_answered_reading:
  assumes "hello_answered ce payload (ch\<lparr>ch_reading := b\<rparr>) r"
  obtains c where "hello_answered ce payload ch c" and "calm c r" and "ch_state r = WaitClientFinished"
proof
  show "hello_answered ce payload ch (r\<lparr>ch_reading := ch_reading ch\<rparr>)"
    using assms unfolding hello_answered_def by (elim exE conjE) (fastforce simp: post_job_def install_keys_def)
  show "calm (r\<lparr>ch_reading := ch_reading ch\<rparr>) r" by (rule calm_same) (simp_all add: core_def)
  show "ch_state r = WaitClientFinished"
    using assms unfolding hello_answered_def by (auto simp: post_job_def)
qed

lemma body_cases:
  assumes "body_done ce dr type payload ch = (Returns (), ch')"
  obtains (Calm) "calm ch ch'"
  | (Dispatched) f t p where "ch_state ch = Established" "type = DEF_PROT_APP_ENCRYPTED_FRAME"
      "authentic ce ch f t p"
      "calm (emit (Dispatch t p) (ch\<lparr>ch_receiveSequence := ch_receiveSequence ch + 1\<rparr>)) ch'"
  | (Hello) c where "ch_state ch = WaitClientHello" "hello_answered ce payload ch c" "calm c ch'"
  | (Finished) actual where "ch_state ch = WaitClientFinished" "type = DEF_PROT_APP_CLIENT_FINISHED"
      "parse_Finished (ce_codec ce) payload = Some actual"
      "hmacSha256 (ce_ssl ce) (ch_clientFinishedKey ch) (ch_transcriptHash ch) = Returns actual"
      "calm (ch\<lparr>ch_state := Established\<rparr>) ch'"
proof -
  let ?c = "ch\<lparr>ch_reading := False\<rparr>"
  obtain r c1 where rc: "(r, c1) = (if ch_state ?c \<noteq> Established
      then handleApplicationHandshake ce dr type payload ?c
      else if type \<noteq> DEF_PROT_APP_ENCRYPTED_FRAME then (Returns (), failApplicationHandshake ?c)
      else (Returns (), handleEncryptedFrame ce payload ?c))" by (metis surj_pair)
  have r: "r = Returns ()" and c1: "calm c1 ch'"
    using assms unfolding body_done_def Let_def rc [symmetric]
    by (auto simp: calm_reading calm_refl split: if_splits)
  have c0: "calm ch ?c" by (rule calm_reading)
  show thesis
  proof (cases "calm ?c c1")
    case True
    then show ?thesis using Calm c0 c1 calm_trans by blast
  next
    case not_calm: False
    show ?thesis
    proof (cases "ch_state ch = Established")
      case True
      with not_calm rc have t: "type = DEF_PROT_APP_ENCRYPTED_FRAME" and "c1 = handleEncryptedFrame ce payload ?c"
        by (auto simp: calm_fail split: if_splits)
      then obtain f t p where f: "authentic ce ?c f t p"
        "c1 = emit (Dispatch t p) (?c\<lparr>ch_receiveSequence := ch_receiveSequence ?c + 1\<rparr>)"
        using handleEncryptedFrame_cases [of ?c ce payload] not_calm by blast
      have "calm (emit (Dispatch t p) (ch\<lparr>ch_receiveSequence := ch_receiveSequence ch + 1\<rparr>)) c1"
        unfolding f(2) by (rule calm_same) (simp_all add: core_def emit_def)
      then show ?thesis using Dispatched True t f(1) c1 calm_trans by simp
    next
      case False
      with rc have hs: "handleApplicationHandshake ce dr type payload ?c = (Returns (), c1)"
        using r by (simp split: if_splits)
      show ?thesis
      proof (cases "ch_state ch = WaitClientHello \<and> type = DEF_PROT_APP_CLIENT_HELLO")
        case True
        with hs not_calm have "c1 = handleClientHello ce dr payload ?c"
          by (auto simp: handleApplicationHandshake_def calm_fail split: if_splits)
        then have "hello_answered ce payload ?c c1"
          using handleClientHello_cases [of ?c ce dr payload] not_calm by blast
        then show ?thesis
          by (rule hello_answered_reading) (use Hello True c1 calm_trans in blast)
      next
        case nh: False
        with hs not_calm have st: "ch_state ch = WaitClientFinished" "type = DEF_PROT_APP_CLIENT_FINISHED"
          and "handleClientFinished ce payload ?c = (Returns (), c1)"
          by (auto simp: handleApplicationHandshake_def calm_fail split: if_splits)
        then obtain actual verify where f: "parse_Finished (ce_codec ce) payload = Some actual"
          "hmacSha256 (ce_ssl ce) (ch_clientFinishedKey ch) (ch_transcriptHash ch) = Returns actual"
          "c1 = post_job (Job_Deliver DEF_PROT_APP_SERVER_FINISHED (ser_Finished (ce_codec ce) verify))
             (?c\<lparr>ch_state := Established\<rparr>)"
          using handleClientFinished_cases [of ce payload ?c c1] not_calm by auto
        have "calm (ch\<lparr>ch_state := Established\<rparr>) c1"
          unfolding f(3) by (rule calm_same) (simp_all add: core_def post_job_def)
        then show ?thesis using Finished st f(1,2) c1 calm_trans by blast
      qed
    qed
  qed
qed

lemma step_cases:
  assumes "chan_step ce ch ch'" and "\<not> ch_tls ch"
  obtains (Calm) "calm ch ch'"
  | (Sealed) "ch_state ch = Established" "ch_sendSequence ch \<noteq> - 1"
      "calm (emit (Seal (ch_serverToClientKey ch) (appendU64 (ch_serverNoncePrefix ch) (ch_sendSequence ch + 1)))
         (ch\<lparr>ch_sendSequence := ch_sendSequence ch + 1\<rparr>)) ch'"
  | (Dispatched) f t p where "ch_state ch = Established" "authentic ce ch f t p"
      "calm (emit (Dispatch t p) (ch\<lparr>ch_receiveSequence := ch_receiveSequence ch + 1\<rparr>)) ch'"
  | (Hello) payload c where "ch_state ch = WaitClientHello" "hello_answered ce payload ch c" "calm c ch'"
  | (Finished) payload actual where "ch_state ch = WaitClientFinished"
      "parse_Finished (ce_codec ce) payload = Some actual"
      "hmacSha256 (ce_ssl ce) (ch_clientFinishedKey ch) (ch_transcriptHash ch) = Returns actual"
      "calm (ch\<lparr>ch_state := Established\<rparr>) ch'"
  using assms(1)
proof cases
  case (Read dr v)
  show ?thesis
  proof (cases v)
    case (Accept m rest)
    obtain type payload where m: "m = (type, payload)" by (cases m)
    have "body_done ce dr type payload ch = (Returns (), ch')" using Read(2) by (simp add: read_done_def Accept m)
    then show ?thesis
    proof (cases rule: body_cases)
      case (Dispatched f t p)
      then show ?thesis using that(3) by blast
    qed (use that in blast)+
  qed (use Read(2) Calm in \<open>auto simp: read_done_def calm_read_failed calm_refl\<close>)
next
  case (Job j js)
  let ?c = "ch\<lparr>ch_jobs := js\<rparr>"
  have c: "calm ch ?c" by (rule calm_same) (simp_all add: core_def)
  have c2: "calm (emit ev (ch\<lparr>ch_sendSequence := n\<rparr>)) (emit ev (?c\<lparr>ch_sendSequence := n\<rparr>))" for ev n
    by (rule calm_same) (simp_all add: core_def emit_def)
  show ?thesis
  proof (cases "calm ?c ch'")
    case True
    then show ?thesis using Calm c calm_trans by blast
  next
    case False
    then obtain type payload where j: "j = Job_Deliver type payload" "ch_state ch = Established"
      using Job(2) run_job_cases [of ?c ce j] by auto
    then show ?thesis
      using False run_deliver_seals [of ?c ce type payload] Job(2) Sealed calm_trans [OF c2]
      by (auto simp: run_job_def)
  qed
qed (use assms(2) Calm in \<open>auto simp: read_failed_def intro: calm_intros\<close>)

subsection \<open>Invariant\<close>

definition nonces :: "bytes \<Rightarrow> bytes \<Rightarrow> nat \<Rightarrow> (bytes \<times> bytes) list" where
  "nonces k prefix n = map (\<lambda>i. (k, appendU64 prefix (of_nat i))) [1..<Suc n]"

lemma nonces_Suc: "nonces k prefix (Suc n) = nonces k prefix n @ [(k, appendU64 prefix (of_nat (Suc n)))]"
  by (simp add: nonces_def)

lemma nonces_0 [simp]: "nonces k prefix 0 = []"
  by (simp add: nonces_def)

lemma unat_of_nat64: "n < 2 ^ 64 \<Longrightarrow> unat (of_nat n :: 64 word) = n"
  unfolding unat_of_nat by (rule mod_less) simp

lemma distinct_nonces:
  assumes "n < 2 ^ 64"
  shows "distinct (nonces k prefix n)"
proof -
  have inj: "i = j" if "(of_nat i :: 64 word) = of_nat j" "i \<le> n" "j \<le> n" for i j
    using that unat_of_nat64 [of i] unat_of_nat64 [of j] assms by (metis le_less_trans)
  then show ?thesis
    unfolding nonces_def distinct_map by (auto intro!: inj_onI simp: appendU64_inject)
qed

definition chan_inv :: "chan \<Rightarrow> bool" where
  "chan_inv ch \<longleftrightarrow> \<not> ch_tls ch \<and> ch_state ch \<noteq> TlsHandshake \<and>
     (ch_closedNotified ch \<longrightarrow> ch_state ch = Closed) \<and>
     closings ch = (if ch_closedNotified ch then 1 else 0) \<and>
     (ch_state ch \<noteq> Closed \<longrightarrow> unat (ch_receiveSequence ch) = length (dispatched ch)) \<and>
     (ch_state ch \<in> {WaitClientHello, WaitClientFinished} \<longrightarrow> ch_sendSequence ch = 0 \<and> seals ch = []) \<and>
     (\<exists>k prefix n. n < 2 ^ 64 \<and> seals ch = nonces k prefix n \<and>
        (ch_state ch = Established \<longrightarrow> k = ch_serverToClientKey ch \<and> prefix = ch_serverNoncePrefix ch \<and>
           n = unat (ch_sendSequence ch)))"

lemma chan_inv_calm: "chan_inv ch \<Longrightarrow> calm ch ch' \<Longrightarrow> chan_inv ch'"
  unfolding chan_inv_def calm_def core_def
  by (cases "ch_state ch' = Closed") (auto split: if_splits)

lemma no_nonces: "\<exists>k prefix n. n < (2 ^ 64 :: nat) \<and> [] = nonces k prefix n"
  by (intro exI [of _ "[]"] exI [of _ "0 :: nat"]) simp

lemma chan_inv_tls: "chan_inv (tls_done ok new_chan)"
  using no_nonces by (cases ok) (simp_all add: chan_inv_def tls_done_def new_chan_def onClosed_def emit_def
      closings_def dispatched_def seals_def)

lemma word64_Suc: "s \<noteq> - 1 \<Longrightarrow> unat (s + 1 :: 64 word) = Suc (unat s)"
  by (metis unatSuc add.commute add_eq_0_iff)

lemma chan_inv_seal:
  assumes "chan_inv ch" and "ch_state ch = Established" and "ch_sendSequence ch \<noteq> - 1"
  shows "chan_inv (emit (Seal (ch_serverToClientKey ch)
      (appendU64 (ch_serverNoncePrefix ch) (ch_sendSequence ch + 1))) (ch\<lparr>ch_sendSequence := ch_sendSequence ch + 1\<rparr>))"
proof -
  let ?s = "ch_sendSequence ch" and ?k = "ch_serverToClientKey ch" and ?p = "ch_serverNoncePrefix ch"
  have u: "unat (?s + 1) = Suc (unat ?s)" by (rule word64_Suc [OF assms(3)])
  have "seals ch = nonces ?k ?p (unat ?s)" using assms by (auto simp: chan_inv_def)
  then have "seals ch @ [(?k, appendU64 ?p (?s + 1))] = nonces ?k ?p (unat (?s + 1))"
    unfolding u nonces_Suc by (simp add: u [symmetric] del: of_nat_Suc)
  moreover have "unat (?s + 1) < 2 ^ 64" using unsigned_less [of "?s + 1"] by simp
  ultimately show ?thesis
    using assms(1,2) unfolding chan_inv_def
    by (auto simp: emit_def seals_def dispatched_def closings_def)
qed

lemma chan_inv_dispatch:
  assumes "chan_inv ch" and "ch_state ch = Established" and "ch_receiveSequence ch + 1 \<noteq> 0"
  shows "chan_inv (emit (Dispatch t p) (ch\<lparr>ch_receiveSequence := ch_receiveSequence ch + 1\<rparr>))"
proof -
  have "unat (ch_receiveSequence ch + 1) = Suc (unat (ch_receiveSequence ch))"
    using assms(3) word64_Suc by (metis add.left_inverse)
  then show ?thesis
    using assms(1,2) unfolding chan_inv_def
    by (auto simp: emit_def seals_def dispatched_def closings_def)
qed

lemma hello_fields:
  assumes "hello_answered ce payload ch c"
  shows "ch_events c = ch_events ch" "ch_state c = WaitClientFinished" "ch_tls c = ch_tls ch"
    "ch_closedNotified c = ch_closedNotified ch" "ch_sendSequence c = ch_sendSequence ch"
    "ch_receiveSequence c = ch_receiveSequence ch"
  using assms unfolding hello_answered_def by (auto simp: post_job_def install_keys_def)

lemma chan_inv_hello:
  assumes "chan_inv ch" and "ch_state ch = WaitClientHello" and "hello_answered ce payload ch c"
  shows "chan_inv c"
  using assms(1,2) no_nonces history_cong [OF hello_fields(1) [OF assms(3)]]
  by (simp add: chan_inv_def hello_fields [OF assms(3)])

lemma chan_inv_finished:
  assumes "chan_inv ch" and "ch_state ch = WaitClientFinished"
  shows "chan_inv (ch\<lparr>ch_state := Established\<rparr>)"
  using assms unfolding chan_inv_def
  by (auto simp: seals_def dispatched_def closings_def intro!: exI [of _ "0 :: nat"])

lemma chan_inv_step:
  assumes "chan_inv ch" and "chan_step ce ch ch'"
  shows "chan_inv ch'"
proof -
  have t: "\<not> ch_tls ch" using assms(1) by (simp add: chan_inv_def)
  from assms(2) t show ?thesis
  proof (cases rule: step_cases)
    case Calm
    then show ?thesis using assms(1) chan_inv_calm by blast
  next
    case Sealed
    then show ?thesis using assms(1) chan_inv_seal chan_inv_calm by blast
  next
    case (Dispatched f t p)
    then show ?thesis using assms(1) chan_inv_dispatch chan_inv_calm by (metis authentic_def)
  next
    case (Hello payload c)
    then show ?thesis using assms(1) chan_inv_hello chan_inv_calm by blast
  next
    case (Finished payload actual)
    then show ?thesis using assms(1) chan_inv_finished chan_inv_calm by blast
  qed
qed

lemma tls_history:
  "dispatched new_chan = []" "dispatched (tls_done ok new_chan) = []" "seals new_chan = []"
  by (cases ok; simp add: tls_done_def new_chan_def onClosed_def emit_def dispatched_def seals_def)+

lemma new_chan_step:
  assumes "chan_step ce new_chan ch"
  shows "\<exists>ok. ch = tls_done ok new_chan"
  using assms by cases (auto simp: new_chan_def)

lemma reach_cases:
  assumes "(chan_step ce)\<^sup>*\<^sup>* new_chan ch"
  shows "ch = new_chan \<or> chan_inv ch"
  using assms
proof (induction rule: rtranclp_induct)
  case (step a b)
  then show ?case using new_chan_step chan_inv_tls chan_inv_step by blast
qed simp

subsection \<open>Properties\<close>

text \<open>
  C3. A packet reaches the dispatcher only over an established channel, out of a frame that opened
  under the key of the client and the nonce of its number, for this session; and the numbers are
  consecutive from 1, so that no frame is dispatched twice, out of order, or after a lost one.
\<close>

theorem channel_dispatch_authentic:
  assumes "(chan_step ce)\<^sup>*\<^sup>* new_chan ch" and "chan_step ce ch ch'" and "dispatched ch' \<noteq> dispatched ch"
  shows "\<exists>f t p. ch_state ch = Established \<and> authentic ce ch f t p \<and>
    unat (ef_sequence f) = Suc (length (dispatched ch)) \<and> dispatched ch' = dispatched ch @ [(t, p)]"
proof -
  have "ch \<noteq> new_chan"
    using assms(2,3) new_chan_step [of ce ch'] by (auto simp: tls_history)
  then have inv: "chan_inv ch" using reach_cases [OF assms(1)] by blast
  then have t: "\<not> ch_tls ch" by (simp add: chan_inv_def)
  from assms(2) t show ?thesis
  proof (cases rule: step_cases)
    case (Dispatched f t p)
    have "unat (ch_receiveSequence ch + 1) = Suc (unat (ch_receiveSequence ch))"
      using Dispatched(2) word64_Suc by (metis authentic_def add.left_inverse)
    then have "unat (ef_sequence f) = Suc (length (dispatched ch))"
      using inv Dispatched(1,2) by (auto simp: chan_inv_def authentic_def)
    moreover have "dispatched (ch\<lparr>ch_receiveSequence := ch_receiveSequence ch + 1\<rparr>) = dispatched ch"
      by (simp add: dispatched_def)
    ultimately show ?thesis using Dispatched by (auto simp: calm_def)
  next
    case (Hello payload c)
    then have "dispatched ch' = dispatched ch"
      using history_cong [OF hello_fields(1) [OF Hello(2)]] by (simp add: calm_def)
    with assms(3) show ?thesis by simp
  qed (use assms(3) in \<open>auto simp: calm_def dispatched_def emit_def\<close>)
qed

text \<open>
  C8. No nonce is used twice under one key for the frames the server sends, over the whole life of
  a connection: the pairs of key and nonce given to AES-GCM are all different.
\<close>

theorem channel_nonces_distinct:
  assumes "(chan_step ce)\<^sup>*\<^sup>* new_chan ch"
  shows "distinct (seals ch)"
  using reach_cases [OF assms] distinct_nonces
  by (auto simp: chan_inv_def tls_history)

end
