(* ===== verification/ChanOrder.thy ===== *)
theory ChanOrder
  imports ChanFacts
begin

text \<open>
  The order of a connection: its frames go out one at a time in the order they were accepted, its end
  is reported once and not forgotten, and its keys come from the handshake.
\<close>

subsection \<open>The write queue and the pending end\<close>

definition started :: "chan \<Rightarrow> bytes list" where
  "started ch = concat (map (\<lambda>ev. case ev of WriteStart b \<Rightarrow> [b] | _ \<Rightarrow> []) (ch_events ch))"

text \<open>The buffer in front of the queue has been handed to the socket.\<close>

definition accepted :: "chan \<Rightarrow> bytes list" where
  "accepted ch = started ch @ tl (ch_writeQueue ch)"

definition in_flight :: "chan \<Rightarrow> bool" where
  "in_flight ch \<longleftrightarrow> (ch_writeQueue ch \<noteq> [] \<longrightarrow> started ch \<noteq> [] \<and> last (started ch) = hd (ch_writeQueue ch)) \<and>
     (ch_writing ch \<longrightarrow> ch_writeQueue ch \<noteq> [])"

definition end_pending :: "chan \<Rightarrow> bool" where
  "end_pending ch \<longleftrightarrow> (ch_state ch = Closed \<longrightarrow> ch_closedNotified ch \<or> Job_Close \<in> set (ch_jobs ch))"

definition frames :: "bytes list \<Rightarrow> bool" where
  "frames bs \<longleftrightarrow> list_all (\<lambda>b. \<exists>t p. b = raw_frame t p) bs"

definition tidy :: "chan \<Rightarrow> chan \<Rightarrow> bool" where
  "tidy ch ch' \<longleftrightarrow> (end_pending ch \<longrightarrow> end_pending ch') \<and>
     (in_flight ch \<longrightarrow> in_flight ch' \<and> (\<exists>new. accepted ch' = accepted ch @ new \<and> frames new))"

lemma started_emit [simp]: "started (emit ev ch) = started ch @ (case ev of WriteStart b \<Rightarrow> [b] | _ \<Rightarrow> [])"
  by (simp add: started_def emit_def)

lemma emit_queue [simp]: "ch_writing (emit ev ch) = ch_writing ch"
  by (simp add: emit_def)

lemma tidy_refl: "tidy ch ch"
  by (auto simp: tidy_def frames_def intro!: exI [of _ "[]"])

lemma tidy_trans: "tidy a b \<Longrightarrow> tidy b c \<Longrightarrow> tidy a c"
  by (fastforce simp: tidy_def frames_def)

lemma tidy_same:
  assumes "started ch' = started ch" and "ch_writeQueue ch' = ch_writeQueue ch"
    and "ch_writing ch' = ch_writing ch \<or> \<not> ch_writing ch'" and "ch_closedNotified ch' = ch_closedNotified ch"
    and "ch_state ch' = Closed \<longrightarrow> ch_state ch = Closed \<or> Job_Close \<in> set (ch_jobs ch')"
    and "set (ch_jobs ch) \<subseteq> set (ch_jobs ch')"
  shows "tidy ch ch'"
proof -
  have "end_pending ch \<longrightarrow> end_pending ch'" using assms(4-6) unfolding end_pending_def by blast
  moreover have "in_flight ch \<longrightarrow> in_flight ch'"
    using assms(3) unfolding in_flight_def assms(1,2) by blast
  moreover have "accepted ch' = accepted ch @ []" by (simp add: accepted_def assms(1,2))
  moreover have "frames []" by (simp add: frames_def)
  ultimately show ?thesis unfolding tidy_def by blast
qed

lemma started_cong: "ch_events ch' = ch_events ch \<Longrightarrow> started ch' = started ch"
  by (simp add: started_def)

lemma tidy_fields:
  assumes "ch_events ch' = ch_events ch" and "ch_writeQueue ch' = ch_writeQueue ch"
    and "ch_writing ch' = ch_writing ch \<or> \<not> ch_writing ch'" and "ch_closedNotified ch' = ch_closedNotified ch"
    and "ch_state ch' = Closed \<longrightarrow> ch_state ch = Closed" and "ch_jobs ch' = ch_jobs ch"
  shows "tidy ch ch'"
  by (rule tidy_same [OF started_cong [OF assms(1)] assms(2-4)]) (use assms(5) in blast, simp add: assms(6))

lemma tidy_post: "tidy ch (post_job j ch)"
  by (rule tidy_same) (auto simp: post_job_def started_def)

lemma tidy_close: "tidy ch (chan_close ch)"
  unfolding chan_close_def by (rule tidy_post)

lemma tidy_onClosed: "tidy ch (onClosed ch)"
proof (cases "ch_closedNotified ch")
  case False
  have "started (onClosed ch) = started ch \<and> ch_writeQueue (onClosed ch) = ch_writeQueue ch \<and>
      ch_writing (onClosed ch) = ch_writing ch \<and> ch_closedNotified (onClosed ch)"
    using False by (simp add: onClosed_def) (simp add: started_def)
  then show ?thesis by (auto simp: tidy_def end_pending_def in_flight_def accepted_def frames_def)
qed (simp add: onClosed_def tidy_refl)

lemma tidy_fail: "tidy ch (failApplicationHandshake ch)"
  by (simp add: failApplicationHandshake_def tidy_refl, intro impI, rule tidy_same)
    (auto simp: chan_close_def post_job_def started_def)

lemma tidy_enqueue: "tidy ch (enqueueRawFrame type payload ch)"
proof -
  let ?q = "ch_writeQueue ch" and ?b = "raw_frame type payload"
  let ?c = "enqueueRawFrame type payload ch"
  have eq: "ch_state ?c = ch_state ch \<and> ch_closedNotified ?c = ch_closedNotified ch \<and> ch_jobs ?c = ch_jobs ch \<and>
      ch_writeQueue ?c = ?q @ [?b] \<and> started ?c = started ch @ (if ?q = [] then [?b] else [])"
    by (simp add: enqueueRawFrame_def Let_def doWrite_def) (simp add: started_def)
  have "in_flight ch \<longrightarrow> in_flight ?c" using eq by (auto simp: in_flight_def)
  moreover have "accepted ?c = accepted ch @ [?b]" using eq by (auto simp: accepted_def)
  moreover have "frames [?b]" by (auto simp: frames_def)
  ultimately show ?thesis using eq by (auto simp: tidy_def end_pending_def)
qed

lemma tidy_write_done: "tidy ch (write_done ok ch)" if w: "ch_writing ch"
proof -
  let ?q = "ch_writeQueue ch" and ?c0 = "ch\<lparr>ch_writing := False\<rparr>"
  let ?c1 = "?c0\<lparr>ch_writeQueue := tl ?q\<rparr>" and ?r = "write_done ok ch"
  have c0: "tidy ch ?c0" by (rule tidy_fields) auto
  consider "\<not> ok" | "ok" "length ?q \<le> 1" | "ok" "1 < length ?q" by linarith
  then show ?thesis
  proof cases
    case 1
    then show ?thesis using tidy_trans [OF c0 tidy_onClosed] by (simp add: write_done_def)
  next
    case 2
    then have tl: "tl ?q = []" by (cases ?q) auto
    have "tidy ch ?c1"
      by (auto simp: tidy_def end_pending_def in_flight_def accepted_def frames_def tl started_def)
    then show ?thesis using 2 tl tidy_trans [OF _ tidy_close] by (simp add: write_done_def Let_def)
  next
    case 3
    then obtain b b' bs where q: "?q = b # b' # bs" by (cases ?q; cases "tl ?q") auto
    have "ch_state ?r = ch_state ch \<and> ch_closedNotified ?r = ch_closedNotified ch \<and> ch_jobs ?r = ch_jobs ch \<and>
        ch_writeQueue ?r = b' # bs \<and> started ?r = started ch @ [b']"
      using 3 q by (simp add: write_done_def Let_def doWrite_def) (simp add: started_def)
    then show ?thesis
      using q by (auto simp: tidy_def end_pending_def in_flight_def accepted_def frames_def)
  qed
qed

lemma tidy_timer: "tidy ch (timer_fired ch)"
  by (simp add: timer_fired_def tidy_fail tidy_refl)

lemmas tidy_intros = tidy_refl tidy_post tidy_close tidy_onClosed tidy_fail tidy_enqueue tidy_timer

lemma tidy_emit:
  assumes "tidy ch c" and "\<And>b. ev \<noteq> WriteStart b"
  shows "tidy ch (emit ev c)"
proof -
  have "started (emit ev c) = started c" using assms(2) by (cases ev) auto
  then have "tidy c (emit ev c)" by (intro tidy_same) auto
  then show ?thesis by (rule tidy_trans [OF assms(1)])
qed

lemma tidy_encrypt: "encryptBusinessFrame ce type payload ch = (r, c) \<Longrightarrow> tidy ch c"
proof -
  assume enc: "encryptBusinessFrame ce type payload ch = (r, c)"
  let ?c1 = "ch\<lparr>ch_sendSequence := ch_sendSequence ch + 1\<rparr>"
  have c1: "tidy ch ?c1" by (rule tidy_fields) auto
  have "c = ch \<or> c = ?c1 \<or> (\<exists>k n. c = emit (Seal k n) ?c1)"
    using enc by (auto simp: encryptBusinessFrame_def Let_def split: if_splits exc.splits)
  then show ?thesis using c1 tidy_refl tidy_emit [OF c1] by auto
qed

lemma tidy_run_deliver: "tidy ch (run_deliver ce type payload ch)"
proof (cases "encryptBusinessFrame ce type payload ch")
  case (Pair r c)
  have "tidy ch c" by (rule tidy_encrypt [OF Pair])
  then show ?thesis
    using tidy_trans [OF _ tidy_fail] tidy_trans [OF _ tidy_enqueue]
    by (auto simp: run_deliver_def Pair tidy_enqueue tidy_fail split: exc.split)
qed

lemma tidy_run_job: "tidy ch (run_job ce j ch)"
proof (cases j)
  case (Job_Deliver type payload)
  then show ?thesis using tidy_run_deliver by (simp add: run_job_def)
next
  case Job_Close
  have "tidy ch (ch\<lparr>ch_open := False\<rparr>)" by (rule tidy_fields) auto
  then show ?thesis using Job_Close tidy_trans [OF _ tidy_onClosed] by (simp add: run_job_def)
next
  case Job_CloseAfterWrite
  have "tidy ch (ch\<lparr>ch_closeAfterWrite := True\<rparr>)" by (rule tidy_fields) auto
  then show ?thesis
    using Job_CloseAfterWrite tidy_trans [OF _ tidy_close] by (simp add: run_job_def Let_def)
qed

text \<open>The job taken from the front may be the pending close itself.\<close>

lemma tidy_job:
  assumes "ch_jobs ch = j # js" and "in_flight ch" and "end_pending ch"
    and c: "ch' = run_job ce j (ch\<lparr>ch_jobs := js\<rparr>)"
  shows "end_pending ch' \<and> in_flight ch' \<and> (\<exists>new. accepted ch' = accepted ch @ new \<and> frames new)"
proof -
  let ?c = "ch\<lparr>ch_jobs := js\<rparr>"
  have same: "in_flight ?c = in_flight ch" "accepted ?c = accepted ch"
    by (simp_all add: in_flight_def accepted_def started_def)
  have t: "tidy ?c ch'" unfolding c by (rule tidy_run_job)
  have "end_pending ch'"
  proof (cases "j = Job_Close")
    case True
    then have "ch_closedNotified ch'" unfolding c by (simp add: run_job_def onClosed_def)
    then show ?thesis by (simp add: end_pending_def)
  next
    case False
    then have "end_pending ?c" using assms(1,3) by (auto simp: end_pending_def)
    then show ?thesis using t by (simp add: tidy_def)
  qed
  then show ?thesis using t assms(2) unfolding tidy_def same by blast
qed

lemma tidy_fail_same: "tidy ch c \<Longrightarrow> tidy ch (failApplicationHandshake c)"
  using tidy_fail tidy_trans by blast

lemma tidy_handleEncryptedFrame: "tidy ch (handleEncryptedFrame ce payload ch)"
proof -
  have t: "tidy ch (emit (Dispatch t p) (ch\<lparr>ch_receiveSequence := n\<rparr>))" for t p n
    by (rule tidy_emit) (auto intro: tidy_fields)
  show ?thesis
    unfolding handleEncryptedFrame_def Let_def
    by (auto simp: t tidy_fail split: option.split exc.split)
qed

lemma tidy_hello: "tidy ch (handleClientHello ce dr payload ch)"
proof -
  have f: "tidy ch (ch\<lparr>ch_appSessionId := a\<rparr>)" "tidy ch (ch\<lparr>ch_appSessionId := a, ch_transcriptHash := b\<rparr>)"
    for a b by (rule tidy_fields; simp)+
  have k: "tidy ch (post_job j ((install_keys m (ch\<lparr>ch_appSessionId := a, ch_transcriptHash := b\<rparr>))
      \<lparr>ch_state := WaitClientFinished\<rparr>))" for j m a b
    by (rule tidy_trans [OF _ tidy_post], rule tidy_fields) (simp_all add: install_keys_def)
  show ?thesis
    unfolding handleClientHello_def answer_hello_def Let_def
    by (auto simp: tidy_fail k tidy_fail_same f split: option.split exc.split prod.split)
qed

lemma tidy_finished: "tidy ch (snd (handleClientFinished ce payload ch))"
proof -
  have "tidy ch (post_job j (ch\<lparr>ch_state := Established\<rparr>))" for j
    by (rule tidy_trans [OF _ tidy_post], rule tidy_fields) simp_all
  then show ?thesis
    by (auto simp: handleClientFinished_def tidy_fail tidy_refl split: option.split exc.split)
qed

lemma tidy_handshake: "tidy ch (snd (handleApplicationHandshake ce dr type payload ch))"
  by (simp add: handleApplicationHandshake_def tidy_fail tidy_hello tidy_finished)

lemma tidy_reading: "tidy ch (ch\<lparr>ch_reading := b\<rparr>)"
  by (rule tidy_fields) auto

lemma tidy_read_done: "tidy ch (snd (read_done ce dr v ch))"
proof (cases v)
  case (Accept m rest)
  obtain type payload where m: "m = (type, payload)" by (cases m)
  let ?c = "ch\<lparr>ch_reading := False\<rparr>"
  let ?r = "if ch_state ?c \<noteq> Established then handleApplicationHandshake ce dr type payload ?c
      else if type \<noteq> DEF_PROT_APP_ENCRYPTED_FRAME then (Returns (), failApplicationHandshake ?c)
      else (Returns (), handleEncryptedFrame ce payload ?c)"
  have "tidy ?c (snd ?r)" by (simp add: tidy_handshake tidy_fail tidy_handleEncryptedFrame)
  then have c1: "tidy ch (snd ?r)" by (rule tidy_trans [OF tidy_reading])
  have "snd (body_done ce dr type payload ch) \<in> {snd ?r, (snd ?r)\<lparr>ch_reading := True\<rparr>}"
    unfolding body_done_def Let_def by (simp add: case_prod_beta del: if_splits)
  then show ?thesis
    using c1 tidy_trans [OF c1 tidy_reading [of _ True]] by (auto simp: read_done_def Accept m)
qed (auto simp: read_done_def tidy_refl intro: tidy_trans [OF tidy_reading tidy_onClosed])

definition ordered :: "chan \<Rightarrow> chan \<Rightarrow> bool" where
  "ordered ch ch' \<longleftrightarrow> in_flight ch' \<and> end_pending ch' \<and> (\<exists>new. accepted ch' = accepted ch @ new \<and> frames new)"

lemma ordered_tidy: "tidy ch ch' \<Longrightarrow> in_flight ch \<Longrightarrow> end_pending ch \<Longrightarrow> ordered ch ch'"
  by (simp add: tidy_def ordered_def)

lemma ordered_step:
  assumes "chan_step ce ch ch'" and "in_flight ch" and "end_pending ch"
  shows "ordered ch ch'"
  using assms(1)
proof cases
  case (Tls ok)
  have "tidy ch (tls_done ok ch)"
  proof (cases ok)
    case True
    then show ?thesis by (simp add: tls_done_def Let_def, intro tidy_fields) auto
  next
    case False
    have "tidy ch (ch\<lparr>ch_tls := False\<rparr>)" by (rule tidy_fields) auto
    then show ?thesis using False tidy_trans [OF _ tidy_onClosed] by (simp add: tls_done_def)
  qed
  then show ?thesis using Tls assms(2,3) ordered_tidy by blast
next
  case (Read dr v)
  then show ?thesis using ordered_tidy [OF _ assms(2,3)] tidy_read_done [of ch ce dr v] by simp
next
  case Read_error
  then show ?thesis
    using ordered_tidy [OF _ assms(2,3)] tidy_trans [OF tidy_reading tidy_onClosed] by (simp add: read_failed_def)
next
  case (Written ok)
  then show ?thesis using ordered_tidy [OF _ assms(2,3)] tidy_write_done by blast
next
  case Timer
  then show ?thesis using ordered_tidy [OF _ assms(2,3)] tidy_timer by blast
next
  case (Post j)
  then show ?thesis using ordered_tidy [OF _ assms(2,3)] tidy_post by blast
next
  case (Job j js)
  then show ?thesis using tidy_job [OF Job(1) assms(2,3) Job(2)] by (simp add: ordered_def)
qed

lemma ordered_reach:
  assumes "(chan_step ce)\<^sup>*\<^sup>* ch ch'" and "in_flight ch" and "end_pending ch"
  shows "ordered ch ch'"
  using assms(1)
proof (induction rule: rtranclp_induct)
  case base
  then show ?case using ordered_tidy [OF tidy_refl assms(2,3)] .
next
  case (step a b)
  then have "ordered a b" by (intro ordered_step) (auto simp: ordered_def)
  then show ?case using step.IH by (fastforce simp: ordered_def frames_def)
qed

lemma ordered_new: "in_flight new_chan" "end_pending new_chan"
  by (simp_all add: in_flight_def end_pending_def new_chan_def)

subsection \<open>Properties\<close>

text \<open>
  C24. Frames go out in the order they were accepted, whole and one at a time: as a connection runs,
  the buffers handed to the socket and those waiting behind them only grow at the end, by framed
  packets; a queued packet is placed last; and while a write is in flight the buffer written is the
  one handed over last, which stays in front of the queue.
\<close>

theorem writes_in_order:
  assumes "(chan_step ce)\<^sup>*\<^sup>* new_chan ch" and "(chan_step ce)\<^sup>*\<^sup>* ch ch'"
  shows "(\<exists>new. started ch' @ tl (ch_writeQueue ch') = started ch @ tl (ch_writeQueue ch) @ new \<and> frames new) \<and>
    (ch_writing ch' \<longrightarrow> ch_writeQueue ch' \<noteq> [] \<and> started ch' \<noteq> [] \<and> hd (ch_writeQueue ch') = last (started ch')) \<and>
    (let q = enqueueRawFrame type payload ch' in
       started q @ tl (ch_writeQueue q) = started ch' @ tl (ch_writeQueue ch') @ [raw_frame type payload])"
proof -
  have a: "in_flight ch" "end_pending ch"
    using ordered_reach [OF assms(1) ordered_new] by (auto simp: ordered_def)
  have o': "ordered ch ch'" by (rule ordered_reach [OF assms(2) a])
  then have f: "in_flight ch'" by (simp add: ordered_def)
  have q: "started (enqueueRawFrame type payload ch') @ tl (ch_writeQueue (enqueueRawFrame type payload ch')) =
      started ch' @ tl (ch_writeQueue ch') @ [raw_frame type payload]"
    by (simp add: enqueueRawFrame_def Let_def doWrite_def) (simp add: started_def tl_append split: list.split)
  show ?thesis using o' f q by (auto simp: ordered_def accepted_def in_flight_def Let_def)
qed

text \<open>
  C23. The end of a connection is reported to the server at most once, and never forgotten: a closed
  connection has been reported or has its closing queued. A closed connection stays closed; it
  dispatches and encrypts nothing more.
\<close>

theorem channel_end_reported_once:
  assumes "(chan_step ce)\<^sup>*\<^sup>* new_chan ch" and "(chan_step ce)\<^sup>*\<^sup>* ch ch'"
  shows "closings ch \<le> 1 \<and> (closings ch = 1 \<longrightarrow> ch_state ch = Closed) \<and>
    (ch_state ch = Closed \<longrightarrow> (closings ch = 1 \<or> Job_Close \<in> set (ch_jobs ch)) \<and>
       ch_state ch' = Closed \<and> dispatched ch' = dispatched ch \<and> seals ch' = seals ch)"
proof (cases "ch = new_chan")
  case True
  then show ?thesis by (simp add: new_chan_def closings_def)
next
  case False
  then have inv: "chan_inv ch" using reach_cases [OF assms(1)] by blast
  have "end_pending ch" using ordered_reach [OF assms(1) ordered_new] by (simp add: ordered_def)
  moreover have "chan_inv ch' \<and> ch_state ch' = Closed \<and> dispatched ch' = dispatched ch \<and> seals ch' = seals ch"
    if c: "ch_state ch = Closed"
    using assms(2)
  proof (induction rule: rtranclp_induct)
    case base
    then show ?case using inv c by simp
  next
    case (step x y)
    then have "\<not> ch_tls x" by (simp add: chan_inv_def)
    with step(2) have "calm x y" by (rule step_cases) (use step.IH in auto)
    then show ?case using step chan_inv_step by (auto simp: calm_def)
  qed
  ultimately show ?thesis using inv by (auto simp: chan_inv_def end_pending_def)
qed

subsection \<open>Where the keys come from\<close>

definition keys_agreed :: "chan_env \<Rightarrow> chan \<Rightarrow> bool" where
  "keys_agreed ce ch \<longleftrightarrow> (\<exists>payload hello privateKey serverNonce serverPayload material.
     parse_ClientHello (ce_codec ce) payload = Some hello \<and> hello_ok hello \<and>
     finishedTranscriptHash (ce_ssl ce) payload serverPayload = Returns (ch_transcriptHash ch) \<and>
     channel_material (ce_ssl ce) hello privateKey serverNonce (ch_appSessionId ch) (ch_transcriptHash ch) =
       Returns material \<and>
     ch_clientToServerKey ch = slice material 0 32 \<and> ch_serverToClientKey ch = slice material 32 32 \<and>
     ch_clientNoncePrefix ch = slice material 64 4 \<and> ch_serverNoncePrefix ch = slice material 68 4 \<and>
     ch_clientFinishedKey ch = slice material 72 32)"

definition finished_seen :: "chan_env \<Rightarrow> chan \<Rightarrow> bool" where
  "finished_seen ce ch \<longleftrightarrow> (\<exists>payload verify. parse_Finished (ce_codec ce) payload = Some verify \<and>
     hmacSha256 (ce_ssl ce) (ch_clientFinishedKey ch) (ch_transcriptHash ch) = Returns verify)"

definition keyed :: "chan_env \<Rightarrow> chan \<Rightarrow> bool" where
  "keyed ce ch \<longleftrightarrow> (ch_state ch \<in> {WaitClientFinished, Established} \<longrightarrow> keys_agreed ce ch) \<and>
     (ch_state ch = Established \<longrightarrow> finished_seen ce ch)"

lemma keyed_calm: "keyed ce ch \<Longrightarrow> calm ch ch' \<Longrightarrow> keyed ce ch'"
  unfolding keyed_def keys_agreed_def finished_seen_def calm_def core_def
  by (cases "ch_state ch' = Closed") auto

lemma keyed_hello: "hello_answered ce payload ch c \<Longrightarrow> keyed ce c"
  unfolding hello_answered_def keyed_def keys_agreed_def
  by (elim exE conjE) (simp add: post_job_def install_keys_def, blast)

lemma keyed_step:
  assumes "chan_step ce ch ch'" and "keyed ce ch" and "\<not> ch_tls ch"
  shows "keyed ce ch'"
  using assms(1,3)
proof (cases rule: step_cases)
  case Calm
  then show ?thesis using assms(2) keyed_calm by blast
next
  case Sealed
  show ?thesis by (rule keyed_calm [OF _ Sealed(3)])
    (use assms(2) in \<open>simp add: keyed_def keys_agreed_def finished_seen_def emit_def\<close>)
next
  case (Dispatched f t p)
  show ?thesis by (rule keyed_calm [OF _ Dispatched(3)])
    (use assms(2) in \<open>simp add: keyed_def keys_agreed_def finished_seen_def emit_def\<close>)
next
  case (Hello payload c)
  then show ?thesis using keyed_hello keyed_calm by blast
next
  case (Finished payload verify)
  have "keyed ce (ch\<lparr>ch_state := Established\<rparr>)"
    using assms(2) Finished(1-3) by (auto simp: keyed_def keys_agreed_def finished_seen_def)
  then show ?thesis using Finished(4) keyed_calm by blast
qed


end
