(* ===== verification/ChanRun.thy ===== *)
theory ChanRun
  imports ChanOrder
begin

text \<open>
  The application channel at work: a client that follows the protocol gets through the handshake,
  and what one end seals the other opens.
\<close>

definition ssl_works :: "openssl \<Rightarrow> bool" where
  "ssl_works o' \<longleftrightarrow> hmac_works o' \<and> (\<forall>d. ossl_sha256 o' d \<noteq> None) \<and> (\<forall>k d. ossl_sign o' k d \<noteq> None)"

lemma ssl_works_sha256: "ssl_works o' \<Longrightarrow> \<exists>h. sha256_bytes o' d = Returns h"
  by (auto simp: ssl_works_def sha256_bytes_def filled_def split: option.split)

lemma ssl_works_sign: "ssl_works o' \<Longrightarrow> length k = 32 \<Longrightarrow> \<exists>s. ed25519Sign o' k d = Returns s"
  by (auto simp: ssl_works_def ed25519Sign_def requireSize_def ED25519_KEY_SIZE_def filled_def split: option.split)

lemma ssl_works_hkdf:
  "ssl_works o' \<Longrightarrow> len \<le> 8160 \<Longrightarrow> \<exists>m. hkdfSha256 o' ikm salt info len = Returns m \<and> length m = len"
  using hkdf_value [of o' len] by (auto simp: ssl_works_def)

text \<open>The client's hello is answered.\<close>

definition good_hello :: "chan_env \<Rightarrow> hello_draws \<Rightarrow> bytes \<Rightarrow> bool" where
  "good_hello ce dr payload \<longleftrightarrow> length payload \<le> APP_MAX_HANDSHAKE_PAYLOAD \<and>
     (\<exists>hello f g. parse_ClientHello (ce_codec ce) payload = Some hello \<and> hello_ok hello \<and>
        hd_keypair dr = Some (f, g) \<and> hd_nonce dr \<noteq> None \<and> hd_session dr \<noteq> None \<and>
        (\<exists>secret. ossl_derive (ce_ssl ce) (buffer 32 f) (ah_client_ephemeral_public_key hello) = Some secret \<and>
           \<not> list_all (\<lambda>b. b = 0) secret))"

lemma hello_accepted:
  assumes "ssl_works (ce_ssl ce)" and "length (ce_identity ce) = 32" and "good_hello ce dr payload"
    and "ch_state ch = WaitClientHello"
  shows "\<exists>sp th material sid. length material = 136 \<and> hd_session dr = Some sid \<and>
    read_done ce dr (Accept (DEF_PROT_APP_CLIENT_HELLO, payload) rest) ch = (Returns (),
      (post_job (Job_Deliver DEF_PROT_APP_SERVER_HELLO sp)
        ((install_keys material (ch\<lparr>ch_reading := False, ch_appSessionId := buffer 16 sid,
            ch_transcriptHash := th\<rparr>))\<lparr>ch_state := WaitClientFinished\<rparr>))\<lparr>ch_reading := True\<rparr>)"
proof -
  from assms(3) obtain hello f g secret n sid where h:
      "length payload \<le> APP_MAX_HANDSHAKE_PAYLOAD" "parse_ClientHello (ce_codec ce) payload = Some hello"
      "hello_ok hello" "hd_keypair dr = Some (f, g)" "hd_nonce dr = Some n" "hd_session dr = Some sid"
      "ossl_derive (ce_ssl ce) (buffer 32 f) (ah_client_ephemeral_public_key hello) = Some secret"
      "\<not> list_all (\<lambda>b. b = 0) secret"
    unfolding good_hello_def by blast
  have draws: "generateX25519KeyPair (hd_keypair dr) = Returns (buffer 32 f, buffer 32 g)"
    "randomBytes (hd_nonce dr) APP_NONCE_LEN = Returns (buffer 32 n)"
    "randomBytes (hd_session dr) APP_SESSION_ID_LEN = Returns (buffer 16 sid)"
    by (simp_all add: h generateX25519KeyPair_def randomBytes_def filled_def X25519_KEY_SIZE_def
        APP_NONCE_LEN_def APP_SESSION_ID_LEN_def)
  obtain sp where sp: "server_hello ce payload (buffer 32 g) (buffer 32 n) (buffer 16 sid) = Returns sp"
    using ssl_works_sign [OF assms(1,2)] unfolding server_hello_def by (metis exc.case(2))
  obtain th where th: "finishedTranscriptHash (ce_ssl ce) payload sp = Returns th"
    using ssl_works_sha256 [OF assms(1)] unfolding finishedTranscriptHash_def by blast
  have secret: "x25519SharedSecret (ce_ssl ce) (buffer 32 f) (ah_client_ephemeral_public_key hello) = Returns secret"
    using h(3,7,8) by (simp add: x25519SharedSecret_def requireSize_def X25519_KEY_SIZE_def hello_ok_def
        APP_X25519_KEY_LEN_def)
  obtain salt where salt: "sha256_bytes (ce_ssl ce) (ah_client_nonce hello @ buffer 32 n) = Returns salt"
    using ssl_works_sha256 [OF assms(1)] by blast
  obtain m where m: "length m = 136"
    "channel_material (ce_ssl ce) hello (buffer 32 f) (buffer 32 n) (buffer 16 sid) th = Returns m"
    using ssl_works_hkdf [OF assms(1), of 136] unfolding channel_material_def secret salt exc.case by fastforce
  have "answer_hello ce dr payload hello (ch\<lparr>ch_reading := False\<rparr>) = post_job (Job_Deliver DEF_PROT_APP_SERVER_HELLO sp)
      ((install_keys m (ch\<lparr>ch_reading := False, ch_appSessionId := buffer 16 sid, ch_transcriptHash := th\<rparr>))
        \<lparr>ch_state := WaitClientFinished\<rparr>)"
    by (simp add: answer_hello_def draws sp th m(2) Let_def)
  then have "read_done ce dr (Accept (DEF_PROT_APP_CLIENT_HELLO, payload) rest) ch = (Returns (),
      (post_job (Job_Deliver DEF_PROT_APP_SERVER_HELLO sp)
        ((install_keys m (ch\<lparr>ch_reading := False, ch_appSessionId := buffer 16 sid,
            ch_transcriptHash := th\<rparr>))\<lparr>ch_state := WaitClientFinished\<rparr>))\<lparr>ch_reading := True\<rparr>)"
    using h(1-3) assms(4) by (simp add: read_done_def body_done_def handleApplicationHandshake_def
        handleClientHello_def Let_def) (simp add: post_job_def)
  with m(1) h(6) show ?thesis by blast
qed

lemma finished_accepted:
  assumes "ssl_works (ce_ssl ce)" and "ch_state ch = WaitClientFinished"
    and "length payload \<le> APP_MAX_HANDSHAKE_PAYLOAD"
    and "parse_Finished (ce_codec ce) payload =
      Some (mac (ce_ssl ce) (ch_clientFinishedKey ch) (ch_transcriptHash ch))"
  shows "read_done ce dr (Accept (DEF_PROT_APP_CLIENT_FINISHED, payload) rest) ch = (Returns (),
    (post_job (Job_Deliver DEF_PROT_APP_SERVER_FINISHED (ser_Finished (ce_codec ce)
       (mac (ce_ssl ce) (ch_serverFinishedKey ch) (ch_transcriptHash ch @
          mac (ce_ssl ce) (ch_clientFinishedKey ch) (ch_transcriptHash ch)))))
     (ch\<lparr>ch_state := Established\<rparr>))\<lparr>ch_reading := True\<rparr>)"
proof -
  have w: "hmac_works (ce_ssl ce)" using assms(1) by (simp add: ssl_works_def)
  show ?thesis
    using assms(2-4) length_mac [OF w]
    by (simp add: read_done_def body_done_def handleApplicationHandshake_def handleClientFinished_def
        Let_def hmac_mac [OF w] APP_FINISHED_LEN_def) (simp add: post_job_def)
qed

text \<open>
  C22. A client that follows the protocol gets a channel: from the state after the TLS handshake, a
  valid hello and a Finished with the HMAC of the handshake lead to the established state, with the
  two answers of the server queued in order and the connection reading on, as long as OpenSSL works
  and the shared secret is not zero.
\<close>

theorem handshake_completes:
  assumes "ssl_works (ce_ssl ce)" and "length (ce_identity ce) = 32" and "good_hello ce dr payload"
    and "ch_state ch = WaitClientHello"
    and "read_done ce dr (Accept (DEF_PROT_APP_CLIENT_HELLO, payload) rest) ch = (r1, ch1)"
    and "length fin \<le> APP_MAX_HANDSHAKE_PAYLOAD"
    and "parse_Finished (ce_codec ce) fin =
      Some (mac (ce_ssl ce) (ch_clientFinishedKey ch1) (ch_transcriptHash ch1))"
    and "read_done ce dr (Accept (DEF_PROT_APP_CLIENT_FINISHED, fin) rest') ch1 = (r2, ch2)"
  shows "r1 = Returns () \<and> r2 = Returns () \<and> ch_state ch2 = Established \<and> ch_reading ch2 \<and>
    (\<exists>sp verify. ch_jobs ch2 = ch_jobs ch @ [Job_Deliver DEF_PROT_APP_SERVER_HELLO sp,
       Job_Deliver DEF_PROT_APP_SERVER_FINISHED (ser_Finished (ce_codec ce) verify)] \<and>
       verify = mac (ce_ssl ce) (ch_serverFinishedKey ch1) (ch_transcriptHash ch1 @
         mac (ce_ssl ce) (ch_clientFinishedKey ch1) (ch_transcriptHash ch1)))"
proof -
  obtain sp th material sid where h: "r1 = Returns ()" "ch1 = (post_job (Job_Deliver DEF_PROT_APP_SERVER_HELLO sp)
        ((install_keys material (ch\<lparr>ch_reading := False, ch_appSessionId := buffer 16 sid,
            ch_transcriptHash := th\<rparr>))\<lparr>ch_state := WaitClientFinished\<rparr>))\<lparr>ch_reading := True\<rparr>"
    using hello_accepted [OF assms(1-4), of rest] assms(5) by auto
  have st: "ch_state ch1 = WaitClientFinished" unfolding h by (simp add: post_job_def)
  have jobs: "ch_jobs ch1 = ch_jobs ch @ [Job_Deliver DEF_PROT_APP_SERVER_HELLO sp]"
    unfolding h by (simp add: post_job_def install_keys_def)
  show ?thesis
    using finished_accepted [OF assms(1) st assms(6,7), of dr rest'] assms(8) h(1) jobs
    by (auto simp: post_job_def)
qed

subsection \<open>Sealing and opening\<close>

text \<open>What AES-GCM and the protobuf codec of the frames promise.\<close>

definition gcm_correct :: "openssl \<Rightarrow> bool" where
  "gcm_correct o' \<longleftrightarrow> (\<forall>k n p a c t. ossl_seal o' k n p a = Some (c, t) \<longrightarrow>
     length c = length p \<and> ossl_open o' k n c a (buffer 16 t) = Some (Some p))"

definition frames_roundtrip :: "app_codec \<Rightarrow> bool" where
  "frames_roundtrip cd \<longleftrightarrow> (\<forall>f. parse_EncryptedFrame cd (ser_EncryptedFrame cd f) = Some f)"

text \<open>\<open>b\<close> is the receiving end of what \<open>a\<close> sends, with nothing lost in between.\<close>

definition mirrors :: "chan \<Rightarrow> chan \<Rightarrow> bool" where
  "mirrors a b \<longleftrightarrow> ch_clientToServerKey b = ch_serverToClientKey a \<and>
     ch_clientNoncePrefix b = ch_serverNoncePrefix a \<and> ch_appSessionId b = ch_appSessionId a \<and>
     ch_receiveSequence b = ch_sendSequence a"

lemma encrypt_Returns:
  assumes "encryptBusinessFrame ce type payload a = (Returns frame, a')"
  obtains c t nonce where "ch_sendSequence a \<noteq> - 1"
    and "frameNonce (ch_serverNoncePrefix a) (ch_sendSequence a + 1) = Returns nonce"
    and "aes256GcmEncrypt (ce_ssl ce) (ch_serverToClientKey a) nonce (encodeType32 type @ payload)
      (frameAad (ch_appSessionId a) (ch_sendSequence a + 1)) = Returns (c, t)"
    and "frame = ser_EncryptedFrame (ce_codec ce) \<lparr>ef_version = APP_SECURITY_VERSION,
      ef_session_id = ch_appSessionId a, ef_sequence = ch_sendSequence a + 1, ef_ciphertext = c, ef_tag = t\<rparr>"
    and "a' = emit (Seal (ch_serverToClientKey a) nonce) (a\<lparr>ch_sendSequence := ch_sendSequence a + 1\<rparr>)"
  using assms by (auto simp: encryptBusinessFrame_def Let_def emit_def split: if_splits exc.splits)

text \<open>
  What one end seals the other opens: a business frame encrypted with the sending key, prefix and
  number of one channel is accepted by a channel that has them as its receiving ones, which passes
  exactly the type and payload on and is then ready for the next frame. Types of the security
  protocol itself are the exception.
\<close>

theorem sealed_frames_open:
  assumes "gcm_correct (ce_ssl ce)" and "frames_roundtrip (ce_codec ce)"
    and "encryptBusinessFrame ce type payload a = (Returns frame, a')" and "mirrors a b"
    and "type < DEF_PROT_APP_CLIENT_HELLO \<or> DEF_PROT_APP_ENCRYPTED_FRAME < type"
  shows "mirrors a' (handleEncryptedFrame ce frame b) \<and>
    handleEncryptedFrame ce frame b = emit (Dispatch type payload) (b\<lparr>ch_receiveSequence := ch_sendSequence a'\<rparr>)"
proof -
  obtain c t nonce where e: "ch_sendSequence a \<noteq> - 1"
    "frameNonce (ch_serverNoncePrefix a) (ch_sendSequence a + 1) = Returns nonce"
    "aes256GcmEncrypt (ce_ssl ce) (ch_serverToClientKey a) nonce (encodeType32 type @ payload)
      (frameAad (ch_appSessionId a) (ch_sendSequence a + 1)) = Returns (c, t)"
    "frame = ser_EncryptedFrame (ce_codec ce) \<lparr>ef_version = APP_SECURITY_VERSION,
      ef_session_id = ch_appSessionId a, ef_sequence = ch_sendSequence a + 1, ef_ciphertext = c, ef_tag = t\<rparr>"
    "a' = emit (Seal (ch_serverToClientKey a) nonce) (a\<lparr>ch_sendSequence := ch_sendSequence a + 1\<rparr>)"
    by (rule encrypt_Returns [OF assms(3)])
  let ?f = "\<lparr>ef_version = APP_SECURITY_VERSION, ef_session_id = ch_appSessionId a,
    ef_sequence = ch_sendSequence a + 1, ef_ciphertext = c, ef_tag = t\<rparr>"
  from e(3) obtain tag where s: "ossl_seal (ce_ssl ce) (ch_serverToClientKey a) nonce (encodeType32 type @ payload)
      (frameAad (ch_appSessionId a) (ch_sendSequence a + 1)) = Some (c, tag)" "t = buffer 16 tag"
    and sizes: "length (ch_serverToClientKey a) = 32" "length nonce = 12"
    by (auto simp: aes256GcmEncrypt_def requireSize_def crypto_sizes split: if_splits option.splits)
  have gcm: "length c = 4 + length payload"
    "ossl_open (ce_ssl ce) (ch_serverToClientKey a) nonce c
       (frameAad (ch_appSessionId a) (ch_sendSequence a + 1)) t = Some (Some (encodeType32 type @ payload))"
    using assms(1) s unfolding gcm_correct_def by auto
  have ok: "frame_ok b ?f"
    using e(1,2) assms(4) s(2) gcm(1)
    by (auto simp: frame_ok_def mirrors_def APP_GCM_TAG_LEN_def frameNonce_def split: if_splits)
  have opened: "open_frame ce ?f b = Returns (Some (encodeType32 type @ payload))"
    using assms(4) e(2) gcm(2) sizes s(2)
    by (simp add: open_frame_def mirrors_def aes256GcmDecrypt_def requireSize_def crypto_sizes returned_def)
  have parsed: "parse_EncryptedFrame (ce_codec ce) frame = Some ?f"
    using assms(2) e(4) by (simp add: frames_roundtrip_def)
  have "handleEncryptedFrame ce frame b = emit (Dispatch type payload)
      (b\<lparr>ch_receiveSequence := ch_sendSequence a + 1\<rparr>)"
    using assms(5) by (auto simp: handleEncryptedFrame_def parsed ok opened Let_def)
  then show ?thesis using e(5) assms(4) by (simp add: mirrors_def emit_def)
qed

subsection \<open>A run\<close>

text \<open>A codec of numbers in unary and byte strings behind their length, and an OpenSSL that works.\<close>

definition enc_nat :: "nat \<Rightarrow> bytes" where
  "enc_nat n = replicate n 1 @ [0]"

definition dec_nat :: "bytes \<Rightarrow> nat \<times> bytes" where
  "dec_nat s = (length (takeWhile (\<lambda>b. b = 1) s), drop 1 (dropWhile (\<lambda>b. b = 1) s))"

definition enc_bytes :: "bytes \<Rightarrow> bytes" where
  "enc_bytes b = enc_nat (length b) @ b"

definition dec_bytes :: "bytes \<Rightarrow> bytes \<times> bytes" where
  "dec_bytes s = (let (n, r) = dec_nat s in (take n r, drop n r))"

lemma dec_enc [simp]: "dec_nat (enc_nat n @ r) = (n, r)" "dec_bytes (enc_bytes b @ r) = (b, r)"
proof -
  have "takeWhile (\<lambda>b. b = 1) (replicate n 1 @ 0 # r) = replicate n (1 :: byte)"
    "dropWhile (\<lambda>b. b = 1) (replicate n 1 @ 0 # r) = (0 :: byte) # r" for n r
    by (induction n) simp_all
  then show n: "dec_nat (enc_nat n @ r) = (n, r)" for n r by (simp add: dec_nat_def enc_nat_def)
  show "dec_bytes (enc_bytes b @ r) = (b, r)" by (simp add: dec_bytes_def enc_bytes_def n)
qed

definition enc_frame :: "AppEncryptedFrame \<Rightarrow> bytes" where
  "enc_frame f = enc_nat (unat (ef_version f)) @ enc_nat (unat (ef_sequence f)) @
     enc_bytes (ef_session_id f) @ enc_bytes (ef_ciphertext f) @ enc_bytes (ef_tag f) @ []"

definition dec_frame :: "bytes \<Rightarrow> AppEncryptedFrame option" where
  "dec_frame s =
     (let (v, s1) = dec_nat s; (n, s2) = dec_nat s1; (i, s3) = dec_bytes s2; (c, s4) = dec_bytes s3;
          (t, s5) = dec_bytes s4
      in Some \<lparr>ef_version = of_nat v, ef_session_id = i, ef_sequence = of_nat n, ef_ciphertext = c, ef_tag = t\<rparr>)"

lemma dec_enc_frame: "dec_frame (enc_frame f) = Some f"
  unfolding dec_frame_def enc_frame_def Let_def by (simp del: append_Nil2)

definition sample_codec :: app_codec where
  "sample_codec = \<lparr>parse_ClientHello = \<lambda>_. Some \<lparr>ah_version = 1,
       ah_client_ephemeral_public_key = replicate 32 1, ah_client_nonce = replicate 32 1,
       ah_client_random_id = replicate 16 1, ah_cipher_suite = 1\<rparr>,
     ser_ServerHello = \<lambda>_. [], parse_Finished = \<lambda>_. Some (buffer 32 (\<lambda>_. 0)), ser_Finished = \<lambda>_. [],
     parse_EncryptedFrame = dec_frame, ser_EncryptedFrame = enc_frame\<rparr>"

definition sample_chan_env :: chan_env where
  "sample_chan_env = \<lparr>ce_ssl = sample_ssl\<lparr>ossl_hmac := \<lambda>_ _. Some (\<lambda>_. 0)\<rparr>, ce_codec = sample_codec,
     ce_keyId = 1, ce_identity = replicate 32 5\<rparr>"

definition sample_draws :: hello_draws where
  "sample_draws = \<lparr>hd_keypair = Some (\<lambda>_. 1, \<lambda>_. 1), hd_nonce = Some (\<lambda>_. 0), hd_session = Some (\<lambda>_. 0)\<rparr>"

lemma sample_env_works:
  "ssl_works (ce_ssl sample_chan_env)" "length (ce_identity sample_chan_env) = 32"
  "gcm_correct (ce_ssl sample_chan_env)" "frames_roundtrip (ce_codec sample_chan_env)"
  by (simp_all add: ssl_works_def hmac_works_def sample_chan_env_def sample_ssl_def gcm_correct_def
      frames_roundtrip_def sample_codec_def dec_enc_frame)

lemma sample_mac: "mac (ce_ssl sample_chan_env) k d = buffer 32 (\<lambda>_. 0)"
  by (simp add: mac_def hmacSha256_def filled_def sample_chan_env_def SHA256_SIZE_def)

lemma sample_hello: "good_hello sample_chan_env sample_draws []"
  by (simp add: good_hello_def sample_chan_env_def sample_codec_def hello_ok_def sample_draws_def sample_ssl_def
      prot_defs buffer_def upt_conv_Cons)

lemma sample_finished:
  "parse_Finished (ce_codec sample_chan_env) [] = Some (mac (ce_ssl sample_chan_env) k d)"
  by (simp add: sample_mac) (simp add: sample_chan_env_def sample_codec_def)

lemma slice_length: "length m = 136 \<Longrightarrow> a + n \<le> 136 \<Longrightarrow> length (slice m a n) = n"
  by (simp add: slice_def)

text \<open>Established, nothing sent or received, keys of the right sizes.\<close>

definition hello_job :: "chan_job \<Rightarrow> bool" where
  "hello_job j \<longleftrightarrow> (\<exists>t p. j = Job_Deliver t p \<and> DEF_PROT_APP_CLIENT_HELLO \<le> t \<and> t \<le> DEF_PROT_APP_SERVER_FINISHED)"

definition ready :: "chan \<Rightarrow> bool" where
  "ready ch \<longleftrightarrow> ch_state ch = Established \<and> ch_reading ch \<and> ch_receiveSequence ch = 0 \<and> ch_sendSequence ch = 0 \<and>
     dispatched ch = [] \<and> seals ch = [] \<and> length (ch_clientToServerKey ch) = 32 \<and>
     length (ch_clientNoncePrefix ch) = 4 \<and> length (ch_serverToClientKey ch) = 32 \<and>
     length (ch_serverNoncePrefix ch) = 4 \<and> ch_appSessionId ch = buffer 16 (\<lambda>_. 0) \<and>
     list_all hello_job (ch_jobs ch) \<and> \<not> ch_tls ch"

lemma sample_established: "\<exists>ch. (chan_step sample_chan_env)\<^sup>*\<^sup>* new_chan ch \<and> ready ch"
proof -
  let ?E = sample_chan_env and ?c1 = "tls_done True new_chan"
  have s1: "chan_step ?E new_chan ?c1" by (rule chan_step.Tls [OF _ refl]) (simp add: new_chan_def)
  have st1: "ch_state ?c1 = WaitClientHello" "ch_reading ?c1" by (simp_all add: tls_done_def)
  obtain sp th m where m: "length m = 136" and r2: "read_done ?E sample_draws
      (Accept (DEF_PROT_APP_CLIENT_HELLO, []) []) ?c1 = (Returns (),
      (post_job (Job_Deliver DEF_PROT_APP_SERVER_HELLO sp)
        ((install_keys m (?c1\<lparr>ch_reading := False, ch_appSessionId := buffer 16 (\<lambda>_. 0),
            ch_transcriptHash := th\<rparr>))\<lparr>ch_state := WaitClientFinished\<rparr>))\<lparr>ch_reading := True\<rparr>)"
    (is "_ = (_, ?c2)")
    using hello_accepted [OF sample_env_works(1,2) sample_hello st1(1), of "[]"] by (auto simp: sample_draws_def)
  have s2: "chan_step ?E ?c1 ?c2" by (rule chan_step.Read [OF st1(2) r2])
  have st2: "ch_state ?c2 = WaitClientFinished" "ch_reading ?c2" by (simp_all add: post_job_def)
  obtain v c3 where r3: "read_done ?E sample_draws (Accept (DEF_PROT_APP_CLIENT_FINISHED, []) []) ?c2 =
      (Returns (), c3)" and c3: "c3 = (post_job (Job_Deliver DEF_PROT_APP_SERVER_FINISHED v) (?c2\<lparr>ch_state := Established\<rparr>))\<lparr>ch_reading := True\<rparr>"
    using finished_accepted [OF sample_env_works(1) st2(1) _ sample_finished, of sample_draws "[]"] by fastforce
  have s3: "chan_step ?E ?c2 c3" by (rule chan_step.Read [OF st2(2) r3])
  have "(chan_step ?E)\<^sup>*\<^sup>* new_chan ?c1" by (rule r_into_rtranclp) (rule s1)
  then have "(chan_step ?E)\<^sup>*\<^sup>* new_chan ?c2" by (rule rtranclp.rtrancl_into_rtrancl) (rule s2)
  then have reach: "(chan_step ?E)\<^sup>*\<^sup>* new_chan c3" by (rule rtranclp.rtrancl_into_rtrancl) (rule s3)
  show ?thesis
    by (rule exI, rule conjI, rule reach)
      (simp add: ready_def c3 post_job_def install_keys_def slice_length m tls_done_def new_chan_def dispatched_def seals_def
        hello_job_def prot_defs)
qed

text \<open>A mirrored channel, its first frame, and its step.\<close>

definition sender_of :: "chan \<Rightarrow> chan" where
  "sender_of ch = ch\<lparr>ch_serverToClientKey := ch_clientToServerKey ch,
     ch_serverNoncePrefix := ch_clientNoncePrefix ch, ch_sendSequence := ch_receiveSequence ch\<rparr>"

lemma mirrors_sender: "mirrors (sender_of ch) ch"
  by (simp add: mirrors_def sender_of_def)

lemma sample_encrypts:
  assumes "length (ch_serverToClientKey a) = 32" and "length (ch_serverNoncePrefix a) = 4" and "ch_sendSequence a = 0"
  obtains f where "encryptBusinessFrame sample_chan_env t p a = (Returns f,
    emit (Seal (ch_serverToClientKey a) (appendU64 (ch_serverNoncePrefix a) 1)) (a\<lparr>ch_sendSequence := 1\<rparr>))"
  using assms by (simp add: encryptBusinessFrame_def frameNonce_def Let_def aes256GcmEncrypt_def requireSize_def
      crypto_sizes sample_chan_env_def sample_ssl_def emit_def)

theorem sealed_frames_open_witness:
  "\<exists>ch a frame a'. encryptBusinessFrame sample_chan_env 1003 [7] a = (Returns frame, a') \<and>
     handleEncryptedFrame sample_chan_env frame ch = emit (Dispatch 1003 [7]) (ch\<lparr>ch_receiveSequence := 1\<rparr>)"
proof -
  obtain ch where "ready ch" using sample_established by blast
  then have ch: "length (ch_clientToServerKey ch) = 32" "length (ch_clientNoncePrefix ch) = 4"
    "ch_receiveSequence ch = 0" by (simp_all add: ready_def)
  obtain f where f: "encryptBusinessFrame sample_chan_env 1003 [7] (sender_of ch) = (Returns f,
      emit (Seal (ch_serverToClientKey (sender_of ch)) (appendU64 (ch_serverNoncePrefix (sender_of ch)) 1))
        ((sender_of ch)\<lparr>ch_sendSequence := 1\<rparr>))"
    by (rule sample_encrypts [of "sender_of ch"]) (use ch in \<open>simp_all add: sender_of_def\<close>)
  show ?thesis
    using sealed_frames_open [OF sample_env_works(3,4) f mirrors_sender] f by (auto simp: prot_defs)
qed

lemma sample_opens:
  assumes "\<not> (DEF_PROT_APP_CLIENT_HELLO \<le> type \<and> type \<le> DEF_PROT_APP_ENCRYPTED_FRAME)"
  obtains ch ch' where "(chan_step sample_chan_env)\<^sup>*\<^sup>* new_chan ch" and "chan_step sample_chan_env ch ch'"
    and "dispatched ch = []" and "ch_state ch' = Established"
    and "dispatched ch' = [(type, payload)]"
proof -
  obtain ch where r: "(chan_step sample_chan_env)\<^sup>*\<^sup>* new_chan ch" "ready ch" using sample_established by blast
  then have ch: "(chan_step sample_chan_env)\<^sup>*\<^sup>* new_chan ch" "ch_state ch = Established" "ch_reading ch"
    "length (ch_clientToServerKey ch) = 32" "length (ch_clientNoncePrefix ch) = 4"
    "ch_receiveSequence ch = 0" "dispatched ch = []" by (simp_all add: ready_def)
  let ?c = "ch\<lparr>ch_reading := False\<rparr>"
  let ?f = "\<lparr>ef_version = 1, ef_session_id = ch_appSessionId ch, ef_sequence = 1,
    ef_ciphertext = encodeType32 type @ payload, ef_tag = buffer 16 (\<lambda>i. of_nat i)\<rparr>"
  let ?d = "emit (Dispatch type payload) (?c\<lparr>ch_receiveSequence := 1\<rparr>)"
  have h: "handleEncryptedFrame sample_chan_env (enc_frame ?f) ?c = ?d"
    using ch(2-6) assms by (auto simp: handleEncryptedFrame_def frame_ok_def open_frame_def frameNonce_def aes256GcmDecrypt_def
        requireSize_def crypto_sizes returned_def sample_chan_env_def sample_ssl_def sample_codec_def dec_enc_frame
        Let_def APP_SECURITY_VERSION_def APP_GCM_TAG_LEN_def)
  have "read_done sample_chan_env sample_draws (Accept (DEF_PROT_APP_ENCRYPTED_FRAME, enc_frame ?f) []) ch =
      (Returns (), ?d\<lparr>ch_reading := True\<rparr>)"
    using ch(2) h by (simp add: read_done_def body_done_def Let_def)
  then have "chan_step sample_chan_env ch (?d\<lparr>ch_reading := True\<rparr>)" by (rule chan_step.Read [OF ch(3)])
  moreover have "dispatched (?d\<lparr>ch_reading := True\<rparr>) = [(type, payload)]"
    using ch(7) by (simp add: dispatched_def emit_def)
  moreover have "ch_state (?d\<lparr>ch_reading := True\<rparr>) = Established" using ch(2) by simp
  ultimately show thesis using that ch(1,7) by blast
qed

lemma sample_dispatches:
  obtains ch ch' where "(chan_step sample_chan_env)\<^sup>*\<^sup>* new_chan ch" and "chan_step sample_chan_env ch ch'"
    and "dispatched ch = []" and "dispatched ch' = [(1003, [7])]"
  by (rule sample_opens [of 1003 "[7]"]) (simp add: prot_defs)

theorem channel_dispatch_authentic_witness:
  "\<exists>ch f. (chan_step sample_chan_env)\<^sup>*\<^sup>* new_chan ch \<and> authentic sample_chan_env ch f 1003 [7] \<and> ef_sequence f = 1"
proof -
  obtain ch ch' where c: "(chan_step sample_chan_env)\<^sup>*\<^sup>* new_chan ch" "chan_step sample_chan_env ch ch'"
    "dispatched ch = []" "dispatched ch' = [(1003, [7])]" by (rule sample_dispatches)
  have "dispatched ch' \<noteq> dispatched ch" using c(3,4) by simp
  from channel_dispatch_authentic [OF c(1,2) this] obtain f where
    "authentic sample_chan_env ch f 1003 [7]" "unat (ef_sequence f) = 1" using c(3,4) by auto
  then show ?thesis using c(1) by (metis unsigned_1 word_unat_eq_iff)
qed

theorem handshake_completes_witness:
  "ch_state (snd (read_done sample_chan_env sample_draws (Accept (DEF_PROT_APP_CLIENT_FINISHED, []) [])
     (snd (read_done sample_chan_env sample_draws (Accept (DEF_PROT_APP_CLIENT_HELLO, []) [])
       (tls_done True new_chan))))) = Established"
proof -
  have st: "ch_state (tls_done True new_chan) = WaitClientHello" by (simp add: tls_done_def)
  show ?thesis
    using handshake_completes [OF sample_env_works(1,2) sample_hello st prod.collapse [symmetric] _
        sample_finished prod.collapse [symmetric], of "[]" "[]"] by simp
qed


theorem channel_end_reported_once_witness:
  "closings (tls_done False new_chan) = 1 \<and> ch_state (tls_done False new_chan) = Closed"
proof -
  have "chan_step sample_chan_env new_chan (tls_done False new_chan)"
    by (rule chan_step.Tls [OF _ refl]) (simp add: new_chan_def)
  then have r: "(chan_step sample_chan_env)\<^sup>*\<^sup>* new_chan (tls_done False new_chan)" by (rule r_into_rtranclp)
  have "ch_state (tls_done False new_chan) = Closed" "ch_jobs (tls_done False new_chan) = []"
    by (simp_all add: tls_done_def onClosed_def new_chan_def emit_def)
  then show ?thesis using channel_end_reported_once [OF r rtranclp.rtrancl_refl] by simp
qed

text \<open>A channel that has run all its jobs, and one frame more.\<close>

lemma enqueue_keeps:
  "core (enqueueRawFrame t p ch) = core ch" "ch_jobs (enqueueRawFrame t p ch) = ch_jobs ch"
  "seals (enqueueRawFrame t p ch) = seals ch" "dispatched (enqueueRawFrame t p ch) = dispatched ch"
  "ch_tls (enqueueRawFrame t p ch) = ch_tls ch" "ch_reading (enqueueRawFrame t p ch) = ch_reading ch"
  by (simp_all add: enqueueRawFrame_def doWrite_def Let_def)
    (simp_all add: core_def emit_def seals_def dispatched_def split: list.split)

lemma drain:
  assumes "ready ch"
  shows "\<exists>ch'. (chan_step sample_chan_env)\<^sup>*\<^sup>* ch ch' \<and> ready ch' \<and> ch_jobs ch' = []"
  using assms
proof (induction "ch_jobs ch" arbitrary: ch)
  case Nil
  then show ?case by (intro exI [of _ ch]) simp
next
  case (Cons j js)
  obtain t p where j: "j = Job_Deliver t p" "DEF_PROT_APP_CLIENT_HELLO \<le> t" "t \<le> DEF_PROT_APP_SERVER_FINISHED"
    using Cons.prems by (auto simp: ready_def hello_job_def simp flip: Cons.hyps(2))
  let ?c = "enqueueRawFrame t p (ch\<lparr>ch_jobs := js\<rparr>)"
  have s: "chan_step sample_chan_env ch ?c"
    by (rule chan_step.Job [OF Cons.hyps(2) [symmetric]]) (simp add: run_job_def run_deliver_def j)
  have "core ?c = core ch" by (simp add: enqueue_keeps) (simp add: core_def)
  moreover have "ch_jobs ?c = js" "seals ?c = seals ch" "dispatched ?c = dispatched ch" "ch_tls ?c = ch_tls ch"
    "ch_reading ?c = ch_reading ch" by (simp_all add: enqueue_keeps) (simp_all add: seals_def dispatched_def)
  moreover have "list_all hello_job js" using Cons.prems by (simp add: ready_def flip: Cons.hyps(2))
  ultimately have "js = ch_jobs ?c" "ready ?c" using Cons.prems by (simp_all add: ready_def core_def)
  from Cons.hyps(1) [OF this] show ?case using s by (meson converse_rtranclp_into_rtranclp)
qed

lemma post_and_seal:
  assumes "ready ch" and "ch_jobs ch = []"
  shows "\<exists>ch'. (chan_step sample_chan_env)\<^sup>*\<^sup>* ch ch' \<and> length (seals ch') = 1"
proof -
  let ?j = "Job_Deliver 1003 []" and ?E = sample_chan_env
  obtain f where f: "encryptBusinessFrame ?E 1003 [] ch = (Returns f,
      emit (Seal (ch_serverToClientKey ch) (appendU64 (ch_serverNoncePrefix ch) 1)) (ch\<lparr>ch_sendSequence := 1\<rparr>))"
    using sample_encrypts [of ch 1003 "[]"] assms(1) unfolding ready_def by metis
  have t: "\<not> ch_tls ch" using assms(1) by (simp add: ready_def)
  have "ch\<lparr>ch_jobs := []\<rparr> = ch" using assms(2) by (cases ch) simp
  then have same: "(post_job ?j ch)\<lparr>ch_jobs := []\<rparr> = ch" by (simp add: post_job_def)
  have jobs: "ch_jobs (post_job ?j ch) = [?j]" using assms(2) by (simp add: post_job_def)
  have s1: "chan_step ?E ch (post_job ?j ch)" by (rule chan_step.Post [OF t refl])
  have s2: "chan_step ?E (post_job ?j ch) (run_job ?E ?j ch)"
    by (rule chan_step.Job [OF jobs]) (simp add: same)
  have "length (seals (run_job ?E ?j ch)) = 1"
    using assms(1) by (simp add: run_job_def run_deliver_def f prot_defs ready_def enqueue_keeps)
      (simp add: seals_def)
  with s1 s2 show ?thesis by (meson converse_rtranclp_into_rtranclp rtranclp.rtrancl_refl)
qed

lemma sample_sealed: "\<exists>ch. (chan_step sample_chan_env)\<^sup>*\<^sup>* new_chan ch \<and> length (seals ch) = 1"
  using sample_established drain post_and_seal by (meson rtranclp_trans)

theorem channel_nonces_distinct_witness:
  "\<exists>ch. (chan_step sample_chan_env)\<^sup>*\<^sup>* new_chan ch \<and> length (seals ch) = 1 \<and> distinct (seals ch)"
  using sample_sealed channel_nonces_distinct by blast

theorem writes_in_order_witness:
  "\<exists>ch. (chan_step sample_chan_env)\<^sup>*\<^sup>* new_chan ch \<and> ready ch \<and> frames (started ch @ tl (ch_writeQueue ch))"
proof -
  obtain ch where r: "(chan_step sample_chan_env)\<^sup>*\<^sup>* new_chan ch" "ready ch" using sample_established by blast
  have "started new_chan @ tl (ch_writeQueue new_chan) = []" by (simp add: started_def new_chan_def)
  then show ?thesis using writes_in_order [OF rtranclp.rtrancl_refl r(1)] r by auto
qed

end
