(* ===== verification/HttpFiles.thy ===== *)
theory HttpFiles
  imports MessageHandler Sha256
begin

text \<open>
  \<open>HttpFileServer\<close>: upload and download of files over HTTPS and the clearing of uploads nobody
  claimed. The files on disk are a map from paths to contents; whether an operation of the file
  system succeeds, and what of a write reaches the disk, is part of the environment. The HTTP library
  is outside: a request is its headers and the matched part of its path, an upload the chunks the
  library hands to the receiver.
\<close>

subsection \<open>Media formats and names\<close>

definition imageExtForBytes :: "bytes \<Rightarrow> string" where
  "imageExtForBytes p =
     (if 8 \<le> length p \<and> take 8 p = [0x89, 0x50, 0x4E, 0x47, 0x0D, 0x0A, 0x1A, 0x0A] then ''.png''
      else if 3 \<le> length p \<and> take 3 p = [0xFF, 0xD8, 0xFF] then ''.jpg''
      else if 4 \<le> length p \<and> take 4 p = [0x47, 0x49, 0x46, 0x38] then ''.gif''
      else if 2 \<le> length p \<and> take 2 p = [0x42, 0x4D] then ''.bmp''
      else if 12 \<le> length p \<and> take 4 p = [0x52, 0x49, 0x46, 0x46] \<and>
              take 4 (drop 8 p) = [0x57, 0x45, 0x42, 0x50] then ''.webp''
      else ''.bin'')"

definition isalnum :: "char \<Rightarrow> bool" where
  "isalnum c \<longleftrightarrow> between CHR ''0'' CHR ''9'' c \<or> between CHR ''a'' CHR ''z'' c \<or> between CHR ''A'' CHR ''Z'' c"

definition isSafeFileId :: "string \<Rightarrow> bool" where
  "isSafeFileId fid \<longleftrightarrow> fid \<noteq> [] \<and>
     list_all (\<lambda>c. isalnum c \<or> c = CHR ''.'' \<or> c = CHR ''_'' \<or> c = CHR ''-'') fid \<and>
     \<not> list_ex (\<lambda>i. take 2 (drop i fid) = ''..'') [0..<length fid]"

text \<open>\<open>path::filename\<close> and \<open>path::extension\<close>.\<close>

definition filename :: "string \<Rightarrow> string" where
  "filename p = rev (takeWhile (\<lambda>c. c \<noteq> CHR ''/'') (rev p))"

definition extension :: "string \<Rightarrow> string" where
  "extension p =
     (let f = filename p; ext = rev (takeWhile (\<lambda>c. c \<noteq> CHR ''.'') (rev f)) in
      if f = ''.'' \<or> f = ''..'' \<or> length f \<le> length ext + 1 then [] else CHR ''.'' # ext)"

definition guessContentType :: "string \<Rightarrow> string" where
  "guessContentType path =
     (let ext = extension path in
      if ext = ''.png'' then ''image/png''
      else if ext = ''.jpg'' \<or> ext = ''.jpeg'' then ''image/jpeg''
      else if ext = ''.gif'' then ''image/gif''
      else if ext = ''.bmp'' then ''image/bmp''
      else if ext = ''.webp'' then ''image/webp''
      else ''application/octet-stream'')"

text \<open>\<open>std::stoi\<close> and \<open>std::stoll\<close>.\<close>

definition stoi :: "string \<Rightarrow> int option" where
  "stoi s = (case stol s of None \<Rightarrow> None | Some v \<Rightarrow> if - (2 ^ 31) \<le> v \<and> v < 2 ^ 31 then Some v else None)"

subsection \<open>Requests, answers, files\<close>

record http_request =
  rq_header :: "string \<Rightarrow> string"
  rq_match :: string

record http_response =
  rs_status :: int
  rs_content :: string
  rs_headers :: "(string \<times> string) list"
  rs_file :: "(string \<times> string) option"

text \<open>A status of -1 is one the handler leaves to the library, which sends 200 or 206.\<close>

definition new_response :: http_response where
  "new_response = \<lparr>rs_status = - 1, rs_content = [], rs_headers = [], rs_file = None\<rparr>"

record upload_body =
  ub_chunks :: "bytes list"
  ub_complete :: bool

record http_env =
  he_t :: tenv
  he_dir :: string
  he_open_ok :: bool
  he_write :: "bytes \<Rightarrow> bytes"
  he_rename_ok :: bool
  he_copy_ok :: bool
  he_remove_ok :: bool

record files =
  f_disk :: "(string, bytes) umap"
  f_counter :: nat

definition remove_file :: "http_env \<Rightarrow> string \<Rightarrow> files \<Rightarrow> files" where
  "remove_file e p f = (if he_remove_ok e then f\<lparr>f_disk := udel p (f_disk f)\<rparr> else f)"

text \<open>A rename, or when it fails a copy and a removal, whose own failures are ignored.\<close>

definition move_file :: "http_env \<Rightarrow> string \<Rightarrow> string \<Rightarrow> bytes \<Rightarrow> files \<Rightarrow> files" where
  "move_file e src dst c f =
     (if he_rename_ok e then f\<lparr>f_disk := uput dst c (udel src (f_disk f))\<rparr>
      else remove_file e src (if he_copy_ok e then f\<lparr>f_disk := uput dst c (f_disk f)\<rparr> else f))"

subsection \<open>Authentication\<close>

definition authenticate :: "tenv \<Rightarrow> http_request \<Rightarrow> dbconn \<Rightarrow> (int \<times> string) option exc" where
  "authenticate e q c =
     (let h = rq_header q ''Authorization'' in
      if length h \<le> 7 \<or> take 7 h \<noteq> ''Bearer '' then Returns None
      else let token = drop 7 h; deviceId = rq_header q ''X-Device-Id'' in
        if deviceId = [] \<or> 128 < length deviceId then Returns None
        else case validateAccess e token [] deviceId c of
          Throws \<Rightarrow> Throws
        | Returns None \<Rightarrow> Returns None
        | Returns (Some (u, _, _)) \<Rightarrow> Returns (Some (u, deviceId)))"

subsection \<open>Upload\<close>

record receiving =
  rx_received :: int
  rx_head :: bytes
  rx_written :: bytes
  rx_hasher :: sha

text \<open>The receiver: it stops the upload when it gets too long.\<close>

fun receive :: "bytes list \<Rightarrow> receiving \<Rightarrow> bool \<times> receiving" where
  "receive [] st = (True, st)"
| "receive (d # ds) st =
     (let st1 = st\<lparr>rx_received := rx_received st + int (length d)\<rparr> in
      if FILE_MAX_SIZE < rx_received st1 then (False, st1)
      else receive ds (st1\<lparr>
        rx_head := (if length (rx_head st1) < 16
                    then rx_head st1 @ take (min (length d) (16 - length (rx_head st1))) d
                    else rx_head st1),
        rx_written := rx_written st1 @ d, rx_hasher := sha_update d (rx_hasher st1)\<rparr>))"

definition start_receiving :: receiving where
  "start_receiving = \<lparr>rx_received = 0, rx_head = [], rx_written = [], rx_hasher = sha_reset\<rparr>"

text \<open>The checks of the headers: the status that refuses, or name, receiver and size.\<close>

definition upload_headers ::
  "tenv \<Rightarrow> http_request \<Rightarrow> int \<Rightarrow> dbconn \<Rightarrow> int + (string \<times> int \<times> int)" where
  "upload_headers e q u c =
     (let safeName = filename (rq_header q ''X-File-Name'') in
      if safeName = [] \<or> 255 < length safeName then Inl 400
      else case stoi (rq_header q ''X-Receiver-Id'') of
        None \<Rightarrow> Inl 400
      | Some rcv \<Rightarrow>
          if \<not> isFriend (sql e) u rcv c then Inl 403
          else let h = rq_header q ''Content-Length'';
                   declaredSize = (if h = [] then - 1 else case stol h of None \<Rightarrow> - 1 | Some v \<Rightarrow> v)
               in if declaredSize < 0 \<or> FILE_MAX_SIZE < declaredSize then Inl 413
                  else Inr (safeName, rcv, declaredSize))"

definition is_image :: "http_request \<Rightarrow> bool" where
  "is_image q \<longleftrightarrow> starts_with ''image/'' (rq_header q ''Content-Type'')"

definition upload_id :: "tenv \<Rightarrow> int \<Rightarrow> int \<Rightarrow> string \<Rightarrow> nat \<Rightarrow> string" where
  "upload_id e u rcv safeName n =
     sha256Hex (int_dec u @ ''|'' @ int_dec rcv @ ''|'' @ safeName @ ''|'' @ int_dec (now e) @ ''|'' @ nat_dec n)"

text \<open>Where the received file goes, and the files after it is there.\<close>

definition place_upload ::
  "http_env \<Rightarrow> bool \<Rightarrow> string \<Rightarrow> string \<Rightarrow> string \<Rightarrow> string \<Rightarrow> bytes \<Rightarrow> bytes \<Rightarrow> files \<Rightarrow> string \<times> files" where
  "place_upload e img fid safeName sha tmpPath head content' f =
     (if img
      then let finalPath = he_dir e @ ''/img/'' @ sha @ imageExtForBytes head in
        (finalPath, if uget (f_disk f) finalPath \<noteq> None then remove_file e tmpPath f
                    else move_file e tmpPath finalPath content' f)
      else let finalPath = he_dir e @ ''/file/'' @ fid @ ''_'' @ safeName in
        (finalPath, move_file e tmpPath finalPath content' f))"

definition upload_answer :: "string \<Rightarrow> string \<Rightarrow> int \<Rightarrow> string \<Rightarrow> http_response" where
  "upload_answer fid sha received contentType' = new_response\<lparr>rs_status := 200,
     rs_content := ''{\"file_id\":\"'' @ fid @ ''\",\"sha256\":\"'' @ sha @ ''\",\"size\":'' @ int_dec received @
       '',\"content_type\":\"'' @ contentType' @ ''\"}''\<rparr>"

definition refuse :: "int \<Rightarrow> http_response" where
  "refuse status = new_response\<lparr>rs_status := status\<rparr>"

definition handleUpload ::
  "http_env \<Rightarrow> http_request \<Rightarrow> upload_body \<Rightarrow> world \<Rightarrow> files \<Rightarrow> http_response exc \<times> world \<times> files" where
  "handleUpload e q b w f =
     (case authenticate (he_t e) q (db w) of
        Throws \<Rightarrow> (Throws, w, f)
      | Returns None \<Rightarrow> (Returns (refuse 401), w, f)
      | Returns (Some (u, _)) \<Rightarrow>
          (case upload_headers (he_t e) q u (db w) of
             Inl status \<Rightarrow> (Returns (refuse status), w, f)
           | Inr (safeName, rcv, declaredSize) \<Rightarrow>
               let fid = upload_id (he_t e) u rcv safeName (f_counter f);
                   f1 = f\<lparr>f_counter := f_counter f + 1\<rparr>;
                   tmpPath = he_dir e @ (if is_image q then ''/img/tmp'' else ''/file/tmp'') @ ''/'' @ fid @ ''.part''
               in if \<not> he_open_ok e then (Returns (refuse 500), w, f1)
                  else case receive (ub_chunks b) start_receiving of
                    (accepted, st) \<Rightarrow>
                      let content' = he_write e (rx_written st);
                          f2 = f1\<lparr>f_disk := uput tmpPath content' (f_disk f1)\<rparr>
                      in if \<not> (accepted \<and> ub_complete b) \<or> rx_received st \<noteq> declaredSize
                         then (Returns (refuse 400), w, remove_file e tmpPath f2)
                         else let sha = toHex (sha_final (rx_hasher st));
                                  (finalPath, f3) = place_upload e (is_image q) fid safeName sha tmpPath
                                    (rx_head st) content' f2;
                                  contentType' = rq_header q ''Content-Type'';
                                  r = \<lparr>up_uploaderId = u, up_receiverId = rcv, up_mediaPath = finalPath,
                                       up_sha256 = sha, up_size = rx_received st, up_contentType = contentType',
                                       up_uploadedAt = now (he_t e)\<rparr>
                              in (Returns (upload_answer fid sha (rx_received st) contentType'),
                                  w\<lparr>uploads := uput fid r (uploads w)\<rparr>, f3)))"

subsection \<open>Download\<close>

definition handleDownload :: "http_env \<Rightarrow> http_request \<Rightarrow> world \<Rightarrow> files \<Rightarrow> http_response exc" where
  "handleDownload e q w f =
     (case authenticate (he_t e) q (db w) of
        Throws \<Rightarrow> Throws
      | Returns None \<Rightarrow> Returns (refuse 401)
      | Returns (Some (u, _)) \<Rightarrow>
          let fid = rq_match q in
          if \<not> isSafeFileId fid then Returns (refuse 400)
          else case getMessageByFileId (sql (he_t e)) fid (db w) of
            None \<Rightarrow> Returns (refuse 404)
          | Some m \<Rightarrow>
              if mediaPath m = [] then Returns (refuse 404)
              else if u \<noteq> senderId m \<and> u \<noteq> receiverId m then Returns (refuse 403)
              else if uget (f_disk f) (mediaPath m) = None then Returns (refuse 404)
              else Returns (new_response\<lparr>
                rs_headers := [(''Accept-Ranges'', ''bytes''), (''ETag'', ''\"'' @ fid @ ''\"'')] @
                  (if mtype m = 2
                   then [(''Content-Disposition'', ''attachment; filename=\"'' @ content m @ ''\"'')] else []),
                rs_file := Some (mediaPath m, guessContentType (mediaPath m))\<rparr>))"

subsection \<open>Uploads nobody claimed\<close>

text \<open>One turn of \<open>gcLoop\<close>.\<close>

definition upload_expired :: "int \<Rightarrow> UploadRecord \<Rightarrow> bool" where
  "upload_expired t r \<longleftrightarrow> 24 * 3600 < t - up_uploadedAt r"

definition gc_turn :: "http_env \<Rightarrow> world \<Rightarrow> files \<Rightarrow> world \<times> files" where
  "gc_turn e w f =
     (let expired = map (\<lambda>(_, r). up_mediaPath r)
            (filter (\<lambda>(_, r). upload_expired (now (he_t e)) r) (uploads w))
      in (w\<lparr>uploads := filter (\<lambda>(_, r). \<not> upload_expired (now (he_t e)) r) (uploads w)\<rparr>,
          fold (remove_file e) expired f))"

end
