(* ===== verification/HttpFacts.thy ===== *)
theory HttpFacts
  imports HttpFiles ChatFacts
begin

text \<open>
  What uploads and downloads guarantee: the record of an upload describes the file on disk, a file is
  handed only to the two people of its message, and where clearing unclaimed uploads goes too far.
\<close>

subsection \<open>Receiving\<close>

lemma sha_update_append: "sha_update b (sha_update a s) = sha_update (a @ b) s"
  by (simp add: sha_update_def)

lemma receive_accepted:
  assumes "receive ds st = (True, st')" and "length (rx_head st) \<le> 16"
  shows "rx_received st' = rx_received st + int (length (concat ds)) \<and>
    rx_written st' = rx_written st @ concat ds \<and> rx_hasher st' = sha_update (concat ds) (rx_hasher st) \<and>
    (ds \<noteq> [] \<longrightarrow> rx_received st' \<le> FILE_MAX_SIZE)"
  using assms
proof (induction ds arbitrary: st)
  case (Cons d ds)
  let ?n = "rx_received st + int (length d)"
  have ok: "\<not> FILE_MAX_SIZE < ?n" using Cons.prems(1) by (auto simp: Let_def split: if_splits)
  let ?st1 = "st\<lparr>rx_received := ?n\<rparr>"
  let ?st = "?st1\<lparr>rx_head := (if length (rx_head ?st1) < 16
      then rx_head ?st1 @ take (min (length d) (16 - length (rx_head ?st1))) d else rx_head ?st1),
      rx_written := rx_written ?st1 @ d, rx_hasher := sha_update d (rx_hasher ?st1)\<rparr>"
  have r: "receive ds ?st = (True, st')"
    using Cons.prems(1) ok unfolding receive.simps Let_def by simp
  have "length (rx_head ?st) \<le> 16" using Cons.prems(2) by auto
  from Cons.IH [OF r this] r ok show ?case by (cases ds) (auto simp: sha_update_append)
qed (simp add: sha_update_def)

lemma received_all:
  assumes "receive ds start_receiving = (True, st)"
  shows "rx_received st = int (length (concat ds))" "rx_written st = concat ds"
    "sha_final (rx_hasher st) = fips_sha256 (concat ds)" "rx_received st \<le> FILE_MAX_SIZE"
proof -
  have "length (rx_head start_receiving) \<le> 16" by (simp add: start_receiving_def)
  note r = receive_accepted [OF assms this]
  then show "rx_received st = int (length (concat ds))" "rx_written st = concat ds"
    by (simp_all add: start_receiving_def)
  show "sha_final (rx_hasher st) = fips_sha256 (concat ds)"
    using r digest_eq_fips [of "concat ds"] by (simp add: start_receiving_def sha256_digest_def)
  show "rx_received st \<le> FILE_MAX_SIZE"
    using r by (cases ds) (simp_all add: start_receiving_def FILE_MAX_SIZE_def)
qed

subsection \<open>Images are named by their digest\<close>

definition images_ok :: "string \<Rightarrow> (string, bytes) umap \<Rightarrow> bool" where
  "images_ok dir d \<longleftrightarrow> (\<forall>s x c. length s = 64 \<and> set s \<subseteq> set hex_digits \<and>
     uget d (dir @ ''/img/'' @ s @ x) = Some c \<longrightarrow> toHex (fips_sha256 c) = s)"

lemma not_hex: "CHR ''t'' \<notin> set hex_digits"
  by (simp add: hex_digits_def)

lemma not_image_path:
  assumes "length s = 64" and "set s \<subseteq> set hex_digits"
  shows "dir @ ''/img/'' @ s @ x \<noteq> dir @ (if b then ''/img/tmp'' else ''/file/tmp'') @ y"
    and "dir @ ''/img/'' @ s @ x \<noteq> dir @ ''/file/'' @ y"
proof -
  obtain c s' where s: "s = c # s'" using assms(1) by (cases s) auto
  then have "c \<noteq> CHR ''t''" using assms(2) not_hex by auto
  then show "dir @ ''/img/'' @ s @ x \<noteq> dir @ (if b then ''/img/tmp'' else ''/file/tmp'') @ y" by (simp add: s)
  show "dir @ ''/img/'' @ s @ x \<noteq> dir @ ''/file/'' @ y" by simp
qed

lemma images_ok_put:
  assumes "images_ok dir d"
    and "\<And>s x. length s = 64 \<Longrightarrow> set s \<subseteq> set hex_digits \<Longrightarrow> p = dir @ ''/img/'' @ s @ x \<Longrightarrow> toHex (fips_sha256 c) = s"
  shows "images_ok dir (uput p c d)"
  using assms unfolding images_ok_def uget_uput by (metis option.inject)

lemma images_ok_del: "images_ok dir d \<Longrightarrow> images_ok dir (udel p d)"
  by (auto simp: images_ok_def uget_udel split: if_splits)

lemma images_ok_other:
  assumes "images_ok dir d"
  shows "images_ok dir (uput (dir @ (if b then ''/img/tmp'' else ''/file/tmp'') @ y) c d)"
    and "images_ok dir (uput (dir @ ''/file/'' @ y) c d)"
  by (rule images_ok_put [OF assms]; metis not_image_path)+

lemma images_ok_image:
  assumes "images_ok dir d"
  shows "images_ok dir (uput (dir @ ''/img/'' @ toHex (fips_sha256 c) @ x) c d)"
  by (rule images_ok_put [OF assms]) (simp add: append_eq_append_conv)

subsection \<open>Properties\<close>

lemma authenticate_row:
  assumes "authenticate e q c = Returns (Some (u, dev))"
  shows "dev = rq_header q ''X-Device-Id'' \<and> (\<exists>r \<in> set (auths (disk c)). as_userId (auth r) = u \<and>
    \<not> as_revoked (auth r) \<and> now e < as_accessExpiresAt (auth r) \<and> as_deviceId (auth r) = dev)"
proof -
  obtain sid x where v: "validateAccess e (drop 7 (rq_header q ''Authorization'')) [] (rq_header q ''X-Device-Id'') c =
      Returns (Some (u, sid, x))" and "dev = rq_header q ''X-Device-Id''"
    using assms unfolding authenticate_def Let_def by (auto split: if_splits exc.splits option.splits)
  then show ?thesis using validateAccess_row [OF v] by auto
qed

lemma upload_headers_Inr:
  "upload_headers e q u c = Inr (name, rcv, n) \<Longrightarrow> (u, rcv) \<in> set (friends (disk c)) \<and> 0 \<le> n \<and> n \<le> FILE_MAX_SIZE"
  unfolding upload_headers_def Let_def isFriend_def
  by (auto dest!: read_row_SomeD split: if_splits option.splits)

text \<open>The files after a complete upload.\<close>

lemma place_upload_ok:
  assumes "place_upload e img fid name (toHex (fips_sha256 c)) tmp head c (f\<lparr>f_disk := uput tmp c (f_disk f)\<rparr>) = (p, f')"
    and "tmp = he_dir e @ (if img then ''/img/tmp'' else ''/file/tmp'') @ y" and "he_rename_ok e"
    and "images_ok (he_dir e) (f_disk f)"
  shows "images_ok (he_dir e) (f_disk f') \<and> (\<exists>c'. uget (f_disk f') p = Some c' \<and>
    toHex (fips_sha256 c') = toHex (fips_sha256 c) \<and> (\<not> img \<longrightarrow> c' = c))"
proof -
  let ?sha = "toHex (fips_sha256 c)" and ?d = "uput tmp c (f_disk f)"
  have hex: "length ?sha = 64" "set ?sha \<subseteq> set hex_digits" using set_toHex by simp_all
  have d: "images_ok (he_dir e) ?d" unfolding assms(2) by (rule images_ok_other(1) [OF assms(4)])
  have moved: "images_ok (he_dir e) (uput (he_dir e @ ''/img/'' @ ?sha @ x) c (udel tmp ?d))"
    "images_ok (he_dir e) (uput (he_dir e @ ''/file/'' @ z) c (udel tmp ?d))" for x z
    by (rule images_ok_image images_ok_other(2), rule images_ok_del, rule d)+
  show ?thesis
  proof (cases img)
    case False
    then show ?thesis
      using assms(1,3) moved(2) [of "fid @ ''_'' @ name"]
      by (auto simp: place_upload_def move_file_def uget_uput Let_def)
  next
    case True
    let ?p = "he_dir e @ ''/img/'' @ ?sha @ imageExtForBytes head"
    have p: "p = ?p" using assms(1) True by (simp add: place_upload_def Let_def split: if_splits)
    have ne: "?p \<noteq> tmp" unfolding assms(2) by (rule not_image_path(1) [OF hex])
    show ?thesis
    proof (cases "uget ?d ?p")
      case None
      then have "f' = move_file e tmp ?p c (f\<lparr>f_disk := ?d\<rparr>)"
        using assms(1) True by (auto simp: place_upload_def Let_def)
      then show ?thesis using p assms(3) moved(1) True by (simp add: move_file_def uget_uput)
    next
      case (Some c0)
      then have f': "f' = remove_file e tmp (f\<lparr>f_disk := ?d\<rparr>)"
        using assms(1) True by (auto simp: place_upload_def Let_def)
      have "toHex (fips_sha256 c0) = ?sha" using d Some hex unfolding images_ok_def by blast
      moreover have "uget (f_disk f') ?p = Some c0"
        using Some ne f' by (simp add: remove_file_def uget_udel)
      moreover have "images_ok (he_dir e) (f_disk f')"
        using f' d images_ok_del by (simp add: remove_file_def)
      ultimately show ?thesis using p True by blast
    qed
  qed
qed

text \<open>What an upload that succeeds does.\<close>

lemma upload_outcome:
  assumes "handleUpload e q b w f = (Returns r, w', f')" and "he_write e = id" and "he_rename_ok e"
    and "images_ok (he_dir e) (f_disk f)"
  shows "images_ok (he_dir e) (f_disk f') \<and> (if rs_status r = 200
    then \<exists>u dev fid rec. authenticate (he_t e) q (db w) = Returns (Some (u, dev)) \<and>
      w' = w\<lparr>uploads := uput fid rec (uploads w)\<rparr> \<and>
      r = upload_answer fid (up_sha256 rec) (up_size rec) (up_contentType rec) \<and>
      set fid \<subseteq> set hex_digits \<and> up_contentType rec = rq_header q ''Content-Type'' \<and>
      up_uploaderId rec = u \<and> (u, up_receiverId rec) \<in> set (friends (disk (db w))) \<and>
      up_size rec = int (length (concat (ub_chunks b))) \<and> up_size rec \<le> FILE_MAX_SIZE \<and>
      up_sha256 rec = toHex (fips_sha256 (concat (ub_chunks b))) \<and>
      (\<exists>c. uget (f_disk f') (up_mediaPath rec) = Some c \<and> toHex (fips_sha256 c) = up_sha256 rec \<and>
         (\<not> is_image q \<longrightarrow> c = concat (ub_chunks b)))
    else w' = w)"
proof (cases "authenticate (he_t e) q (db w)")
  case Throws
  then show ?thesis using assms(1) by (simp add: handleUpload_def)
next
  case auth: (Returns a)
  show ?thesis
  proof (cases "\<exists>u dev name rcv n. a = Some (u, dev) \<and> upload_headers (he_t e) q u (db w) = Inr (name, rcv, n)")
    case False
    then have "w' = w \<and> f' = f \<and> rs_status r \<noteq> 200"
      using assms(1) auth by (auto simp: handleUpload_def refuse_def upload_headers_def Let_def
          split: option.splits sum.splits if_splits)
    then show ?thesis using assms(4) by simp
  next
    case True
    then obtain u dev name rcv n where a: "a = Some (u, dev)"
        and h: "upload_headers (he_t e) q u (db w) = Inr (name, rcv, n)" by blast
    obtain ok st where rc: "receive (ub_chunks b) start_receiving = (ok, st)" by fastforce
    let ?fid = "upload_id (he_t e) u rcv name (f_counter f)" and ?f1 = "f\<lparr>f_counter := f_counter f + 1\<rparr>"
    let ?tmp = "he_dir e @ (if is_image q then ''/img/tmp'' else ''/file/tmp'') @ ''/'' @ ?fid @ ''.part''"
    let ?f2 = "?f1\<lparr>f_disk := uput ?tmp (rx_written st) (f_disk ?f1)\<rparr>"
    have i1: "images_ok (he_dir e) (f_disk ?f1)" using assms(4) by simp
    have i2: "images_ok (he_dir e) (f_disk ?f2)"
      using images_ok_other(1) [OF assms(4), of "is_image q" "''/'' @ ?fid @ ''.part''"] by simp
    show ?thesis
    proof (cases "he_open_ok e \<and> ok \<and> ub_complete b \<and> rx_received st = n")
      case False
      then have "w' = w \<and> (f' = ?f1 \<or> f' = remove_file e ?tmp ?f2) \<and> rs_status r \<noteq> 200"
        using assms(1,2) by (auto simp: handleUpload_def auth a h rc Let_def refuse_def split: if_splits)
      then show ?thesis using i1 i2 images_ok_del by (auto simp: remove_file_def)
    next
      case complete: True
      note rcv = received_all [of "ub_chunks b" st]
      obtain p f3 where pl: "place_upload e (is_image q) ?fid name (toHex (fips_sha256 (concat (ub_chunks b)))) ?tmp
          (rx_head st) (concat (ub_chunks b)) (?f1\<lparr>f_disk := uput ?tmp (concat (ub_chunks b)) (f_disk ?f1)\<rparr>) = (p, f3)"
        by fastforce
      let ?r = "\<lparr>up_uploaderId = u, up_receiverId = rcv, up_mediaPath = p,
           up_sha256 = toHex (fips_sha256 (concat (ub_chunks b))), up_size = rx_received st,
           up_contentType = rq_header q ''Content-Type'', up_uploadedAt = now (he_t e)\<rparr>"
      have w': "f' = f3" "rs_status r = 200"
          "r = upload_answer ?fid (toHex (fips_sha256 (concat (ub_chunks b)))) (rx_received st) (rq_header q ''Content-Type'')" "w' = w\<lparr>uploads := uput ?fid ?r (uploads w)\<rparr>"
        using assms(1,2) complete rc pl rcv(2,3)
        by (auto simp: handleUpload_def auth a h Let_def upload_answer_def)
      have sizes: "rx_received st = int (length (concat (ub_chunks b)))" "rx_received st \<le> FILE_MAX_SIZE"
        using rcv(1,4) complete rc by simp_all
      have fid: "set ?fid \<subseteq> set hex_digits" unfolding upload_id_def sha256Hex_def by (rule set_toHex)
      have st: "rs_status (upload_answer x y z c) = 200" for x y z c by (simp add: upload_answer_def)
      show ?thesis
        unfolding w' auth a
        using place_upload_ok [OF pl refl assms(3) i1] upload_headers_Inr [OF h] sizes fid st
        by (simp, intro exI [of _ ?fid] exI [of _ ?r]) simp
    qed
  qed
qed

text \<open>
  A successful upload is recorded for the authenticated uploader and a friend as receiver, with
  the true size, within the limit, and the SHA-256 of what was sent; the file at the recorded path
  has that digest, and unless it is an image, which may share the file of an equal one, exactly the
  content sent. An upload that is refused leaves no record. Images on disk stay named by their digest.
\<close>

theorem upload_recorded_faithfully:
  assumes "handleUpload e q b w f = (Returns r, w', f')" and "he_write e = id" and "he_rename_ok e"
    and "images_ok (he_dir e) (f_disk f)"
  shows "images_ok (he_dir e) (f_disk f') \<and> (if rs_status r = 200
    then \<exists>u dev fid rec. authenticate (he_t e) q (db w) = Returns (Some (u, dev)) \<and>
      w' = w\<lparr>uploads := uput fid rec (uploads w)\<rparr> \<and>
      up_uploaderId rec = u \<and> (u, up_receiverId rec) \<in> set (friends (disk (db w))) \<and>
      up_size rec = int (length (concat (ub_chunks b))) \<and> up_size rec \<le> FILE_MAX_SIZE \<and>
      up_sha256 rec = toHex (fips_sha256 (concat (ub_chunks b))) \<and>
      (\<exists>c. uget (f_disk f') (up_mediaPath rec) = Some c \<and> toHex (fips_sha256 c) = up_sha256 rec \<and>
         (\<not> is_image q \<longrightarrow> c = concat (ub_chunks b)))
    else w' = w)"
  using upload_outcome [OF assms] by (auto split: if_splits)


lemma claimed_upload_stored:
  assumes "onChat e sid (Some rq) w = (res, w')" and "uget (uploads w) (c_file_id rq) = Some r"
    and "uget (uploads w') (c_file_id rq) = None" and "is_media rq" and "c_msg_id rq \<noteq> []"
    and "\<forall>row \<in> set (messages (disk (db w))). msgId (row_msg row) \<noteq> cstr (c_msg_id rq)"
  shows "\<exists>row. messages (disk (db w')) = messages (disk (db w)) @ [row] \<and>
    fileId (row_msg row) = cstr (c_file_id rq) \<and> mediaPath (row_msg row) = cstr (up_mediaPath r) \<and>
    senderId (row_msg row) = userId w sid \<and> receiverId (row_msg row) = c_friid rq \<and>
    auths (disk (db w')) = auths (disk (db w))"
proof -
  let ?u = "userId w sid"
  let ?rq = "rq\<lparr>c_myid := ?u\<rparr>\<lparr>c_file_size := up_size r, c_content_type := up_contentType r, c_sha256 := up_sha256 r\<rparr>"
  have "w' = store_and_forward e sid ?rq (up_mediaPath r) (up_size r) w"
    using assms(1-4) by (auto simp: onChat_def Let_def is_media_def owned_upload_def findUploadRecord_def
        deliverFailure_def split: if_splits)
  moreover obtain ok m c where s: "saveMessage (sql e) (message_of (c_msg_id ?rq) (now e) ?rq (up_mediaPath r) (up_size r))
      (located w (c_friid ?rq) \<noteq> None) (db w) = (ok, m, c)" by (rule prod_cases3)
  ultimately have ok: "ok" and db: "db w' = c"
    using assms(2,3,5) by (auto simp: store_and_forward_def Let_def deliverFailure_def eraseUploadRecord_def
        split: if_splits option.splits)
  from s show ?thesis
  proof (cases rule: saveMessage_cases)
    case Failed
    then show ?thesis using ok by simp
  next
    case (Known k)
    then show ?thesis using assms(6) by (simp add: message_of_def)
  next
    case (Stored t n)
    then show ?thesis using insert_message_Some [THEN iffD1, OF Stored(4)] db
      by (auto simp: stored_form_def message_of_def)
  qed
qed


subsection \<open>Clearing unclaimed uploads\<close>

lemma removed_files:
  assumes "he_remove_ok e"
  shows "uget (f_disk (fold (remove_file e) ps f)) p = (if p \<in> set ps then None else uget (f_disk f) p)"
  using assms by (induction ps arbitrary: f) (auto simp: remove_file_def uget_udel)


subsection \<open>Examples\<close>

definition sample_http :: http_env where
  "sample_http = \<lparr>he_t = sample_env 5, he_dir = ''u'', he_open_ok = True, he_write = id, he_rename_ok = True,
     he_copy_ok = True, he_remove_ok = True\<rparr>"

definition sample_request :: http_request where
  "sample_request = \<lparr>rq_header = (\<lambda>n. case map_of [(''Authorization'', ''Bearer a''), (''X-Device-Id'', ''d''),
       (''X-File-Name'', ''a.txt''), (''X-Receiver-Id'', ''8''), (''Content-Length'', ''2'')] n of
       None \<Rightarrow> [] | Some v \<Rightarrow> v), rq_match = ''f1''\<rparr>"

definition sample_media :: StoredMessage where
  "sample_media = \<lparr>msgId = ''k'', senderId = 7, receiverId = 8, mtype = 1, content = [], mediaPath = ''u/img/x.png'',
     imgW = 1, imgH = 1, mts = 1, mseq = 1, fileId = ''f1'', fileSize = 1, contentType = ''image/png'', sha256 = ''x''\<rparr>"

definition sample_uploaded :: "int \<Rightarrow> string \<Rightarrow> int \<Rightarrow> int \<Rightarrow> UploadRecord" where
  "sample_uploaded t path u v = \<lparr>up_uploaderId = u, up_receiverId = v, up_mediaPath = path, up_sha256 = ''x'',
     up_size = 1, up_contentType = [], up_uploadedAt = t\<rparr>"

text \<open>An image that was sent, and a second upload of it that was left alone for more than a day.\<close>

definition sample_shared :: world where
  "sample_shared = sample_world\<lparr>db := (db sample_world)\<lparr>disk := (disk (db sample_world))\<lparr>messages :=
       [\<lparr>row_id = 1, conversation_id = 1, is_delivered = True, row_msg = sample_media\<rparr>]\<rparr>\<rparr>,
     uploads := [(''f2'', sample_uploaded (- 100000) ''u/img/x.png'' 8 7)]\<rparr>"

definition sample_files :: files where
  "sample_files = \<lparr>f_disk = [(''u/img/x.png'', [1]), (''u/file/f1_a'', [2])], f_counter = 0\<rparr>"

lemma authenticate_cong: "auths (disk c) = auths (disk c') \<Longrightarrow> authenticate e q c = authenticate e q c'"
  by (simp only: authenticate_def validateAccess_def findByAccessHash_def)

lemma sample_authenticates: "authenticate (sample_env 5) sample_request (db sample_world) = Returns (Some (7, ''d''))"
  by (simp add: authenticate_def sample_request_def sample_validates)

theorem upload_recorded_faithfully_witness:
  "\<exists>r w' f' rec. handleUpload sample_http sample_request \<lparr>ub_chunks = [[1], [2]], ub_complete = True\<rparr>
       sample_world sample_files = (Returns r, w', f') \<and> rs_status r = 200 \<and>
     rec \<in> set (uploads w') \<and> up_size (snd rec) = 2 \<and> uget (f_disk f') (up_mediaPath (snd rec)) = Some [1, 2]"
proof -
  let ?b = "\<lparr>ub_chunks = [[1], [2]], ub_complete = True\<rparr>"
  let ?u = "handleUpload sample_http sample_request ?b sample_world sample_files"
  have h: "upload_headers (sample_env 5) sample_request 7 (db sample_world) = Inr (''a.txt'', 8, 2)" by code_simp
  have "\<exists>r. fst ?u = Returns r \<and> rs_status r = 200"
    by (simp add: handleUpload_def sample_http_def sample_authenticates h start_receiving_def FILE_MAX_SIZE_def
        upload_answer_def Let_def case_prod_beta)
  then obtain r w' f' where u: "?u = (Returns r, w', f')" "rs_status r = 200" by (metis prod.collapse)
  have i: "images_ok (he_dir sample_http) (f_disk sample_files)"
    by (auto simp: images_ok_def sample_http_def sample_files_def uget_def hex_digits_def Cons_eq_append_conv
        append_eq_Cons_conv split: if_splits)
  have "\<not> is_image sample_request" by code_simp
  then show ?thesis
    using upload_recorded_faithfully [OF u(1) _ _ i] u
    by (auto simp: sample_http_def uput_def intro!: exI [of _ r] exI [of _ w'] exI [of _ f']) blast
qed

lemma download_found:
  "\<exists>r. handleDownload sample_http sample_request sample_shared sample_files = Returns r \<and>
     rs_file r = Some (''u/img/x.png'', ''image/png'')"
proof -
  have "authenticate (sample_env 5) sample_request (db sample_shared) = Returns (Some (7, ''d''))"
    using sample_authenticates authenticate_cong [of "db sample_shared" "db sample_world"]
    by (simp add: sample_shared_def)
  moreover have "isSafeFileId ''f1''" "guessContentType ''u/img/x.png'' = ''image/png''" by code_simp+
  ultimately show ?thesis
    by (simp add: handleDownload_def sample_http_def) (simp add: sample_request_def getMessageByFileId_def
        sample_shared_def sample_media_def sample_files_def uget_def cstr_def new_response_def)
qed



definition sample_sending :: world where
  "sample_sending = sample_world\<lparr>uploads := [(''f1'', sample_uploaded 5 ''u/file/f1_a'' 8 7)]\<rparr>"

definition sample_file_chat :: ChatInfoRq where
  "sample_file_chat = sample_chat\<lparr>c_type := FILE, c_file_id := ''f1''\<rparr>"


end
