(* ===== verification/DbWriteQueue.thy ===== *)
theory DbWriteQueue
  imports DbMessages
begin

text \<open>
  \<open>DbWriteQueue\<close>: one write connection, one worker thread and a queue of tasks. A critical section
  of the mutex is one step; the thread of \<open>run\<close> alternates between taking a task under the mutex and
  running it without. The steps of the submitting threads and of the worker interleave in any order:
  a schedule is a list of events. The abstract specification is \<open>serial\<close>: the tasks one after the
  other, in the order in which they were accepted.
\<close>

subsection \<open>State\<close>

text \<open>A task takes the connection; it returns or throws.\<close>

type_synonym ('db, 'r) task = "'db \<Rightarrow> 'r exc \<times> 'db"

datatype ('db, 'r) worker =
    No_thread | Starting | Idle | Busy nat "('db, 'r) task" | Exited

text \<open>Promises are numbered; \<open>wq_promises\<close> holds those that were set, in order.\<close>

record ('db, 'r) wqueue =
  wq_db :: "'db option"
  wq_queue :: "(nat \<times> ('db, 'r) task) list"
  wq_running :: bool
  wq_worker :: "('db, 'r) worker"
  wq_workerId :: bool
  wq_stmts :: "(string, nat \<times> string) umap"
  wq_promises :: "(nat \<times> 'r exc) list"
  wq_next :: nat

definition new_wqueue :: "('db, 'r) wqueue" where
  "new_wqueue = \<lparr>wq_db = None, wq_queue = [], wq_running = False, wq_worker = No_thread,
     wq_workerId = False, wq_stmts = [], wq_promises = [], wq_next = 0\<rparr>"

subsection \<open>Operations\<close>

text \<open>Whether sqlite opens the file, accepts each of the three pragmas, and the thread starts.\<close>

record wq_env =
  we_open :: bool
  we_pragma :: "nat \<Rightarrow> bool"
  we_thread :: bool

definition wq_open :: "wq_env \<Rightarrow> 'db \<Rightarrow> ('db, 'r) wqueue \<Rightarrow> bool exc \<times> ('db, 'r) wqueue" where
  "wq_open e d s =
     (if wq_running s then (Returns True, s)
      else if \<not> we_open e then (Returns False, s)
      else if \<not> we_pragma e 0 then (Returns False, s)
      else if \<not> we_pragma e 1 then (Returns False, s)
      else if \<not> we_pragma e 2 then (Returns False, s)
      else if \<not> we_thread e then (Throws, s\<lparr>wq_db := None, wq_running := False\<rparr>)
      else (Returns True, s\<lparr>wq_db := Some d, wq_running := True, wq_worker := Starting\<rparr>))"

datatype submitted = Not_running | From_worker | Queued nat

text \<open>The first part of \<open>submit\<close>, up to the wait for the promise.\<close>

definition submit :: "bool \<Rightarrow> ('db, 'r) task \<Rightarrow> ('db, 'r) wqueue \<Rightarrow> submitted \<times> ('db, 'r) wqueue" where
  "submit on_worker fn s =
     (if \<not> wq_running s then (Not_running, s)
      else if on_worker \<and> wq_workerId s then (From_worker, s)
      else (Queued (wq_next s),
            s\<lparr>wq_queue := wq_queue s @ [(wq_next s, fn)], wq_next := wq_next s + 1\<rparr>))"

text \<open>
  \<open>run\<close>, one step at a time; \<open>None\<close> when the thread waits on the condition variable or has ended.
\<close>

definition worker_step :: "('db, 'r) wqueue \<Rightarrow> ('db, 'r) wqueue option" where
  "worker_step s =
     (case wq_worker s of
        No_thread \<Rightarrow> None
      | Starting \<Rightarrow> Some (s\<lparr>wq_workerId := True, wq_worker := Idle\<rparr>)
      | Idle \<Rightarrow>
          (case wq_queue s of
             [] \<Rightarrow> if wq_running s then None else Some (s\<lparr>wq_workerId := False, wq_worker := Exited\<rparr>)
           | (p, fn) # q \<Rightarrow> Some (s\<lparr>wq_queue := q, wq_worker := Busy p fn\<rparr>))
      | Busy p fn \<Rightarrow>
          (case wq_db s of
             None \<Rightarrow> None
           | Some d \<Rightarrow>
               let (r, d') = fn d
               in Some (s\<lparr>wq_db := Some d', wq_promises := wq_promises s @ [(p, r)], wq_worker := Idle\<rparr>))
      | Exited \<Rightarrow> None)"

text \<open>The cache of prepared statements: a hit ignores the text it is asked for.\<close>

definition statement ::
  "bool \<Rightarrow> nat \<Rightarrow> string \<Rightarrow> string \<Rightarrow> ('db, 'r) wqueue \<Rightarrow> (nat \<times> string) option \<times> ('db, 'r) wqueue" where
  "statement prepared h key text' s =
     (case uget (wq_stmts s) key of
        Some st \<Rightarrow> (Some st, s)
      | None \<Rightarrow> if \<not> prepared then (None, s)
                else (Some (h, text'), s\<lparr>wq_stmts := uput key (h, text') (wq_stmts s)\<rparr>))"

text \<open>
  The destructor: the flag, the wait for the thread, and \<open>sqlite3_close\<close>, which leaves a connection
  open that still has prepared statements. The result says whether the connection was closed.
\<close>

definition wq_stop :: "('db, 'r) wqueue \<Rightarrow> ('db, 'r) wqueue" where
  "wq_stop s = s\<lparr>wq_running := False\<rparr>"

definition wq_close :: "('db, 'r) wqueue \<Rightarrow> bool \<times> ('db, 'r) wqueue" where
  "wq_close s = (case wq_db s of None \<Rightarrow> (True, s) | Some _ \<Rightarrow> (wq_stmts s = [], s\<lparr>wq_db := None\<rparr>))"

text \<open>The thread on its own, until it waits or ends.\<close>

fun worker_rank :: "('db, 'r) worker \<Rightarrow> nat" where
  "worker_rank No_thread = 0"
| "worker_rank Starting = 2"
| "worker_rank Idle = 1"
| "worker_rank (Busy p fn) = 2"
| "worker_rank Exited = 0"

definition work_left :: "('db, 'r) wqueue \<Rightarrow> nat" where
  "work_left s = 2 * length (wq_queue s) + worker_rank (wq_worker s)"

lemma worker_step_decreases: "worker_step s = Some s' \<Longrightarrow> work_left s' < work_left s"
  by (auto simp: worker_step_def work_left_def Let_def
      split: worker.splits list.splits option.splits if_splits prod.splits)

function run_loop :: "('db, 'r) wqueue \<Rightarrow> ('db, 'r) wqueue" where
  "run_loop s = (case worker_step s of None \<Rightarrow> s | Some s' \<Rightarrow> run_loop s')"
  by pat_completeness auto
termination by (relation "measure work_left") (auto dest: worker_step_decreases)

declare run_loop.simps [simp del]

subsection \<open>Schedules and the serial specification\<close>

datatype ('db, 'r) event = Submit bool "('db, 'r) task" | Work | Stop

text \<open>A schedule, with the tasks that were accepted in their order.\<close>

fun wq_exec :: "('db, 'r) event list \<Rightarrow> ('db, 'r) wqueue \<Rightarrow> (nat \<times> ('db, 'r) task) list \<times> ('db, 'r) wqueue" where
  "wq_exec [] s = ([], s)"
| "wq_exec (Submit on_worker fn # es) s =
     (case submit on_worker fn s of
        (Queued p, s') \<Rightarrow> (let (acc, t) = wq_exec es s' in ((p, fn) # acc, t))
      | (_, s') \<Rightarrow> wq_exec es s')"
| "wq_exec (Work # es) s = wq_exec es (case worker_step s of None \<Rightarrow> s | Some s' \<Rightarrow> s')"
| "wq_exec (Stop # es) s = wq_exec es (wq_stop s)"

fun serial :: "(nat \<times> ('db, 'r) task) list \<Rightarrow> 'db \<Rightarrow> (nat \<times> 'r exc) list \<times> 'db" where
  "serial [] d = ([], d)"
| "serial ((p, fn) # ts) d =
     (let (r, d1) = fn d; (rs, d2) = serial ts d1 in ((p, r) # rs, d2))"

fun wq_in_flight :: "('db, 'r) worker \<Rightarrow> (nat \<times> ('db, 'r) task) list" where
  "wq_in_flight (Busy p fn) = [(p, fn)]"
| "wq_in_flight _ = []"

text \<open>The queue after a successful \<open>open\<close>.\<close>

definition opened :: "'db \<Rightarrow> ('db, 'r) wqueue" where
  "opened d = snd (wq_open \<lparr>we_open = True, we_pragma = (\<lambda>_. True), we_thread = True\<rparr> d new_wqueue)"

subsection \<open>The queue runs its tasks serially\<close>

lemma serial_append:
  "serial (xs @ ys) d = (let (rs, d1) = serial xs d; (rs', d2) = serial ys d1 in (rs @ rs', d2))"
  by (induction xs arbitrary: d) (auto simp: Let_def case_prod_beta)

lemma promises_serial: "map fst (fst (serial ts d)) = map fst ts"
  by (induction ts arbitrary: d) (auto simp: Let_def case_prod_beta)

text \<open>
  What every state satisfies: the accepted tasks \<open>acc\<close> are the finished, the running and the waiting
  ones; the finished ones ran serially; promises are numbered in order; the worker knows its id while
  it runs.
\<close>

definition tracks :: "'db \<Rightarrow> (nat \<times> ('db, 'r) task) list \<Rightarrow> ('db, 'r) wqueue \<Rightarrow> bool" where
  "tracks d acc s \<longleftrightarrow>
     (\<exists>fin d'. acc = fin @ wq_in_flight (wq_worker s) @ wq_queue s \<and>
        wq_db s = Some d' \<and> serial fin d = (wq_promises s, d')) \<and>
     map fst acc = [0..<wq_next s] \<and>
     (wq_worker s = Exited \<longrightarrow> \<not> wq_running s \<and> wq_queue s = []) \<and>
     wq_worker s \<noteq> No_thread \<and>
     (\<forall>p fn. wq_worker s = Busy p fn \<longrightarrow> wq_workerId s) \<and> (wq_worker s = Idle \<longrightarrow> wq_workerId s)"

lemma tracks_opened: "tracks d [] (opened d)"
  by (simp add: tracks_def opened_def wq_open_def new_wqueue_def)

lemma tracks_stop: "tracks d acc s \<Longrightarrow> tracks d acc (wq_stop s)"
  by (auto simp: tracks_def wq_stop_def)

lemma tracks_submit:
  "tracks d acc s \<Longrightarrow> submit b fn s = (Queued p, s') \<Longrightarrow> tracks d (acc @ [(p, fn)]) s'"
  by (auto simp: tracks_def submit_def split: if_splits)

lemma submit_refused: "submit b fn s = (r, s') \<Longrightarrow> (\<And>p. r \<noteq> Queued p) \<Longrightarrow> s' = s"
  by (auto simp: submit_def split: if_splits)

lemma tracks_work:
  assumes "tracks d acc s" and "worker_step s = Some s'"
  shows "tracks d acc s'"
proof (cases "wq_worker s")
  case (Busy p fn)
  obtain fin d' where f: "acc = fin @ (p, fn) # wq_queue s" "wq_db s = Some d'"
    "serial fin d = (wq_promises s, d')" using assms(1) Busy by (auto simp: tracks_def)
  obtain r d2 where fn: "fn d' = (r, d2)" by (cases "fn d'")
  have s': "s' = s\<lparr>wq_db := Some d2, wq_promises := wq_promises s @ [(p, r)], wq_worker := Idle\<rparr>"
    using assms(2) Busy f(2) fn by (simp add: worker_step_def)
  have "serial (fin @ [(p, fn)]) d = (wq_promises s @ [(p, r)], d2)"
    using f(3) fn by (simp add: serial_append)
  then show ?thesis
    using assms(1) Busy f(1) by (auto simp: tracks_def s' intro!: exI [of _ "fin @ [(p, fn)]"])
qed (use assms in \<open>auto simp: tracks_def worker_step_def split: list.splits if_splits\<close>)

lemma tracks_exec:
  "tracks d acc0 s \<Longrightarrow> wq_exec es s = (acc, t) \<Longrightarrow> tracks d (acc0 @ acc) t"
proof (induction es s arbitrary: acc0 acc t rule: wq_exec.induct)
  case (2 b fn es s)
  obtain r s' where sub: "submit b fn s = (r, s')" by (cases "submit b fn s")
  show ?case
  proof (cases r)
    case (Queued p)
    obtain acc' t' where ex: "wq_exec es s' = (acc', t')" by (cases "wq_exec es s'")
    have "tracks d ((acc0 @ [(p, fn)]) @ acc') t'"
      using "2.IH"(3) [OF sub [symmetric] Queued tracks_submit [OF "2.prems"(1) sub [unfolded Queued]] ex] .
    then show ?thesis using "2.prems"(2) sub Queued ex by simp
  qed (use "2.IH" "2.prems" sub submit_refused [OF sub] in auto)
next
  case (3 es s)
  have "tracks d acc0 (case worker_step s of None \<Rightarrow> s | Some s' \<Rightarrow> s')"
    using tracks_work [OF "3.prems"(1)] "3.prems"(1) by (auto split: option.splits)
  then show ?case using "3.IH" "3.prems"(2) by simp
next
  case (4 es s)
  then show ?case using tracks_stop [OF "4.prems"(1)] by simp
qed simp

text \<open>
  C7. The queue refines serial execution. Under every interleaving of submitting threads and worker,
  the tasks that have finished are a prefix of the accepted ones, in the order of acceptance; the
  promises set so far and the state of the connection are those of running that prefix serially, an
  exception of a task going to its own promise only; and every accepted task that has not finished is
  running or still queued.
\<close>

theorem write_queue_is_serial:
  assumes "wq_exec es (opened d) = (acc, s)"
  shows "\<exists>fin. acc = fin @ wq_in_flight (wq_worker s) @ wq_queue s \<and>
    (wq_promises s, the (wq_db s)) = serial fin d \<and> map fst acc = [0..<length acc]"
proof -
  have t: "tracks d acc s" using tracks_exec [OF tracks_opened assms] by simp
  then have "map fst acc = [0..<wq_next s]" by (simp add: tracks_def)
  moreover from this have "length acc = wq_next s" by (metis diff_zero length_map length_upt)
  ultimately show ?thesis using t unfolding tracks_def by fastforce
qed

subsection \<open>Stopping\<close>

lemma run_loop_rest: "worker_step (run_loop s) = None"
  by (induction s rule: run_loop.induct) (subst run_loop.simps, auto split: option.split)

lemma run_loop_tracks: "tracks d acc s \<Longrightarrow> tracks d acc (run_loop s)"
proof (induction s rule: run_loop.induct)
  case (1 s)
  show ?case
  proof (cases "worker_step s")
    case (Some s')
    then show ?thesis using 1 tracks_work [OF "1.prems" Some] run_loop.simps [of s] by simp
  qed (use 1 run_loop.simps [of s] in simp)
qed

lemma worker_step_running: "worker_step s = Some s' \<Longrightarrow> wq_running s' = wq_running s"
  by (auto simp: worker_step_def Let_def split: worker.splits list.splits option.splits if_splits prod.splits)

lemma run_loop_running: "wq_running (run_loop s) = wq_running s"
  by (induction s rule: run_loop.induct)
    (subst run_loop.simps, auto split: option.split dest: worker_step_running)

lemma tracks_rest:
  assumes "tracks d acc s" and "worker_step s = None"
  shows "wq_queue s = [] \<and> wq_in_flight (wq_worker s) = [] \<and> wq_worker s = (if wq_running s then Idle else Exited)"
  using assms by (auto simp: tracks_def worker_step_def Let_def
      split: worker.splits list.splits option.splits if_splits prod.splits)

text \<open>A stopped queue takes no task, so whatever else happens only the worker moves.\<close>

lemma stopped_exec:
  assumes "tracks d acc s" and "\<not> wq_running s" and "wq_exec es s = (acc', t)"
    and "work_left s \<le> length (filter (\<lambda>e. e = Work) es)"
  shows "wq_worker t = Exited"
  using assms
proof (induction es s arbitrary: acc' t rule: wq_exec.induct)
  case (1 s)
  then show ?case by (cases "wq_worker s") (auto simp: work_left_def tracks_def)
next
  case (2 b fn es s)
  have sub: "(Not_running, s) = submit b fn s" using "2.prems"(2) by (simp add: submit_def)
  moreover from this have "wq_exec es s = (acc', t)" using "2.prems"(3) by (simp flip: sub)
  ultimately show ?case using "2.IH"(1) [OF sub refl "2.prems"(1,2)] "2.prems"(4) by simp
next
  case (3 es s)
  show ?case
  proof (cases "worker_step s")
    case None
    then have "wq_worker s = Exited" using tracks_rest [OF "3.prems"(1)] "3.prems"(2) by simp
    then have "work_left s = 0" using "3.prems"(1) by (simp add: work_left_def tracks_def)
    then show ?thesis using 3 None by simp
  next
    case (Some s')
    then show ?thesis
      using 3 tracks_work [OF "3.prems"(1) Some] worker_step_decreases [OF Some] worker_step_running [OF Some]
      by simp
  qed
next
  case (4 es s)
  have "work_left (wq_stop s) = work_left s" by (simp add: work_left_def wq_stop_def)
  then show ?case using "4.IH" [OF tracks_stop [OF "4.prems"(1)]] "4.prems"(2-4) by (simp add: wq_stop_def)
qed

text \<open>
  C19. Stopping terminates and loses nothing: after any schedule, once the flag is cleared, the worker
  comes to its end under every schedule that gives it at least \<open>work_left\<close> turns, whatever the other
  threads try to submit; on its own it ends with an empty queue, every accepted promise set and the
  connection in the state of the serial execution of all accepted tasks. While the flag is set it ends
  waiting, with all of them done too.
\<close>

theorem write_queue_drains:
  assumes "wq_exec es (opened d) = (acc, s)"
  shows "wq_worker (run_loop (wq_stop s)) = Exited \<and> wq_queue (run_loop (wq_stop s)) = [] \<and>
    (wq_promises (run_loop (wq_stop s)), the (wq_db (run_loop (wq_stop s)))) = serial acc d \<and>
    (wq_promises (run_loop s), the (wq_db (run_loop s))) = serial acc d \<and>
    (work_left s \<le> length (filter (\<lambda>e. e = Work) es') \<longrightarrow>
      wq_worker (snd (wq_exec es' (wq_stop s))) = Exited)"
proof -
  have t: "tracks d acc s" using tracks_exec [OF tracks_opened assms] by simp
  have 1: "wq_queue (run_loop u) = [] \<and> wq_in_flight (wq_worker (run_loop u)) = [] \<and>
      wq_worker (run_loop u) = (if wq_running u then Idle else Exited) \<and>
      (wq_promises (run_loop u), the (wq_db (run_loop u))) = serial acc d" if "tracks d acc u" for u
    using tracks_rest [OF run_loop_tracks [OF that] run_loop_rest] run_loop_tracks [OF that]
    by (auto simp: run_loop_running tracks_def)
  have "work_left (wq_stop s) = work_left s" "\<not> wq_running (wq_stop s)"
    by (simp_all add: work_left_def wq_stop_def)
  then show ?thesis
    using 1 [OF t] 1 [OF tracks_stop [OF t]] stopped_exec [OF tracks_stop [OF t], of es'] by (metis prod.collapse)
qed

text \<open>
  A caller is either refused at once or waits for a promise that will be set: a queue that is not
  running and the worker thread itself, which would wait for itself, get an exception and change
  nothing, and every other caller's task is done when the worker next comes to rest.
\<close>

theorem submit_refused_or_answered:
  assumes "wq_exec es (opened d) = (acc, s)" and "submit on_worker fn s = (r, s')"
  shows "(if \<not> wq_running s then r = Not_running \<and> s' = s
     else if on_worker \<and> (wq_worker s = Idle \<or> wq_in_flight (wq_worker s) \<noteq> []) then r = From_worker \<and> s' = s
     else on_worker \<or> (\<exists>res. r = Queued (length acc) \<and> (length acc, res) \<in> set (wq_promises (run_loop s'))))"
proof -
  have t: "tracks d acc s" using tracks_exec [OF tracks_opened assms(1)] by simp
  have n: "length acc = wq_next s" using t unfolding tracks_def by (metis diff_zero length_map length_upt)
  have id: "wq_workerId s" if "wq_worker s = Idle \<or> wq_in_flight (wq_worker s) \<noteq> []"
    using that t by (cases "wq_worker s") (auto simp: tracks_def)
  have "\<exists>res. (p, res) \<in> set (wq_promises (run_loop s'))" if "submit on_worker fn s = (Queued p, s')" for p
  proof -
    have t': "tracks d (acc @ [(p, fn)]) (run_loop s')" using tracks_submit [OF t that] by (rule run_loop_tracks)
    then have "wq_promises (run_loop s') = fst (serial (acc @ [(p, fn)]) d)"
      using tracks_rest [OF t' run_loop_rest] by (auto simp: tracks_def)
    then have "p \<in> set (map fst (wq_promises (run_loop s')))" using promises_serial [of "acc @ [(p, fn)]" d] by simp
    then show ?thesis by auto
  qed
  then show ?thesis using assms(2) id n by (auto simp: submit_def split: if_splits)
qed

subsection \<open>Concurrent saves\<close>

text \<open>\<open>saveMessage\<close> as the task it submits: its result is the flag and the updated message.\<close>

definition save_task :: "sqlenv \<Rightarrow> StoredMessage \<Rightarrow> bool \<Rightarrow> (dbconn, bool \<times> StoredMessage) task" where
  "save_task e m dl c = (case saveMessage e m dl c of (ok, m', c') \<Rightarrow> (Returns (ok, m'), c'))"

text \<open>One event of a schedule of saves: the worker moves, or some thread saves a message.\<close>

fun save_event :: "(sqlenv \<times> StoredMessage \<times> bool) option \<Rightarrow> (dbconn, bool \<times> StoredMessage) event" where
  "save_event None = Work"
| "save_event (Some (e, m, dl)) = Submit False (save_task e m dl)"

definition is_save :: "nat \<times> (dbconn, bool \<times> StoredMessage) task \<Rightarrow> bool" where
  "is_save t \<longleftrightarrow> (\<exists>e m dl. snd t = save_task e m dl)"

lemma is_save_task: "is_save (p, save_task e m dl)"
  by (auto simp: is_save_def)

lemma saves_accepted: "wq_exec (map save_event xs) s = (acc, s') \<Longrightarrow> t \<in> set acc \<Longrightarrow> is_save t"
proof (induction xs arbitrary: s acc)
  case (Cons x xs)
  show ?case
  proof (cases x)
    case None
    then show ?thesis using Cons.IH Cons.prems by auto
  next
    case (Some y)
    obtain e m dl where y: "y = (e, m, dl)" by (rule prod_cases3)
    show ?thesis
      using Cons.prems Cons.IH
      by (auto simp: Some y is_save_task split: prod.splits submitted.splits)
  qed
qed simp

definition reported :: "tables \<Rightarrow> StoredMessage \<Rightarrow> bool" where
  "reported t m \<longleftrightarrow>
     (\<exists>r \<in> set (messages t). msgId (row_msg r) = cstr (msgId m) \<and> mseq (row_msg r) = mseq m)"

lemma save_reported:
  assumes "saveMessage e m d c = (ok, m', c')"
  shows "set (messages (disk c)) \<subseteq> set (messages (disk c')) \<and> (ok \<longrightarrow> reported (disk c') m')"
  using assms
proof (cases rule: saveMessage_cases)
  case (Stored t k)
  from Stored(4) have "messages t = messages (disk c) @ [\<lparr>row_id = msg_ctr (disk c) + 1,
      conversation_id = makeConversationId (senderId m) (receiverId m), is_delivered = d, row_msg = stored_form m'\<rparr>]"
    by (auto simp: insert_message_def split: if_splits)
  then show ?thesis using Stored(3,6) by (auto simp: reported_def)
qed (auto simp: reported_def)

lemma serial_saves:
  assumes "\<forall>t \<in> set ts. is_save t" and "conn_inv messages_ok c" and "serial ts c = (rs, c')"
  shows "conn_inv messages_ok c' \<and> set (messages (disk c)) \<subseteq> set (messages (disk c')) \<and>
    (\<forall>p m. (p, Returns (True, m)) \<in> set rs \<longrightarrow> reported (disk c') m)"
  using assms
proof (induction ts arbitrary: c rs)
  case (Cons t ts)
  obtain p e m dl where t: "t = (p, save_task e m dl)" using Cons.prems(1) by (cases t) (auto simp: is_save_def)
  obtain ok m' c1 where s: "saveMessage e m dl c = (ok, m', c1)" by (rule prod_cases3)
  obtain rs' where rs: "serial ts c1 = (rs', c')" "rs = (p, Returns (ok, m')) # rs'"
    using Cons.prems(3) by (auto simp: t save_task_def s split: prod.splits)
  have "conn_inv messages_ok c1" using saveMessage_ok [OF Cons.prems(2), of e m dl] by (simp add: s)
  from Cons.IH [OF _ this rs(1)] Cons.prems(1) have IH: "conn_inv messages_ok c'"
    "set (messages (disk c1)) \<subseteq> set (messages (disk c'))"
    "\<forall>p m. (p, Returns (True, m)) \<in> set rs' \<longrightarrow> reported (disk c') m" by simp_all
  then show ?case using save_reported [OF s] by (auto simp: rs(2) reported_def)
qed simp


subsection \<open>Witnesses\<close>

text \<open>Two threads save while the worker is between two tasks; a third task throws.\<close>

definition sample_saves :: "(sqlenv \<times> StoredMessage \<times> bool) option list" where
  "sample_saves = [None, Some (no_faults, sample_msg ''k'' 7 0, False), None,
     Some (no_faults, sample_msg ''a'' 8 0, False), None]"

definition sample_tasks :: "(nat, nat) event list" where
  "sample_tasks = [Submit False (\<lambda>d. (Returns d, d + 1)), Work, Work, Submit False (\<lambda>d. (Throws, d)),
     Work, Work, Submit False (\<lambda>d. (Returns d, d + 1))]"

theorem write_queue_is_serial_witness:
  "\<exists>acc s. wq_exec sample_tasks (opened 5) = (acc, s) \<and> length acc = 3 \<and>
     wq_promises s = [(0, Returns 5)] \<and> map fst acc = [0..<3]"
proof -
  obtain acc s where e: "wq_exec sample_tasks (opened 5) = (acc, s)" by fastforce
  then have "length acc = 3" "wq_promises s = [(0, Returns 5)]"
    by (auto simp: sample_tasks_def opened_def wq_open_def new_wqueue_def submit_def worker_step_def)
  then show ?thesis using write_queue_is_serial [OF e] e by auto
qed

theorem write_queue_drains_witness:
  "\<exists>acc s. wq_exec sample_tasks (opened 5) = (acc, s) \<and> wq_worker (run_loop (wq_stop s)) = Exited \<and>
     wq_promises (run_loop (wq_stop s)) = [(0, Returns 5), (1, Throws), (2, Returns 6)] \<and>
     wq_worker (snd (wq_exec (replicate 6 Work) (wq_stop s))) = Exited"
proof -
  obtain acc s where e: "wq_exec sample_tasks (opened 5) = (acc, s)" by fastforce
  then have "fst (serial acc 5) = [(0, Returns 5), (1, Throws), (2, Returns 6)]" "work_left s \<le> 6"
    by (auto simp: sample_tasks_def opened_def wq_open_def new_wqueue_def submit_def worker_step_def work_left_def)
  then show ?thesis using write_queue_drains [OF e, of "replicate 6 Work"] e by (auto simp: prod_eq_iff)
qed

theorem submit_refused_or_answered_witness:
  "\<exists>acc s s'. wq_exec sample_tasks (opened 5) = (acc, s) \<and>
     submit False (\<lambda>d. (Returns d, d)) s = (Queued 3, s') \<and> (\<exists>res. (3, res) \<in> set (wq_promises (run_loop s')))"
proof -
  obtain acc s where e: "wq_exec sample_tasks (opened 5) = (acc, s)" by fastforce
  obtain r s' where q: "submit False (\<lambda>d. (Returns d, d)) s = (r, s')" by fastforce
  have "wq_running s" "length acc = 3" using e
    by (auto simp: sample_tasks_def opened_def wq_open_def new_wqueue_def submit_def worker_step_def)
  then show ?thesis using submit_refused_or_answered [OF e q] e q by auto
qed


end
