(* ===== verification/ClientTransport.thy ===== *)
theory ClientTransport
  imports Wire "HOL-Library.Sublist"
begin

text \<open>
  \<open>client_core/src/TcpTransport.cpp\<close>: the client's connection. Its callbacks and posted jobs run on
  one io thread; \<open>connect\<close>, \<open>send\<close> and \<open>close\<close> come from other threads. The state has the io context
  (jobs, pending read and write, whether it was stopped), the socket and the thread; a step is one call
  or one callback, an execution a list of events. The client's framing is a second instance of the
  locale \<open>framing\<close>. \<open>send\<close> is one step, its check and its post together.
\<close>

subsection \<open>State\<close>

datatype tjob = Job_Send bytes | Job_CloseSocket

datatype treading = Not_reading | Reading_header | Reading_body nat

datatype io_thread = No_io_thread | Io_running | Io_ended

text \<open>What the callbacks hand to the core: a packet, or the end of the connection.\<close>

datatype tcall = Packet bytes | Connection_closed

record transport =
  tp_open :: bool
  tp_notified :: bool
  tp_closing :: bool
  tp_writeQueue :: "bytes list"
  tp_socket :: bool
  tp_stopped :: bool
  tp_thread :: io_thread
  tp_jobs :: "tjob list"
  tp_reading :: treading
  tp_writing :: bool
  tp_sent :: "bytes list"
  tp_calls :: "tcall list"
  tp_closer :: "bool option"

definition new_transport :: transport where
  "new_transport = \<lparr>tp_open = False, tp_notified = False, tp_closing = False, tp_writeQueue = [],
     tp_socket = False, tp_stopped = False, tp_thread = No_io_thread, tp_jobs = [],
     tp_reading = Not_reading, tp_writing = False, tp_sent = [], tp_calls = [], tp_closer = None\<rparr>"

subsection \<open>Operations\<close>

text \<open>Which of the steps of \<open>connect\<close> succeed.\<close>

record connect_env =
  co_resolve :: bool
  co_connect :: bool
  co_server_name :: bool
  co_handshake :: bool

text \<open>Assigning to the thread member while it is joinable ends the program.\<close>

datatype connect_result = Connected | Not_connected | Terminates

definition tp_connect :: "connect_env \<Rightarrow> transport \<Rightarrow> connect_result \<times> transport" where
  "tp_connect e s =
     (if tp_open s then (Not_connected, s)
      else if \<not> co_resolve e then (Not_connected, s)
      else if \<not> co_connect e then (Not_connected, s\<lparr>tp_socket := False\<rparr>)
      else let s1 = s\<lparr>tp_socket := True\<rparr> in
        if \<not> co_server_name e then (Not_connected, s1)
        else if \<not> co_handshake e then (Not_connected, s1\<lparr>tp_socket := False\<rparr>)
        else let s2 = s1\<lparr>tp_open := True, tp_reading := Reading_header\<rparr> in
          if tp_thread s2 \<noteq> No_io_thread then (Terminates, s2)
          else (Connected, s2\<lparr>tp_thread := Io_running\<rparr>))"

definition sends :: "bytes \<Rightarrow> transport \<Rightarrow> bool" where
  "sends data s \<longleftrightarrow> tp_open s \<and> data \<noteq> [] \<and> length data \<le> MAX_PACK_LEN"

definition client_frame :: "bytes \<Rightarrow> bytes" where
  "client_frame data = encodeLen32 (of_nat (length data)) @ data"

definition tp_send :: "bytes \<Rightarrow> transport \<Rightarrow> transport" where
  "tp_send data s =
     (if \<not> sends data s then s else s\<lparr>tp_jobs := tp_jobs s @ [Job_Send (client_frame data)]\<rparr>)"

definition notifyClose :: "transport \<Rightarrow> transport" where
  "notifyClose s =
     (let s1 = s\<lparr>tp_open := False\<rparr> in
      if tp_notified s1 then s1
      else s1\<lparr>tp_notified := True, tp_calls := tp_calls s1 @ [Connection_closed]\<rparr>)"

text \<open>\<open>doWrite\<close>, to the start of the write and from its completion.\<close>

definition tp_doWrite :: "transport \<Rightarrow> transport" where
  "tp_doWrite s = s\<lparr>tp_writing := True\<rparr>"

definition tp_written :: "bool \<Rightarrow> transport \<Rightarrow> transport" where
  "tp_written ok s =
     (let s0 = s\<lparr>tp_writing := False\<rparr> in
      if \<not> ok then notifyClose s0
      else let s1 = s0\<lparr>tp_writeQueue := tl (tp_writeQueue s0), tp_sent := tp_sent s0 @ [hd (tp_writeQueue s0)]\<rparr> in
        if tp_writeQueue s1 \<noteq> [] then tp_doWrite s1
        else if tp_closing s1 then s1\<lparr>tp_socket := False\<rparr> else s1)"

definition run_tjob :: "tjob \<Rightarrow> transport \<Rightarrow> transport" where
  "run_tjob j s =
     (case j of
        Job_Send buf \<Rightarrow>
          let busy = (tp_writeQueue s \<noteq> []); s1 = s\<lparr>tp_writeQueue := tp_writeQueue s @ [buf]\<rparr> in
          if \<not> busy then tp_doWrite s1 else s1
      | Job_CloseSocket \<Rightarrow>
          if tp_writeQueue s \<noteq> [] then s\<lparr>tp_closing := True\<rparr> else s\<lparr>tp_socket := False\<rparr>)"

definition header_read :: "bytes \<Rightarrow> transport \<Rightarrow> transport" where
  "header_read hdr s =
     (let bodyLen = decodeLen32 hdr in
      if bodyLen = 0 \<or> MAX_PACK_LEN < unat bodyLen then notifyClose (s\<lparr>tp_reading := Not_reading\<rparr>)
      else s\<lparr>tp_reading := Reading_body (unat bodyLen)\<rparr>)"

definition body_read :: "bytes \<Rightarrow> transport \<Rightarrow> transport" where
  "body_read body s = s\<lparr>tp_calls := tp_calls s @ [Packet body], tp_reading := Reading_header\<rparr>"

definition read_error :: "transport \<Rightarrow> transport" where
  "read_error s = notifyClose (s\<lparr>tp_reading := Not_reading\<rparr>)"

text \<open>\<open>close\<close>: up to the wait for the thread, and after it.\<close>

definition tp_close :: "transport \<Rightarrow> transport" where
  "tp_close s =
     (let wasOpen = tp_open s; s1 = s\<lparr>tp_open := False, tp_closer := Some wasOpen\<rparr> in
      if wasOpen then s1\<lparr>tp_jobs := tp_jobs s1 @ [Job_CloseSocket]\<rparr> else s1)"

definition tp_joined :: "bool \<Rightarrow> transport \<Rightarrow> transport" where
  "tp_joined wasOpen s =
     (let s1 = s\<lparr>tp_thread := No_io_thread, tp_stopped := True, tp_closer := None\<rparr> in
      if wasOpen then notifyClose s1 else s1)"

subsection \<open>Executions\<close>

datatype tp_event =
    Connect connect_env | Send bytes | Run_job | Header_read bytes | Body_read bytes | Read_error
  | Written bool | Io_end | Close | Joined

definition io_active :: "transport \<Rightarrow> bool" where
  "io_active s \<longleftrightarrow> tp_thread s = Io_running \<and> \<not> tp_stopped s"

text \<open>
  The state after an event, \<open>None\<close> when it cannot happen. The io thread returns when its context was
  stopped or has nothing left to do. Reads and writes succeed on an open socket only; they fail at any
  time. One thread closes at a time.
\<close>

fun tp_step :: "tp_event \<Rightarrow> transport \<Rightarrow> transport option" where
  "tp_step (Connect e) s = (case tp_connect e s of (Terminates, _) \<Rightarrow> None | (_, s') \<Rightarrow> Some s')"
| "tp_step (Send data) s = Some (tp_send data s)"
| "tp_step Run_job s =
     (case tp_jobs s of
        [] \<Rightarrow> None
      | j # js \<Rightarrow> if io_active s then Some (run_tjob j (s\<lparr>tp_jobs := js\<rparr>)) else None)"
| "tp_step (Header_read hdr) s =
     (if io_active s \<and> tp_socket s \<and> tp_reading s = Reading_header \<and> length hdr = 4
      then Some (header_read hdr s) else None)"
| "tp_step (Body_read body) s =
     (if io_active s \<and> tp_socket s \<and> tp_reading s = Reading_body (length body)
      then Some (body_read body s) else None)"
| "tp_step Read_error s = (if io_active s \<and> tp_reading s \<noteq> Not_reading then Some (read_error s) else None)"
| "tp_step (Written ok) s =
     (if io_active s \<and> tp_writing s \<and> (ok \<longrightarrow> tp_socket s) then Some (tp_written ok s) else None)"
| "tp_step Io_end s =
     (if tp_thread s = Io_running \<and>
         (tp_stopped s \<or> tp_jobs s = [] \<and> tp_reading s = Not_reading \<and> \<not> tp_writing s)
      then Some (s\<lparr>tp_thread := Io_ended\<rparr>) else None)"
| "tp_step Close s = (if tp_closer s = None then Some (tp_close s) else None)"
| "tp_step Joined s =
     (case tp_closer s of
        None \<Rightarrow> None
      | Some wasOpen \<Rightarrow> if tp_thread s \<noteq> Io_running then Some (tp_joined wasOpen s) else None)"

text \<open>An execution, with the frames whose sending was accepted.\<close>

fun tp_accepts :: "tp_event \<Rightarrow> transport \<Rightarrow> bytes list" where
  "tp_accepts (Send data) s = (if sends data s then [client_frame data] else [])"
| "tp_accepts _ s = []"

fun tp_run :: "tp_event list \<Rightarrow> transport \<Rightarrow> (bytes list \<times> transport) option" where
  "tp_run [] s = Some ([], s)"
| "tp_run (ev # evs) s =
     (case tp_step ev s of
        None \<Rightarrow> None
      | Some s' \<Rightarrow>
          (case tp_run evs s' of
             None \<Rightarrow> None
           | Some (acc, t) \<Rightarrow> Some (tp_accepts ev s @ acc, t)))"

fun job_frames :: "tjob list \<Rightarrow> bytes list" where
  "job_frames [] = []"
| "job_frames (Job_Send buf # js) = buf # job_frames js"
| "job_frames (Job_CloseSocket # js) = job_frames js"

lemma job_frames_append [simp]: "job_frames (xs @ ys) = job_frames xs @ job_frames ys"
  by (induction xs rule: job_frames.induct) auto

lemmas tp_defs = tp_connect_def tp_send_def notifyClose_def tp_doWrite_def tp_written_def run_tjob_def
  header_read_def body_read_def read_error_def tp_close_def tp_joined_def io_active_def Let_def

text \<open>The induction every invariant of the transport uses: over the steps, with the accepted frames.\<close>

lemma tp_run_invariant:
  assumes "tp_run evs s = Some (acc, t)" and "Inv acc0 s"
    and "\<And>a u ev u'. Inv a u \<Longrightarrow> ev \<in> set evs \<Longrightarrow> tp_step ev u = Some u' \<Longrightarrow> Inv (a @ tp_accepts ev u) u'"
  shows "Inv (acc0 @ acc) t"
  using assms
proof (induction evs s arbitrary: acc0 acc rule: tp_run.induct)
  case (2 ev evs s)
  obtain s' acc' where s: "tp_step ev s = Some s'" "tp_run evs s' = Some (acc', t)" "acc = tp_accepts ev s @ acc'"
    using "2.prems"(1) by (auto split: option.splits)
  have "Inv (acc0 @ tp_accepts ev s) s'" using "2.prems"(2,3) s(1) by simp
  from "2.IH" [OF s(1,2) this] "2.prems"(3) show ?case by (simp add: s(3))
qed simp

subsection \<open>Frames leave in order\<close>

definition tp_fifo :: "bytes list \<Rightarrow> transport \<Rightarrow> bool" where
  "tp_fifo acc s \<longleftrightarrow> acc = tp_sent s @ tp_writeQueue s @ job_frames (tp_jobs s) \<and>
     (tp_writing s \<longrightarrow> tp_writeQueue s \<noteq> [])"

lemma singleton_queue: "xs \<noteq> [] \<Longrightarrow> tl xs = [] \<Longrightarrow> xs = [hd xs]"
  by (cases xs) auto

lemmas tp_splits = list.splits tjob.splits if_splits connect_result.splits prod.splits option.splits

lemma tp_fifo_step: "tp_fifo a u \<Longrightarrow> tp_step ev u = Some u' \<Longrightarrow> tp_fifo (a @ tp_accepts ev u) u'"
  by (cases ev) (auto simp: tp_fifo_def tp_defs sends_def singleton_queue split: tp_splits)

lemma tp_fifo_run: "tp_run evs new_transport = Some (acc, s) \<Longrightarrow> tp_fifo acc s"
  using tp_run_invariant [of evs new_transport acc s tp_fifo "[]"] tp_fifo_step
  by (simp add: tp_fifo_def new_transport_def)

subsection \<open>The end of the connection is reported once\<close>

definition closed_calls :: "transport \<Rightarrow> nat" where
  "closed_calls s = length (filter (\<lambda>c. c = Connection_closed) (tp_calls s))"

definition tp_inv :: "transport \<Rightarrow> bool" where
  "tp_inv s \<longleftrightarrow> closed_calls s = (if tp_notified s then 1 else 0) \<and>
     (\<not> tp_stopped s \<longrightarrow>
       (tp_thread s = No_io_thread \<longrightarrow> \<not> tp_open s \<and> tp_reading s = Not_reading \<and> tp_jobs s = [] \<and> \<not> tp_writing s \<and>
          tp_writeQueue s = [] \<and> \<not> tp_notified s \<and> tp_closer s \<noteq> Some True) \<and>
       (tp_thread s = Io_running \<longrightarrow> (tp_open s \<longrightarrow> \<not> tp_notified s) \<and> (tp_reading s = Not_reading \<longrightarrow> tp_notified s)) \<and>
       (tp_thread s = Io_ended \<longrightarrow> \<not> tp_open s \<and> tp_jobs s = [] \<and> \<not> tp_writing s \<and> tp_notified s))"

lemma tp_inv_new: "tp_inv new_transport"
  by (simp add: tp_inv_def new_transport_def closed_calls_def)

text \<open>One lemma per operation; \<open>notifyClose\<close> first, which most of them end with.\<close>

lemma notifyClose_same [simp]:
  "tp_thread (notifyClose s) = tp_thread s" "tp_stopped (notifyClose s) = tp_stopped s"
  "tp_reading (notifyClose s) = tp_reading s" "tp_jobs (notifyClose s) = tp_jobs s"
  "tp_writing (notifyClose s) = tp_writing s" "tp_writeQueue (notifyClose s) = tp_writeQueue s"
  "tp_closer (notifyClose s) = tp_closer s" "tp_notified (notifyClose s)" "\<not> tp_open (notifyClose s)"
  "tp_sent (notifyClose s) = tp_sent s"
  by (simp_all add: notifyClose_def Let_def)

lemma closed_calls_notify: "closed_calls (notifyClose s) = (if tp_notified s then closed_calls s else closed_calls s + 1)"
  by (simp add: notifyClose_def closed_calls_def Let_def)

lemma tp_inv_connect: "tp_inv u \<Longrightarrow> fst (tp_connect e u) \<noteq> Terminates \<Longrightarrow> tp_inv (snd (tp_connect e u))"
  by (cases "tp_open u"; cases "tp_stopped u"; cases "tp_notified u"; cases "tp_thread u")
    (simp_all add: tp_inv_def closed_calls_def tp_connect_def Let_def split: if_splits)

lemma tp_inv_written: "tp_inv u \<Longrightarrow> tp_thread u = Io_running \<Longrightarrow> tp_inv (tp_written ok u)"
  by (cases ok; cases "tl (tp_writeQueue u) = []"; cases "tp_closing u")
    (simp_all add: tp_written_def tp_doWrite_def tp_inv_def closed_calls_def notifyClose_def Let_def)

lemma tp_inv_job: "tp_inv u \<Longrightarrow> tp_thread u = Io_running \<Longrightarrow> tp_inv (run_tjob j (u\<lparr>tp_jobs := js\<rparr>))"
  by (cases j; cases "tp_writeQueue u = []")
    (simp_all add: tp_inv_def closed_calls_def run_tjob_def tp_doWrite_def Let_def)

lemma tp_inv_reads:
  assumes "tp_inv u" and "tp_thread u = Io_running" and "tp_reading u \<noteq> Not_reading"
  shows "tp_inv (header_read hdr u)" "tp_inv (body_read body u)" "tp_inv (read_error u)"
  using assms by (auto simp: tp_inv_def closed_calls_def notifyClose_def header_read_def body_read_def
      read_error_def Let_def)

lemma tp_inv_calls:
  assumes "tp_inv u"
  shows "tp_inv (tp_send data u)" "tp_closer u = None \<Longrightarrow> tp_inv (tp_close u)"
    "tp_closer u = Some wasOpen \<Longrightarrow> tp_thread u \<noteq> Io_running \<Longrightarrow> tp_inv (tp_joined wasOpen u)"
  using assms by (cases "tp_thread u"; auto simp: tp_inv_def closed_calls_def notifyClose_def tp_send_def
      sends_def tp_close_def tp_joined_def Let_def)+

lemma tp_inv_step: "tp_inv u \<Longrightarrow> tp_step ev u = Some u' \<Longrightarrow> tp_inv u'"
proof (cases ev)
  case (Connect e)
  obtain r v where "tp_connect e u = (r, v)" by fastforce
  then show "tp_inv u \<Longrightarrow> tp_step ev u = Some u' \<Longrightarrow> tp_inv u'"
    using tp_inv_connect [of u e] by (cases r) (simp_all add: Connect)
next
  case Io_end
  show "tp_inv u \<Longrightarrow> tp_step ev u = Some u' \<Longrightarrow> tp_inv u'"
    by (auto simp: Io_end tp_inv_def closed_calls_def split: if_splits)
qed (auto simp: io_active_def tp_inv_written tp_inv_job tp_inv_reads tp_inv_calls split: list.splits if_splits option.splits)

lemma tp_inv_run: "tp_run evs new_transport = Some (acc, s) \<Longrightarrow> tp_inv s"
  using tp_run_invariant [of evs new_transport acc s "\<lambda>_. tp_inv" "[]"] tp_inv_step tp_inv_new by blast

text \<open>
  C18. Until the client has closed its transport, the frames written to the socket, in order, are a
  prefix of the frames whose sending was accepted, whole and none twice; the end of the connection is
  reported at most once, not while the connection is open, and always when the io thread has ended.
\<close>

theorem transport_orderly:
  assumes "tp_run evs new_transport = Some (acc, s)"
  shows "prefix (tp_sent s) acc \<and> closed_calls s \<le> 1 \<and>
    (tp_stopped s \<or> ((tp_open s \<longrightarrow> closed_calls s = 0 \<and> tp_reading s \<noteq> Not_reading) \<and>
      (tp_thread s = Io_ended \<longrightarrow> closed_calls s = 1)))"
  using tp_fifo_run [OF assms] tp_inv_run [OF assms]
  by (cases "tp_thread s") (auto simp: tp_fifo_def tp_inv_def)

subsection \<open>Closing sends what is waiting\<close>

definition tp_flows :: "transport \<Rightarrow> bool" where
  "tp_flows s \<longleftrightarrow> (tp_writeQueue s \<noteq> [] \<longrightarrow> tp_writing s)"

lemma tp_flows_step: "tp_flows u \<Longrightarrow> tp_step ev u = Some u' \<Longrightarrow> ev \<noteq> Written False \<Longrightarrow> tp_flows u'"
  by (cases ev) (auto simp: tp_flows_def tp_defs sends_def split: tp_splits)

lemma tp_flows_new: "tp_flows new_transport"
  by (simp add: tp_flows_def new_transport_def)

lemma tp_flows_run:
  "tp_run evs new_transport = Some (acc, s) \<Longrightarrow> Written False \<notin> set evs \<Longrightarrow> tp_flows s"
  using tp_run_invariant [of evs new_transport acc s "\<lambda>_. tp_flows" "[]"] tp_flows_step tp_flows_new by metis

text \<open>
  C20. Closing loses nothing: when \<open>close\<close> returns for the first time and no write has failed, every
  frame accepted before is on the socket, also those still queued when it was called, and the end of a
  connection there was has been reported.
\<close>

theorem close_sends_what_waits:
  assumes "tp_run evs new_transport = Some (acc, s)" and "Written False \<notin> set evs"
    and "\<not> tp_stopped s" and "tp_step Joined s = Some s'"
  shows "tp_sent s' = acc \<and> tp_thread s' = No_io_thread \<and> \<not> tp_open s' \<and>
    (tp_thread s \<noteq> No_io_thread \<longrightarrow> closed_calls s' = 1)"
proof -
  obtain wasOpen where c: "tp_closer s = Some wasOpen" "tp_thread s \<noteq> Io_running" "s' = tp_joined wasOpen s"
    using assms(4) by (auto split: option.splits if_splits)
  note facts = tp_fifo_run [OF assms(1)] tp_inv_run [OF assms(1)] tp_flows_run [OF assms(1,2)]
  show ?thesis
    using facts c assms(3)
    by (cases "tp_thread s") (auto simp: tp_fifo_def tp_inv_def tp_flows_def tp_joined_def notifyClose_def
        closed_calls_def Let_def)
qed

subsection \<open>Connecting again\<close>

definition received :: "transport \<Rightarrow> tcall list" where
  "received s = filter (\<lambda>c. c \<noteq> Connection_closed) (tp_calls s)"

definition all_succeed :: connect_env where
  "all_succeed = \<lparr>co_resolve = True, co_connect = True, co_server_name = True, co_handshake = True\<rparr>"

definition deaf_since :: "transport \<Rightarrow> transport \<Rightarrow> bool" where
  "deaf_since s u \<longleftrightarrow> tp_stopped u \<and> tp_sent u = tp_sent s \<and> received u = received s"

lemma deaf_step: "deaf_since s u \<Longrightarrow> tp_step ev u = Some u' \<Longrightarrow> deaf_since s u'"
  by (cases ev) (auto simp: deaf_since_def received_def tp_defs sends_def split: tp_splits)

text \<open>
  C29. A transport connects once. While the io thread of an earlier connection has not been joined, a
  second \<open>connect\<close> is refused or, once the first connection is lost, ends the program; after \<open>close\<close> it
  reports success, but the stopped io context never runs again: whatever happens from then on, not one
  frame is sent and not one packet is received.
\<close>

theorem reconnect_never_works:
  "(tp_thread s \<noteq> No_io_thread \<longrightarrow>
      fst (tp_connect all_succeed s) = (if tp_open s then Not_connected else Terminates)) \<and>
   (tp_step Joined s = Some s1 \<and> tp_run evs s1 = Some (acc, t) \<longrightarrow>
      (\<not> tp_open s1 \<longrightarrow> fst (tp_connect all_succeed s1) = Connected) \<and>
      tp_sent t = tp_sent s1 \<and> received t = received s1)"
proof (intro conjI impI)
  assume "tp_step Joined s = Some s1 \<and> tp_run evs s1 = Some (acc, t)"
  then have j: "tp_step Joined s = Some s1" and r: "tp_run evs s1 = Some (acc, t)" by blast+
  have s1: "tp_thread s1 = No_io_thread" "tp_stopped s1"
    using j by (auto simp: tp_joined_def notifyClose_def Let_def split: option.splits if_splits)
  show "fst (tp_connect all_succeed s1) = Connected" if "\<not> tp_open s1"
    using s1(1) that by (simp add: tp_connect_def all_succeed_def Let_def)
  have "deaf_since s1 s1" using s1(2) by (simp add: deaf_since_def)
  with r have "deaf_since s1 t"
    using tp_run_invariant [of evs s1 acc t "\<lambda>_. deaf_since s1" "[]"] deaf_step by blast
  then show "tp_sent t = tp_sent s1" "received t = received s1" by (simp_all add: deaf_since_def)
qed (simp add: tp_connect_def all_succeed_def Let_def)

subsection \<open>The framing of the client\<close>

text \<open>What the two read callbacks make of the bytes received so far.\<close>

definition client_read_frame :: "bytes \<Rightarrow> bytes verdict" where
  "client_read_frame s =
     (if length s < 4 then Incomplete
      else let bodyLen = decodeLen32 s in
        if bodyLen = 0 \<or> MAX_PACK_LEN < unat bodyLen then Reject
        else let n = unat bodyLen; body = drop 4 s in
          if length body < n then Incomplete else Accept (take n body) (drop n body))"

lemma client_read_frame_enc:
  assumes "data \<noteq> []" and "length data \<le> MAX_PACK_LEN"
  shows "client_read_frame (client_frame data @ rest) = Accept data rest"
proof -
  have n: "unat (of_nat (length data) :: 32 word) = length data"
    unfolding unat_of_nat by (rule mod_less) (use assms(2) in \<open>simp add: MAX_PACK_LEN_def\<close>)
  then have "(of_nat (length data) :: 32 word) \<noteq> 0" using assms(1) by (metis length_0_conv unat_0)
  then show ?thesis using n assms(2) by (simp add: client_read_frame_def client_frame_def Let_def)
qed

interpretation client: framing client_frame client_read_frame "\<lambda>data. data \<noteq> [] \<and> length data \<le> MAX_PACK_LEN"
proof unfold_locales
  fix data rest :: bytes
  assume "data \<noteq> [] \<and> length data \<le> MAX_PACK_LEN"
  then show "client_read_frame (client_frame data @ rest) = Accept data rest" using client_read_frame_enc by simp
next
  fix s m r :: bytes
  assume acc: "client_read_frame s = Accept m r"
  then show "length r < length s" by (auto simp: client_read_frame_def Let_def split: if_splits)
  fix t
  from acc have "4 \<le> length s" by (auto simp: client_read_frame_def split: if_splits)
  with acc show "client_read_frame (s @ t) = Accept m (r @ t)"
    by (auto simp: client_read_frame_def Let_def decodeLen32_append split: if_splits)
next
  fix s t :: bytes
  assume rej: "client_read_frame s = Reject"
  then have "4 \<le> length s" by (auto simp: client_read_frame_def split: if_splits)
  with rej show "client_read_frame (s @ t) = Reject"
    by (auto simp: client_read_frame_def Let_def decodeLen32_append split: if_splits)
qed

lemma raw_frame_is_client_frame: "raw_frame type payload = client_frame (encodeType32 type @ payload)"
  by (simp add: raw_frame_def client_frame_def)

text \<open>
  C37. Client and server speak the same framing, in both directions: from a stream of frames the server
  wrote, cut into chunks anywhere, the client's reader takes out exactly the protocol numbers and
  payloads that went in, and the server's reader does the same with the client's frames.
\<close>

theorem client_server_framing:
  assumes "\<forall>m \<in> set ms. 4 + length (snd m) \<le> MAX_PACK_LEN"
    and "concat chunks = concat (map (\<lambda>(type, payload). raw_frame type payload) ms)"
    and "concat chunks' = concat (map (\<lambda>(type, payload). client_frame (encodeType32 type @ payload)) ms)"
  shows "feed client_read_frame [] chunks = (map (\<lambda>(type, payload). encodeType32 type @ payload) ms, Accept [] []) \<and>
    feed read_frame [] chunks' = (ms, Accept [] [])"
proof -
  have none: "read_all read_frame [] = ([], Accept [] [])" "read_all client_read_frame [] = ([], Accept [] [])"
    by (simp_all add: read_all.simps read_frame_def client_read_frame_def)
  have raw: "(\<lambda>(type, payload). raw_frame type payload) = (\<lambda>(type, payload). client_frame (encodeType32 type @ payload))"
    by (simp add: raw_frame_is_client_frame)
  have "\<forall>m \<in> set (map (\<lambda>(type, payload). encodeType32 type @ payload) ms). m \<noteq> [] \<and> length m \<le> MAX_PACK_LEN"
    using assms(1) by (auto simp: encodeType32_def)
  from client.read_all_stream [OF this, of "[]"] have "read_all client_read_frame (concat chunks) =
      (map (\<lambda>(type, payload). encodeType32 type @ payload) ms, Accept [] [])"
    by (simp add: assms(2) none raw_frame_is_client_frame comp_def case_prod_unfold)
  moreover have "read_all read_frame (concat chunks') = (ms, Accept [] [])"
    using server.read_all_stream [of ms "[]"] assms(1) none by (simp add: assms(3) raw [symmetric] case_prod_beta)
  ultimately show ?thesis
    using client.feed_eq_read_all [OF none(2), of chunks] server.feed_eq_read_all [OF none(1), of chunks'] by simp
qed

subsection \<open>Witnesses\<close>

text \<open>A connection that sends two packets, receives one, and is closed while the second waits.\<close>

definition sample_calls :: "tp_event list" where
  "sample_calls = [Connect all_succeed, Send [1, 2], Run_job, Header_read [0, 0, 0, 1], Body_read [7],
     Send [3], Run_job, Close, Run_job, Written True, Written True, Read_error, Io_end]"

lemma sample_calls_run:
  "\<exists>s. tp_run sample_calls new_transport = Some ([[0, 0, 0, 2, 1, 2], [0, 0, 0, 1, 3]], s) \<and>
     tp_thread s = Io_ended \<and> \<not> tp_stopped s \<and> tp_closer s = Some True \<and> \<not> tp_open s \<and> tp_notified s \<and>
     received s = [Packet [7]]"
  by (simp add: sample_calls_def new_transport_def tp_defs sends_def all_succeed_def client_frame_def
      encodeLen32_def decodeLen32_def received_def MAX_PACK_LEN_def)

theorem transport_orderly_witness:
  "\<exists>acc s. tp_run sample_calls new_transport = Some (acc, s) \<and> length acc = 2 \<and> closed_calls s = 1"
proof -
  obtain s where s: "tp_run sample_calls new_transport = Some ([[0, 0, 0, 2, 1, 2], [0, 0, 0, 1, 3]], s)"
    "tp_thread s = Io_ended" "\<not> tp_stopped s" using sample_calls_run by blast
  show ?thesis using transport_orderly [OF s(1)] s by auto
qed

theorem close_sends_what_waits_witness:
  "\<exists>s s'. tp_run sample_calls new_transport = Some ([[0, 0, 0, 2, 1, 2], [0, 0, 0, 1, 3]], s) \<and>
     tp_step Joined s = Some s' \<and> tp_sent s' = [[0, 0, 0, 2, 1, 2], [0, 0, 0, 1, 3]] \<and> closed_calls s' = 1"
proof -
  obtain s where s: "tp_run sample_calls new_transport = Some ([[0, 0, 0, 2, 1, 2], [0, 0, 0, 1, 3]], s)"
    "tp_thread s = Io_ended" "\<not> tp_stopped s" "tp_closer s = Some True" using sample_calls_run by blast
  then have j: "tp_step Joined s = Some (tp_joined True s)" by simp
  have "Written False \<notin> set sample_calls" by (simp add: sample_calls_def)
  from close_sends_what_waits [OF s(1) this s(3) j] show ?thesis using s j by auto
qed

theorem reconnect_never_works_witness:
  "\<exists>s s1 acc t. tp_step Joined s = Some s1 \<and> fst (tp_connect all_succeed s1) = Connected \<and>
     tp_run [Connect all_succeed, Send [5], Io_end] s1 = Some (acc, t) \<and> acc \<noteq> [] \<and> tp_sent t = tp_sent s1 \<and>
     received t = [Packet [7]]"
proof -
  obtain s where s: "tp_thread s = Io_ended" "\<not> tp_stopped s" "tp_closer s = Some True" "\<not> tp_open s" "tp_notified s"
    "received s = [Packet [7]]" using sample_calls_run by blast
  let ?s1 = "tp_joined True s"
  have j: "tp_step Joined s = Some ?s1" using s by simp
  have o': "\<not> tp_open ?s1" "received ?s1 = [Packet [7]]"
    using s(6) by (simp_all add: tp_joined_def Let_def received_def notifyClose_def)
  obtain acc t where r: "tp_run [Connect all_succeed, Send [5], Io_end] ?s1 = Some (acc, t)" "acc \<noteq> []"
    using s(5) by (simp add: tp_joined_def Let_def tp_connect_def all_succeed_def tp_send_def sends_def
        client_frame_def MAX_PACK_LEN_def notifyClose_def)
  show ?thesis using reconnect_never_works [of s ?s1 "[Connect all_succeed, Send [5], Io_end]" acc t] j o' r by auto
qed

theorem client_server_framing_witness:
  "feed client_read_frame [] [[0, 0], [0, 5, 0xEB, 3, 0, 0], [7]] = ([[0xEB, 3, 0, 0, 7]], Accept [] []) \<and>
   feed read_frame [] [[0, 0, 0, 5], [0xEB, 3, 0, 0, 7]] = ([(1003, [7])], Accept [] [])"
  using client_server_framing [of "[(1003, [7])]" "[[0, 0], [0, 5, 0xEB, 3, 0, 0], [7]]" "[[0, 0, 0, 5], [0xEB, 3, 0, 0, 7]]"]
  by (simp add: MAX_PACK_LEN_def raw_frame_def client_frame_def encodeLen32_def encodeType32_def)

end
