(* ===== verification/ClientStorage.thy ===== *)
theory ClientStorage
  imports Prelude "HOL-Library.Product_Lexorder" "HOL-Library.Multiset"
begin

text \<open>
  \<open>client_core/src/SqliteStorage.cpp\<close>: the client's own file with its profile, its friends and the
  chat history of every account used on the machine. The outcome of each sqlite call is a parameter;
  text is bound up to its first NUL.
\<close>

subsection \<open>Data\<close>

record UserInfo =
  us_id :: int
  us_iconId :: int
  us_nick :: string
  us_feeling :: string

record FriendEntry =
  fe_id :: int
  fe_iconId :: int
  fe_status :: int
  fe_nick :: string
  fe_feeling :: string

record ChatMessage =
  cm_id :: int
  cm_peerId :: int
  cm_outgoing :: bool
  cm_content :: string
  cm_ts :: int

record chat_row =
  cw_owner :: int
  cw_msg :: ChatMessage

text \<open>The file: two tables with a primary key and the history with its AUTOINCREMENT counter.\<close>

record storage =
  so_open :: bool
  so_self :: "(int, UserInfo) umap"
  so_friends :: "(int, FriendEntry) umap"
  so_chats :: "chat_row list"
  so_ctr :: int

record db_calls =
  dc_open :: bool
  dc_tables :: bool
  dc_prepare :: bool
  dc_step :: bool
  dc_rows :: "nat option"

definition all_work :: db_calls where
  "all_work = \<lparr>dc_open = True, dc_tables = True, dc_prepare = True, dc_step = True, dc_rows = None\<rparr>"

definition rows_read :: "db_calls \<Rightarrow> 'r list \<Rightarrow> 'r list" where
  "rows_read d rows = (case dc_rows d of None \<Rightarrow> rows | Some n \<Rightarrow> take n rows)"

subsection \<open>Operations\<close>

definition storage_open :: "db_calls \<Rightarrow> storage \<Rightarrow> bool \<times> storage" where
  "storage_open d s =
     (if so_open s then (True, s)
      else if \<not> dc_open d then (False, s)
      else (dc_tables d, s\<lparr>so_open := True\<rparr>))"

definition storage_close :: "storage \<Rightarrow> storage" where
  "storage_close s = s\<lparr>so_open := False\<rparr>"

definition saveSelfInfo :: "db_calls \<Rightarrow> UserInfo \<Rightarrow> storage \<Rightarrow> bool \<times> storage" where
  "saveSelfInfo d info s =
     (if \<not> so_open s \<or> \<not> dc_prepare d \<or> \<not> dc_step d then (False, s)
      else (True, s\<lparr>so_self := uput (us_id info)
        (info\<lparr>us_nick := cstr (us_nick info), us_feeling := cstr (us_feeling info)\<rparr>) (so_self s)\<rparr>))"

definition saveFriend :: "db_calls \<Rightarrow> FriendEntry \<Rightarrow> storage \<Rightarrow> bool \<times> storage" where
  "saveFriend d info s =
     (if \<not> so_open s \<or> \<not> dc_prepare d \<or> \<not> dc_step d then (False, s)
      else (True, s\<lparr>so_friends := uput (fe_id info)
        (info\<lparr>fe_nick := cstr (fe_nick info), fe_feeling := cstr (fe_feeling info)\<rparr>) (so_friends s)\<rparr>))"

definition loadFriends :: "db_calls \<Rightarrow> storage \<Rightarrow> FriendEntry list" where
  "loadFriends d s =
     (if \<not> so_open s \<or> \<not> dc_prepare d then [] else rows_read d (map snd (so_friends s)))"

definition saveChatMessage ::
  "db_calls \<Rightarrow> int \<Rightarrow> int \<Rightarrow> bool \<Rightarrow> string \<Rightarrow> int \<Rightarrow> storage \<Rightarrow> bool \<times> storage" where
  "saveChatMessage d ownerId peerId outgoing content' ts s =
     (if \<not> so_open s \<or> \<not> dc_prepare d \<or> \<not> dc_step d then (False, s)
      else (True, s\<lparr>so_chats := so_chats s @ [\<lparr>cw_owner = ownerId, cw_msg =
              \<lparr>cm_id = so_ctr s + 1, cm_peerId = peerId, cm_outgoing = outgoing,
               cm_content = cstr content', cm_ts = ts\<rparr>\<rparr>],
            so_ctr := so_ctr s + 1\<rparr>))"

definition history_key :: "ChatMessage \<Rightarrow> int \<times> int" where
  "history_key m = (cm_ts m, cm_id m)"

definition history_rows :: "int \<Rightarrow> int \<Rightarrow> storage \<Rightarrow> ChatMessage list" where
  "history_rows ownerId peerId s =
     map cw_msg (filter (\<lambda>r. cw_owner r = ownerId \<and> cm_peerId (cw_msg r) = peerId) (so_chats s))"

text \<open>
  The two queries: everything in ascending order, or the first rows of the descending order, put in
  ascending order again.
\<close>

definition loadChatHistory :: "db_calls \<Rightarrow> int \<Rightarrow> int \<Rightarrow> int \<Rightarrow> storage \<Rightarrow> ChatMessage list" where
  "loadChatHistory d ownerId peerId limit s =
     (if \<not> so_open s \<or> \<not> dc_prepare d then []
      else let rows = history_rows ownerId peerId s in
        rows_read d
          (if 0 < limit
           then sort_key history_key (take (nat limit) (rev (sort_key history_key rows)))
           else sort_key history_key rows))"

subsection \<open>The history\<close>

definition storage_ok :: "storage \<Rightarrow> bool" where
  "storage_ok s \<longleftrightarrow> sorted_wrt (<) (map (\<lambda>r. cm_id (cw_msg r)) (so_chats s)) \<and>
     (\<forall>r \<in> set (so_chats s). cm_id (cw_msg r) \<le> so_ctr s) \<and> uvalid (so_friends s)"

lemma storage_ok_saves:
  assumes "storage_ok s"
  shows "storage_ok (snd (saveSelfInfo d u s))" "storage_ok (snd (saveFriend d f s))"
    "storage_ok (snd (saveChatMessage d ow pe out c ts s))"
  using assms umap.valid_put
  by (auto simp: storage_ok_def saveSelfInfo_def saveFriend_def saveChatMessage_def sorted_wrt_append)

lemma history_keys_distinct: "storage_ok s \<Longrightarrow> distinct (map history_key (history_rows ow pe s))"
proof -
  assume "storage_ok s"
  then have "distinct (map (\<lambda>r. cm_id (cw_msg r)) (so_chats s))"
    using strict_sorted_iff unfolding storage_ok_def by blast
  then have "distinct (map cm_id (history_rows ow pe s))"
    by (simp add: history_rows_def comp_def distinct_map_filter)
  then show ?thesis by (auto simp: distinct_map history_key_def inj_on_def)
qed

lemma sort_suffix:
  assumes "distinct (map f xs)"
  shows "sort_key f (take n (rev (sort_key f xs))) = drop (length xs - n) (sort_key f xs)"
proof -
  let ?L = "sort_key f xs"
  have "mset (take n (rev ?L)) = mset (drop (length xs - n) ?L)"
    by (simp add: take_rev)
  moreover have "inj_on f (set (take n (rev ?L)))"
    using assms by (auto simp: distinct_map inj_on_def dest!: in_set_takeD)
  moreover have "sorted (map f (drop (length xs - n) ?L))"
    by (metis drop_map sorted_sort_key sorted_wrt_drop)
  ultimately show ?thesis by (rule sort_key_inj_key_eq)
qed

text \<open>
  Reading the history with a limit gives its latest messages: they are the last rows of the whole
  history of this account with this friend, in ascending order of time and id, at most \<open>limit\<close> of
  them, and all of them when the limit is not positive.
\<close>

theorem history_is_latest:
  assumes "storage_ok s" and "so_open s"
  shows "let whole = loadChatHistory all_work ow pe 0 s; page = loadChatHistory all_work ow pe limit s in
    sorted_wrt (\<lambda>a b. cm_ts a < cm_ts b \<or> cm_ts a = cm_ts b \<and> cm_id a < cm_id b) whole \<and>
    set whole = set (history_rows ow pe s) \<and>
    page = (if 0 < limit then drop (length whole - nat limit) whole else whole)"
proof -
  let ?r = "history_rows ow pe s"
  have d: "distinct (map history_key ?r)" by (rule history_keys_distinct [OF assms(1)])
  then have "distinct (map history_key (sort_key history_key ?r))" by (simp add: distinct_map)
  then have "sorted_wrt (<) (map history_key (sort_key history_key ?r))"
    by (simp add: strict_sorted_iff)
  then have "sorted_wrt (\<lambda>a b. cm_ts a < cm_ts b \<or> cm_ts a = cm_ts b \<and> cm_id a < cm_id b) (sort_key history_key ?r)"
    by (simp add: sorted_wrt_map history_key_def less_prod_def')
  then show ?thesis
    using assms(2) sort_suffix [OF d, of "nat limit"]
    by (simp add: loadChatHistory_def all_work_def rows_read_def Let_def)
qed

text \<open>
  What the client saves it loads back: a message whose save succeeded is the history's only new
  row, under a new id, and a friend whose save succeeded is listed once, with the values of the last
  save; a failed save changes nothing.
\<close>

theorem saved_is_loaded:
  assumes "storage_ok s" and "saveChatMessage d ow pe out c ts s = (ok, s1)" and "saveFriend d f s = (ok', s2)"
  shows "(if ok then \<exists>m. history_rows ow pe s1 = history_rows ow pe s @ [m] \<and> cm_content m = cstr c \<and>
             cm_outgoing m = out \<and> cm_ts m = ts \<and> cm_peerId m = pe \<and>
             list_all (\<lambda>r. cm_id (cw_msg r) < cm_id m) (so_chats s)
          else s1 = s) \<and>
    (if ok' then filter (\<lambda>g. fe_id g = fe_id f) (loadFriends all_work s2) \<noteq> [] \<and>
             uget (so_friends s2) (fe_id f) = Some (f\<lparr>fe_nick := cstr (fe_nick f), fe_feeling := cstr (fe_feeling f)\<rparr>) \<and>
             distinct (map fst (so_friends s2))
          else s2 = s)"
proof -
  have "list_all (\<lambda>r. cm_id (cw_msg r) < so_ctr s + 1) (so_chats s)"
    using assms(1) by (auto simp: storage_ok_def list_all_iff)
  moreover have "storage_ok s2" using storage_ok_saves(2) [OF assms(1), of d f] assms(3) by simp
  ultimately show ?thesis
    using assms(2,3)
    by (auto simp: saveChatMessage_def saveFriend_def history_rows_def loadFriends_def all_work_def rows_read_def
        storage_ok_def uvalid_def uput_def split: if_splits) (simp_all add: uget_def)
qed

definition sample_storage :: storage where
  "sample_storage = \<lparr>so_open = True, so_self = [], so_friends = [],
     so_chats = map (\<lambda>(i, t). \<lparr>cw_owner = 1, cw_msg = \<lparr>cm_id = i, cm_peerId = 2, cm_outgoing = False,
       cm_content = ''x'', cm_ts = t\<rparr>\<rparr>) [(1, 50), (2, 40), (3, 60)], so_ctr = 3\<rparr>"

lemma sample_storage_ok: "storage_ok sample_storage" "so_open sample_storage"
  by (simp_all add: storage_ok_def sample_storage_def uvalid_def)

theorem history_is_latest_witness:
  "map cm_id (loadChatHistory all_work 1 2 2 sample_storage) = [1, 3]"
  using history_is_latest [OF sample_storage_ok, of 1 2 2]
  by (simp add: Let_def loadChatHistory_def all_work_def rows_read_def sample_storage_def history_rows_def
      history_key_def insort_key_def less_eq_prod_def)

theorem saved_is_loaded_witness:
  "\<exists>s1 s2. saveChatMessage all_work 1 2 True ''hi'' 70 sample_storage = (True, s1) \<and>
     saveFriend all_work \<lparr>fe_id = 2, fe_iconId = 1, fe_status = 0, fe_nick = ''b'', fe_feeling = []\<rparr> sample_storage = (True, s2) \<and>
     (\<exists>m. history_rows 1 2 s1 = history_rows 1 2 sample_storage @ [m] \<and> cm_content m = ''hi'') \<and>
     uget (so_friends s2) 2 \<noteq> None"
proof -
  let ?f = "\<lparr>fe_id = 2, fe_iconId = 1, fe_status = 0, fe_nick = ''b'', fe_feeling = []\<rparr>"
  obtain s1 s2 where s: "saveChatMessage all_work 1 2 True ''hi'' 70 sample_storage = (True, s1)"
    "saveFriend all_work ?f sample_storage = (True, s2)"
    by (simp add: saveChatMessage_def saveFriend_def all_work_def sample_storage_def)
  have "cstr ''hi'' = ''hi''" by (simp add: cstr_def)
  then show ?thesis using saved_is_loaded [OF sample_storage_ok(1) s] s by auto
qed

end
