(* ===== verification/ClientCore.thy ===== *)
theory ClientCore
  imports ClientTransport ClientStorage HttpFiles
begin

text \<open>
  \<open>client_core/src/ClientCore.cpp\<close>: the client library between transport, storage and user interface.
  The state is the members of the class, with the transport and the storage inside and the calls of the
  event sink as a list. The protobuf codec, the clocks, the random numbers and the HTTP library are
  parameters. The outcome of \<open>connectToServer\<close> is \<open>None\<close> where the program ends.
\<close>

subsection \<open>Messages\<close>

record RoamMessage =
  rm_fromId :: int
  rm_toId :: int
  rm_type :: int
  rm_text :: string
  rm_fileId :: string
  rm_fileName :: string
  rm_fileSize :: int
  rm_contentType :: string
  rm_imgW :: int
  rm_imgH :: int
  rm_msgId :: string
  rm_ts :: int
  rm_seq :: int

text \<open>The calls of \<open>IClientEvents\<close>.\<close>

datatype ui_call =
    UI_RegisterResult int | UI_LoginResult int int | UI_SelfInfo UserInfo | UI_FriendInfo FriendEntry
  | UI_ChatMessage int string | UI_ChatSendResult int int | UI_AddFriendRequest int string
  | UI_AddFriendResult int string | UI_FriendOffline int | UI_KickedOffline int | UI_ConnectionClosed
  | UI_RoamConversations "RoamMessage list" | UI_RoamMessages int "RoamMessage list" bool int
  | UI_FileCard int string string int string string string bool int int

text \<open>What the client sends; the login request also names the device and the version.\<close>

datatype cmsg =
    C_RegisterRq RegisterRq | C_LoginRq LoginRq string string | C_ChatInfoRq ChatInfoRq
  | C_AddFriendRq AddFriendRq | C_AddFriendRs AddFriendRs | C_FriendOffline int
  | C_RoamConvRq int | C_RoamMsgRq int RoamMsgRq | C_Heartbeat

fun cmsg_type :: "cmsg \<Rightarrow> 32 word" where
  "cmsg_type (C_RegisterRq _) = DEF_PROT_REGISTER_RQ"
| "cmsg_type (C_LoginRq _ _ _) = DEF_PROT_LOGIN_RQ"
| "cmsg_type (C_ChatInfoRq _) = DEF_PROT_CHAT_INFO_RQ"
| "cmsg_type (C_AddFriendRq _) = DEF_PROT_ADD_FRIEND_RQ"
| "cmsg_type (C_AddFriendRs _) = DEF_PROT_ADD_FRIEND_RS"
| "cmsg_type (C_FriendOffline _) = DEF_PROT_FRIEND_OFFLINE"
| "cmsg_type (C_RoamConvRq _) = DEF_PROT_ROAM_CONV_RQ"
| "cmsg_type (C_RoamMsgRq _ _) = DEF_PROT_ROAM_MSG_RQ"
| "cmsg_type C_Heartbeat = DEF_PROT_HEARTBEAT_RQ"

record client_codec =
  ser_cmsg :: "cmsg \<Rightarrow> bytes"
  cparse_RegisterRs :: "bytes \<Rightarrow> int option"
  cparse_LoginRs :: "bytes \<Rightarrow> LoginRs option"
  cparse_FriendInfo :: "bytes \<Rightarrow> FriendInfo option"
  cparse_ChatInfoRq :: "bytes \<Rightarrow> ChatInfoRq option"
  cparse_ChatInfoRs :: "bytes \<Rightarrow> ChatInfoRs option"
  cparse_AddFriendRq :: "bytes \<Rightarrow> AddFriendRq option"
  cparse_AddFriendRs :: "bytes \<Rightarrow> AddFriendRs option"
  cparse_FriendOffline :: "bytes \<Rightarrow> int option"
  cparse_RoamConvRs :: "bytes \<Rightarrow> ChatInfoRq list option"
  cparse_RoamMsgRs :: "bytes \<Rightarrow> RoamMsgRs option"

text \<open>The clocks, the random number, the database calls and the codec.\<close>

record client_env =
  cl_codec :: client_codec
  cl_steady :: int
  cl_time :: int
  cl_rand :: "64 word"
  cl_db :: db_calls

subsection \<open>State\<close>

record client_state =
  k_transport :: transport
  k_sink :: bool
  k_storage :: "storage option"
  k_ui :: "ui_call list"
  k_myId :: int
  k_iconId :: int
  k_nick :: string
  k_feeling :: string
  k_tlsServerName :: string
  k_caFile :: string
  k_httpPort :: "16 word"
  k_host :: string
  k_accessToken :: string
  k_deviceId :: string
  k_hbRunning :: bool
  k_hbIntervalMs :: int
  k_lastRecvMs :: int
  k_counter :: "64 word"

definition new_core :: "string \<Rightarrow> string \<Rightarrow> 16 word \<Rightarrow> client_state" where
  "new_core tlsServerName caFile httpPort = \<lparr>k_transport = new_transport, k_sink = False, k_storage = None,
     k_ui = [], k_myId = 0, k_iconId = 0, k_nick = [], k_feeling = [], k_tlsServerName = tlsServerName,
     k_caFile = caFile, k_httpPort = httpPort, k_host = [], k_accessToken = [],
     k_deviceId = ''client-core-default'', k_hbRunning = False, k_hbIntervalMs = 30000, k_lastRecvMs = 0,
     k_counter = 0\<rparr>"

definition notify_ui :: "ui_call \<Rightarrow> client_state \<Rightarrow> client_state" where
  "notify_ui u k = (if k_sink k then k\<lparr>k_ui := k_ui k @ [u]\<rparr> else k)"

definition store :: "(storage \<Rightarrow> bool \<times> storage) \<Rightarrow> client_state \<Rightarrow> client_state" where
  "store op k = (case k_storage k of None \<Rightarrow> k | Some s \<Rightarrow> k\<lparr>k_storage := Some (snd (op s))\<rparr>)"

subsection \<open>Connecting\<close>

definition startHeartbeat :: "client_state \<Rightarrow> client_state" where
  "startHeartbeat k = (if k_hbRunning k then k else k\<lparr>k_hbRunning := True\<rparr>)"

definition stopHeartbeat :: "client_state \<Rightarrow> client_state" where
  "stopHeartbeat k = k\<lparr>k_hbRunning := False\<rparr>"

definition setHeartbeatIntervalMs :: "int \<Rightarrow> client_state \<Rightarrow> client_state" where
  "setHeartbeatIntervalMs intervalMs k = (if 0 < intervalMs then k\<lparr>k_hbIntervalMs := intervalMs\<rparr> else k)"

definition connectToServer ::
  "client_env \<Rightarrow> connect_env \<Rightarrow> string \<Rightarrow> 16 word \<Rightarrow> client_state \<Rightarrow> (bool \<times> client_state) option" where
  "connectToServer e ce ip port k =
     (case tp_connect ce (k_transport k) of
        (Terminates, _) \<Rightarrow> None
      | (Not_connected, t) \<Rightarrow> Some (False, k\<lparr>k_transport := t\<rparr>)
      | (Connected, t) \<Rightarrow>
          let k1 = k\<lparr>k_transport := t, k_host := ip\<rparr>;
              k2 = (if k_httpPort k1 = 0 then k1\<lparr>k_httpPort := port + 1\<rparr> else k1);
              k3 = k2\<lparr>k_lastRecvMs := cl_steady e\<rparr>
          in Some (True, startHeartbeat k3))"

text \<open>\<open>disconnect\<close>, to the wait for the io thread.\<close>

definition disconnect :: "client_state \<Rightarrow> client_state" where
  "disconnect k = (let k1 = stopHeartbeat k in k1\<lparr>k_transport := tp_close (k_transport k1)\<rparr>)"

definition isConnected :: "client_state \<Rightarrow> bool" where
  "isConnected k = tp_open (k_transport k)"

subsection \<open>Requests\<close>

definition USER_TEL_LEN :: nat where
  "USER_TEL_LEN = 15"

definition sendPacket :: "32 word \<Rightarrow> bytes \<Rightarrow> client_state \<Rightarrow> client_state" where
  "sendPacket type payload k = k\<lparr>k_transport := tp_send (encodeType32 type @ payload) (k_transport k)\<rparr>"

definition send_msg :: "client_env \<Rightarrow> cmsg \<Rightarrow> client_state \<Rightarrow> client_state" where
  "send_msg e m k = sendPacket (cmsg_type m) (ser_cmsg (cl_codec e) m) k"

text \<open>\<open>printf\<close>'s \<open>%0<w>llx\<close>: at least \<open>w\<close> lower-case hex digits.\<close>

function hex_of :: "nat \<Rightarrow> string" where
  "hex_of n = (if n < 16 then [hex_digits ! n] else hex_of (n div 16) @ [hex_digits ! (n mod 16)])"
  by pat_completeness auto
termination by (relation "measure id") auto

declare hex_of.simps [simp del]

definition hex_pad :: "nat \<Rightarrow> nat \<Rightarrow> string" where
  "hex_pad w n = replicate (w - length (hex_of n)) CHR ''0'' @ hex_of n"

text \<open>The buffer of \<open>makeMsgId\<close> has 40 bytes; its counter is shared by the process.\<close>

definition makeMsgId :: "client_env \<Rightarrow> client_state \<Rightarrow> string \<times> client_state" where
  "makeMsgId e k =
     (let ts = (of_int (cl_steady e) :: 64 word); seq = k_counter k in
      (take 39 (hex_pad 13 (unat ts) @ hex_pad 5 (unat (seq AND 0xFFFFF)) @ hex_pad 16 (unat (cl_rand e))),
       k\<lparr>k_counter := k_counter k + 1\<rparr>))"

definition sendRegister :: "client_env \<Rightarrow> string \<Rightarrow> string \<Rightarrow> string \<Rightarrow> client_state \<Rightarrow> client_state" where
  "sendRegister e nickUtf8 tel pass k =
     send_msg e (C_RegisterRq \<lparr>rg_nick = utf8Truncate nickUtf8 (USER_NICK_LEN - 1),
       rg_tel = utf8Truncate tel (USER_TEL_LEN - 1), rg_pass = sha256Hex pass\<rparr>) k"

definition sendLogin :: "client_env \<Rightarrow> string \<Rightarrow> string \<Rightarrow> client_state \<Rightarrow> client_state" where
  "sendLogin e tel pass k =
     send_msg e (C_LoginRq \<lparr>lg_tel = utf8Truncate tel (USER_TEL_LEN - 1), lg_pass = sha256Hex pass,
       lg_device_id = k_deviceId k\<rparr> ''C++ ClientCore'' ''client-core-0.5.0'') k"

definition chat_request :: "client_state \<Rightarrow> int \<Rightarrow> string \<Rightarrow> string \<Rightarrow> ChatInfoRq" where
  "chat_request k friId msg k_id = empty_ChatInfoRq\<lparr>c_myid := k_myId k, c_friid := friId, c_msg := msg,
     c_type := TEXT, c_msg_id := k_id\<rparr>"

definition sendChatMessage :: "client_env \<Rightarrow> int \<Rightarrow> string \<Rightarrow> client_state \<Rightarrow> client_state" where
  "sendChatMessage e friId msgUtf8 k =
     (let msg = utf8Truncate msgUtf8 (CHAT_MSG_LEN - 1);
          (mid, k1) = makeMsgId e k;
          k2 = send_msg e (C_ChatInfoRq (chat_request k1 friId msg mid)) k1
      in if 0 < k_myId k2
         then store (saveChatMessage (cl_db e) (k_myId k2) friId True msg (cl_time e)) k2 else k2)"

definition sendAddFriendRequest :: "client_env \<Rightarrow> string \<Rightarrow> client_state \<Rightarrow> client_state" where
  "sendAddFriendRequest e friNickUtf8 k =
     send_msg e (C_AddFriendRq \<lparr>af_myid = k_myId k, af_mynick = k_nick k,
       af_frinick = utf8Truncate friNickUtf8 (USER_NICK_LEN - 1)\<rparr>) k"

definition answerAddFriend :: "client_env \<Rightarrow> int \<Rightarrow> string \<Rightarrow> bool \<Rightarrow> client_state \<Rightarrow> client_state" where
  "answerAddFriend e destId destNickUtf8 agree k =
     send_msg e (C_AddFriendRs \<lparr>ar_result = (if agree then ADD_FRIEND_AGREE else ADD_FRIEND_REJECT),
       ar_destid = destId, ar_destnick = utf8Truncate destNickUtf8 (USER_NICK_LEN - 1),
       ar_myid = k_myId k, ar_mynick = k_nick k\<rparr>) k"

definition sendOfflineNotify :: "client_env \<Rightarrow> client_state \<Rightarrow> client_state" where
  "sendOfflineNotify e k = send_msg e (C_FriendOffline (k_myId k)) k"

definition sendRoamConvRq :: "client_env \<Rightarrow> client_state \<Rightarrow> client_state" where
  "sendRoamConvRq e k = send_msg e (C_RoamConvRq (k_myId k)) k"

definition sendRoamMsgRq :: "client_env \<Rightarrow> int \<Rightarrow> int \<Rightarrow> int \<Rightarrow> client_state \<Rightarrow> client_state" where
  "sendRoamMsgRq e peerId beforeSeq limit k =
     send_msg e (C_RoamMsgRq (k_myId k) \<lparr>rq_peer_id = peerId, rq_before_seq = beforeSeq, rq_limit = limit\<rparr>) k"

definition sendFileMessage ::
  "client_env \<Rightarrow> int \<Rightarrow> string \<Rightarrow> string \<Rightarrow> int \<Rightarrow> string \<Rightarrow> string \<Rightarrow> bool \<Rightarrow> int \<Rightarrow> int \<Rightarrow> client_state \<Rightarrow> client_state" where
  "sendFileMessage e friId fid fileName size' contentType' sha isImage w h k =
     (let rq = empty_ChatInfoRq\<lparr>c_myid := k_myId k, c_friid := friId, c_type := (if isImage then IMAGE else FILE),
            c_file_id := fid, c_file_name := fileName, c_file_size := size', c_content_type := contentType',
            c_sha256 := sha, c_image_width := w, c_image_height := h\<rparr>;
          (mid, k1) = makeMsgId e k
      in send_msg e (C_ChatInfoRq (rq\<lparr>c_msg_id := mid\<rparr>)) k1)"

subsection \<open>Packets\<close>

definition onRegisterRs :: "client_env \<Rightarrow> bytes \<Rightarrow> client_state \<Rightarrow> client_state" where
  "onRegisterRs e data k =
     (case cparse_RegisterRs (cl_codec e) data of None \<Rightarrow> k | Some r \<Rightarrow> notify_ui (UI_RegisterResult r) k)"

definition onLoginRs :: "client_env \<Rightarrow> bytes \<Rightarrow> client_state \<Rightarrow> client_state" where
  "onLoginRs e data k =
     (case cparse_LoginRs (cl_codec e) data of
        None \<Rightarrow> k
      | Some rs \<Rightarrow>
          notify_ui (UI_LoginResult (lrs_result rs) (lrs_userid rs))
            (if lrs_result rs = LOGIN_SUCCESS
             then k\<lparr>k_myId := lrs_userid rs, k_accessToken := lrs_access_token rs\<rparr> else k))"

definition onFriendInfoPkt :: "client_env \<Rightarrow> bytes \<Rightarrow> client_state \<Rightarrow> client_state" where
  "onFriendInfoPkt e data k =
     (case cparse_FriendInfo (cl_codec e) data of
        None \<Rightarrow> k
      | Some info \<Rightarrow>
          if fi_userid info = k_myId k
          then let k1 = k\<lparr>k_iconId := fi_iconid info, k_nick := fi_nick info, k_feeling := fi_feeling info\<rparr>;
                   self = \<lparr>us_id = k_myId k1, us_iconId = k_iconId k1, us_nick = k_nick k1, us_feeling = k_feeling k1\<rparr>
               in notify_ui (UI_SelfInfo self) (store (saveSelfInfo (cl_db e) self) k1)
          else let fri = \<lparr>fe_id = fi_userid info, fe_iconId = fi_iconid info, fe_status = fi_status info,
                          fe_nick = fi_nick info, fe_feeling = fi_feeling info\<rparr>
               in notify_ui (UI_FriendInfo fri) (store (saveFriend (cl_db e) fri) k))"

definition onChatInfoRq :: "client_env \<Rightarrow> bytes \<Rightarrow> client_state \<Rightarrow> client_state" where
  "onChatInfoRq e data k =
     (case cparse_ChatInfoRq (cl_codec e) data of
        None \<Rightarrow> k
      | Some rq \<Rightarrow>
          if c_type rq = FILE \<or> c_type rq = IMAGE
          then notify_ui (UI_FileCard (c_myid rq) (c_file_id rq) (c_file_name rq) (c_file_size rq) (c_msg_id rq)
                 (c_content_type rq) (c_sha256 rq) (c_type rq = IMAGE) (c_image_width rq) (c_image_height rq)) k
          else notify_ui (UI_ChatMessage (c_myid rq) (c_msg rq))
                 (if 0 < k_myId k
                  then store (saveChatMessage (cl_db e) (k_myId k) (c_myid rq) False (c_msg rq) (cl_time e)) k
                  else k))"

definition onChatInfoRs :: "client_env \<Rightarrow> bytes \<Rightarrow> client_state \<Rightarrow> client_state" where
  "onChatInfoRs e data k =
     (case cparse_ChatInfoRs (cl_codec e) data of
        None \<Rightarrow> k | Some rs \<Rightarrow> notify_ui (UI_ChatSendResult (cr_myid rs) (cr_result rs)) k)"

definition onAddFriRq :: "client_env \<Rightarrow> bytes \<Rightarrow> client_state \<Rightarrow> client_state" where
  "onAddFriRq e data k =
     (case cparse_AddFriendRq (cl_codec e) data of
        None \<Rightarrow> k | Some rq \<Rightarrow> notify_ui (UI_AddFriendRequest (af_myid rq) (af_mynick rq)) k)"

definition onAddFriRs :: "client_env \<Rightarrow> bytes \<Rightarrow> client_state \<Rightarrow> client_state" where
  "onAddFriRs e data k =
     (case cparse_AddFriendRs (cl_codec e) data of
        None \<Rightarrow> k | Some rs \<Rightarrow> notify_ui (UI_AddFriendResult (ar_result rs) (ar_mynick rs)) k)"

definition onFriendOfflinePkt :: "client_env \<Rightarrow> bytes \<Rightarrow> client_state \<Rightarrow> client_state" where
  "onFriendOfflinePkt e data k =
     (case cparse_FriendOffline (cl_codec e) data of
        None \<Rightarrow> k | Some u \<Rightarrow> notify_ui (UI_FriendOffline u) k)"

definition onKickedOfflinePkt :: "client_env \<Rightarrow> bytes \<Rightarrow> client_state \<Rightarrow> client_state" where
  "onKickedOfflinePkt e data k = notify_ui (UI_KickedOffline 0) k"

definition onHeartbeatRs :: "client_env \<Rightarrow> bytes \<Rightarrow> client_state \<Rightarrow> client_state" where
  "onHeartbeatRs e data k = k"

definition toRoamMessage :: "ChatInfoRq \<Rightarrow> RoamMessage" where
  "toRoamMessage c = \<lparr>rm_fromId = c_myid c, rm_toId = c_friid c,
     rm_type = (if c_type c = IMAGE then 1 else if c_type c = FILE then 2 else 0), rm_text = c_msg c,
     rm_fileId = c_file_id c, rm_fileName = c_file_name c, rm_fileSize = c_file_size c,
     rm_contentType = c_content_type c, rm_imgW = c_image_width c, rm_imgH = c_image_height c,
     rm_msgId = c_msg_id c, rm_ts = c_ts c, rm_seq = c_seq c\<rparr>"

definition onRoamConvRs :: "client_env \<Rightarrow> bytes \<Rightarrow> client_state \<Rightarrow> client_state" where
  "onRoamConvRs e data k =
     (case cparse_RoamConvRs (cl_codec e) data of
        None \<Rightarrow> k | Some cs \<Rightarrow> notify_ui (UI_RoamConversations (map toRoamMessage cs)) k)"

definition onRoamMsgRs :: "client_env \<Rightarrow> bytes \<Rightarrow> client_state \<Rightarrow> client_state" where
  "onRoamMsgRs e data k =
     (case cparse_RoamMsgRs (cl_codec e) data of
        None \<Rightarrow> k
      | Some rs \<Rightarrow> notify_ui (UI_RoamMessages (rs_peer_id rs) (map toRoamMessage (rs_msgs rs))
                    (rs_has_more rs) (rs_min_seq rs)) k)"

text \<open>The table of handlers, by protocol number less \<open>DEF_BASE\<close>.\<close>

definition dealFunArr :: "nat \<Rightarrow> (client_env \<Rightarrow> bytes \<Rightarrow> client_state \<Rightarrow> client_state) option" where
  "dealFunArr = Map.empty
     (unat (DEF_PROT_REGISTER_RS - DEF_BASE) \<mapsto> onRegisterRs,
      unat (DEF_PROT_LOGIN_RS - DEF_BASE) \<mapsto> onLoginRs,
      unat (DEF_PROT_FRIEND_INFO - DEF_BASE) \<mapsto> onFriendInfoPkt,
      unat (DEF_PROT_CHAT_INFO_RS - DEF_BASE) \<mapsto> onChatInfoRs,
      unat (DEF_PROT_CHAT_INFO_RQ - DEF_BASE) \<mapsto> onChatInfoRq,
      unat (DEF_PROT_ADD_FRIEND_RS - DEF_BASE) \<mapsto> onAddFriRs,
      unat (DEF_PROT_ADD_FRIEND_RQ - DEF_BASE) \<mapsto> onAddFriRq,
      unat (DEF_PROT_FRIEND_OFFLINE - DEF_BASE) \<mapsto> onFriendOfflinePkt,
      unat (DEF_PROT_HEARTBEAT_RS - DEF_BASE) \<mapsto> onHeartbeatRs,
      unat (DEF_PROT_KICKED_OFFLINE - DEF_BASE) \<mapsto> onKickedOfflinePkt,
      unat (DEF_PROT_ROAM_CONV_RS - DEF_BASE) \<mapsto> onRoamConvRs,
      unat (DEF_PROT_ROAM_MSG_RS - DEF_BASE) \<mapsto> onRoamMsgRs)"

definition client_dispatchPacket :: "client_env \<Rightarrow> bytes \<Rightarrow> client_state \<Rightarrow> client_state" where
  "client_dispatchPacket e data k =
     (if length data < 4 then k
      else let type = decodeType32 data in
        if type < DEF_BASE then k
        else let index = unat (type - DEF_BASE) in
          if DEF_PROT_COUNT \<le> index then k
          else case dealFunArr index of None \<Rightarrow> k | Some pFun \<Rightarrow> pFun e (drop 4 data) k)"

text \<open>The two handlers the core gives the transport.\<close>

definition packet_handler :: "client_env \<Rightarrow> bytes \<Rightarrow> client_state \<Rightarrow> client_state" where
  "packet_handler e data k = client_dispatchPacket e data (k\<lparr>k_lastRecvMs := cl_steady e\<rparr>)"

definition close_handler :: "client_state \<Rightarrow> client_state" where
  "close_handler k = notify_ui UI_ConnectionClosed k"

subsection \<open>Heartbeat\<close>

text \<open>One turn of the heartbeat thread after its sleep.\<close>

definition hb_turn :: "client_env \<Rightarrow> client_state \<Rightarrow> client_state" where
  "hb_turn e k =
     (if \<not> k_hbRunning k then k
      else if \<not> isConnected k then k
      else let last' = k_lastRecvMs k in
        if 0 < last' \<and> 3 * k_hbIntervalMs k < cl_steady e - last'
        then k\<lparr>k_transport := tp_close (k_transport k)\<rparr>
        else sendPacket DEF_PROT_HEARTBEAT_RQ [] k)"

text \<open>The sleep before a turn: slices of 50 ms until the interval is over.\<close>

function hb_slices :: "int \<Rightarrow> int \<Rightarrow> nat" where
  "hb_slices interval waited = (if waited < interval then Suc (hb_slices interval (waited + 50)) else 0)"
  by pat_completeness auto
termination by (relation "measure (\<lambda>(interval, waited). nat (interval - waited))") auto

declare hb_slices.simps [simp del]

subsection \<open>Files\<close>

definition extractJsonStringField :: "string \<Rightarrow> string \<Rightarrow> string" where
  "extractJsonStringField json key =
     (let needle = ''\"'' @ key @ ''\":\"'' in
      case find (\<lambda>i. take (length needle) (drop i json) = needle) [0..<length json] of
        None \<Rightarrow> []
      | Some pos \<Rightarrow>
          let rest = drop (pos + length needle) json in
          if CHR ''\"'' \<in> set rest then takeWhile (\<lambda>c. c \<noteq> CHR ''\"'') rest else [])"

text \<open>
  The HTTP library: the answer to a request with a body in chunks, and to a plain request. \<open>None\<close> is a
  failed exchange.
\<close>

record media_env =
  me_local :: "string \<Rightarrow> bytes option"
  me_post :: "http_request \<Rightarrow> bytes list \<Rightarrow> (int \<times> string) option"
  me_get :: "http_request \<Rightarrow> (int \<times> bytes list) option"
  me_create :: bool
  me_write :: bool

definition media_allowed :: "client_state \<Rightarrow> bool" where
  "media_allowed k \<longleftrightarrow> k_tlsServerName k \<noteq> [] \<and> k_httpPort k \<noteq> 0 \<and> k_accessToken k \<noteq> []"

definition header_value :: "(string \<times> string) list \<Rightarrow> string \<Rightarrow> string" where
  "header_value hs n = (case map_of hs n of None \<Rightarrow> [] | Some v \<Rightarrow> v)"

text \<open>The content provider: 64 KiB at a time.\<close>

function upload_chunks :: "nat \<Rightarrow> bytes \<Rightarrow> bytes list" where
  "upload_chunks remaining ifs =
     (let got = take (min remaining (64 * 1024)) ifs in
      if remaining = 0 \<or> got = [] then []
      else got # upload_chunks (remaining - length got) (drop (length got) ifs))"
  by pat_completeness auto
termination by (relation "measure fst") auto

declare upload_chunks.simps [simp del]

definition upload_request :: "client_state \<Rightarrow> string \<Rightarrow> int \<Rightarrow> bool \<Rightarrow> nat \<Rightarrow> http_request" where
  "upload_request k localPath receiver isImage size' =
     \<lparr>rq_header = header_value [(''Authorization'', ''Bearer '' @ k_accessToken k), (''X-Device-Id'', k_deviceId k),
        (''X-File-Name'', filename localPath), (''X-Receiver-Id'', int_dec receiver),
        (''Content-Length'', nat_dec size'),
        (''Content-Type'', if isImage then ''image/jpeg'' else ''application/octet-stream'')],
      rq_match = []\<rparr>"

definition uploadMedia :: "media_env \<Rightarrow> string \<Rightarrow> int \<Rightarrow> bool \<Rightarrow> client_state \<Rightarrow> string" where
  "uploadMedia e localPath receiver isImage k =
     (if \<not> media_allowed k then []
      else case me_local e localPath of
        None \<Rightarrow> []
      | Some ifs \<Rightarrow>
          let size' = length ifs in
          if size' = 0 \<or> FILE_MAX_SIZE < int size' then []
          else case me_post e (upload_request k localPath receiver isImage size') (upload_chunks size' ifs) of
            None \<Rightarrow> []
          | Some (status, body) \<Rightarrow> if status \<noteq> 200 then [] else extractJsonStringField body ''file_id'')"

text \<open>The result, and what is at the destination afterwards if anything was done there.\<close>

definition downloadMedia :: "media_env \<Rightarrow> string \<Rightarrow> client_state \<Rightarrow> bool \<times> bytes option option" where
  "downloadMedia e fid k =
     (if \<not> media_allowed k then (False, None)
      else if \<not> me_create e then (False, None)
      else let q = \<lparr>rq_header = header_value [(''Authorization'', ''Bearer '' @ k_accessToken k),
                      (''X-Device-Id'', k_deviceId k)], rq_match = fid\<rparr>
        in case me_get e q of
          None \<Rightarrow> (False, Some None)
        | Some (status, pieces) \<Rightarrow>
            if pieces \<noteq> [] \<and> \<not> me_write e then (False, Some None)
            else if status \<noteq> 200 \<and> status \<noteq> 206 then (False, Some None)
            else (True, Some (Some (concat pieces))))"

end
