(* ===== verification/ClientFacts.thy ===== *)
theory ClientFacts
  imports ClientCore HttpFacts Channel
begin

text \<open>
  The client at work, alone and with the server: its message ids, its heartbeat, a chat message and an
  upload from one end to the other, and what the server's application channel makes of its frames.
\<close>

subsection \<open>Message ids\<close>

definition hex_digit :: "char \<Rightarrow> nat" where
  "hex_digit c = length (takeWhile (\<lambda>d. d \<noteq> c) hex_digits)"

definition hex_val :: "string \<Rightarrow> nat" where
  "hex_val s = foldl (\<lambda>a c. 16 * a + hex_digit c) 0 s"

lemma hex_digit_nth: "n < 16 \<Longrightarrow> hex_digit (hex_digits ! n) = n"
  by (auto simp: hex_digit_def hex_digits_def less_Suc_eq numeral_eq_Suc)

lemma hex_val_snoc: "hex_val (s @ [c]) = 16 * hex_val s + hex_digit c"
  by (simp add: hex_val_def)

lemma hex_val_of: "hex_val (hex_of n) = n"
proof (induction n rule: hex_of.induct)
  case (1 n)
  show ?case
  proof (cases "n < 16")
    case True
    then show ?thesis using hex_val_snoc [of "[]"] by (simp add: hex_of.simps [of n] hex_digit_nth hex_val_def)
  next
    case False
    then show ?thesis using 1 by (simp add: hex_of.simps [of n] hex_val_snoc hex_digit_nth)
  qed
qed

lemma length_hex_of: "n < 16 ^ Suc w \<Longrightarrow> length (hex_of n) \<le> Suc w"
proof (induction w arbitrary: n)
  case (Suc w)
  then have "n div 16 < 16 ^ Suc w" by (simp add: less_mult_imp_div_less)
  from Suc.IH [OF this] show ?case by (simp add: hex_of.simps [of n])
qed (simp add: hex_of.simps)

lemma hex_zeros: "foldl (\<lambda>a c. 16 * a + hex_digit c) 0 (replicate k CHR ''0'') = 0"
proof -
  have "hex_digit CHR ''0'' = 0" by (simp add: hex_digit_def hex_digits_def)
  then show ?thesis by (induction k) simp_all
qed

lemma hex_val_pad: "hex_val (hex_pad w n) = n"
  using hex_val_of [of n] by (simp add: hex_pad_def hex_val_def hex_zeros)

lemma length_hex_pad: "n < 16 ^ w \<Longrightarrow> 0 < w \<Longrightarrow> length (hex_pad w n) = w"
  using length_hex_of [of n "w - 1"] by (simp add: hex_pad_def)

lemma hex_pads_eq:
  assumes "a < 16 ^ 13" "a' < 16 ^ 13" "b < 16 ^ 5" "b' < 16 ^ 5" "c < 16 ^ 16" "c' < 16 ^ 16"
  shows "hex_pad 13 a @ hex_pad 5 b @ hex_pad 16 c = hex_pad 13 a' @ hex_pad 5 b' @ hex_pad 16 c' \<longleftrightarrow>
    a = a' \<and> b = b' \<and> c = c'"
proof -
  have "hex_pad 13 a = hex_pad 13 a' \<longleftrightarrow> a = a'" "hex_pad 5 b = hex_pad 5 b' \<longleftrightarrow> b = b'"
    "hex_pad 16 c = hex_pad 16 c' \<longleftrightarrow> c = c'" using hex_val_pad by metis+
  then show ?thesis using assms by (simp add: length_hex_pad)
qed

text \<open>
  Message ids have 34 characters, cut off nowhere, and two of them are equal only when they were made
  in the same millisecond with the same random number and counters that agree in their low 20 bits: one
  process never repeats an id within 1048576 messages, even when the random numbers repeat.
\<close>

theorem msg_ids_unique:
  assumes "0 \<le> cl_steady e" "cl_steady e < 2 ^ 52" "0 \<le> cl_steady e'" "cl_steady e' < 2 ^ 52"
  shows "length (fst (makeMsgId e k)) = 34 \<and>
    (fst (makeMsgId e k) = fst (makeMsgId e' k') \<longleftrightarrow> cl_steady e = cl_steady e' \<and>
       k_counter k AND 0xFFFFF = k_counter k' AND 0xFFFFF \<and> cl_rand e = cl_rand e') \<and>
    k_counter (snd (makeMsgId e k)) = k_counter k + 1"
proof -
  have ts: "unat (of_int t :: 64 word) = nat t" "nat t < 16 ^ 13" if "0 \<le> t" "t < 2 ^ 52" for t :: int
  proof -
    have "uint (of_int t :: 64 word) = t" using that by (simp add: uint_word_of_int take_bit_int_eq_self)
    then show "unat (of_int t :: 64 word) = nat t" unfolding unat_eq_nat_uint by (rule arg_cong)
    show "nat t < 16 ^ 13" using that by simp
  qed
  have seq: "unat (x AND 0xFFFFF) < 16 ^ 5" for x :: "64 word"
    using word_and_le1 [of x "0xFFFFF"] by (simp add: word_le_nat_alt)
  have rnd: "unat x < 16 ^ 16" for x :: "64 word" using unsigned_less [of x] by simp
  note p = hex_pads_eq [OF ts(2) [OF assms(1,2)] ts(2) [OF assms(3,4)] seq seq rnd rnd]
  have len: "length (hex_pad 13 (nat (cl_steady e)) @ hex_pad 5 (unat (x AND 0xFFFFF)) @ hex_pad 16 (unat y)) = 34"
    if "e = e" for x y :: "64 word"
    using length_hex_pad [OF ts(2) [OF assms(1,2)]] length_hex_pad [OF seq [of x]] length_hex_pad [OF rnd [of y]] by simp
  have len': "length (hex_pad 13 (nat (cl_steady e')) @ hex_pad 5 (unat (x AND 0xFFFFF)) @ hex_pad 16 (unat y)) = 34"
    for x y :: "64 word"
    using length_hex_pad [OF ts(2) [OF assms(3,4)]] length_hex_pad [OF seq [of x]] length_hex_pad [OF rnd [of y]] by simp
  have id: "fst (makeMsgId e k) = hex_pad 13 (nat (cl_steady e)) @ hex_pad 5 (unat (k_counter k AND 0xFFFFF)) @ hex_pad 16 (unat (cl_rand e))"
    "fst (makeMsgId e' k') = hex_pad 13 (nat (cl_steady e')) @ hex_pad 5 (unat (k_counter k' AND 0xFFFFF)) @ hex_pad 16 (unat (cl_rand e'))"
    using len [OF refl] len' unfolding makeMsgId_def Let_def fst_conv ts(1) [OF assms(1,2)] ts(1) [OF assms(3,4)]
    by (intro take_all; simp)+
  have "nat (cl_steady e) = nat (cl_steady e') \<longleftrightarrow> cl_steady e = cl_steady e'" using assms(1,3) by auto
  then show ?thesis
    unfolding id using p len [OF refl] by (simp add: makeMsgId_def Let_def word_unat_eq_iff)
qed

subsection \<open>Heartbeat\<close>

lemma hb_slices_bounds: "waited < interval \<Longrightarrow> interval \<le> waited + 50 * int (hb_slices interval waited) \<and>
    waited + 50 * int (hb_slices interval waited) < interval + 50"
proof (induction interval waited rule: hb_slices.induct)
  case (1 interval waited)
  then show ?case
    by (cases "waited + 50 < interval") (auto simp: hb_slices.simps [of interval waited] hb_slices.simps [of interval "waited + 50"])
qed

text \<open>The heartbeat thread over its turns, at the given times, while nothing arrives.\<close>

definition hb_run :: "client_env \<Rightarrow> int list \<Rightarrow> client_state \<Rightarrow> client_state" where
  "hb_run e ts k = fold (\<lambda>t. hb_turn (e\<lparr>cl_steady := t\<rparr>)) ts k"

definition alive_at :: "client_state \<Rightarrow> int \<Rightarrow> bool" where
  "alive_at k t \<longleftrightarrow> t - k_lastRecvMs k \<le> 3 * k_hbIntervalMs k"

lemma hb_run_closed: "\<not> tp_open (k_transport k) \<Longrightarrow> hb_run e ts k = k"
  by (induction ts) (simp_all add: hb_run_def hb_turn_def isConnected_def)

definition heartbeat_frame :: bytes where
  "heartbeat_frame = client_frame (encodeType32 DEF_PROT_HEARTBEAT_RQ)"

lemma hb_turn_open:
  assumes "tp_open (k_transport k)" "k_hbRunning k" "0 < k_lastRecvMs k"
  shows "hb_turn (e\<lparr>cl_steady := t\<rparr>) k = (if alive_at k t
     then k\<lparr>k_transport := (k_transport k)\<lparr>tp_jobs := tp_jobs (k_transport k) @ [Job_Send heartbeat_frame]\<rparr>\<rparr>
     else k\<lparr>k_transport := tp_close (k_transport k)\<rparr>)"
proof -
  have "length (encodeType32 DEF_PROT_HEARTBEAT_RQ) \<le> MAX_PACK_LEN" "encodeType32 DEF_PROT_HEARTBEAT_RQ \<noteq> []"
    by (simp_all add: MAX_PACK_LEN_def encodeType32_def)
  then show ?thesis
    using assms by (auto simp: hb_turn_def isConnected_def alive_at_def sendPacket_def tp_send_def sends_def
        heartbeat_frame_def Let_def)
qed

text \<open>
  C27. A silent server is noticed: while nothing arrives, every turn of the heartbeat thread up to three
  intervals after the last packet sends one heartbeat, and the first turn later than that closes the
  connection, after which nothing more is sent; the thread sleeps the interval, and less than 50 ms more,
  between its turns.
\<close>

theorem heartbeat_detects_silence:
  assumes "isConnected k" "k_hbRunning k" "0 < k_lastRecvMs k" "0 < k_hbIntervalMs k" "sorted ts"
  shows "isConnected (hb_run e ts k) = list_all (alive_at k) ts \<and>
    tp_jobs (k_transport (hb_run e ts k)) = tp_jobs (k_transport k) @
      replicate (length (takeWhile (alive_at k) ts)) (Job_Send heartbeat_frame) @
      (if list_all (alive_at k) ts then [] else [Job_CloseSocket]) \<and>
    k_hbIntervalMs k \<le> 50 * int (hb_slices (k_hbIntervalMs k) 0) \<and>
    50 * int (hb_slices (k_hbIntervalMs k) 0) < k_hbIntervalMs k + 50"
proof -
  have "isConnected (hb_run e ts k) = list_all (alive_at k) ts \<and>
    tp_jobs (k_transport (hb_run e ts k)) = tp_jobs (k_transport k) @
      replicate (length (takeWhile (alive_at k) ts)) (Job_Send heartbeat_frame) @
      (if list_all (alive_at k) ts then [] else [Job_CloseSocket])"
    using assms(1-3,5)
  proof (induction ts arbitrary: k)
    case Nil
    then show ?case by (simp add: hb_run_def)
  next
    case (Cons t ts)
    have o': "tp_open (k_transport k)" using Cons.prems(1) by (simp add: isConnected_def)
    have step: "hb_run e (t # ts) k = hb_run e ts (hb_turn (e\<lparr>cl_steady := t\<rparr>) k)" by (simp add: hb_run_def)
    show ?case
    proof (cases "alive_at k t")
      case True
      let ?k = "k\<lparr>k_transport := (k_transport k)\<lparr>tp_jobs := tp_jobs (k_transport k) @ [Job_Send heartbeat_frame]\<rparr>\<rparr>"
      have "alive_at ?k = alive_at k" by (simp add: alive_at_def fun_eq_iff)
      then show ?thesis
        using Cons.IH [of ?k] Cons.prems True hb_turn_open [OF o' Cons.prems(2,3), where e = e and t = t]
        by (simp add: step isConnected_def)
    next
      case False
      have "hb_run e ts (k\<lparr>k_transport := tp_close (k_transport k)\<rparr>) = k\<lparr>k_transport := tp_close (k_transport k)\<rparr>"
        by (rule hb_run_closed) (simp add: tp_close_def Let_def)
      then show ?thesis
        using False hb_turn_open [OF o' Cons.prems(2,3), where e = e and t = t] o'
        by (simp add: step isConnected_def) (simp add: tp_close_def Let_def)
    qed
  qed
  then show ?thesis using hb_slices_bounds [OF assms(4)] by simp
qed

subsection \<open>The client and the application channel\<close>

lemma client_types:
  "cmsg_type m \<noteq> DEF_PROT_APP_CLIENT_HELLO" "cmsg_type m \<noteq> DEF_PROT_APP_CLIENT_FINISHED"
  by (cases m; simp add: prot_defs)+

text \<open>
  C28. The client does not speak the application channel: the first frame it sends after the TLS
  handshake, whatever the message, makes the server end the connection without dispatching anything, and
  it ignores every packet type of the channel, so that the two ends never exchange a business message.
\<close>

theorem plain_client_is_refused:
  assumes "ch_state ch = WaitClientHello" and "4 + length payload \<le> MAX_PACK_LEN"
  shows "\<exists>ch'. read_done ce dr (read_frame (client_frame (encodeType32 (cmsg_type m) @ payload))) ch = (Returns (), ch') \<and>
      ch_state ch' = Closed \<and> ch_jobs ch' = ch_jobs ch @ [Job_Close] \<and> ch_events ch' = ch_events ch \<and> \<not> ch_reading ch' \<and>
    (DEF_PROT_APP_CLIENT_HELLO \<le> type \<and> type \<le> DEF_PROT_APP_ENCRYPTED_FRAME \<longrightarrow>
      client_dispatchPacket e (encodeType32 type @ body) k = k)"
proof -
  have "read_frame (client_frame (encodeType32 (cmsg_type m) @ payload) @ []) = Accept (cmsg_type m, payload) []"
    using read_frame_raw [where type = "cmsg_type m" and payload = payload and rest = "[]"] assms(2) by (simp add: raw_frame_is_client_frame)
  then have "read_done ce dr (read_frame (client_frame (encodeType32 (cmsg_type m) @ payload))) ch =
      (Returns (), (chan_close (ch\<lparr>ch_reading := False, ch_state := Closed\<rparr>)))"
    using assms(1) client_types [of m]
    by (simp add: read_done_def body_done_def handleApplicationHandshake_def failApplicationHandshake_def Let_def
        chan_close_def post_job_def)
  moreover have "client_dispatchPacket e (encodeType32 type @ body) k = k"
    if "DEF_PROT_APP_CLIENT_HELLO \<le> type" "type \<le> DEF_PROT_APP_ENCRYPTED_FRAME"
  proof -
    have "36 \<le> type - DEF_BASE"
      using that by (simp add: prot_defs word_le_nat_alt unat_sub)
    then have "DEF_PROT_COUNT \<le> unat (type - DEF_BASE)" by (simp add: DEF_PROT_COUNT_def word_le_nat_alt)
    then show ?thesis by (simp add: client_dispatchPacket_def Let_def)
  qed
  ultimately show ?thesis by (auto simp: chan_close_def post_job_def)
qed

subsection \<open>A chat message from one user to another\<close>

text \<open>What the server sends on when the receiver is online.\<close>

lemma store_forwarded:
  assumes "located w (c_friid rq) = Some t"
  shows "\<exists>evs rs. out (store_and_forward e sid rq path sz w) = out w @ evs @ [Deliver sid (P_ChatInfoRs rs)] \<and>
    (if cr_result rs = CHAT_RESULT_SUCC
     then \<exists>c. evs = [Deliver t (P_ChatInfoRq c)] \<and> c_myid c = c_myid rq \<and> c_msg c = c_msg rq \<and> c_type c = c_type rq
     else evs = [])"
proof -
  define mid w1 where "mid = (if c_msg_id rq = []
      then fallbackMsgId (c_myid rq) (c_friid rq) (now e) (msg_counter w) (c_msg rq) else c_msg_id rq)"
    and "w1 = (if c_msg_id rq = [] then w\<lparr>msg_counter := msg_counter w + 1\<rparr> else w)"
  have cond: "(if c_msg_id rq = [] then (fallbackMsgId (c_myid rq) (c_friid rq) (now e) (msg_counter w) (c_msg rq),
      w\<lparr>msg_counter := msg_counter w + 1\<rparr>) else (c_msg_id rq, w)) = (mid, w1)"
    by (simp add: mid_def w1_def)
  have "located w1 = located w" by (rule located_cong) (simp_all add: w1_def)
  then have w1: "out w1 = out w" "located w1 (c_friid rq) = Some t" using assms by (simp_all add: w1_def)
  have up: "out (if b then eraseUploadRecord f w2 else w2) = out w2" for b f w2 by (simp add: eraseUploadRecord_def)
  obtain ok m c where s: "saveMessage (sql e) (message_of mid (now e) rq path sz) (located w1 (c_friid rq) \<noteq> None) (db w1) = (ok, m, c)"
    by (rule prod_cases3)
  show ?thesis
  proof (cases ok)
    case False
    then have "store_and_forward e sid rq path sz w = deliverFailure sid rq CHAT_RESULT_SERVER_ERROR (w1\<lparr>db := c\<rparr>)"
      unfolding store_and_forward_def Let_def cond using s by simp
    then show ?thesis using w1(1) chat_codes by (auto simp: deliverFailure_def)
  next
    case True
    then show ?thesis
      unfolding store_and_forward_def Let_def cond using s w1 by (auto simp: up)
  qed
qed

lemma client_dispatch:
  assumes "type = DEF_PROT_CHAT_INFO_RQ"
  shows "client_dispatchPacket e (encodeType32 type @ body) k = onChatInfoRq e body k"
proof -
  have "decodeType32 (encodeType32 type @ body) = type" "drop 4 (encodeType32 type @ body) = body"
    "length (encodeType32 type @ body) = 4 + length body" by (simp_all add: drop_append)
  moreover have "\<not> type < DEF_BASE" "unat (type - DEF_BASE) = 5" using assms by (simp_all add: prot_defs)
  moreover have "dealFunArr 5 = Some onChatInfoRq" by (simp add: dealFunArr_def prot_defs)
  ultimately show ?thesis by (simp add: client_dispatchPacket_def Let_def DEF_PROT_COUNT_def)
qed

text \<open>The two halves: what the server does with a delivered text, and what the friend's client does.\<close>

lemma delivered_text:
  assumes "onChat e sid (Some rq) w = (res, w')" and "c_type rq = TEXT" and "\<not> is_media rq"
    and "userId w sid = u" "0 < u" and "located w (c_friid rq) = Some t"
    and "out w' = out w @ evs" and "Deliver sid (P_ChatInfoRs rs) \<in> set evs" and "cr_result rs = CHAT_RESULT_SUCC"
  obtains c where "evs = [Deliver t (P_ChatInfoRq c), Deliver sid (P_ChatInfoRs rs)]"
    "c_myid c = u" "c_msg c = c_msg rq" "c_type c = TEXT"
proof -
  let ?rq = "rq\<lparr>c_myid := u\<rparr>"
  have store: "w' = store_and_forward e sid ?rq [] 0 w"
  proof (rule ccontr)
    assume "w' \<noteq> store_and_forward e sid ?rq [] 0 w"
    then have "w' = deliverFailure sid ?rq CHAT_RESULT_NOT_FRIEND w"
      using assms(1,3-5) by (auto simp: onChat_def Let_def is_media_def split: if_splits)
    then have "cr_result rs = CHAT_RESULT_NOT_FRIEND" using assms(7,8) by (auto simp: deliverFailure_def)
    then show False using assms(9) chat_codes by simp
  qed
  have l: "located w (c_friid ?rq) = Some t" using assms(6) by simp
  have sel: "c_myid ?rq = u" "c_msg ?rq = c_msg rq" "c_type ?rq = TEXT" using assms(2) by simp_all
  have "\<exists>evs rs. out w' = out w @ evs @ [Deliver sid (P_ChatInfoRs rs)] \<and>
      (if cr_result rs = CHAT_RESULT_SUCC
       then \<exists>c. evs = [Deliver t (P_ChatInfoRq c)] \<and> c_myid c = u \<and> c_msg c = c_msg rq \<and> c_type c = TEXT
       else evs = [])"
    using store_forwarded [OF l, of e sid "[]" 0] unfolding store sel .
  then obtain evs' rs' where "out w' = out w @ evs' @ [Deliver sid (P_ChatInfoRs rs')]"
    "if cr_result rs' = CHAT_RESULT_SUCC
     then \<exists>c. evs' = [Deliver t (P_ChatInfoRq c)] \<and> c_myid c = u \<and> c_msg c = c_msg rq \<and> c_type c = TEXT
     else evs' = []"
    by blast
  then show ?thesis using assms(7-9) that by (auto split: if_splits)
qed

lemma text_shown_and_kept:
  fixes e :: client_env and c :: ChatInfoRq and body :: bytes and b :: client_state
  defines "b' \<equiv> client_dispatchPacket e (encodeType32 (packet_type (P_ChatInfoRq c)) @ body) b"
  assumes "cparse_ChatInfoRq (cl_codec e) body = Some c" and "c_type c = TEXT" and "c_myid c = u" "c_msg c = msg"
    and "k_sink b" and "0 < k_myId b" and "k_storage b = Some st" and "so_open st" and "cl_db e = all_work"
  shows "k_ui b' = k_ui b @ [UI_ChatMessage u msg]"
    and "\<exists>st' m. k_storage b' = Some st' \<and>
      history_rows (k_myId b) u st' = history_rows (k_myId b) u st @ [m] \<and> cm_content m = cstr msg \<and> \<not> cm_outgoing m"
proof -
  have d: "b' = notify_ui (UI_ChatMessage u msg) (store (saveChatMessage all_work (k_myId b) u False msg (cl_time e)) b)"
    using client_dispatch [of "packet_type (P_ChatInfoRq c)" e body b] assms(2-5,7,10)
    by (simp add: b'_def onChatInfoRq_def)
  show "k_ui b' = k_ui b @ [UI_ChatMessage u msg]"
    using assms(6,8) by (simp add: d notify_ui_def store_def)
  have "\<exists>m. history_rows (k_myId b) u (snd (saveChatMessage all_work (k_myId b) u False msg (cl_time e) st)) =
      history_rows (k_myId b) u st @ [m] \<and> cm_content m = cstr msg \<and> \<not> cm_outgoing m"
    using assms(9) by (simp add: saveChatMessage_def history_rows_def all_work_def)
  then show "\<exists>st' m. k_storage b' = Some st' \<and>
      history_rows (k_myId b) u st' = history_rows (k_myId b) u st @ [m] \<and> cm_content m = cstr msg \<and> \<not> cm_outgoing m"
    using assms(6,8) by (auto simp: d notify_ui_def store_def)
qed

lemma text_queued:
  assumes "rq = chat_request (snd (makeMsgId e a)) friId (utf8Truncate text' (CHAT_MSG_LEN - 1)) (fst (makeMsgId e a))"
    and "sends (encodeType32 DEF_PROT_CHAT_INFO_RQ @ ser_cmsg (cl_codec e) (C_ChatInfoRq rq)) (k_transport a)"
  shows "tp_jobs (k_transport (sendChatMessage e friId text' a)) = tp_jobs (k_transport a) @
      [Job_Send (client_frame (encodeType32 DEF_PROT_CHAT_INFO_RQ @ ser_cmsg (cl_codec e) (C_ChatInfoRq rq)))]"
proof -
  have "k_transport (snd (makeMsgId e a)) = k_transport a" by (simp add: makeMsgId_def Let_def)
  then have "k_transport (sendChatMessage e friId text' a) =
      tp_send (encodeType32 DEF_PROT_CHAT_INFO_RQ @ ser_cmsg (cl_codec e) (C_ChatInfoRq rq)) (k_transport a)"
    unfolding sendChatMessage_def Let_def case_prod_beta assms(1)
    by (simp add: store_def send_msg_def sendPacket_def split: option.split)
  then show ?thesis using assms(2) by (simp add: tp_send_def)
qed


subsection \<open>An upload from one end to the other\<close>

text \<open>The HTTP exchange with the server's handler at the other end.\<close>

definition server_post :: "http_env \<Rightarrow> world \<Rightarrow> files \<Rightarrow> http_request \<Rightarrow> bytes list \<Rightarrow> (int \<times> string) option" where
  "server_post h w f q pieces =
     (case handleUpload h q \<lparr>ub_chunks = pieces, ub_complete = True\<rparr> w f of
        (Returns r, _, _) \<Rightarrow> Some (rs_status r, rs_content r)
      | _ \<Rightarrow> None)"

lemma concat_upload_chunks: "concat (upload_chunks n ifs) = take n ifs"
proof (induction n ifs rule: upload_chunks.induct)
  case (1 n ifs)
  let ?got = "take (min n (64 * 1024)) ifs"
  show ?case
  proof (cases "n = 0 \<or> ?got = []")
    case True
    then show ?thesis by (auto simp: upload_chunks.simps [of n ifs])
  next
    case False
    then have "concat (upload_chunks n ifs) = ?got @ take (n - length ?got) (drop (length ?got) ifs)"
      using 1 [OF refl False] by (simp add: upload_chunks.simps [of n ifs] Let_def)
    also have "\<dots> = take (length ?got) ifs @ take (n - length ?got) (drop (length ?got) ifs)"
      by (subst (5) append_take_drop_id [of "length ?got" ?got, symmetric]) (simp add: min_def)
    also have "\<dots> = take (length ?got + (n - length ?got)) ifs"
      by (rule take_add [symmetric])
    also have "length ?got + (n - length ?got) = n" by simp
    finally show ?thesis .
  qed
qed

lemma extract_file_id:
  assumes "CHR 0x22 \<notin> set fid"
  shows "extractJsonStringField (rs_content (upload_answer fid sha n ct)) ''file_id'' = fid"
proof -
  let ?json = "rs_content (upload_answer fid sha n ct)" and ?needle = "''\"'' @ ''file_id'' @ ''\":\"''"
  obtain rest where j: "?json = CHR ''{'' # ?needle @ fid @ CHR 0x22 # rest" by (simp add: upload_answer_def)
  have "find (\<lambda>i. take (length ?needle) (drop i ?json) = ?needle) [0..<length ?json] = Some 1"
    unfolding j by (simp add: upt_conv_Cons del: upt_Suc)
  then have "extractJsonStringField ?json ''file_id'' = takeWhile (\<lambda>c. c \<noteq> CHR 0x22) (fid @ CHR 0x22 # rest)"
    unfolding extractJsonStringField_def Let_def by (simp add: j)
  also have "\<dots> = fid" using assms by (subst takeWhile_append2) auto
  finally show ?thesis .
qed


subsection \<open>Witnesses\<close>

text \<open>A codec that reads the same message from any packet, and two clients.\<close>

definition sample_client_codec :: "ChatInfoRq \<Rightarrow> client_codec" where
  "sample_client_codec c = \<lparr>ser_cmsg = \<lambda>_. [], cparse_RegisterRs = \<lambda>_. None, cparse_LoginRs = \<lambda>_. None,
     cparse_FriendInfo = \<lambda>_. None, cparse_ChatInfoRq = \<lambda>_. Some c, cparse_ChatInfoRs = \<lambda>_. None,
     cparse_AddFriendRq = \<lambda>_. None, cparse_AddFriendRs = \<lambda>_. None, cparse_FriendOffline = \<lambda>_. None,
     cparse_RoamConvRs = \<lambda>_. None, cparse_RoamMsgRs = \<lambda>_. None\<rparr>"

definition sample_client_env :: "ChatInfoRq \<Rightarrow> int \<Rightarrow> client_env" where
  "sample_client_env c t = \<lparr>cl_codec = sample_client_codec c, cl_steady = t, cl_time = 9, cl_rand = 7, cl_db = all_work\<rparr>"

definition sample_client :: "int \<Rightarrow> client_state" where
  "sample_client u = (new_core ''im'' ''ca'' 9000)\<lparr>k_transport := new_transport\<lparr>tp_open := True\<rparr>, k_sink := True,
     k_storage := Some sample_storage, k_myId := u, k_accessToken := ''a'', k_deviceId := ''d'',
     k_hbRunning := True, k_lastRecvMs := 100\<rparr>"

theorem msg_ids_unique_witness:
  "fst (makeMsgId (sample_client_env empty_ChatInfoRq 5) (sample_client 7)) \<noteq>
   fst (makeMsgId (sample_client_env empty_ChatInfoRq 5) (snd (makeMsgId (sample_client_env empty_ChatInfoRq 5) (sample_client 7))))"
  using msg_ids_unique [of "sample_client_env empty_ChatInfoRq 5" "sample_client_env empty_ChatInfoRq 5" "sample_client 7"
      "snd (makeMsgId (sample_client_env empty_ChatInfoRq 5) (sample_client 7))"]
  by (simp add: sample_client_env_def sample_client_def new_core_def makeMsgId_def Let_def)

theorem heartbeat_detects_silence_witness:
  "isConnected (hb_run (sample_client_env empty_ChatInfoRq 5) [30100, 60150, 90100] (sample_client 7)) \<and>
   \<not> isConnected (hb_run (sample_client_env empty_ChatInfoRq 5) [30100, 60150, 90100, 120150] (sample_client 7))"
  using heartbeat_detects_silence [of "sample_client 7" "[30100, 60150, 90100]" "sample_client_env empty_ChatInfoRq 5"]
    heartbeat_detects_silence [of "sample_client 7" "[30100, 60150, 90100, 120150]" "sample_client_env empty_ChatInfoRq 5"]
  by (simp add: sample_client_def new_core_def isConnected_def alive_at_def)

theorem plain_client_is_refused_witness:
  "\<forall>ce dr. \<exists>ch'. read_done ce dr (read_frame (client_frame (encodeType32 (cmsg_type C_Heartbeat) @ [])))
     (new_chan\<lparr>ch_state := WaitClientHello\<rparr>) = (Returns (), ch') \<and> ch_state ch' = Closed \<and>
     ch_events ch' = ch_events new_chan"
proof (intro allI)
  fix ce dr
  have "ch_state (new_chan\<lparr>ch_state := WaitClientHello\<rparr>) = WaitClientHello" "4 + length ([] :: bytes) \<le> MAX_PACK_LEN"
    by (simp_all add: MAX_PACK_LEN_def)
  then obtain ch' where "read_done ce dr (read_frame (client_frame (encodeType32 (cmsg_type C_Heartbeat) @ [])))
     (new_chan\<lparr>ch_state := WaitClientHello\<rparr>) = (Returns (), ch')" "ch_state ch' = Closed"
    "ch_events ch' = ch_events (new_chan\<lparr>ch_state := WaitClientHello\<rparr>)"
    using plain_client_is_refused [where ce = ce and dr = dr and m = C_Heartbeat and payload = "[]"
        and ch = "new_chan\<lparr>ch_state := WaitClientHello\<rparr>"] by metis
  moreover have "ch_events (new_chan\<lparr>ch_state := WaitClientHello\<rparr>) = ch_events new_chan" by simp
  ultimately show "\<exists>ch'. read_done ce dr (read_frame (client_frame (encodeType32 (cmsg_type C_Heartbeat) @ [])))
     (new_chan\<lparr>ch_state := WaitClientHello\<rparr>) = (Returns (), ch') \<and> ch_state ch' = Closed \<and>
     ch_events ch' = ch_events new_chan" by metis
qed

definition sample_pair :: world where
  "sample_pair = sample_world\<lparr>sessions := [(1, fresh_sess\<lparr>s_userId := 7\<rparr>), (2, fresh_sess\<lparr>s_userId := 8\<rparr>)],
     online := [(7, \<lparr>pe_sess = 1, pe_last = 4\<rparr>), (8, \<lparr>pe_sess = 2, pe_last = 4\<rparr>)]\<rparr>"

lemma sample_pair_sends:
  assumes "c_friid rq = 7" "c_type rq = TEXT" "c_msg_id rq \<noteq> []"
  shows "\<exists>c rs w'. onChat (sample_env 5) 2 (Some rq) sample_pair = (Returns (), w') \<and>
    out w' = [Deliver 1 (P_ChatInfoRq c), Deliver 2 (P_ChatInfoRs rs)] \<and> cr_result rs = CHAT_RESULT_SUCC"
proof -
  have u: "userId sample_pair 2 = 8" "located sample_pair 7 = Some 1" by code_simp+
  have d: "db sample_pair = db sample_world" "out sample_pair = []" "messages (disk (db sample_world)) = []"
    "txn (db sample_world) = None" "(8, 7) \<in> set (friends (disk (db sample_world)))"
    by (simp_all add: sample_pair_def sample_world_def empty_tables_def)
  obtain m c where sv: "saveMessage no_faults (message_of (c_msg_id rq) 5 (rq\<lparr>c_myid := 8\<rparr>) [] 0) True (db sample_world) = (True, m, c)"
  proof -
    let ?s = "saveMessage no_faults (message_of (c_msg_id rq) 5 (rq\<lparr>c_myid := 8\<rparr>) [] 0) True (db sample_world)"
    have "sql_begin True (db sample_world) = Some \<lparr>disk = disk (db sample_world), txn = Some (disk (db sample_world))\<rparr>"
      using d(4) by (cases "db sample_world") (simp add: sql_begin_def)
    then have "fst ?s" using d(3) by (simp add: saveMessage_def txn_steps Let_def insert_message_def)
    then show thesis using that by (metis prod.collapse)
  qed
  have e: "sql (sample_env 5) = no_faults" "now (sample_env 5) = 5" by (simp_all add: sample_env_def)
  have "isFriend no_faults 8 7 (db sample_world)" using d(5) by (simp add: isFriend_def find_None_conv)
  moreover have "\<not> is_media (rq\<lparr>c_myid := 8\<rparr>)" using assms(2) by (simp add: is_media_def)
  ultimately have "onChat (sample_env 5) 2 (Some rq) sample_pair = (Returns (), store_and_forward (sample_env 5) 2 (rq\<lparr>c_myid := 8\<rparr>) [] 0 sample_pair)"
    using u d(1) assms(1) e by (simp add: onChat_def Let_def)
  moreover have "\<exists>c rs. out (store_and_forward (sample_env 5) 2 (rq\<lparr>c_myid := 8\<rparr>) [] 0 sample_pair) =
      [Deliver 1 (P_ChatInfoRq c), Deliver 2 (P_ChatInfoRs rs)] \<and> cr_result rs = CHAT_RESULT_SUCC"
    using sv u(2) d(1,2) assms e by (simp add: store_and_forward_def Let_def eraseUploadRecord_def)
  ultimately show ?thesis by blast
qed


lemma sample_upload:
  "\<exists>r w' f'. handleUpload sample_http (upload_request (sample_client 7) ''x/a.txt'' 8 False 2)
     \<lparr>ub_chunks = [[1, 2]], ub_complete = True\<rparr> sample_world sample_files = (Returns r, w', f') \<and>
     (\<exists>fid sha. r = upload_answer fid sha 2 ''application/octet-stream'' \<and> fid \<noteq> [] \<and> CHR 0x22 \<notin> set fid)"
proof -
  let ?q = "upload_request (sample_client 7) ''x/a.txt'' 8 False 2"
  let ?u = "handleUpload sample_http ?q \<lparr>ub_chunks = [[1, 2]], ub_complete = True\<rparr> sample_world sample_files"
  have a: "authenticate (sample_env 5) ?q (db sample_world) = Returns (Some (7, ''d''))"
    by (simp add: authenticate_def upload_request_def header_value_def sample_client_def new_core_def sample_validates)
  have h: "upload_headers (sample_env 5) ?q 7 (db sample_world) = Inr (''a.txt'', 8, 2)" by code_simp
  have ct: "rq_header ?q ''Content-Type'' = ''application/octet-stream''" by (simp add: upload_request_def header_value_def)
  let ?fid = "upload_id (sample_env 5) 7 8 ''a.txt'' 0"
  have "set ?fid \<subseteq> set hex_digits" "length ?fid = 64" unfolding upload_id_def sha256Hex_def by (rule set_toHex, simp add: digest_eq_fips)
  then have fid: "?fid \<noteq> []" "CHR 0x22 \<notin> set ?fid" by (auto simp: hex_digits_def)
  have "\<exists>sha. fst ?u = Returns (upload_answer ?fid sha 2 ''application/octet-stream'')"
    by (simp add: handleUpload_def sample_http_def a h ct start_receiving_def FILE_MAX_SIZE_def sample_files_def
        Let_def case_prod_beta) blast
  then show ?thesis using fid by (metis prod.collapse)
qed

definition sample_media_env :: media_env where
  "sample_media_env = \<lparr>me_local = \<lambda>_. Some [1, 2], me_post = server_post sample_http sample_world sample_files,
     me_get = \<lambda>_. None, me_create = True, me_write = True\<rparr>"


end
