(* ===== verification/ServerStart.thy ===== *)
theory ServerStart
  imports AppCrypto Router HttpFiles
begin

text \<open>
  \<open>im_server/src/Server.cpp\<close>: starting, accepting and stopping, and \<open>main.cpp\<close>. What the
  operating system, OpenSSL, SQLite and asio answer is the parameter \<open>boot\<close>. The state says what of
  the server exists and runs.
\<close>

subsection \<open>State\<close>

text \<open>
  \<open>bt_pem\<close>: the private key in the file, None when it is not readable; whether it is an Ed25519 key,
  the size it reports (None: the call fails) and its raw bytes (None: the call fails).
\<close>

record pem_key =
  pk_ed25519 :: bool
  pk_size :: "nat option"
  pk_raw :: "bytes option"

record boot =
  bt_fopen :: bool
  bt_pem :: "pem_key option"
  bt_tls13 :: bool
  bt_cert :: bool
  bt_key :: bool
  bt_match :: bool
  bt_parts :: "(string \<times> int) list"
  bt_db_open :: bool
  bt_parsers :: parsers
  bt_http_start :: bool
  bt_accept_open :: bool
  bt_bind :: bool
  bt_listen :: bool

datatype acceptor = Unopened | Opened | Listening | Closed_acceptor

record server =
  sv_ioThreadCount :: nat
  sv_dbWorkers :: nat
  sv_keyPath :: string
  sv_keyId :: nat
  sv_identity :: bytes
  sv_db_open :: bool
  sv_routes :: "routes option"
  sv_http :: "bool option"
  sv_pool :: bool
  sv_strands :: nat
  sv_acceptor :: acceptor
  sv_accepting :: bool
  sv_signals :: bool
  sv_running :: bool
  sv_ioThreads :: nat
  sv_hbThread :: bool
  sv_stop :: bool
  sv_stopRequested :: bool
  sv_nextBiz :: nat
  sv_parts :: "string list"
  sv_new_sessions :: "nat list"

definition new_server :: "int \<Rightarrow> int \<Rightarrow> string \<Rightarrow> nat \<Rightarrow> server" where
  "new_server ioThreadCount dbWorkers keyPath keyId =
     \<lparr>sv_ioThreadCount = (if 0 < ioThreadCount then nat ioThreadCount else 4),
      sv_dbWorkers = (if 0 < dbWorkers then nat dbWorkers else 2), sv_keyPath = keyPath, sv_keyId = keyId,
      sv_identity = [], sv_db_open = False, sv_routes = None, sv_http = None, sv_pool = False, sv_strands = 0,
      sv_acceptor = Unopened, sv_accepting = False, sv_signals = False, sv_running = False, sv_ioThreads = 0,
      sv_hbThread = False, sv_stop = False, sv_stopRequested = False, sv_nextBiz = 0, sv_parts = [],
      sv_new_sessions = []\<rparr>"

subsection \<open>\<open>Server::start\<close>\<close>

text \<open>The identity key: an Ed25519 key of 32 bytes, or no start.\<close>

definition load_identity :: "boot \<Rightarrow> server \<Rightarrow> bool \<times> server" where
  "load_identity b s =
     (if sv_keyPath s = [] \<or> sv_keyId s = 0 then (False, s)
      else if \<not> bt_fopen b then (False, s)
      else case bt_pem b of
        None \<Rightarrow> (False, s)
      | Some k \<Rightarrow>
          if \<not> pk_ed25519 k then (False, s)
          else if pk_size k \<noteq> Some 32 then (False, s)
          else case pk_raw k of
            None \<Rightarrow> (False, s\<lparr>sv_identity := secureClear (replicate 32 0)\<rparr>)
          | Some raw \<Rightarrow> (True, s\<lparr>sv_identity := raw\<rparr>))"

text \<open>Unfinished uploads older than a day are removed; the parameter has their age in hours.\<close>

definition clean_parts :: "boot \<Rightarrow> server \<Rightarrow> server" where
  "clean_parts b s =
     s\<lparr>sv_parts := map fst (filter (\<lambda>(path, age). \<not> (extension path = ''.part'' \<and> 24 < age)) (bt_parts b))\<rparr>"

definition open_acceptor :: "boot \<Rightarrow> server \<Rightarrow> bool \<times> server" where
  "open_acceptor b s =
     (if \<not> bt_accept_open b then (False, s)
      else let s1 = s\<lparr>sv_acceptor := Opened\<rparr> in
        if \<not> bt_bind b then (False, s1)
        else if \<not> bt_listen b then (False, s1)
        else (True, s1\<lparr>sv_acceptor := Listening\<rparr>))"

text \<open>The dispatcher's constructor throws when two handlers claim the same packet type.\<close>

definition start :: "boot \<Rightarrow> server \<Rightarrow> bool exc \<times> server" where
  "start b s =
     (case load_identity b s of
        (False, s1) \<Rightarrow> (Returns False, s1)
      | (True, s1) \<Rightarrow>
          if \<not> bt_tls13 b then (Returns False, s1)
          else if \<not> bt_cert b then (Returns False, s1)
          else if \<not> bt_key b then (Returns False, s1)
          else if \<not> bt_match b then (Returns False, s1)
          else let s2 = clean_parts b s1 in
            if \<not> bt_db_open b then (Returns False, s2)
            else let s3 = s2\<lparr>sv_db_open := True, sv_http := Some False\<rparr> in
              case new_dispatcher (bt_parsers b) of
                Throws \<Rightarrow> (Throws, s3)
              | Returns m \<Rightarrow>
                  let s4 = s3\<lparr>sv_routes := Some m\<rparr> in
                  if \<not> bt_http_start b then (Returns False, s4)
                  else let s5 = s4\<lparr>sv_http := Some True, sv_pool := True, sv_strands := sv_dbWorkers s4\<rparr> in
                    case open_acceptor b s5 of
                      (False, s6) \<Rightarrow> (Returns False, s6)
                    | (True, s6) \<Rightarrow>
                        (Returns True, s6\<lparr>sv_signals := True, sv_accepting := True, sv_running := True,
                           sv_ioThreads := sv_ioThreadCount s6, sv_hbThread := True\<rparr>))"

subsection \<open>Accepting and stopping\<close>

definition nextBizStrand :: "server \<Rightarrow> nat \<times> server" where
  "nextBizStrand s = (sv_nextBiz s mod sv_strands s, s\<lparr>sv_nextBiz := sv_nextBiz s + 1\<rparr>)"

text \<open>The handler of \<open>async_accept\<close>: \<open>failed\<close> is its error code.\<close>

definition accept_done :: "bool \<Rightarrow> server \<Rightarrow> server" where
  "accept_done failed s =
     (let s1 = s\<lparr>sv_accepting := False\<rparr> in
      if failed then (if sv_running s1 then s1\<lparr>sv_accepting := True\<rparr> else s1)
      else case nextBizStrand s1 of
        (k, s2) \<Rightarrow> s2\<lparr>sv_new_sessions := sv_new_sessions s2 @ [k], sv_accepting := True\<rparr>)"

text \<open>\<open>run\<close> returns at the first look at the two flags that finds one of them set.\<close>

fun run_server :: "(bool \<times> bool) list \<Rightarrow> nat option" where
  "run_server [] = None"
| "run_server ((stopRequested, stopped) # looks) =
     (if \<not> stopRequested \<and> \<not> stopped then map_option Suc (run_server looks) else Some 0)"

definition stop_server :: "server \<Rightarrow> server" where
  "stop_server s =
     (if sv_stop s then s
      else s\<lparr>sv_stop := True, sv_running := False, sv_http := map_option (\<lambda>_. False) (sv_http s),
        sv_acceptor := Closed_acceptor, sv_accepting := False, sv_signals := False, sv_pool := False,
        sv_ioThreads := 0, sv_hbThread := False, sv_identity := secureClear (sv_identity s)\<rparr>)"

text \<open>\<open>main\<close>: the exit code and the server when its destructor has run.\<close>

definition server_main :: "boot \<Rightarrow> server \<Rightarrow> int exc \<times> server" where
  "server_main b s =
     (case start b s of
        (Throws, s1) \<Rightarrow> (Throws, s1)
      | (Returns False, s1) \<Rightarrow> (Returns 1, stop_server s1)
      | (Returns True, s1) \<Rightarrow> (Returns 0, stop_server (stop_server s1)))"

subsection \<open>What starting and stopping promise\<close>

definition serving :: "server \<Rightarrow> bool" where
  "serving s \<longleftrightarrow> sv_accepting s \<and> sv_running s \<and> sv_acceptor s = Listening \<and> sv_http s = Some True \<and>
     sv_pool s \<and> sv_db_open s \<and> sv_routes s \<noteq> None \<and> 0 < sv_ioThreads s \<and> 0 < sv_strands s \<and> sv_hbThread s \<and>
     length (sv_identity s) = 32"

definition silent_server :: "server \<Rightarrow> bool" where
  "silent_server s \<longleftrightarrow> \<not> sv_accepting s \<and> \<not> sv_running s \<and> sv_ioThreads s = 0 \<and> \<not> sv_hbThread s \<and>
     sv_acceptor s \<noteq> Listening"

text \<open>A PEM key that reports 32 bytes yields 32 bytes.\<close>

definition pem_ok :: "boot \<Rightarrow> bool" where
  "pem_ok b \<longleftrightarrow> (\<forall>k raw. bt_pem b = Some k \<longrightarrow> pk_size k = Some 32 \<longrightarrow> pk_raw k = Some raw \<longrightarrow> length raw = 32)"

lemma load_identity_frame:
  assumes "load_identity b s = (ok, s1)"
  shows "\<exists>i. s1 = s\<lparr>sv_identity := i\<rparr> \<and> (ok \<longrightarrow> pem_ok b \<longrightarrow> length i = 32)"
proof -
  have "s1 = s\<lparr>sv_identity := sv_identity s1\<rparr>"
    using assms by (cases s) (auto simp: load_identity_def split: if_splits option.splits)
  moreover have "ok \<longrightarrow> pem_ok b \<longrightarrow> length (sv_identity s1) = 32"
    using assms by (auto simp: load_identity_def pem_ok_def split: if_splits option.splits)
  ultimately show ?thesis by metis
qed

text \<open>
  The server starts completely or not at all: when \<open>start\<close> returns true everything runs, the
  identity key is 32 bytes of an Ed25519 key and TLS is limited to version 1.3 with a matching
  certificate; when it returns false nobody is served. It never throws.
\<close>

theorem start_all_or_nothing:
  assumes "pem_ok b" and "start b (new_server io dbw path kid) = (r, s')"
  shows "(r = Returns True \<longrightarrow> serving s' \<and> bt_tls13 b \<and> bt_match b \<and> (\<exists>k. bt_pem b = Some k \<and> pk_ed25519 k)) \<and>
    (r = Returns False \<longrightarrow> silent_server s') \<and> r \<noteq> Throws"
proof -
  obtain m where m: "new_dispatcher (bt_parsers b) = Returns m" using new_dispatcher_table by blast
  obtain ok s1 where l: "load_identity b (new_server io dbw path kid) = (ok, s1)" by fastforce
  then obtain i where i: "s1 = (new_server io dbw path kid)\<lparr>sv_identity := i\<rparr>" "ok \<longrightarrow> length i = 32"
    using load_identity_frame [OF l] assms(1) by blast
  have k: "ok \<longrightarrow> (\<exists>k. bt_pem b = Some k \<and> pk_ed25519 k)"
    using l by (auto simp: load_identity_def split: if_splits option.splits)
  have fields: "\<not> sv_accepting s1" "\<not> sv_running s1" "sv_ioThreads s1 = 0" "\<not> sv_hbThread s1" "sv_acceptor s1 = Unopened"
      "0 < sv_ioThreadCount s1" "0 < sv_dbWorkers s1" "ok \<longrightarrow> length (sv_identity s1) = 32"
    using i by (simp_all add: new_server_def)
  show ?thesis
    using assms(2) fields k
    by (cases ok)
      (auto simp: start_def l m clean_parts_def open_acceptor_def serving_def silent_server_def Let_def
        split: if_splits exc.splits)
qed

text \<open>
  Stopping ends everything, wipes the identity key and is final: a second stop changes nothing, and
  an \<open>async_accept\<close> that is cancelled does not accept again.
\<close>

theorem stop_is_final:
  assumes "\<not> sv_stop s"
  shows "silent_server (stop_server s) \<and> sv_identity (stop_server s) = [] \<and> \<not> sv_pool (stop_server s) \<and>
    sv_http (stop_server s) \<noteq> Some True \<and> stop_server (stop_server s) = stop_server s \<and>
    silent_server (accept_done True (stop_server s))"
  using assms
  by (auto simp: stop_server_def silent_server_def secureClear_def accept_done_def Let_def)

text \<open>The connections are spread over the strands in turn.\<close>

lemma accept_spreads:
  "0 < sv_strands s \<Longrightarrow> k = sv_nextBiz s mod sv_strands s \<Longrightarrow>
   sv_new_sessions (accept_done False s) = sv_new_sessions s @ [k] \<and> k < sv_strands s \<and>
   sv_nextBiz (accept_done False s) = sv_nextBiz s + 1"
  by (simp add: accept_done_def nextBizStrand_def Let_def)

end
