(* ===== verification/LegacyNet.thy ===== *)
theory LegacyNet
  imports Wire
begin

text \<open>
  The network layer of the first server, \<open>IMServer/net/TCPServer.cpp\<close>: blocking sockets, one
  thread for each connection. \<open>recv\<close> is modelled by the pieces in which the bytes of a connection
  become readable. Then the ownership of socket handles: the threads of \<open>TCPServer\<close> compete to close
  a connection, and the operating system reuses the number of a closed socket.
\<close>

subsection \<open>Receiving\<close>

text \<open>
  What the calls of \<open>recv\<close> find, in order: bytes that are there together, or an error. When nothing
  is left the peer has closed the connection and \<open>recv\<close> returns 0. \<open>unInitNet\<close> clears
  \<open>m_bRunning\<close> and closes the sockets, so a thread it stops finds errors from then on.
\<close>

datatype seg = Got bytes | Err

fun recv_n :: "nat \<Rightarrow> seg list \<Rightarrow> bytes option \<times> seg list" where
  "recv_n n [] = (Some [], [])"
| "recv_n n (Err # w) = (None, w)"
| "recv_n n (Got b # w) = (Some (take n b), if length b \<le> n then w else Got (drop n b) # w)"

fun wire_size :: "seg list \<Rightarrow> nat" where
  "wire_size [] = 0"
| "wire_size (Err # w) = Suc (wire_size w)"
| "wire_size (Got b # w) = Suc (length b + wire_size w)"

lemma wire_size_recv: "wire_size (snd (recv_n n w)) \<le> wire_size w"
  by (cases "(n, w)" rule: recv_n.cases) auto

lemma wire_size_recv_less: "fst (recv_n n w) = Some b \<Longrightarrow> b \<noteq> [] \<Longrightarrow> wire_size (snd (recv_n n w)) < wire_size w"
  by (cases "(n, w)" rule: recv_n.cases) (auto split: if_splits)

lemma length_recv: "fst (recv_n n w) = Some b \<Longrightarrow> length b \<le> n"
  by (cases "(n, w)" rule: recv_n.cases) auto

text \<open>The inner loop: \<open>left\<close> is \<open>RecvLen\<close>, the length of \<open>pack\<close> is \<open>offset\<close>.\<close>

function recv_payload :: "nat \<Rightarrow> bytes \<Rightarrow> seg list \<Rightarrow> nat \<times> bytes \<times> seg list" where
  "recv_payload left pack w =
     (if left = 0 then (0, pack, w)
      else case recv_n left w of
        (None, w') \<Rightarrow> (left, pack, w')
      | (Some b, w') \<Rightarrow> if b = [] then (left, pack, w') else recv_payload (left - length b) (pack @ b) w')"
  by pat_completeness auto
termination by (relation "measure (\<lambda>(left, pack, w). left)") auto

declare recv_payload.simps [simp del]

lemma wire_size_payload: "wire_size (snd (snd (recv_payload left pack w))) \<le> wire_size w"
proof (induction left pack w rule: recv_payload.induct)
  case (1 left pack w)
  obtain r w' where rw: "recv_n left w = (r, w')" by fastforce
  then have le: "wire_size w' \<le> wire_size w" using wire_size_recv [of left w] by simp
  show ?case
  proof (cases "left = 0 \<or> r = None \<or> r = Some []")
    case True
    then show ?thesis using rw le by (subst recv_payload.simps) (auto split: option.splits)
  next
    case False
    then obtain b where b: "r = Some b" "b \<noteq> []" by auto
    have "wire_size (snd (snd (recv_payload (left - length b) (pack @ b) w'))) \<le> wire_size w'"
      using 1 [of r w' b] False rw b by simp
    then show ?thesis using rw le b False by (subst recv_payload.simps) auto
  qed
qed

lemma round_smaller:
  assumes "recv_n 4 w = (Some h, w')" and "h \<noteq> []" and "recv_payload n [] w' = (left, pack, w'')"
  shows "wire_size w'' < wire_size w"
  using wire_size_payload [of n "[]" w'] wire_size_recv_less [of 4 w h] assms by simp

text \<open>
  The outer loop. \<open>RecvLen\<close> keeps its value between the rounds: when \<open>recv\<close> returns fewer than
  four bytes of the length, they overwrite the first bytes of the variable and the others stay. It
  delivers the packets in order and ends at the \<open>break\<close>.
\<close>

definition recv_length :: "nat \<Rightarrow> bytes \<Rightarrow> int" where
  "recv_length old h = sint (decodeLen32 (h @ drop (length h) (encodeType32 (of_nat old))))"

function recvData :: "nat \<Rightarrow> seg list \<Rightarrow> bytes list" where
  "recvData RecvLen w =
     (case recv_n 4 w of
        (None, w') \<Rightarrow> []
      | (Some h, w') \<Rightarrow>
          if h = [] then []
          else let v = recv_length RecvLen h in
            if v \<le> 0 \<or> int MAX_PACK_LEN < v then []
            else case recv_payload (nat v) [] w' of
              (left, pack, w'') \<Rightarrow> if left = 0 then pack # recvData 0 w'' else recvData left w'')"
  by pat_completeness auto
termination
  by (relation "measure (\<lambda>(RecvLen, w). wire_size w)") (auto dest!: round_smaller [OF sym _ sym])

declare recvData.simps [simp del]

subsection \<open>Sending\<close>

text \<open>
  \<open>sendData\<close> hands two buffers to \<open>send\<close>, the length in network order and the data; the results of
  the two calls are arguments. It returns whether it succeeded, and what it sent.
\<close>

definition sendData :: "bool \<Rightarrow> bool \<Rightarrow> bytes \<Rightarrow> bool \<times> bytes list" where
  "sendData sent_len sent_data data =
     (if data = [] then (False, [])
      else if MAX_PACK_LEN < length data then (False, [])
      else let netLen = encodeLen32 (of_nat (length data)) in
        if \<not> sent_len then (False, [])
        else if \<not> sent_data then (False, [netLen])
        else (True, [netLen, data]))"

text \<open>
  The client class of the same directory, \<open>IMServer/net/TCPClient.cpp\<close>, sends its length as it lies
  in memory.
\<close>

definition client_sendData :: "bool \<Rightarrow> bool \<Rightarrow> bytes \<Rightarrow> bool \<times> bytes list" where
  "client_sendData sent_len sent_data data =
     (if data = [] then (False, [])
      else if \<not> sent_len then (False, [])
      else if \<not> sent_data then (False, [encodeType32 (of_nat (length data))])
      else (True, [encodeType32 (of_nat (length data)), data]))"

subsection \<open>What the pieces do to the frames\<close>

fun drop_bytes :: "nat \<Rightarrow> seg list \<Rightarrow> seg list" where
  "drop_bytes n [] = []"
| "drop_bytes n (Err # w) = Err # w"
| "drop_bytes n (Got b # w) =
     (if n = 0 then Got b # w else if length b \<le> n then drop_bytes (n - length b) w else Got (drop n b) # w)"

fun payload :: "seg list \<Rightarrow> bytes" where
  "payload [] = []"
| "payload (Err # w) = []"
| "payload (Got b # w) = b @ payload w"

text \<open>A wire on which every \<open>recv\<close> finds something until all is read.\<close>

definition flowing :: "seg list \<Rightarrow> bool" where
  "flowing w \<longleftrightarrow> (\<forall>g \<in> set w. \<exists>b. g = Got b \<and> b \<noteq> [])"

text \<open>The length of each packet of the sequence arrives in one piece.\<close>

fun lengths_whole :: "bytes list \<Rightarrow> seg list \<Rightarrow> bool" where
  "lengths_whole [] w = True"
| "lengths_whole (p # ps) w =
     ((case w of Got b # _ \<Rightarrow> 4 \<le> length b | _ \<Rightarrow> False) \<and>
      lengths_whole ps (drop_bytes (4 + length p) w))"

definition legacy_frame :: "bytes \<Rightarrow> bytes" where
  "legacy_frame p = encodeLen32 (of_nat (length p)) @ p"

definition packet_ok :: "bytes \<Rightarrow> bool" where
  "packet_ok p \<longleftrightarrow> p \<noteq> [] \<and> length p \<le> MAX_PACK_LEN"

lemma sendData_frame: "packet_ok p \<Longrightarrow> concat (snd (sendData True True p)) = legacy_frame p"
  by (simp add: sendData_def packet_ok_def legacy_frame_def Let_def)

lemma flowing_Cons: "flowing (g # w) \<longleftrightarrow> (\<exists>b. g = Got b \<and> b \<noteq> []) \<and> flowing w"
  by (auto simp: flowing_def)

lemma flowing_Nil [simp]: "flowing []"
  by (simp add: flowing_def)

lemma flowing_drop: "flowing w \<Longrightarrow> flowing (drop_bytes n w)"
  by (induction n w rule: drop_bytes.induct) (auto simp: flowing_Cons)

lemma payload_drop: "flowing w \<Longrightarrow> payload (drop_bytes n w) = drop n (payload w)"
  by (induction n w rule: drop_bytes.induct) (auto simp: flowing_Cons)

lemma drop_bytes_0 [simp]: "drop_bytes 0 w = w"
  by (cases w rule: payload.cases) auto

lemma drop_bytes_add: "flowing w \<Longrightarrow> drop_bytes m (drop_bytes n w) = drop_bytes (n + m) w"
proof (induction n w rule: drop_bytes.induct)
  case (3 n b w)
  then show ?case by (auto simp: flowing_Cons add.commute)
qed auto

lemma payload_flows:
  "flowing w \<Longrightarrow> left \<le> length (payload w) \<Longrightarrow>
   recv_payload left pack w = (0, pack @ take left (payload w), drop_bytes left w)"
proof (induction left pack w rule: recv_payload.induct)
  case (1 left pack w)
  show ?case
  proof (cases "left = 0")
    case True
    then show ?thesis by (subst recv_payload.simps) simp
  next
    case False
    then obtain b w0 where w: "w = Got b # w0" "b \<noteq> []" "flowing w0"
      using 1 by (cases w rule: payload.cases) (auto simp: flowing_Cons)
    show ?thesis
    proof (cases "length b \<le> left")
      case True
      have "recv_payload (left - length b) (pack @ b) w0 =
          (0, (pack @ b) @ take (left - length b) (payload w0), drop_bytes (left - length b) w0)"
        using 1 False True w by simp
      then show ?thesis using False True w by (subst recv_payload.simps) simp
    next
      case short: False
      have "recv_payload 0 (pack @ take left b) (Got (drop left b) # w0) =
          (0, pack @ take left b, Got (drop left b) # w0)"
        by (subst recv_payload.simps) simp
      then show ?thesis using False short w by (subst recv_payload.simps) (simp add: min_def)
    qed
  qed
qed

lemma header_whole:
  assumes "length p \<le> MAX_PACK_LEN"
  shows "recv_length old (encodeLen32 (of_nat (length p))) = int (length p)"
proof -
  have "length p < 2 ^ 31" using assms by (simp add: MAX_PACK_LEN_def)
  then have "sint (of_nat (length p) :: 32 word) = int (length p)"
    by (simp add: signed_of_nat signed_take_bit_int_eq_self_iff)
  then show ?thesis
    using decode_encodeLen32 [of "of_nat (length p)" "[]"] by (simp add: recv_length_def)
qed

text \<open>Four bytes of length in one piece and the data behind them, as the two loops read them.\<close>

lemma framed_pieces:
  assumes w: "flowing w" "case w of Got b # _ \<Rightarrow> 4 \<le> length b | _ \<Rightarrow> False"
    and bytes: "payload w = h @ p @ rest" and h: "length h = 4"
  shows "recv_n 4 w = (Some h, drop_bytes 4 w)"
    and "recv_payload (length p) [] (drop_bytes 4 w) = (0, p, drop_bytes (4 + length p) w)"
proof -
  obtain b w0 where b: "w = Got b # w0" "4 \<le> length b"
    using w(2) by (cases w rule: payload.cases) auto
  have "take 4 (payload w) = h" by (simp add: bytes h)
  then show "recv_n 4 w = (Some h, drop_bytes 4 w)" using b by auto
  have fl: "flowing (drop_bytes 4 w)" "payload (drop_bytes 4 w) = p @ rest"
    using w(1) by (simp_all add: flowing_drop payload_drop bytes h)
  have "recv_payload (length p) [] (drop_bytes 4 w) = (0, p, drop_bytes (length p) (drop_bytes 4 w))"
    using payload_flows [OF fl(1), of "length p" "[]"] fl(2) by simp
  then show "recv_payload (length p) [] (drop_bytes 4 w) = (0, p, drop_bytes (4 + length p) w)"
    by (simp add: drop_bytes_add [OF w(1)])
qed

lemma legacy_frame_whole:
  assumes w: "flowing w" "lengths_whole (p # ps) w" and p: "packet_ok p"
    and bytes: "payload w = legacy_frame p @ rest"
  shows "recvData old w = p # recvData 0 (drop_bytes (4 + length p) w)"
proof -
  let ?h = "encodeLen32 (of_nat (length p))"
  have "payload w = ?h @ p @ rest" using bytes by (simp add: legacy_frame_def)
  note r = framed_pieces [OF w(1) _ this]
  have c: "case w of Got b # _ \<Rightarrow> 4 \<le> length b | _ \<Rightarrow> False" and h: "length ?h = 4" "?h \<noteq> []"
    using w(2) by (simp_all add: encodeLen32_def)
  have "recv_length old ?h = int (length p)" using p by (intro header_whole) (simp add: packet_ok_def)
  then show ?thesis
    using p h(2) by (subst recvData.simps) (simp add: r [OF c h(1)] Let_def packet_ok_def)
qed

lemma flowing_payload_Nil: "flowing w \<Longrightarrow> payload w = [] \<Longrightarrow> w = []"
  by (cases w rule: payload.cases) (auto simp: flowing_Cons)

lemma recvData_Nil [simp]: "recvData old [] = []"
  by (subst recvData.simps) simp

text \<open>
  The receiving loop of the first server cuts the byte stream of a connection into the packets
  that were sent, however the bytes are cut in pieces on the way, provided that the four bytes of
  each length arrive in one piece.
\<close>

theorem legacy_framing:
  assumes "flowing w" and "\<forall>p \<in> set ps. packet_ok p"
    and "payload w = concat (map (\<lambda>p. concat (snd (sendData True True p))) ps)" and "lengths_whole ps w"
  shows "recvData 0 w = ps"
  using assms
proof (induction ps arbitrary: w)
  case Nil
  then have "w = []" by (intro flowing_payload_Nil) simp_all
  then show ?case by simp
next
  case (Cons p ps)
  let ?rest = "concat (map (\<lambda>p. concat (snd (sendData True True p))) ps)"
  have bytes: "payload w = legacy_frame p @ ?rest"
    using Cons.prems by (simp add: sendData_frame)
  have "payload (drop_bytes (4 + length p) w) = ?rest"
    unfolding payload_drop [OF Cons.prems(1)] bytes by (simp add: legacy_frame_def)
  then have "recvData 0 (drop_bytes (4 + length p) w) = ps"
    using Cons.prems by (intro Cons.IH flowing_drop) simp_all
  then show ?case
    using legacy_frame_whole [OF Cons.prems(1,4) _ bytes, of 0] Cons.prems(2) by simp
qed

text \<open>
  A length that arrives in two pieces is misread: for a packet shorter than 256 bytes the loop
  ends, and with it the connection, without delivering anything, although the stream is well formed.
\<close>

lemma short_length_bytes:
  assumes "n < 256"
  shows "encodeLen32 (of_nat n) = [0, 0, 0, of_nat n]"
proof -
  have "drop_bit k (of_nat n :: 32 word) = 0" if "8 \<le> k" for k
  proof -
    have "n < 2 ^ k" using assms that power_increasing [of 8 k "2::nat"] by simp
    moreover have "unat (of_nat n :: 32 word) = n" using assms by (simp add: unsigned_of_nat take_bit_nat_eq_self)
    ultimately have "unat (drop_bit k (of_nat n :: 32 word)) = 0"
      using assms by (simp add: unsigned_drop_bit_eq take_bit_nat_eq_self drop_bit_eq_div [of _ n])
    then show ?thesis by (simp add: unsigned_eq_0_iff)
  qed
  moreover have "unat (ucast (of_nat n AND 0xFF :: 32 word) :: 8 word) = unat (of_nat n :: 8 word)"
    using assms by (simp add: and_FF unsigned_ucast_eq unsigned_take_bit_eq unsigned_of_nat take_bit_nat_eq_self)
  then have "ucast (of_nat n AND 0xFF :: 32 word) = (of_nat n :: 8 word)" by (rule unsigned_word_eqI)
  ultimately show ?thesis by (simp add: encodeLen32_def)
qed

lemma split_length_loses_packet:
  assumes "length p < 256" and "0 < k" and "k < 4"
  shows "recvData 0 (Got (take k (encodeLen32 (of_nat (length p)))) # w) = []"
proof -
  have "k \<in> {1, 2, 3}" using assms by auto
  then have "recv_length 0 (take k (encodeLen32 (of_nat (length p)))) = 0"
    unfolding short_length_bytes [OF assms(1)]
    by (auto simp: recv_length_def encodeType32_def decodeLen32_def)
  then show ?thesis using assms by (subst recvData.simps) (simp add: Let_def)
qed

text \<open>
  The client class of the directory and the server do not agree on the order of the bytes of the
  length: of what \<open>client_sendData\<close> sends, packets shorter than 256 bytes, the server delivers nothing.
\<close>

lemma little_endian_client_is_refused:
  assumes "0 < length p" and "length p < 256"
  shows "recvData 0 (Got (concat (snd (client_sendData True True p))) # w) = []"
proof -
  let ?n = "of_nat (length p) :: 8 word" and ?v = "of_nat (length p * 2 ^ 24) :: 32 word"
  have "encodeType32 (of_nat (length p)) = [?n, 0, 0, 0]"
    using short_length_bytes [OF assms(2)] by (simp add: encodeLen32_def encodeType32_def)
  then have h: "take 4 (concat (snd (client_sendData True True p))) = [?n, 0, 0, 0]"
    using assms by (auto simp: client_sendData_def)
  have "unat ?n = length p" "unat (of_nat (length p) :: 32 word) = length p"
    using assms by (simp_all add: unsigned_of_nat take_bit_nat_eq_self)
  then have "unat (ucast ?n :: 32 word) = unat (of_nat (length p) :: 32 word)"
    using assms by (simp add: unsigned_ucast_eq take_bit_nat_eq_self)
  then have "ucast ?n = (of_nat (length p) :: 32 word)" by (rule unsigned_word_eqI)
  then have "recv_length 0 [?n, 0, 0, 0] = sint (push_bit 24 (of_nat (length p) :: 32 word))"
    by (simp add: recv_length_def encodeType32_def decodeLen32_def)
  also have "\<dots> = signed_take_bit 31 (int (length p * 2 ^ 24))"
    unfolding push_bit_of_nat signed_of_nat by (simp add: push_bit_eq_mult)
  also have "\<dots> = (int (length p) * 2 ^ 24 + 2 ^ 31) mod 2 ^ 32 - 2 ^ 31"
    by (simp add: signed_take_bit_eq_take_bit_shift take_bit_eq_mod)
  finally have v: "recv_length 0 [?n, 0, 0, 0] = (int (length p) * 2 ^ 24 + 2 ^ 31) mod 2 ^ 32 - 2 ^ 31" .
  have "recv_length 0 [?n, 0, 0, 0] \<le> 0 \<or> int MAX_PACK_LEN < recv_length 0 [?n, 0, 0, 0]"
  proof (cases "length p < 128")
    case True
    then have "(int (length p) * 2 ^ 24 + 2 ^ 31) mod 2 ^ 32 = int (length p) * 2 ^ 24 + 2 ^ 31"
      by (intro mod_pos_pos_trivial) simp_all
    then have "recv_length 0 [?n, 0, 0, 0] = int (length p) * 2 ^ 24" using v by simp
    moreover have "2 ^ 24 \<le> int (length p) * 2 ^ 24" using assms(1) by (cases "length p") simp_all
    moreover have "int MAX_PACK_LEN < 2 ^ 24" by (simp add: MAX_PACK_LEN_def)
    ultimately show ?thesis by linarith
  next
    case False
    let ?x = "int (length p) * 2 ^ 24 + 2 ^ 31 :: int"
    have "?x mod 2 ^ 32 = (?x - 2 ^ 32) mod 2 ^ 32" by (rule minus_mod_self2 [symmetric])
    also have "\<dots> = ?x - 2 ^ 32" using False assms by (intro mod_pos_pos_trivial) simp_all
    finally show ?thesis using v assms by simp
  qed
  then show ?thesis using h by (subst recvData.simps) (auto simp add: Let_def)
qed

text \<open>Two packets, cut into pieces that leave the lengths whole.\<close>

lemma legacy_framing_witness:
  "recvData 0 [Got [0, 0, 0, 1], Got [1, 0, 0, 0, 2, 2], Got [3]] = [[1], [2, 3]]"
proof (rule legacy_framing)
  have "encodeLen32 1 = [0, 0, 0, 1]" "encodeLen32 2 = [0, 0, 0, 2]" by (simp_all add: encodeLen32_def)
  then show "payload [Got [0, 0, 0, 1], Got [1, 0, 0, 0, 2, 2], Got [3]] =
      concat (map (\<lambda>p. concat (snd (sendData True True p))) [[1], [2, 3]])"
    by (simp add: sendData_def MAX_PACK_LEN_def Let_def)
qed (auto simp: flowing_def packet_ok_def MAX_PACK_LEN_def)

end
