(* ===== verification/LegacySockets.thy ===== *)
theory LegacySockets
  imports Prelude
begin

text \<open>
  Who may close a socket in \<open>IMServer/net/TCPServer.cpp\<close>. The accepting thread, the receiving
  threads and the callers of \<open>closeConnection\<close> run at the same time; each critical section of
  \<open>m_addrFromMutex\<close> and each call of the operating system is one step. A handle is the number
  the operating system gives a socket, and gives again once the socket is closed; a connection is
  numbered once. The model keeps which connection a handle belongs to, which the code cannot see.
\<close>

subsection \<open>State\<close>

text \<open>
  \<open>m_addrFrom\<close> maps the id of a thread to the handle of its connection. A close in progress is a
  handle already taken out of \<open>m_addrFrom\<close>, with the connection it was taken for and whether
  \<open>notifyDisconnect\<close> follows. The log has the calls of \<open>closesocket\<close>: the connection meant and the
  one the handle belonged to at the call; and the calls of \<open>notifyDisconnect\<close>.
\<close>

datatype net_call =
    Closesocket nat "nat option"
  | NotifyDisconnect nat nat

record net_state =
  ns_open :: "nat \<rightharpoonup> nat"
  ns_next :: nat
  ns_running :: bool
  m_addrFrom :: "(nat \<times> nat) list"
  ns_registering :: "(nat \<times> nat) option"
  ns_threads :: "(nat \<times> nat \<times> nat) list"
  ns_started :: "nat list"
  ns_closing :: "(nat \<times> nat \<times> bool) list"
  ns_reports :: "(nat \<times> nat) list"
  ns_log :: "net_call list"

definition new_net :: net_state where
  "new_net = \<lparr>ns_open = Map.empty, ns_next = 0, ns_running = True, m_addrFrom = [],
     ns_registering = None, ns_threads = [], ns_started = [], ns_closing = [], ns_reports = [], ns_log = []\<rparr>"

subsection \<open>Steps\<close>

text \<open>
  \<open>acceptThread\<close>: \<open>accept\<close> returns a handle that is not open; the receiving thread starts (its id
  is new: the handle of each thread stays in \<open>m_listHandle\<close>, and an id is not given again before
  the thread's handle is closed) and only then is the entry written.
\<close>

definition net_accept :: "nat \<Rightarrow> nat \<Rightarrow> net_state \<Rightarrow> net_state" where
  "net_accept h t s = s\<lparr>ns_open := (ns_open s)(h \<mapsto> ns_next s), ns_next := Suc (ns_next s),
     ns_registering := Some (t, h), ns_threads := (t, h, ns_next s) # ns_threads s,
     ns_started := t # ns_started s\<rparr>"

text \<open>The thread could not be started: \<open>closesocket(sock_accept)\<close>.\<close>

definition net_accept_failed :: "nat \<Rightarrow> net_state \<Rightarrow> net_state" where
  "net_accept_failed h s =
     s\<lparr>ns_next := Suc (ns_next s), ns_log := ns_log s @ [Closesocket (ns_next s) (Some (ns_next s))]\<rparr>"

definition net_register :: "net_state \<Rightarrow> net_state" where
  "net_register s =
     (case ns_registering s of None \<Rightarrow> s
      | Some (t, h) \<Rightarrow> s\<lparr>m_addrFrom := oput t h (m_addrFrom s), ns_registering := None\<rparr>)"

text \<open>
  \<open>closeConnection\<close> takes the first entry with the handle out of the map; the handle is open, so the
  connection it is taken for is the one it belongs to.
\<close>

definition net_take :: "nat \<Rightarrow> net_state \<Rightarrow> net_state" where
  "net_take h s =
     (case find (\<lambda>e. snd e = h) (m_addrFrom s) of
        None \<Rightarrow> s
      | Some (t, _) \<Rightarrow>
          s\<lparr>m_addrFrom := odel t (m_addrFrom s),
            ns_closing := (h, (case ns_open s h of Some c \<Rightarrow> c | None \<Rightarrow> 0), False) # ns_closing s\<rparr>)"

text \<open>
  The end of \<open>recvData\<close>: the thread owns the socket only when its entry is still there, and closes
  the handle it was started with.
\<close>

definition net_recv_end :: "nat \<times> nat \<times> nat \<Rightarrow> net_state \<Rightarrow> net_state" where
  "net_recv_end r s =
     (case r of (t, h, c) \<Rightarrow>
        (let s1 = s\<lparr>ns_threads := remove1 r (ns_threads s)\<rparr> in
         case oget (m_addrFrom s) t of
           None \<Rightarrow> s1
         | Some _ \<Rightarrow> s1\<lparr>m_addrFrom := odel t (m_addrFrom s), ns_closing := (h, c, True) # ns_closing s\<rparr>))"

definition net_close :: "nat \<times> nat \<times> bool \<Rightarrow> net_state \<Rightarrow> net_state" where
  "net_close k s =
     (case k of (h, c, report) \<Rightarrow>
        s\<lparr>ns_closing := remove1 k (ns_closing s), ns_open := (ns_open s)(h := None),
          ns_log := ns_log s @ [Closesocket c (ns_open s h)],
          ns_reports := (if report then (h, c) # ns_reports s else ns_reports s)\<rparr>)"

definition net_notify :: "nat \<times> nat \<Rightarrow> net_state \<Rightarrow> net_state" where
  "net_notify r s =
     s\<lparr>ns_reports := remove1 r (ns_reports s), ns_log := ns_log s @ [NotifyDisconnect (fst r) (snd r)]\<rparr>"

text \<open>
  \<open>unInitNet\<close>, after the accepting thread has ended: every socket of the map is closed, the map is
  cleared, in one critical section.
\<close>

fun close_entries :: "(nat \<times> nat) list \<Rightarrow> net_state \<Rightarrow> net_state" where
  "close_entries [] s = s\<lparr>m_addrFrom := []\<rparr>"
| "close_entries ((t, h) # es) s =
     close_entries es (s\<lparr>ns_open := (ns_open s)(h := None),
       ns_log := ns_log s @ [Closesocket (case ns_open s h of Some c \<Rightarrow> c | None \<Rightarrow> 0) (ns_open s h)]\<rparr>)"

definition net_shutdown :: "net_state \<Rightarrow> net_state" where
  "net_shutdown s = close_entries (m_addrFrom s) (s\<lparr>ns_running := False\<rparr>)"

inductive net_step :: "net_state \<Rightarrow> net_state \<Rightarrow> bool" where
  accept: "ns_running s \<Longrightarrow> ns_registering s = None \<Longrightarrow> ns_open s h = None \<Longrightarrow> t \<notin> set (ns_started s) \<Longrightarrow>
     net_step s (net_accept h t s)"
| accept_failed: "ns_running s \<Longrightarrow> ns_registering s = None \<Longrightarrow> ns_open s h = None \<Longrightarrow>
     net_step s (net_accept_failed h s)"
| register: "net_step s (net_register s)"
| take: "net_step s (net_take h s)"
| recv_end: "r \<in> set (ns_threads s) \<Longrightarrow> net_step s (net_recv_end r s)"
| close: "k \<in> set (ns_closing s) \<Longrightarrow> net_step s (net_close k s)"
| notify: "r \<in> set (ns_reports s) \<Longrightarrow> net_step s (net_notify r s)"
| shutdown: "ns_registering s = None \<Longrightarrow> net_step s (net_shutdown s)"

inductive net_reach :: "net_state \<Rightarrow> bool" where
  start: "net_reach new_net"
| step: "net_reach s \<Longrightarrow> net_step s s' \<Longrightarrow> net_reach s'"

subsection \<open>The invariant\<close>

definition owned :: "net_state \<Rightarrow> (nat \<times> nat) set" where
  "owned s = set (m_addrFrom s) \<union> set_option (ns_registering s)"

definition closed_conns :: "net_call list \<Rightarrow> nat list" where
  "closed_conns calls = concat (map (\<lambda>k. case k of Closesocket c _ \<Rightarrow> [c] | NotifyDisconnect _ _ \<Rightarrow> []) calls)"

definition holds :: "net_state \<Rightarrow> nat \<times> nat \<Rightarrow> bool" where
  "holds s e \<longleftrightarrow> fst e \<in> set (ns_started s) \<and> snd e \<notin> fst ` set (ns_closing s) \<and> ns_open s (snd e) \<noteq> None"

definition belongs :: "net_state \<Rightarrow> nat \<times> nat \<Rightarrow> nat \<times> nat \<times> nat \<Rightarrow> bool" where
  "belongs s e r \<longleftrightarrow> (fst r = fst e \<longrightarrow> fst (snd r) = snd e \<and> ns_open s (snd e) = Some (snd (snd r)))"

definition owners_ok :: "net_state \<Rightarrow> bool" where
  "owners_ok s \<longleftrightarrow>
     (\<forall>e \<in> owned s. holds s e) \<and>
     (\<forall>e \<in> owned s. \<forall>r \<in> set (ns_threads s). belongs s e r) \<and>
     (\<forall>e \<in> owned s. \<forall>e' \<in> owned s. fst e = fst e' \<or> snd e = snd e' \<longrightarrow> e = e')"

definition closing_ok :: "net_state \<Rightarrow> bool" where
  "closing_ok s \<longleftrightarrow>
     (\<forall>k \<in> set (ns_closing s). ns_open s (fst k) = Some (fst (snd k))) \<and>
     distinct (map fst (ns_closing s))"

definition conns_ok :: "net_state \<Rightarrow> bool" where
  "conns_ok s \<longleftrightarrow>
     (\<forall>r \<in> set (ns_threads s). fst r \<in> set (ns_started s)) \<and>
     ovalid (m_addrFrom s) \<and> set_option (ns_registering s) \<inter> set (m_addrFrom s) = {} \<and>
     (\<forall>h c. ns_open s h = Some c \<longrightarrow> c < ns_next s) \<and>
     (\<forall>h h' c. ns_open s h = Some c \<longrightarrow> ns_open s h' = Some c \<longrightarrow> h = h')"

definition log_ok :: "net_state \<Rightarrow> bool" where
  "log_ok s \<longleftrightarrow>
     (\<forall>c a. Closesocket c a \<in> set (ns_log s) \<longrightarrow> a = Some c) \<and>
     distinct (closed_conns (ns_log s)) \<and>
     (\<forall>c \<in> set (closed_conns (ns_log s)). c < ns_next s \<and> (\<forall>h. ns_open s h \<noteq> Some c))"

definition net_inv :: "net_state \<Rightarrow> bool" where
  "net_inv s \<longleftrightarrow> owners_ok s \<and> closing_ok s \<and> conns_ok s \<and> log_ok s"

lemma closed_conns_simps [simp]:
  "closed_conns [] = []"
  "closed_conns (xs @ ys) = closed_conns xs @ closed_conns ys"
  "closed_conns [Closesocket c a] = [c]"
  "closed_conns [NotifyDisconnect h c] = []"
  by (simp_all add: closed_conns_def)

lemma set_oput_subset: "set (oput k v m) \<subseteq> insert (k, v) (set m)"
  by (induction k v m rule: oput.induct) auto

lemma set_odel: "set (odel k m) = {e \<in> set m. fst e \<noteq> k}"
  by (simp add: odel_def)

lemma net_inv_new: "net_inv new_net"
  by (simp add: net_inv_def owners_ok_def closing_ok_def conns_ok_def log_ok_def owned_def new_net_def ovalid_def)

lemma owners_okI:
  assumes "\<And>e. e \<in> owned s \<Longrightarrow> holds s e" and "\<And>e r. e \<in> owned s \<Longrightarrow> r \<in> set (ns_threads s) \<Longrightarrow> belongs s e r"
    and "\<And>e e'. e \<in> owned s \<Longrightarrow> e' \<in> owned s \<Longrightarrow> fst e = fst e' \<or> snd e = snd e' \<Longrightarrow> e = e'"
  shows "owners_ok s"
  using assms unfolding owners_ok_def by blast

lemma owned_holds: "net_inv s \<Longrightarrow> e \<in> owned s \<Longrightarrow> holds s e"
  and owned_belongs: "net_inv s \<Longrightarrow> e \<in> owned s \<Longrightarrow> r \<in> set (ns_threads s) \<Longrightarrow> belongs s e r"
  and owned_unique: "net_inv s \<Longrightarrow> e \<in> owned s \<Longrightarrow> e' \<in> owned s \<Longrightarrow> fst e = fst e' \<or> snd e = snd e' \<Longrightarrow> e = e'"
  unfolding net_inv_def owners_ok_def by blast+

lemma net_inv_parts: "net_inv s \<Longrightarrow> closing_ok s" "net_inv s \<Longrightarrow> conns_ok s" "net_inv s \<Longrightarrow> log_ok s"
  by (simp_all add: net_inv_def)

lemma thread_started: "net_inv s \<Longrightarrow> r \<in> set (ns_threads s) \<Longrightarrow> fst r \<in> set (ns_started s)"
  by (simp add: net_inv_def conns_ok_def)

lemma closing_open: "net_inv s \<Longrightarrow> k \<in> set (ns_closing s) \<Longrightarrow> ns_open s (fst k) = Some (fst (snd k))"
  by (simp add: net_inv_def closing_ok_def)

lemma owners_ok_fewer:
  assumes inv: "net_inv s" and own: "owned s' \<subseteq> owned s" and "ns_started s' = ns_started s"
    and "ns_closing s' = ns_closing s" and "ns_open s' = ns_open s" and threads: "set (ns_threads s') \<subseteq> set (ns_threads s)"
  shows "owners_ok s'"
proof (rule owners_okI)
  fix e
  assume e: "e \<in> owned s'"
  then have e': "e \<in> owned s" using own by blast
  show "holds s' e" using owned_holds [OF inv e'] assms by (simp add: holds_def)
  show "belongs s' e r" if "r \<in> set (ns_threads s')" for r
    using owned_belongs [OF inv e', of r] threads that assms(5) by (auto simp: belongs_def)
  show "e = f" if "f \<in> owned s'" "fst e = fst f \<or> snd e = snd f" for f
    using owned_unique [OF inv e', of f] own that by blast
qed

lemma net_inv_register: "net_inv s \<Longrightarrow> net_inv (net_register s)"
proof (cases "ns_registering s")
  case (Some e)
  assume inv: "net_inv s"
  obtain t h where e: "e = (t, h)" by fastforce
  have "owned (net_register s) \<subseteq> owned s"
    using set_oput_subset [of t h "m_addrFrom s"] by (auto simp: owned_def net_register_def Some e)
  then have "owners_ok (net_register s)"
    by (intro owners_ok_fewer [OF inv]) (simp_all add: net_register_def Some e)
  then show ?thesis
    using inv by (simp add: net_inv_def closing_ok_def conns_ok_def log_ok_def net_register_def ovalid_oput Some e)
qed (simp add: net_register_def)

lemma net_inv_accept:
  assumes inv: "net_inv s" and new: "ns_registering s = None" "ns_open s h = None" "t \<notin> set (ns_started s)"
  shows "net_inv (net_accept h t s)"
proof -
  let ?s = "net_accept h t s"
  have own: "owned ?s = insert (t, h) (owned s)" by (simp add: owned_def net_accept_def new)
  have old: "fst e \<noteq> t" "snd e \<noteq> h" if "e \<in> owned s" for e
    using owned_holds [OF inv that] new by (auto simp: holds_def)
  have thr: "fst r \<noteq> t" if "r \<in> set (ns_threads s)" for r
    using thread_started [OF inv that] new(3) by metis
  have clo: "fst k \<noteq> h" if "k \<in> set (ns_closing s)" for k
    using closing_open [OF inv that] new(2) by (metis option.distinct(1))
  have "owners_ok ?s"
  proof (rule owners_okI)
    fix e
    assume e: "e \<in> owned ?s"
    then show "holds ?s e"
      using owned_holds [OF inv, of e] clo unfolding own by (auto simp: holds_def net_accept_def)
    show "belongs ?s e r" if "r \<in> set (ns_threads ?s)" for r
      using owned_belongs [OF inv, of e r] old [of e] thr [of r] e that unfolding own
      by (auto simp: belongs_def net_accept_def)
    show "e = f" if "f \<in> owned ?s" "fst e = fst f \<or> snd e = snd f" for f
      using owned_unique [OF inv, of e f] old [of e] old [of f] e that unfolding own
      by (metis fst_conv insertE snd_conv)
  qed
  moreover have "closing_ok ?s"
    using net_inv_parts(1) [OF inv] clo unfolding closing_ok_def by (simp add: net_accept_def)
  moreover have "conns_ok ?s"
    using net_inv_parts(2) [OF inv] old [of "(t, h)"] unfolding conns_ok_def
    by (simp add: net_accept_def owned_def) (metis less_SucI less_irrefl_nat)
  moreover have "log_ok ?s"
    using net_inv_parts(3) [OF inv] unfolding log_ok_def
    by (simp add: net_accept_def) (metis less_SucI less_irrefl_nat)
  ultimately show ?thesis by (simp add: net_inv_def)
qed

lemma net_inv_accept_failed:
  assumes "net_inv s"
  shows "net_inv (net_accept_failed h s)"
proof -
  have "owned (net_accept_failed h s) = owned s" by (simp add: owned_def net_accept_failed_def)
  then have "owners_ok (net_accept_failed h s)"
    by (intro owners_ok_fewer [OF assms]) (simp_all add: net_accept_failed_def)
  moreover have "conns_ok (net_accept_failed h s)"
    using net_inv_parts(2) [OF assms] unfolding conns_ok_def by (simp add: net_accept_failed_def less_SucI)
  moreover have "log_ok (net_accept_failed h s)"
    using net_inv_parts(2,3) [OF assms] unfolding log_ok_def conns_ok_def
    by (simp add: net_accept_failed_def) (metis less_SucI less_irrefl_nat)
  moreover have "closing_ok (net_accept_failed h s)"
    using assms by (simp add: net_inv_def closing_ok_def net_accept_failed_def)
  ultimately show ?thesis by (simp add: net_inv_def)
qed

text \<open>A handle moves from the map to the closes in progress.\<close>

lemma net_inv_move:
  assumes inv: "net_inv s" and e: "(t, h) \<in> set (m_addrFrom s)" and c: "ns_open s h = Some c"
    and threads: "set threads \<subseteq> set (ns_threads s)"
  shows "net_inv (s\<lparr>ns_threads := threads, m_addrFrom := odel t (m_addrFrom s), ns_closing := (h, c, b) # ns_closing s\<rparr>)"
    (is "net_inv ?s")
proof -
  have mem: "(t, h) \<in> owned s" using e by (simp add: owned_def)
  have own: "e' \<in> owned s \<and> fst e' \<noteq> t \<and> snd e' \<noteq> h" if "e' \<in> owned ?s" for e'
  proof -
    have old: "e' \<in> owned s" using that by (auto simp: owned_def set_odel)
    have "e' \<noteq> (t, h)"
      using that e net_inv_parts(2) [OF inv] by (auto simp: owned_def set_odel conns_ok_def)
    then show ?thesis using old owned_unique [OF inv old mem] by auto
  qed
  have clo: "fst k \<noteq> h" if "k \<in> set (ns_closing s)" for k
    using owned_holds [OF inv mem] that by (auto simp: holds_def)
  have "owners_ok ?s"
  proof (rule owners_okI)
    fix e'
    assume e': "e' \<in> owned ?s"
    then show "holds ?s e'" using owned_holds [OF inv, of e'] own [OF e'] by (simp add: holds_def)
    show "belongs ?s e' r" if "r \<in> set (ns_threads ?s)" for r
      using owned_belongs [OF inv, of e' r] own [OF e'] that threads by (auto simp: belongs_def)
    show "e' = f" if "f \<in> owned ?s" "fst e' = fst f \<or> snd e' = snd f" for f
      using owned_unique [OF inv, of e' f] own [OF e'] own [of f] that by blast
  qed
  moreover have "closing_ok ?s"
    using net_inv_parts(1) [OF inv] clo c unfolding closing_ok_def by auto
  moreover have "conns_ok ?s"
    using net_inv_parts(2) [OF inv] threads unfolding conns_ok_def by (auto simp: set_odel omap.valid_del)
  moreover have "log_ok ?s" using net_inv_parts(3) [OF inv] unfolding log_ok_def by simp
  ultimately show ?thesis by (simp add: net_inv_def)
qed

lemma move_same_threads:
  "s\<lparr>m_addrFrom := m, ns_closing := k\<rparr> = s\<lparr>ns_threads := ns_threads s, m_addrFrom := m, ns_closing := k\<rparr>"
  by (cases s) simp

lemma net_inv_take: "net_inv s \<Longrightarrow> net_inv (net_take h s)"
proof (cases "find (\<lambda>e. snd e = h) (m_addrFrom s)")
  case (Some e)
  assume inv: "net_inv s"
  obtain t where e: "e = (t, h)" "(t, h) \<in> set (m_addrFrom s)"
    using find_SomeD [OF Some] by (cases e) auto
  then obtain c where c: "ns_open s h = Some c"
    using owned_holds [OF inv, of "(t, h)"] by (auto simp: owned_def holds_def)
  show ?thesis
    using net_inv_move [OF inv e(2) c, of "ns_threads s" False]
    by (simp add: net_take_def Some e c flip: move_same_threads)
qed (simp add: net_take_def)

lemma net_inv_recv_end:
  assumes inv: "net_inv s" and r: "r \<in> set (ns_threads s)"
  shows "net_inv (net_recv_end r s)"
proof -
  obtain t h c where rr: "r = (t, h, c)" by (metis surj_pair)
  have threads: "set (remove1 r (ns_threads s)) \<subseteq> set (ns_threads s)" by (rule set_remove1_subset)
  show ?thesis
  proof (cases "oget (m_addrFrom s) t")
    case None
    have "owned (net_recv_end r s) = owned s" by (simp add: owned_def net_recv_end_def rr None Let_def)
    then have "owners_ok (net_recv_end r s)"
      using threads by (intro owners_ok_fewer [OF inv]) (simp_all add: net_recv_end_def rr None Let_def)
    then show ?thesis
      using inv threads unfolding net_inv_def closing_ok_def conns_ok_def log_ok_def
      by (auto simp: net_recv_end_def rr None Let_def)
  next
    case (Some h')
    then have e: "(t, h') \<in> set (m_addrFrom s)" by (simp add: oget_def map_of_SomeD)
    then have "belongs s (t, h') r" by (intro owned_belongs [OF inv _ r]) (simp add: owned_def)
    then have h: "h' = h" "ns_open s h = Some c" by (auto simp: belongs_def rr)
    show ?thesis
      using net_inv_move [OF inv, of t h c "remove1 r (ns_threads s)" True] e h threads
      by (simp add: net_recv_end_def rr Some Let_def)
  qed
qed

lemma net_inv_close:
  assumes inv: "net_inv s" and k: "k \<in> set (ns_closing s)"
  shows "net_inv (net_close k s)"
proof -
  let ?s = "net_close k s"
  obtain h c b where kk: "k = (h, c, b)" by (metis surj_pair)
  have open_h: "ns_open s h = Some c" using closing_open [OF inv k] by (simp add: kk)
  have own: "owned ?s = owned s" by (simp add: owned_def net_close_def kk)
  have other: "snd e \<noteq> h" if "e \<in> owned s" for e
    using owned_holds [OF inv that] k unfolding holds_def kk by force
  have rest: "k' \<in> set (ns_closing s) \<and> fst k' \<noteq> h" if "k' \<in> set (remove1 k (ns_closing s))" for k'
  proof -
    have "k' \<in> set (ns_closing s)" using that by (meson notin_set_remove1)
    moreover have "distinct (map fst (ns_closing s))" using net_inv_parts(1) [OF inv] by (simp add: closing_ok_def)
    then have "k' \<noteq> k" using that by (metis distinct_map set_remove1_eq DiffE singletonI)
    ultimately show ?thesis
      using k \<open>distinct (map fst (ns_closing s))\<close> unfolding kk by (metis distinct_map_eq fst_conv)
  qed
  have "owners_ok ?s"
  proof (rule owners_okI)
    fix e
    assume "e \<in> owned ?s"
    then have e: "e \<in> owned s" by (simp add: own)
    show "holds ?s e"
      using owned_holds [OF inv e] other [OF e] rest by (auto simp: holds_def net_close_def kk)
    show "belongs ?s e r" if "r \<in> set (ns_threads ?s)" for r
      using owned_belongs [OF inv e, of r] other [OF e] that by (auto simp: belongs_def net_close_def kk)
    show "e = f" if "f \<in> owned ?s" "fst e = fst f \<or> snd e = snd f" for f
      using owned_unique [OF inv e, of f] that own by simp
  qed
  moreover have "closing_ok ?s"
    using net_inv_parts(1) [OF inv] rest unfolding closing_ok_def
    by (auto simp: net_close_def kk distinct_map distinct_remove1 intro: inj_on_subset)
  moreover have "conns_ok ?s" using net_inv_parts(2) [OF inv] unfolding conns_ok_def by (simp add: net_close_def kk)
  moreover have "log_ok ?s"
  proof -
    have "c < ns_next s" "\<forall>h'. h' \<noteq> h \<longrightarrow> ns_open s h' \<noteq> Some c"
      using net_inv_parts(2) [OF inv] open_h unfolding conns_ok_def by blast+
    moreover have "c \<notin> set (closed_conns (ns_log s))"
      using net_inv_parts(3) [OF inv] open_h unfolding log_ok_def by blast
    ultimately show ?thesis
      using net_inv_parts(3) [OF inv] open_h unfolding log_ok_def by (simp add: net_close_def kk)
  qed
  ultimately show ?thesis by (simp add: net_inv_def)
qed

lemma net_inv_notify:
  assumes inv: "net_inv s"
  shows "net_inv (net_notify r s)"
proof -
  have "owned (net_notify r s) = owned s" by (simp add: owned_def net_notify_def)
  then have "owners_ok (net_notify r s)"
    by (intro owners_ok_fewer [OF inv]) (simp_all add: net_notify_def)
  then show ?thesis
    using inv by (simp add: net_inv_def closing_ok_def conns_ok_def log_ok_def net_notify_def)
qed

text \<open>Closing an entry at once is taking it and closing it.\<close>

lemma net_inv_entries: "net_inv (s\<lparr>m_addrFrom := es\<rparr>) \<Longrightarrow> net_inv (close_entries es s)"
proof (induction es s rule: close_entries.induct)
  case (2 t h es s)
  let ?s = "s\<lparr>m_addrFrom := (t, h) # es\<rparr>"
  have "holds ?s (t, h)" by (rule owned_holds [OF 2(2)]) (simp add: owned_def)
  then obtain c where c: "ns_open s h = Some c" by (auto simp: holds_def)
  have "ovalid ((t, h) # es)" using net_inv_parts(2) [OF 2(2)] by (simp add: conns_ok_def)
  then have "odel t ((t, h) # es) = es"
    by (auto simp: odel_def ovalid_def filter_id_conv)
  then have "net_inv (?s\<lparr>m_addrFrom := es, ns_closing := (h, c, False) # ns_closing s\<rparr>)"
    using net_inv_move [OF 2(2), of t h c "ns_threads ?s" False] c by (simp flip: move_same_threads)
  then have "net_inv (net_close (h, c, False) (s\<lparr>m_addrFrom := es, ns_closing := (h, c, False) # ns_closing s\<rparr>))"
    by (intro net_inv_close) simp_all
  then show ?case using 2(1) c by (cases s) (simp add: net_close_def)
qed simp

lemma net_inv_shutdown: "net_inv s \<Longrightarrow> net_inv (net_shutdown s)"
proof -
  assume inv: "net_inv s"
  have same: "owned (s\<lparr>ns_running := False\<rparr>) = owned s" by (simp add: owned_def)
  have "owners_ok (s\<lparr>ns_running := False\<rparr>)"
    by (rule owners_ok_fewer [OF inv]) (simp_all add: same)
  then have "net_inv (s\<lparr>ns_running := False\<rparr>)"
    using inv by (simp add: net_inv_def closing_ok_def conns_ok_def log_ok_def)
  then have "net_inv (s\<lparr>ns_running := False\<rparr>\<lparr>m_addrFrom := m_addrFrom s\<rparr>)" by (cases s) simp
  then show ?thesis unfolding net_shutdown_def by (rule net_inv_entries)
qed

lemma net_inv_reach: "net_reach s \<Longrightarrow> net_inv s"
proof (induction rule: net_reach.induct)
  case start
  show ?case by (rule net_inv_new)
next
  case (step s s')
  from step(2,3) show ?case
    by (cases rule: net_step.cases)
      (auto intro: net_inv_accept net_inv_accept_failed net_inv_register net_inv_take net_inv_recv_end
        net_inv_close net_inv_notify net_inv_shutdown)
qed

subsection \<open>What the ownership gives, and what it does not\<close>


text \<open>
  Two connections one after the other on the same handle: the first is closed from above while its
  thread runs, the second by its own thread.
\<close>

definition handle_reused :: net_state where
  "handle_reused =
     (let s1 = net_register (net_accept 4 10 new_net);
          s2 = net_close (4, 0, False) (net_take 4 s1);
          s3 = net_register (net_accept 4 11 s2);
          s4 = net_recv_end (10, 4, 0) s3
      in net_close (4, 1, True) (net_recv_end (11, 4, 1) s4))"

lemmas reach_steps = net_reach.start net_reach.step [OF _ net_step.accept] net_reach.step [OF _ net_step.register]
  net_reach.step [OF _ net_step.take] net_reach.step [OF _ net_step.recv_end] net_reach.step [OF _ net_step.close]

lemmas net_defs = net_accept_def net_register_def net_take_def net_close_def net_recv_end_def net_notify_def
  new_net_def Let_def oget_def odel_def

lemma handle_reused_reach: "net_reach handle_reused"
  unfolding handle_reused_def Let_def
  by (intro reach_steps) (simp_all add: net_defs)


text \<open>
  The entry is written after the thread has started. A connection that ends before is never
  closed by its thread: it stays open, its entry stays in the map, nobody reports its end.
\<close>

definition early_end :: "nat \<Rightarrow> nat \<Rightarrow> net_state \<Rightarrow> net_state" where
  "early_end h t s = net_register (net_recv_end (t, h, ns_next s) (net_accept h t s))"

lemma early_end_leaks:
  assumes "net_reach s" and "ns_running s" and "ns_registering s = None" and "ns_open s h = None"
    and "t \<notin> set (ns_started s)"
  shows "net_reach (early_end h t s) \<and> ns_open (early_end h t s) h = Some (ns_next s) \<and>
    (t, h, ns_next s) \<notin> set (ns_threads (early_end h t s)) \<and> oget (m_addrFrom (early_end h t s)) t = Some h \<and>
    ns_closing (early_end h t s) = ns_closing s \<and> ns_reports (early_end h t s) = ns_reports s"
proof -
  have inv: "net_inv s" by (rule net_inv_reach) fact
  have acc: "net_reach (net_accept h t s)" using assms by (intro reach_steps)
  have "(t, h, ns_next s) \<in> set (ns_threads (net_accept h t s))" by (simp add: net_accept_def)
  then have "net_reach (early_end h t s)"
    unfolding early_end_def using acc assms by (intro reach_steps)
  moreover have "oget (m_addrFrom s) t = None"
  proof (rule ccontr)
    assume "oget (m_addrFrom s) t \<noteq> None"
    then obtain h' where "(t, h') \<in> owned s" by (auto simp: oget_def owned_def dest: map_of_SomeD)
    then show False using owned_holds [OF inv] assms(5) by (force simp: holds_def)
  qed
  moreover have "(t, h, ns_next s) \<notin> set (ns_threads s)" using thread_started [OF inv] assms(5) by force
  moreover have "ovalid (m_addrFrom s)" using net_inv_parts(2) [OF inv] by (simp add: conns_ok_def)
  ultimately show ?thesis
    by (simp add: early_end_def net_recv_end_def net_register_def net_accept_def Let_def omap.get_put)
qed

text \<open>
  The receiving thread closes the socket before it reports the end. In between the handle may be
  given to a new connection, and the report then names that one.
\<close>

definition late_report :: net_state where
  "late_report =
     (let s1 = net_register (net_accept 4 10 new_net);
          s2 = net_close (4, 0, True) (net_recv_end (10, 4, 0) s1)
      in net_register (net_accept 4 11 s2))"

lemma report_may_name_new_connection:
  "net_reach late_report \<and> (4, 0) \<in> set (ns_reports late_report) \<and> ns_open late_report 4 = Some 1"
proof -
  have "net_reach late_report"
    unfolding late_report_def Let_def
    by (intro reach_steps) (simp_all add: net_defs)
  then show ?thesis by (simp add: late_report_def net_defs)
qed

end
