(* ===== verification/LegacyKernel.thy ===== *)
theory LegacyKernel
  imports MessageHandler HttpFiles "HOL-Library.Monad_Syntax"
begin

text \<open>
  The first server, \<open>IMServer/Kernel.cpp\<close> with \<open>MySQL/CMySql.cpp\<close> and \<open>net/def.h\<close>: the handlers
  of the packets, the table of online users and the scan of silent connections. MySQL is not under
  \<open>src/\<close>: its functions are the parameters \<open>mysql\<close>, over a database state of any type, and the
  generated protobuf code the parameters \<open>legacy_codec\<close>. A C++ exception that leaves a handler ends
  the process, and so does \<open>sprintf_s\<close> when its buffer is too small: both are \<open>None\<close>.
\<close>

subsection \<open>Constants of \<open>net/def.h\<close>\<close>

definition LEGACY_PROT_COUNT :: int where "LEGACY_PROT_COUNT = 30"
definition HEARTBEAT_TIMEOUT_SEC :: int where "HEARTBEAT_TIMEOUT_SEC = 90"
definition LEGACY_TEL_LEN :: nat where "LEGACY_TEL_LEN = 15"

subsection \<open>MySQL\<close>

text \<open>
  \<open>my_select\<close>: \<open>mysql_query\<close>, \<open>mysql_store_result\<close> and the rows of the result, None when either
  fails, a column None when it is NULL. \<open>my_update\<close>: \<open>mysql_query\<close>. \<open>my_escape\<close>:
  \<open>mysql_real_escape_string\<close>.
\<close>

record 'db mysql =
  my_select :: "'db \<Rightarrow> string \<Rightarrow> 'db \<times> string option list list option"
  my_update :: "'db \<Rightarrow> string \<Rightarrow> 'db \<times> bool"
  my_escape :: "string \<Rightarrow> string option"

text \<open>\<open>SelectMySql\<close> appends the columns of all rows to the list.\<close>

definition SelectMySql :: "'db mysql \<Rightarrow> string \<Rightarrow> nat \<Rightarrow> string list \<Rightarrow> 'db \<Rightarrow> 'db \<times> string list option" where
  "SelectMySql my szSql nColumn lstStr d =
     (case my_select my d szSql of
        (d', None) \<Rightarrow> (d', None)
      | (d', Some rows) \<Rightarrow>
          (d', Some (lstStr @ concat (map (\<lambda>row. map (\<lambda>f. case f of None \<Rightarrow> [] | Some v \<Rightarrow> cstr v) (take nColumn row)) rows))))"

definition UpdateMySql :: "'db mysql \<Rightarrow> string \<Rightarrow> 'db \<Rightarrow> 'db \<times> bool" where
  "UpdateMySql my szSql d = my_update my d szSql"

text \<open>
  \<open>EscapeString\<close> writes the escaped string into a buffer of \<open>dstLen\<close> bytes, or returns -1 and leaves
  it. The callers ignore the result and print the buffer, which was empty, up to its first NUL.
\<close>

definition EscapeString :: "'db mysql \<Rightarrow> string \<Rightarrow> nat \<Rightarrow> string option" where
  "EscapeString my src dstLen = (if dstLen < 2 * length src + 1 then None else my_escape my src)"

definition escaped :: "'db mysql \<Rightarrow> string \<Rightarrow> nat \<Rightarrow> string" where
  "escaped my src dstLen = (case EscapeString my src dstLen of None \<Rightarrow> [] | Some d \<Rightarrow> cstr d)"

text \<open>\<open>'%s'\<close> in a statement, and \<open>sprintf_s\<close> into a buffer of \<open>cap\<close> bytes.\<close>

definition quoted :: "string \<Rightarrow> string" where
  "quoted s = CHR 0x27 # s @ [CHR 0x27]"

definition sprintf_s :: "nat \<Rightarrow> string \<Rightarrow> string option" where
  "sprintf_s cap text = (if length text < cap then Some text else None)"

subsection \<open>State\<close>

record legacy_codec =
  lparse_RegisterRq :: "bytes \<Rightarrow> RegisterRq option"
  lparse_LoginRq :: "bytes \<Rightarrow> LoginRq option"
  lparse_FriendOffline :: "bytes \<Rightarrow> int option"
  lparse_ChatInfoRq :: "bytes \<Rightarrow> ChatInfoRq option"
  lparse_AddFriendRq :: "bytes \<Rightarrow> AddFriendRq option"
  lparse_AddFriendRs :: "bytes \<Rightarrow> AddFriendRs option"
  lser :: "packet \<Rightarrow> bytes"

text \<open>The calls of the mediator, with the endpoint: \<open>sendData\<close> and \<open>closeConnection\<close>.\<close>

datatype net_request = SendData nat bytes | CloseConnection nat

record 'db kernel =
  k_db :: 'db
  m_mapIdtoSocket :: "(int \<times> nat) list"
  m_mapLastActive :: "(nat \<times> int) list"
  k_net :: "net_request list"

record 'db kernel_env =
  ke_mysql :: "'db mysql"
  ke_codec :: legacy_codec

definition getSocket :: "int \<Rightarrow> 'db kernel \<Rightarrow> nat option" where
  "getSocket i k = oget (m_mapIdtoSocket k) i"

definition setSocket :: "int \<Rightarrow> nat \<Rightarrow> 'db kernel \<Rightarrow> 'db kernel" where
  "setSocket i sock k = k\<lparr>m_mapIdtoSocket := oput i sock (m_mapIdtoSocket k)\<rparr>"

definition isOnline :: "int \<Rightarrow> 'db kernel \<Rightarrow> bool" where
  "isOnline i k \<longleftrightarrow> oget (m_mapIdtoSocket k) i \<noteq> None"

definition eraseSocket :: "int \<Rightarrow> 'db kernel \<Rightarrow> nat option \<times> 'db kernel" where
  "eraseSocket i k =
     (case oget (m_mapIdtoSocket k) i of
        None \<Rightarrow> (None, k)
      | Some sock \<Rightarrow> (Some sock, k\<lparr>m_mapIdtoSocket := odel i (m_mapIdtoSocket k)\<rparr>))"

text \<open>\<open>sendData\<close> with a body: the protocol number as it lies in memory, then the payload.\<close>

definition send_body :: "32 word \<Rightarrow> bytes \<Rightarrow> nat \<Rightarrow> 'db kernel \<Rightarrow> 'db kernel" where
  "send_body type payload to k = k\<lparr>k_net := k_net k @ [SendData to (encodeType32 type @ payload)]\<rparr>"

definition legacy_sendPacket :: "'db kernel_env \<Rightarrow> packet \<Rightarrow> nat \<Rightarrow> 'db kernel \<Rightarrow> 'db kernel" where
  "legacy_sendPacket e p to k = send_body (packet_type p) (lser (ke_codec e) p) to k"

definition closeConnection :: "nat \<Rightarrow> 'db kernel \<Rightarrow> 'db kernel" where
  "closeConnection sock k = k\<lparr>k_net := k_net k @ [CloseConnection sock]\<rparr>"

definition forget_active :: "nat \<Rightarrow> 'db kernel \<Rightarrow> 'db kernel" where
  "forget_active sock k = k\<lparr>m_mapLastActive := odel sock (m_mapLastActive k)\<rparr>"

text \<open>The queries on the kernel: the text goes through a buffer of 1024 bytes.\<close>

definition k_select :: "'db kernel_env \<Rightarrow> nat \<Rightarrow> string \<Rightarrow> nat \<Rightarrow> string list \<Rightarrow> 'db kernel \<Rightarrow>
    (string list option \<times> 'db kernel) option" where
  "k_select e cap text n lst k = do {
     szSql \<leftarrow> sprintf_s cap text;
     (case SelectMySql (ke_mysql e) szSql n lst (k_db k) of (d, r) \<Rightarrow> Some (r, k\<lparr>k_db := d\<rparr>))
   }"

definition k_update :: "'db kernel_env \<Rightarrow> nat \<Rightarrow> string \<Rightarrow> 'db kernel \<Rightarrow> (bool \<times> 'db kernel) option" where
  "k_update e cap text k = do {
     szSql \<leftarrow> sprintf_s cap text;
     (case UpdateMySql (ke_mysql e) szSql (k_db k) of (d, r) \<Rightarrow> Some (r, k\<lparr>k_db := d\<rparr>))
   }"

subsection \<open>Users and their friends\<close>

text \<open>The signature (eight characters) of every new account, in UTF-8.\<close>

definition legacy_feeling :: string where
  "legacy_feeling = map char_of ([0xE5, 0x8A, 0xAA, 0xE5, 0x8A, 0x9B, 0xE5, 0xAE, 0x9E, 0xE7, 0x8E, 0xB0,
     0xE8, 0xB4, 0xA2, 0xE5, 0xAF, 0x8C, 0xE8, 0x87, 0xAA, 0xE7, 0x94, 0xB1] :: nat list)"

text \<open>\<open>generateSaltHex\<close> from the draws of \<open>random_device\<close>.\<close>

definition generateSaltHex :: "32 word list \<Rightarrow> string" where
  "generateSaltHex rd =
     concat (map (\<lambda>r. let b = ucast (r AND 0xFF) :: 8 word in
       [hex_digits ! unat (drop_bit 4 b AND 0x0F), hex_digits ! unat (b AND 0x0F)]) (take 16 rd))"

definition info_query :: "int \<Rightarrow> string" where
  "info_query i = ''select name,feeling,iconid from t_user where id = '' @ quoted (int_dec i) @ '';''"

fun fill_info :: "FriendInfo \<Rightarrow> string list option \<Rightarrow> FriendInfo option" where
  "fill_info info (Some [nick, feeling, icon]) =
     map_option (\<lambda>iconid. info\<lparr>fi_nick := nick, fi_feeling := feeling, fi_iconid := iconid\<rparr>) (stoi icon)"
| "fill_info info _ = Some info"

definition getInfoById :: "'db kernel_env \<Rightarrow> int \<Rightarrow> 'db kernel \<Rightarrow> (FriendInfo \<times> 'db kernel) option" where
  "getInfoById e i k = do {
     let info = \<lparr>fi_userid = i, fi_iconid = 0,
       fi_status = (if isOnline i k then STATUS_ONLINE else STATUS_OFFLINE), fi_nick = [], fi_feeling = []\<rparr>;
     (r, k1) \<leftarrow> k_select e 1024 (info_query i) 3 [] k;
     info' \<leftarrow> fill_info info r;
     Some (info', k1)
   }"

definition send_if_online :: "'db kernel_env \<Rightarrow> packet \<Rightarrow> int \<Rightarrow> 'db kernel \<Rightarrow> 'db kernel" where
  "send_if_online e p i k = (case getSocket i k of None \<Rightarrow> k | Some sock \<Rightarrow> legacy_sendPacket e p sock k)"

primrec send_friends :: "'db kernel_env \<Rightarrow> int \<Rightarrow> FriendInfo \<Rightarrow> string list \<Rightarrow> 'db kernel \<Rightarrow> 'db kernel option" where
  "send_friends e i Myinfo [] k = Some k"
| "send_friends e i Myinfo (x # xs) k = do {
     friendid \<leftarrow> stoi x;
     (Friendinfo, k1) \<leftarrow> getInfoById e friendid k;
     let k2 = send_if_online e (P_FriendInfo Friendinfo) i k1;
     send_friends e i Myinfo xs (send_if_online e (P_FriendInfo Myinfo) friendid k2)
   }"

definition friends_query :: "int \<Rightarrow> string" where
  "friends_query i = ''select idB from t_friend where idA = '' @ quoted (int_dec i) @ '';''"

definition getUserInfoAndFriendInfo :: "'db kernel_env \<Rightarrow> int \<Rightarrow> 'db kernel \<Rightarrow> 'db kernel option" where
  "getUserInfoAndFriendInfo e i k = do {
     (Myinfo, k1) \<leftarrow> getInfoById e i k;
     (r, k2) \<leftarrow> k_select e 1024 (friends_query i) 1 [] (send_if_online e (P_FriendInfo Myinfo) i k1);
     (case r of None \<Rightarrow> Some k2 | Some ids \<Rightarrow> send_friends e i Myinfo ids k2)
   }"

primrec send_offline :: "'db kernel_env \<Rightarrow> int \<Rightarrow> string list \<Rightarrow> 'db kernel \<Rightarrow> 'db kernel option" where
  "send_offline e i [] k = Some k"
| "send_offline e i (x # xs) k = do {
     friendid \<leftarrow> stoi x;
     send_offline e i xs (send_if_online e (P_FriendOffline i) friendid k)
   }"

definition notifyFriendsOffline :: "'db kernel_env \<Rightarrow> int \<Rightarrow> 'db kernel \<Rightarrow> 'db kernel option" where
  "notifyFriendsOffline e offlineId k = do {
     (r, k1) \<leftarrow> k_select e 1024 (friends_query offlineId) 1 [] k;
     (case r of None \<Rightarrow> Some k1 | Some ids \<Rightarrow> send_offline e offlineId ids k1)
   }"

text \<open>\<open>sendOfflinemsg\<close>: each message is sent, when the user is online, and marked in any case.\<close>

definition atoi :: "string \<Rightarrow> int" where
  "atoi s = (case stoi s of None \<Rightarrow> 0 | Some v \<Rightarrow> v)"

definition mark_statement :: "int \<Rightarrow> string" where
  "mark_statement m = ''update offline_msg set is_delivered=1 where id='' @ int_dec m @ '';''"

fun deliver_stored :: "'db kernel_env \<Rightarrow> int \<Rightarrow> string list \<Rightarrow> 'db kernel \<Rightarrow> 'db kernel option" where
  "deliver_stored e i [] k = Some k"
| "deliver_stored e i (m # s # text # lst) k = do {
     let rq = empty_ChatInfoRq\<lparr>c_myid := atoi s, c_friid := i, c_msg := text\<rparr>;
     (_, k1) \<leftarrow> k_update e 128 (mark_statement (atoi m)) (send_if_online e (P_ChatInfoRq rq) i k);
     deliver_stored e i lst k1
   }"
| "deliver_stored e i _ k = None"

definition stored_query :: "int \<Rightarrow> string" where
  "stored_query i = ''select id,sender_id,content from offline_msg where receiver_id='' @ int_dec i @
     '' and is_delivered=0 order by send_time ASC;''"

definition sendOfflinemsg :: "'db kernel_env \<Rightarrow> int \<Rightarrow> 'db kernel \<Rightarrow> 'db kernel option" where
  "sendOfflinemsg e i k = do {
     (r, k1) \<leftarrow> k_select e 512 (stored_query i) 3 [] k;
     (case r of None \<Rightarrow> Some k1 | Some lst \<Rightarrow> deliver_stored e i lst k1)
   }"

subsection \<open>The handlers\<close>

definition id_query :: "string \<Rightarrow> string" where
  "id_query esc = ''select id from t_user where name = '' @ quoted esc @ '';''"

definition login_query :: "string \<Rightarrow> string" where
  "login_query esc = ''select passwd,salt,id from t_user where tel = '' @ quoted esc @ '';''"

definition tel_query :: "string \<Rightarrow> string" where
  "tel_query esc = ''select tel from t_user where tel = '' @ quoted esc @ '';''"

definition name_query :: "string \<Rightarrow> string" where
  "name_query esc = ''select name from t_user where name = '' @ quoted esc @ '';''"

definition insert_user_statement :: "string \<Rightarrow> string \<Rightarrow> string \<Rightarrow> string \<Rightarrow> string" where
  "insert_user_statement escNick escTel escPass escSalt =
     ''insert into t_user (name,tel,passwd,salt,feeling,iconid) values ('' @ quoted escNick @ '','' @ quoted escTel @ '','' @
     quoted escPass @ '','' @ quoted escSalt @ '','' @ quoted legacy_feeling @ '',3);''"

definition DealRegisterRq :: "'db kernel_env \<Rightarrow> 32 word list \<Rightarrow> bytes \<Rightarrow> nat \<Rightarrow> 'db kernel \<Rightarrow> 'db kernel option" where
  "DealRegisterRq e rd data from k =
     (case lparse_RegisterRq (ke_codec e) data of
        None \<Rightarrow> Some k
      | Some rq \<Rightarrow>
          let nick = utf8Truncate (rg_nick rq) (USER_NICK_LEN - 1);
              tel = utf8Truncate (rg_tel rq) (LEGACY_TEL_LEN - 1);
              salt = generateSaltHex rd;
              storedHash = sha256Hex (salt @ rg_pass rq);
              my = ke_mysql e;
              escNick = escaped my nick (USER_NICK_LEN * 2 + 1);
              escTel = escaped my tel (LEGACY_TEL_LEN * 2 + 1);
              escPass = escaped my storedHash (64 * 2 + 1);
              escSalt = escaped my salt (32 * 2 + 1)
          in do {
            (r, k1) \<leftarrow> k_select e 1024 (name_query escNick) 1 [] k;
            (case r of
               None \<Rightarrow> Some k1
             | Some (_ # _) \<Rightarrow> Some (legacy_sendPacket e (P_RegisterRs REGISTER_NICK_EXIT) from k1)
             | Some [] \<Rightarrow> do {
                 (r2, k2) \<leftarrow> k_select e 1024 (tel_query escTel) 1 [] k1;
                 (case r2 of
                    None \<Rightarrow> Some k2
                  | Some (_ # _) \<Rightarrow> Some (legacy_sendPacket e (P_RegisterRs REGISTER_TEL_EXIT) from k2)
                  | Some [] \<Rightarrow> do {
                      (ok, k3) \<leftarrow> k_update e 1024 (insert_user_statement escNick escTel escPass escSalt) k2;
                      (if ok then Some (legacy_sendPacket e (P_RegisterRs REGISTER_SUCC) from k3) else Some k3)
                    })
               })
          })"

definition answer_login :: "'db kernel_env \<Rightarrow> int \<Rightarrow> int \<Rightarrow> nat \<Rightarrow> 'db kernel \<Rightarrow> 'db kernel" where
  "answer_login e userid r from k =
     legacy_sendPacket e (P_LoginRs (empty_LoginRs\<lparr>lrs_userid := userid, lrs_result := r\<rparr>)) from k"

text \<open>The new connection replaces the old one, which is told and closed.\<close>

definition legacy_take_over :: "'db kernel_env \<Rightarrow> int \<Rightarrow> nat \<Rightarrow> 'db kernel \<Rightarrow> 'db kernel" where
  "legacy_take_over e i from k =
     (case getSocket i k of
        None \<Rightarrow> setSocket i from k
      | Some oldSock \<Rightarrow>
          if oldSock \<noteq> from
          then closeConnection oldSock (setSocket i from (legacy_sendPacket e P_KickedOffline oldSock k))
          else setSocket i from k)"

definition DealLoginRq :: "'db kernel_env \<Rightarrow> bytes \<Rightarrow> nat \<Rightarrow> 'db kernel \<Rightarrow> 'db kernel option" where
  "DealLoginRq e data from k =
     (case lparse_LoginRq (ke_codec e) data of
        None \<Rightarrow> Some k
      | Some rq \<Rightarrow>
          let tel = utf8Truncate (lg_tel rq) (LEGACY_TEL_LEN - 1);
              escTel = escaped (ke_mysql e) tel (LEGACY_TEL_LEN * 2 + 1)
          in do {
            (r, k1) \<leftarrow> k_select e 1024 (login_query escTel) 3 [] k;
            (case r of
               None \<Rightarrow> Some k1
             | Some [] \<Rightarrow> Some (answer_login e 0 LOGIN_NOTEXIT from k1)
             | Some (storedHash # salt # x # _) \<Rightarrow> do {
                 i \<leftarrow> stoi x;
                 (if sha256Hex (salt @ lg_pass rq) = storedHash then do {
                    k2 \<leftarrow> getUserInfoAndFriendInfo e i (answer_login e i LOGIN_SUCCESS from (legacy_take_over e i from k1));
                    sendOfflinemsg e i k2
                  }
                  else Some (answer_login e 0 LOGIN_PASSERROR from k1))
               }
             | _ \<Rightarrow> None)
          })"

definition DealOfflineRq :: "'db kernel_env \<Rightarrow> bytes \<Rightarrow> 'db kernel \<Rightarrow> 'db kernel option" where
  "DealOfflineRq e data k =
     (case lparse_FriendOffline (ke_codec e) data of
        None \<Rightarrow> Some k
      | Some offlineid \<Rightarrow> do {
          k1 \<leftarrow> notifyFriendsOffline e offlineid k;
          (case eraseSocket offlineid k1 of
             (None, k2) \<Rightarrow> Some k2
           | (Some offSock, k2) \<Rightarrow>
               let k3 = forget_active offSock k2 in
               Some (if 0 < offSock then closeConnection offSock k3 else k3))
        })"

definition DealDisconnect :: "'db kernel_env \<Rightarrow> nat \<Rightarrow> 'db kernel \<Rightarrow> 'db kernel option" where
  "DealDisconnect e sock k =
     (let (offlineId, k1) = (case find (\<lambda>kv. snd kv = sock) (m_mapIdtoSocket k) of
             None \<Rightarrow> (0, k)
           | Some (i, _) \<Rightarrow> (i, k\<lparr>m_mapIdtoSocket := odel i (m_mapIdtoSocket k)\<rparr>));
          k2 = forget_active sock k1
      in if 0 < offlineId then notifyFriendsOffline e offlineId k2 else Some k2)"

definition DealHeartbeatRq :: "'db kernel_env \<Rightarrow> nat \<Rightarrow> 'db kernel \<Rightarrow> 'db kernel option" where
  "DealHeartbeatRq e from k = Some (send_body DEF_PROT_HEARTBEAT_RS [] from k)"

definition store_statement :: "int \<Rightarrow> int \<Rightarrow> string \<Rightarrow> string" where
  "store_statement sender receiver escMsg =
     ''insert into offline_msg (sender_id, receiver_id, content) values('' @ int_dec sender @ '', '' @ int_dec receiver @ '', '' @ quoted escMsg @ '');''"

definition DealChatRq :: "'db kernel_env \<Rightarrow> bytes \<Rightarrow> nat \<Rightarrow> 'db kernel \<Rightarrow> 'db kernel option" where
  "DealChatRq e data from k =
     (case lparse_ChatInfoRq (ke_codec e) data of
        None \<Rightarrow> Some k
      | Some rq \<Rightarrow>
          (case getSocket (c_friid rq) k of
             Some friSock \<Rightarrow> Some (send_body DEF_PROT_CHAT_INFO_RQ data friSock k)
           | None \<Rightarrow>
               let msg = utf8Truncate (c_msg rq) (CHAT_MSG_LEN - 1);
                   escMsg = escaped (ke_mysql e) msg (CHAT_MSG_LEN * 2 + 1)
               in do {
                 (_, k1) \<leftarrow> k_update e (CHAT_MSG_LEN * 2 + 256)
                   (store_statement (c_myid rq) (c_friid rq) escMsg) k;
                 Some (legacy_sendPacket e (P_ChatInfoRs (empty_ChatInfoRs\<lparr>cr_myid := c_friid rq, cr_friid := 0,
                   cr_result := CHAT_RESULT_FAIL\<rparr>)) from k1)
               }))"

definition DealAddFriendRq :: "'db kernel_env \<Rightarrow> bytes \<Rightarrow> nat \<Rightarrow> 'db kernel \<Rightarrow> 'db kernel option" where
  "DealAddFriendRq e data from k =
     (case lparse_AddFriendRq (ke_codec e) data of
        None \<Rightarrow> Some k
      | Some rq \<Rightarrow>
          let frinick = utf8Truncate (af_frinick rq) (USER_NICK_LEN - 1);
              escFrinick = escaped (ke_mysql e) frinick (USER_NICK_LEN * 2 + 1);
              refuse = (\<lambda>r. legacy_sendPacket e (P_AddFriendRs (empty_AddFriendRs\<lparr>ar_result := r, ar_mynick := af_frinick rq\<rparr>)) from)
          in do {
            (r, k1) \<leftarrow> k_select e 1024 (id_query escFrinick) 1 [] k;
            (case r of
               None \<Rightarrow> Some k1
             | Some [] \<Rightarrow> Some (refuse ADD_FRIEND_NOTEXIT k1)
             | Some (x # _) \<Rightarrow> do {
                 friendid \<leftarrow> stoi x;
                 (case getSocket friendid k1 of
                    Some friSock \<Rightarrow> Some (send_body DEF_PROT_ADD_FRIEND_RQ data friSock k1)
                  | None \<Rightarrow> Some (refuse ADD_FRIEND_OFFLINE k1))
               })
          })"

definition insert_pair :: "int \<Rightarrow> int \<Rightarrow> string" where
  "insert_pair a b = ''insert into t_friend values('' @ int_dec a @ '' ,'' @ int_dec b @ '') ;''"

definition relay_answer :: "bytes \<Rightarrow> int \<Rightarrow> 'db kernel \<Rightarrow> 'db kernel" where
  "relay_answer data destid k =
     (case getSocket destid k of None \<Rightarrow> k | Some destSock \<Rightarrow> send_body DEF_PROT_ADD_FRIEND_RS data destSock k)"

definition DealAddFriendRs :: "'db kernel_env \<Rightarrow> bytes \<Rightarrow> 'db kernel \<Rightarrow> 'db kernel option" where
  "DealAddFriendRs e data k =
     (case lparse_AddFriendRs (ke_codec e) data of
        None \<Rightarrow> Some k
      | Some rs \<Rightarrow>
          if ar_result rs = ADD_FRIEND_AGREE
          then do {
            (ok1, k1) \<leftarrow> k_update e 1024 (insert_pair (ar_destid rs) (ar_myid rs)) k;
            (if \<not> ok1 then Some k1
             else do {
               (ok2, k2) \<leftarrow> k_update e 1024 (insert_pair (ar_myid rs) (ar_destid rs)) k1;
               (if \<not> ok2 then Some k2
                else do {
                  k3 \<leftarrow> getUserInfoAndFriendInfo e (ar_destid rs) k2;
                  Some (relay_answer data (ar_destid rs) k3)
                })
             })
          }
          else Some (relay_answer data (ar_destid rs) k))"

subsection \<open>Dispatch and the heartbeat scan\<close>

text \<open>
  The handler table, indexed by the protocol number less \<open>DEF_BASE\<close>; the difference is computed
  unsigned and read as an \<open>int\<close>.
\<close>

definition legacy_handler :: "'db kernel_env \<Rightarrow> 32 word list \<Rightarrow> int \<Rightarrow> (bytes \<Rightarrow> nat \<Rightarrow> 'db kernel \<Rightarrow> 'db kernel option) option" where
  "legacy_handler e rd index =
     map_of [(0, DealRegisterRq e rd), (2, DealLoginRq e), (9, \<lambda>data from. DealOfflineRq e data),
       (5, DealChatRq e), (7, DealAddFriendRq e), (8, \<lambda>data from. DealAddFriendRs e data),
       (10, \<lambda>data. DealHeartbeatRq e)] index"

definition DealData :: "'db kernel_env \<Rightarrow> 32 word list \<Rightarrow> int \<Rightarrow> bytes \<Rightarrow> nat \<Rightarrow> 'db kernel \<Rightarrow> 'db kernel option" where
  "DealData e rd time_now data from k =
     (if length data < 4 then Some k
      else
        let type = decodeType32 data;
            k1 = k\<lparr>m_mapLastActive := oput from time_now (m_mapLastActive k)\<rparr>;
            index = sint (type - DEF_BASE)
        in if 0 \<le> index \<and> index < LEGACY_PROT_COUNT
           then (case legacy_handler e rd index of
                   None \<Rightarrow> Some k1
                 | Some pFun \<Rightarrow> pFun (drop 4 data) from k1)
           else Some k1)"

text \<open>The part of \<open>scanHeartbeatThread\<close> under the two locks: the silent users; a socket not seen yet is noted.\<close>

fun collect_stale :: "int \<Rightarrow> (int \<times> nat) list \<Rightarrow> (nat \<times> int) list \<Rightarrow> (int \<times> nat) list \<times> (nat \<times> int) list" where
  "collect_stale time_now [] active = ([], active)"
| "collect_stale time_now ((i, sock) # kvs) active =
     (case oget active sock of
        None \<Rightarrow> collect_stale time_now kvs (oput sock time_now active)
      | Some t \<Rightarrow>
          (case collect_stale time_now kvs active of
             (stale, active') \<Rightarrow>
               (if HEARTBEAT_TIMEOUT_SEC < time_now - t then (i, sock) # stale else stale, active')))"

primrec drop_stale :: "'db kernel_env \<Rightarrow> (int \<times> nat) list \<Rightarrow> 'db kernel \<Rightarrow> 'db kernel option" where
  "drop_stale e [] k = Some k"
| "drop_stale e (kv # kvs) k =
     (case eraseSocket (fst kv) k of
        (None, k1) \<Rightarrow> drop_stale e kvs k1
      | (Some sock, k1) \<Rightarrow> do {
          let k2 = forget_active sock k1;
          k3 \<leftarrow> notifyFriendsOffline e (fst kv) (if 0 < sock then closeConnection sock k2 else k2);
          drop_stale e kvs k3
        })"

definition scanHeartbeat :: "'db kernel_env \<Rightarrow> int \<Rightarrow> 'db kernel \<Rightarrow> 'db kernel option" where
  "scanHeartbeat e time_now k =
     (case collect_stale time_now (m_mapIdtoSocket k) (m_mapLastActive k) of
        (stale, active) \<Rightarrow> drop_stale e stale (k\<lparr>m_mapLastActive := active\<rparr>))"

end
