(* ===== verification/LegacyFacts.thy ===== *)
theory LegacyFacts
  imports LegacyKernel
begin

text \<open>
  Properties of the first server: who is online and why, what a chat request does, the heartbeat
  scan, the sizes of the statements.
\<close>

subsection \<open>Operations that leave the tables\<close>

definition same_tables :: "'db kernel \<Rightarrow> 'db kernel \<Rightarrow> bool" where
  "same_tables k k' \<longleftrightarrow> m_mapIdtoSocket k' = m_mapIdtoSocket k \<and> m_mapLastActive k' = m_mapLastActive k"

lemma same_tables_refl [simp]: "same_tables k k"
  by (simp add: same_tables_def)

lemma same_tables_trans: "same_tables k k' \<Longrightarrow> same_tables k' k'' \<Longrightarrow> same_tables k k''"
  by (simp add: same_tables_def)

lemma same_select: "k_select e cap text n lst k = Some (r, k') \<Longrightarrow> same_tables k k'"
  by (auto simp: k_select_def same_tables_def bind_eq_Some_conv split_def)

lemma same_update: "k_update e cap text k = Some (r, k') \<Longrightarrow> same_tables k k'"
  by (auto simp: k_update_def same_tables_def bind_eq_Some_conv split_def)

lemma same_send [simp]: "same_tables k (send_body type data to k)" "same_tables k (legacy_sendPacket e p to k)"
  "same_tables k (closeConnection to k)"
  by (simp_all add: same_tables_def send_body_def legacy_sendPacket_def closeConnection_def)

lemma same_send_if_online [simp]: "same_tables k (send_if_online e p i k)"
  by (simp add: send_if_online_def split: option.splits)

lemma same_answer [simp]: "same_tables k (answer_login e i r from k)" "same_tables k (relay_answer data i k)"
  by (simp_all add: answer_login_def relay_answer_def split: option.splits)

lemma same_info: "getInfoById e i k = Some (info, k') \<Longrightarrow> same_tables k k'"
proof -
  assume "getInfoById e i k = Some (info, k')"
  then obtain r where r: "k_select e 1024 (info_query i) 3 [] k = Some (r, k')"
    by (auto simp: getInfoById_def Let_def bind_eq_Some_conv split_def)
  then show "same_tables k k'" by (rule same_select)
qed

lemma same_send_friends: "send_friends e i info xs k = Some k' \<Longrightarrow> same_tables k k'"
proof (induction xs arbitrary: k)
  case (Cons x xs)
  then obtain f inf k1 where k1: "getInfoById e f k = Some (inf, k1)"
      "send_friends e i info xs (send_if_online e (P_FriendInfo info) f (send_if_online e (P_FriendInfo inf) i k1)) = Some k'"
    by (auto simp: bind_eq_Some_conv Let_def)
  show ?case
    using Cons.IH [OF k1(2)] same_info [OF k1(1)] same_send_if_online same_tables_trans by blast
qed simp

lemma same_infos: "getUserInfoAndFriendInfo e i k = Some k' \<Longrightarrow> same_tables k k'"
proof -
  assume "getUserInfoAndFriendInfo e i k = Some k'"
  then obtain inf k1 r k2 where k: "getInfoById e i k = Some (inf, k1)"
      "k_select e 1024 (friends_query i) 1 [] (send_if_online e (P_FriendInfo inf) i k1) = Some (r, k2)"
      "(case r of None \<Rightarrow> Some k2 | Some ids \<Rightarrow> send_friends e i inf ids k2) = Some k'"
    by (auto simp: getUserInfoAndFriendInfo_def bind_eq_Some_conv)
  have "same_tables k2 k'" using k(3) by (auto split: option.splits dest: same_send_friends)
  then show "same_tables k k'"
    using same_tables_trans [OF same_tables_trans [OF same_tables_trans [OF same_info [OF k(1)] same_send_if_online]
      same_select [OF k(2)]]] by blast
qed

lemma same_send_offline: "send_offline e i xs k = Some k' \<Longrightarrow> same_tables k k'"
proof (induction xs arbitrary: k)
  case (Cons x xs)
  then obtain f where "send_offline e i xs (send_if_online e (P_FriendOffline i) f k) = Some k'"
    by (auto simp: bind_eq_Some_conv)
  then show ?case using Cons.IH same_send_if_online same_tables_trans by blast
qed simp

lemma same_notify: "notifyFriendsOffline e i k = Some k' \<Longrightarrow> same_tables k k'"
  unfolding notifyFriendsOffline_def
  by (auto simp: bind_eq_Some_conv split: option.splits dest!: same_select same_send_offline intro: same_tables_trans)

lemma same_deliver_stored: "deliver_stored e i lst k = Some k' \<Longrightarrow> same_tables k k'"
proof (induction e i lst k rule: deliver_stored.induct)
  case (2 e i m s c lst k)
  then obtain ok k1 where k1: "k_update e 128 (mark_statement (atoi m))
       (send_if_online e (P_ChatInfoRq (empty_ChatInfoRq\<lparr>c_myid := atoi s, c_friid := i, c_msg := c\<rparr>)) i k) = Some (ok, k1)"
      "deliver_stored e i lst k1 = Some k'"
    by (auto simp: bind_eq_Some_conv Let_def)
  then have "same_tables k1 k'" using 2 by blast
  then show ?case using same_update [OF k1(1)] same_send_if_online same_tables_trans by blast
qed simp_all

lemma same_stored: "sendOfflinemsg e i k = Some k' \<Longrightarrow> same_tables k k'"
  unfolding sendOfflinemsg_def
  by (auto simp: bind_eq_Some_conv split: option.splits dest!: same_select same_deliver_stored intro: same_tables_trans)

lemma same_register: "DealRegisterRq e rd data from k = Some k' \<Longrightarrow> same_tables k k'"
proof -
  assume run: "DealRegisterRq e rd data from k = Some k'"
  show "same_tables k k'"
  proof (cases "lparse_RegisterRq (ke_codec e) data")
    case None
    then show ?thesis using run by (simp add: DealRegisterRq_def)
  next
    case (Some rq)
    let ?nick = "escaped (ke_mysql e) (utf8Truncate (rg_nick rq) (USER_NICK_LEN - 1)) (USER_NICK_LEN * 2 + 1)"
    let ?tel = "escaped (ke_mysql e) (utf8Truncate (rg_tel rq) (LEGACY_TEL_LEN - 1)) (LEGACY_TEL_LEN * 2 + 1)"
    obtain r k1 where k1: "k_select e 1024 (name_query ?nick) 1 [] k = Some (r, k1)"
      using run by (auto simp: DealRegisterRq_def Some Let_def bind_eq_Some_conv)
    show ?thesis
    proof (cases "r = Some []")
      case False
      then have "same_tables k1 k'"
        using run k1 by (cases r) (auto simp: DealRegisterRq_def Some Let_def neq_Nil_conv)
      then show ?thesis using same_select [OF k1] same_tables_trans by blast
    next
      case True
      obtain r2 k2 where k2: "k_select e 1024 (tel_query ?tel) 1 [] k1 = Some (r2, k2)"
        using run k1 by (auto simp: DealRegisterRq_def Some Let_def True bind_eq_Some_conv)
      have "same_tables k2 k'"
      proof (cases "r2 = Some []")
        case False
        then show ?thesis
          using run k1 k2 True by (cases r2) (auto simp: DealRegisterRq_def Some Let_def neq_Nil_conv)
      next
        case t: True
        show ?thesis
          using run k1 k2 True t
          by (auto simp: DealRegisterRq_def Some Let_def bind_eq_Some_conv split: if_splits dest!: same_update intro: same_tables_trans)
      qed
      then show ?thesis using same_select [OF k1] same_select [OF k2] same_tables_trans by blast
    qed
  qed
qed

lemma same_chat: "DealChatRq e data from k = Some k' \<Longrightarrow> same_tables k k'"
  by (auto simp: DealChatRq_def Let_def bind_eq_Some_conv split: option.splits dest!: same_update intro: same_tables_trans)

lemma same_add_friend: "DealAddFriendRq e data from k = Some k' \<Longrightarrow> same_tables k k'"
proof -
  assume run: "DealAddFriendRq e data from k = Some k'"
  show "same_tables k k'"
  proof (cases "lparse_AddFriendRq (ke_codec e) data")
    case None
    then show ?thesis using run by (simp add: DealAddFriendRq_def)
  next
    case (Some rq)
    let ?nick = "escaped (ke_mysql e) (utf8Truncate (af_frinick rq) (USER_NICK_LEN - 1)) (USER_NICK_LEN * 2 + 1)"
    obtain r k1 where k1: "k_select e 1024 (id_query ?nick) 1 [] k = Some (r, k1)"
      using run by (auto simp: DealAddFriendRq_def Some Let_def bind_eq_Some_conv)
    have "same_tables k1 k'"
    proof (cases "r = None \<or> r = Some []")
      case True
      then show ?thesis using run k1 by (auto simp: DealAddFriendRq_def Some Let_def)
    next
      case False
      then obtain x xs where "r = Some (x # xs)" by (cases r; cases "the r") auto
      then show ?thesis
        using run k1 by (auto simp: DealAddFriendRq_def Some Let_def bind_eq_Some_conv split: option.splits)
    qed
    then show ?thesis using same_select [OF k1] same_tables_trans by blast
  qed
qed

lemma same_friend_answer: "DealAddFriendRs e data k = Some k' \<Longrightarrow> same_tables k k'"
  by (auto simp: DealAddFriendRs_def bind_eq_Some_conv split: option.splits if_splits
      dest!: same_update same_infos intro: same_tables_trans [OF _ same_answer(2)] same_tables_trans)

subsection \<open>Who comes online\<close>

text \<open>The row of the database that lets a login in.\<close>

definition legacy_password_ok :: "'db kernel_env \<Rightarrow> 'db \<Rightarrow> LoginRq \<Rightarrow> int \<Rightarrow> bool" where
  "legacy_password_ok e d rq i \<longleftrightarrow>
     (\<exists>storedHash salt x rest.
        snd (SelectMySql (ke_mysql e) (login_query (escaped (ke_mysql e)
          (utf8Truncate (lg_tel rq) (LEGACY_TEL_LEN - 1)) (LEGACY_TEL_LEN * 2 + 1))) 3 [] d) =
          Some (storedHash # salt # x # rest) \<and>
        stoi x = Some i \<and> sha256Hex (salt @ lg_pass rq) = storedHash)"

lemma getSocket_same: "same_tables k k' \<Longrightarrow> getSocket i k' = getSocket i k"
  by (simp add: same_tables_def getSocket_def)

lemma getSocket_take_over:
  assumes "ovalid (m_mapIdtoSocket k)"
  shows "getSocket i (legacy_take_over e j from k) = (if i = j then Some from else getSocket i k)"
  using assms
  by (auto simp: legacy_take_over_def getSocket_def setSocket_def closeConnection_def legacy_sendPacket_def send_body_def
      omap.get_put split: option.splits)

lemma login_outcome:
  assumes run: "DealLoginRq e data from k = Some k'"
  shows "same_tables k k' \<or>
    (\<exists>rq i k1. lparse_LoginRq (ke_codec e) data = Some rq \<and> legacy_password_ok e (k_db k) rq i \<and>
       same_tables k k1 \<and> same_tables (legacy_take_over e i from k1) k')"
proof (cases "lparse_LoginRq (ke_codec e) data")
  case None
  then show ?thesis using run by (simp add: DealLoginRq_def)
next
  case (Some rq)
  let ?q = "login_query (escaped (ke_mysql e) (utf8Truncate (lg_tel rq) (LEGACY_TEL_LEN - 1)) (LEGACY_TEL_LEN * 2 + 1))"
  obtain r k1 where k1: "k_select e 1024 ?q 3 [] k = Some (r, k1)"
    using run by (auto simp: DealLoginRq_def Some Let_def bind_eq_Some_conv)
  have r: "r = snd (SelectMySql (ke_mysql e) ?q 3 [] (k_db k))"
    using k1 by (auto simp: k_select_def sprintf_s_def split_def split: if_splits)
  note same = same_select [OF k1]
  consider "r = None \<or> r = Some []" | h s x rest where "r = Some (h # s # x # rest)"
    | h where "r = Some [h]" | h s where "r = Some [h, s]"
    by (metis list.exhaust option.exhaust)
  then show ?thesis
  proof cases
    case 1
    then have "same_tables k1 k'" using run k1 by (auto simp: DealLoginRq_def Some Let_def)
    then show ?thesis using same same_tables_trans by blast
  next
    case 2
    obtain i where i: "stoi x = Some i"
      using run k1 2 by (auto simp: DealLoginRq_def Some Let_def bind_eq_Some_conv)
    show ?thesis
    proof (cases "sha256Hex (s @ lg_pass rq) = h")
      case False
      then have "same_tables k1 k'" using run k1 2 i by (auto simp: DealLoginRq_def Some Let_def)
      then show ?thesis using same same_tables_trans by blast
    next
      case True
      then obtain k2 where k2: "getUserInfoAndFriendInfo e i (answer_login e i LOGIN_SUCCESS from (legacy_take_over e i from k1)) = Some k2"
          "sendOfflinemsg e i k2 = Some k'"
        using run k1 2 i by (auto simp: DealLoginRq_def Some Let_def bind_eq_Some_conv)
      have "same_tables (legacy_take_over e i from k1) k'"
        using same_infos [OF k2(1)] same_stored [OF k2(2)] same_answer(1) same_tables_trans by blast
      moreover have "legacy_password_ok e (k_db k) rq i"
        using 2 i True r by (auto simp: legacy_password_ok_def)
      ultimately show ?thesis using Some same by blast
    qed
  qed (use run k1 in \<open>auto simp: DealLoginRq_def Some Let_def\<close>)
qed

lemma offline_outcome:
  assumes run: "DealOfflineRq e data k = Some k'" and valid: "ovalid (m_mapIdtoSocket k)"
  shows "getSocket i k' = Some s \<Longrightarrow> getSocket i k = Some s" and "ovalid (m_mapIdtoSocket k')"
proof -
  have "m_mapIdtoSocket k' = m_mapIdtoSocket k \<or> (\<exists>j. m_mapIdtoSocket k' = odel j (m_mapIdtoSocket k))"
  proof (cases "lparse_FriendOffline (ke_codec e) data")
    case None
    then show ?thesis using run by (simp add: DealOfflineRq_def)
  next
    case (Some j)
    obtain k1 where n: "notifyFriendsOffline e j k = Some k1"
      using run by (auto simp: DealOfflineRq_def Some bind_eq_Some_conv)
    then have k1: "m_mapIdtoSocket k1 = m_mapIdtoSocket k" using same_notify by (auto simp: same_tables_def)
    show ?thesis
    proof (cases "oget (m_mapIdtoSocket k1) j")
      case None
      then show ?thesis using run n k1 by (simp add: DealOfflineRq_def Some eraseSocket_def)
    next
      case o: (Some sock)
      then have "m_mapIdtoSocket k' = odel j (m_mapIdtoSocket k)"
        using run n k1
        by (auto simp: DealOfflineRq_def Some eraseSocket_def forget_active_def closeConnection_def Let_def split: if_splits)
      then show ?thesis by blast
    qed
  qed
  then show "getSocket i k' = Some s \<Longrightarrow> getSocket i k = Some s" "ovalid (m_mapIdtoSocket k')"
    using valid by (auto simp: getSocket_def omap.get_del omap.valid_del split: if_splits)
qed

subsection \<open>What happens to the server\<close>

text \<open>The calls from the network layer and from the scanning thread.\<close>

datatype legacy_event = Received bytes nat "32 word list" int | Disconnected nat | Scanned int

fun legacy_step :: "'db kernel_env \<Rightarrow> legacy_event \<Rightarrow> 'db kernel \<Rightarrow> 'db kernel option" where
  "legacy_step e (Received data from rd t) k = DealData e rd t data from k"
| "legacy_step e (Disconnected sock) k = DealDisconnect e sock k"
| "legacy_step e (Scanned t) k = scanHeartbeat e t k"

lemma erase_map: "m_mapIdtoSocket (snd (eraseSocket i k)) = odel i (m_mapIdtoSocket k)"
proof (cases "oget (m_mapIdtoSocket k) i")
  case None
  then have "odel i (m_mapIdtoSocket k) = m_mapIdtoSocket k"
    unfolding odel_def by (intro filter_True) (force simp: oget_def map_of_eq_None_iff)
  then show ?thesis using None by (simp add: eraseSocket_def)
qed (simp add: eraseSocket_def)

lemma drop_stale_map:
  "drop_stale e kvs k = Some k' \<Longrightarrow> m_mapIdtoSocket k' = fold (\<lambda>kv. odel (fst kv)) kvs (m_mapIdtoSocket k)"
proof (induction kvs arbitrary: k)
  case (Cons kv kvs)
  obtain o1 k1 where er: "eraseSocket (fst kv) k = (o1, k1)" by fastforce
  then have m: "m_mapIdtoSocket k1 = odel (fst kv) (m_mapIdtoSocket k)" using erase_map [of "fst kv" k] by simp
  show ?case
  proof (cases o1)
    case None
    then show ?thesis using Cons er m by simp
  next
    case (Some sock)
    let ?k2 = "forget_active sock k1"
    obtain k3 where k3: "notifyFriendsOffline e (fst kv) (if 0 < sock then closeConnection sock ?k2 else ?k2) = Some k3"
        "drop_stale e kvs k3 = Some k'"
      using Cons.prems er Some by (auto simp: bind_eq_Some_conv Let_def)
    have "m_mapIdtoSocket k3 = m_mapIdtoSocket k1"
      using same_notify [OF k3(1)] by (auto simp: same_tables_def forget_active_def closeConnection_def split: if_splits)
    then show ?thesis using Cons.IH [OF k3(2)] m by simp
  qed
qed simp

lemma get_fold_del:
  "oget (fold (\<lambda>kv. odel (fst kv)) kvs m) i = (if i \<in> fst ` set kvs then None else oget m i)"
  by (induction kvs arbitrary: m) (auto simp: oget_def odel_def map_of_filter_key)

lemma valid_fold_del: "ovalid m \<Longrightarrow> ovalid (fold (\<lambda>kv. odel (fst kv)) kvs m)"
  by (induction kvs arbitrary: m) (auto simp: omap.valid_del)

lemma disconnect_outcome:
  assumes run: "DealDisconnect e sock k = Some k'" and valid: "ovalid (m_mapIdtoSocket k)"
  shows "getSocket i k' = Some s \<Longrightarrow> getSocket i k = Some s" and "ovalid (m_mapIdtoSocket k')"
proof -
  have "m_mapIdtoSocket k' = m_mapIdtoSocket k \<or> (\<exists>j. m_mapIdtoSocket k' = odel j (m_mapIdtoSocket k))"
  proof (cases "find (\<lambda>kv. snd kv = sock) (m_mapIdtoSocket k)")
    case None
    then show ?thesis using run by (auto simp: DealDisconnect_def forget_active_def)
  next
    case (Some kv)
    then show ?thesis
      using run by (cases kv) (auto simp: DealDisconnect_def forget_active_def Let_def same_tables_def split: if_splits dest!: same_notify)
  qed
  then show "getSocket i k' = Some s \<Longrightarrow> getSocket i k = Some s" "ovalid (m_mapIdtoSocket k')"
    using valid by (auto simp: getSocket_def omap.get_del omap.valid_del split: if_splits)
qed

lemma scan_outcome:
  assumes run: "scanHeartbeat e t k = Some k'"
  shows "m_mapIdtoSocket k' =
    fold (\<lambda>kv. odel (fst kv)) (fst (collect_stale t (m_mapIdtoSocket k) (m_mapLastActive k))) (m_mapIdtoSocket k)"
proof -
  obtain stale active where c: "collect_stale t (m_mapIdtoSocket k) (m_mapLastActive k) = (stale, active)"
    by fastforce
  then show ?thesis using drop_stale_map [of e stale "k\<lparr>m_mapLastActive := active\<rparr>" k'] run
    by (simp add: scanHeartbeat_def)
qed

lemma handler_of: "legacy_handler e rd index = Some f \<Longrightarrow>
    index = 0 \<and> f = DealRegisterRq e rd \<or> index = 2 \<and> f = DealLoginRq e \<or>
    index = 9 \<and> f = (\<lambda>data from. DealOfflineRq e data) \<or> index = 5 \<and> f = DealChatRq e \<or>
    index = 7 \<and> f = DealAddFriendRq e \<or> index = 8 \<and> f = (\<lambda>data from. DealAddFriendRs e data) \<or>
    index = 10 \<and> f = (\<lambda>data. DealHeartbeatRq e)"
  by (auto simp: legacy_handler_def split: if_splits)

lemma login_index: "sint (type - DEF_BASE) = 2 \<Longrightarrow> type = DEF_PROT_LOGIN_RQ"
proof -
  assume "sint (type - DEF_BASE) = 2"
  then have "of_int (sint (type - DEF_BASE)) = (of_int 2 :: 32 word)" by (simp only:)
  then have "type - DEF_BASE = 2" by simp
  then show ?thesis by (simp add: DEF_PROT_LOGIN_RQ_def algebra_simps diff_eq_eq)
qed

lemma packet_outcome:
  assumes run: "DealData e rd t data from k = Some k'" and valid: "ovalid (m_mapIdtoSocket k)"
    and comes: "getSocket i k' = Some s" "getSocket i k \<noteq> Some s"
  shows "s = from \<and> decodeType32 data = DEF_PROT_LOGIN_RQ \<and>
    (\<exists>rq. lparse_LoginRq (ke_codec e) (drop 4 data) = Some rq \<and> legacy_password_ok e (k_db k) rq i)"
proof -
  define k1 where "k1 = k\<lparr>m_mapLastActive := oput from t (m_mapLastActive k)\<rparr>"
  have k1: "getSocket j k1 = getSocket j k" "k_db k1 = k_db k" "m_mapIdtoSocket k1 = m_mapIdtoSocket k" for j
    by (simp_all add: k1_def getSocket_def)
  let ?index = "sint (decodeType32 data - DEF_BASE)"
  have "k' \<noteq> k" "k' \<noteq> k1" using comes k1(1) [of i] by auto
  then obtain f where f: "legacy_handler e rd ?index = Some f" "f (drop 4 data) from k1 = Some k'"
    using run by (auto simp: DealData_def Let_def k1_def split: if_splits option.splits)
  have moved: "\<not> same_tables k1 k'" using getSocket_same [of k1 k' i] comes k1(1) [of i] by auto
  have "?index = 2 \<and> f = DealLoginRq e"
    using handler_of [OF f(1)]
  proof (elim disjE)
    assume "?index = 9 \<and> f = (\<lambda>data from. DealOfflineRq e data)"
    then have "DealOfflineRq e (drop 4 data) k1 = Some k'" using f(2) by simp
    then have "getSocket i k1 = Some s"
      using offline_outcome(1) valid comes(1) unfolding k1(3) [symmetric] by blast
    then show ?thesis using comes(2) k1(1) by simp
  next
    assume "?index = 10 \<and> f = (\<lambda>data. DealHeartbeatRq e)"
    then show ?thesis using f(2) moved by (auto simp: DealHeartbeatRq_def)
  qed (use f(2) moved same_register same_chat same_add_friend same_friend_answer in \<open>blast+\<close>)
  moreover from this obtain rq j k2 where rq: "lparse_LoginRq (ke_codec e) (drop 4 data) = Some rq"
      "legacy_password_ok e (k_db k1) rq j" "same_tables k1 k2" "same_tables (legacy_take_over e j from k2) k'"
    using login_outcome [of e "drop 4 data" "from" k1 k'] f(2) moved by blast
  have "ovalid (m_mapIdtoSocket k2)" using rq(3) valid k1(3) by (simp add: same_tables_def)
  then have "getSocket i k' = (if i = j then Some from else getSocket i k1)"
    using getSocket_same [OF rq(4), of i] getSocket_same [OF rq(3), of i] getSocket_take_over [of k2 i e j "from"] by simp
  then have "i = j \<and> s = from" using comes k1(1) [of i] by (auto split: if_splits)
  ultimately show ?thesis using rq k1(2) login_index by auto
qed

text \<open>Every event: a user comes online, or changes to another connection, only on a login packet.\<close>

lemma step_online:
  assumes "ovalid (m_mapIdtoSocket k)" and "legacy_step e ev k = Some k'"
    and "getSocket i k' = Some s" and "getSocket i k \<noteq> Some s"
  shows "\<exists>data rd t rq. ev = Received data s rd t \<and> decodeType32 data = DEF_PROT_LOGIN_RQ \<and>
    lparse_LoginRq (ke_codec e) (drop 4 data) = Some rq \<and> legacy_password_ok e (k_db k) rq i"
proof (cases ev)
  case (Received data src rd t)
  then show ?thesis using packet_outcome [of e rd t data src k k' i s] assms by auto
next
  case (Disconnected sock)
  then show ?thesis using disconnect_outcome(1) [of e sock k k' i s] assms by auto
next
  case (Scanned t)
  then have "m_mapIdtoSocket k' = fold (\<lambda>kv. odel (fst kv))
      (fst (collect_stale t (m_mapIdtoSocket k) (m_mapLastActive k))) (m_mapIdtoSocket k)"
    using scan_outcome assms(2) by simp
  then show ?thesis using assms(3,4) by (auto simp: getSocket_def get_fold_del split: if_splits)
qed

lemma valid_same: "same_tables k k' \<Longrightarrow> ovalid (m_mapIdtoSocket k) \<Longrightarrow> ovalid (m_mapIdtoSocket k')"
  by (simp add: same_tables_def)

lemma valid_take_over: "ovalid (m_mapIdtoSocket k) \<Longrightarrow> ovalid (m_mapIdtoSocket (legacy_take_over e i sock k))"
  by (auto simp: legacy_take_over_def setSocket_def closeConnection_def legacy_sendPacket_def send_body_def omap.valid_put
      split: option.splits)

lemma packet_valid:
  assumes run: "DealData e rd t data sock k = Some k'" and valid: "ovalid (m_mapIdtoSocket k)"
  shows "ovalid (m_mapIdtoSocket k')"
proof -
  define k1 where "k1 = k\<lparr>m_mapLastActive := oput sock t (m_mapLastActive k)\<rparr>"
  have v: "ovalid (m_mapIdtoSocket k1)" using valid by (simp add: k1_def)
  let ?index = "sint (decodeType32 data - DEF_BASE)"
  consider "k' = k" | "k' = k1" | f where "legacy_handler e rd ?index = Some f" "f (drop 4 data) sock k1 = Some k'"
    using run by (auto simp: DealData_def Let_def k1_def split: if_splits option.splits)
  then show ?thesis
  proof cases
    case 3
    have same: "same_tables k1 k' \<Longrightarrow> ?thesis" using v valid_same by blast
    show ?thesis
      using handler_of [OF 3(1)]
    proof (elim disjE)
      assume "?index = 2 \<and> f = DealLoginRq e"
      then have "DealLoginRq e (drop 4 data) sock k1 = Some k'" using 3(2) by simp
      from login_outcome [OF this] show ?thesis
        using same v valid_same valid_take_over by metis
    next
      assume "?index = 9 \<and> f = (\<lambda>data from. DealOfflineRq e data)"
      then show ?thesis using offline_outcome(2) [of e "drop 4 data" k1 k'] 3(2) v by simp
    next
      assume "?index = 10 \<and> f = (\<lambda>data. DealHeartbeatRq e)"
      then show ?thesis using 3(2) same by (auto simp: DealHeartbeatRq_def)
    qed (use 3(2) same same_register same_chat same_add_friend same_friend_answer in \<open>blast+\<close>)
  qed (use valid v in simp_all)
qed

lemma step_valid: "legacy_step e ev k = Some k' \<Longrightarrow> ovalid (m_mapIdtoSocket k) \<Longrightarrow> ovalid (m_mapIdtoSocket k')"
proof (cases ev)
  case (Scanned t)
  assume "legacy_step e ev k = Some k'" "ovalid (m_mapIdtoSocket k)"
  then show ?thesis using scan_outcome [of e t k k'] valid_fold_del Scanned by simp
qed (use packet_valid disconnect_outcome(2) in auto)

text \<open>A history of the server.\<close>

primrec legacy_run :: "'db kernel_env \<Rightarrow> legacy_event list \<Rightarrow> 'db kernel \<Rightarrow> 'db kernel option" where
  "legacy_run e [] k = Some k"
| "legacy_run e (ev # evs) k = Option.bind (legacy_step e ev k) (legacy_run e evs)"

lemma legacy_run_snoc: "legacy_run e (evs @ [ev]) k = Option.bind (legacy_run e evs k) (legacy_step e ev)"
  by (induction evs arbitrary: k) (auto intro!: Option.bind_cong split: Option.bind_splits)

lemma legacy_run_valid:
  "legacy_run e evs k = Some k' \<Longrightarrow> ovalid (m_mapIdtoSocket k) \<Longrightarrow> ovalid (m_mapIdtoSocket k')"
  by (induction evs arbitrary: k) (auto simp: bind_eq_Some_conv dest: step_valid)

text \<open>
  C26. On the first server a user is online with a connection only when that connection has sent a
  login packet whose password hashed, with the salt of the user's row in the database as it was
  then, to the stored hash: after every history of packets, reports of the network layer and
  turns of the scan from an empty table.
\<close>

theorem legacy_online_needs_password:
  assumes "legacy_run e evs k = Some k'" and "m_mapIdtoSocket k = []" and "getSocket i k' = Some s"
  shows "\<exists>before data rd t rq after k1. evs = before @ Received data s rd t # after \<and>
    legacy_run e before k = Some k1 \<and> decodeType32 data = DEF_PROT_LOGIN_RQ \<and>
    lparse_LoginRq (ke_codec e) (drop 4 data) = Some rq \<and> legacy_password_ok e (k_db k1) rq i"
  using assms(1,3)
proof (induction evs arbitrary: k' rule: rev_induct)
  case Nil
  then show ?case using assms(2) by (simp add: getSocket_def oget_def)
next
  case (snoc ev evs)
  then obtain k1 where k1: "legacy_run e evs k = Some k1" "legacy_step e ev k1 = Some k'"
    by (auto simp: legacy_run_snoc bind_eq_Some_conv)
  show ?case
  proof (cases "getSocket i k1 = Some s")
    case True
    from snoc.IH [OF k1(1) this] obtain before data rd t rq after k2 where
        "evs = before @ Received data s rd t # after" "legacy_run e before k = Some k2"
        "decodeType32 data = DEF_PROT_LOGIN_RQ" "lparse_LoginRq (ke_codec e) (drop 4 data) = Some rq"
        "legacy_password_ok e (k_db k2) rq i"
      by blast
    then show ?thesis by (metis append.assoc append_Cons)
  next
    case False
    have "ovalid (m_mapIdtoSocket k1)" by (rule legacy_run_valid [OF k1(1)]) (simp add: assms(2) ovalid_def)
    from step_online [OF this k1(2) snoc.prems(2) False] show ?thesis using k1(1) by blast
  qed
qed

subsection \<open>The heartbeat scan\<close>

definition silent_socket :: "int \<Rightarrow> (nat \<times> int) list \<Rightarrow> nat \<Rightarrow> bool" where
  "silent_socket t active sock \<longleftrightarrow> (case oget active sock of None \<Rightarrow> False | Some u \<Rightarrow> HEARTBEAT_TIMEOUT_SEC < t - u)"

lemma silent_noted: "silent_socket t (oput sock t active) = (silent_socket t active)(sock := False)"
  by (auto simp: silent_socket_def oget_def map_of_oput HEARTBEAT_TIMEOUT_SEC_def fun_eq_iff)

lemma collect_stale_set:
  "set (fst (collect_stale t kvs active)) = {kv \<in> set kvs. silent_socket t active (snd kv)}"
proof (induction t kvs active rule: collect_stale.induct)
  case (2 t i sock kvs active)
  show ?case
  proof (cases "oget active sock")
    case None
    then have "\<not> silent_socket t active sock" by (simp add: silent_socket_def)
    moreover from this have "silent_socket t (oput sock t active) x = silent_socket t active x" for x
      by (cases "x = sock") (simp_all add: silent_noted)
    ultimately show ?thesis using 2(1) [OF None] None by auto
  next
    case (Some u)
    obtain st ac where c: "collect_stale t kvs active = (st, ac)" by fastforce
    then have "set st = {kv \<in> set kvs. silent_socket t active (snd kv)}" using 2(2) [OF Some] by simp
    moreover have "silent_socket t active sock \<longleftrightarrow> HEARTBEAT_TIMEOUT_SEC < t - u"
      using Some by (simp add: silent_socket_def)
    moreover have "set (fst (collect_stale t ((i, sock) # kvs) active)) =
        (if HEARTBEAT_TIMEOUT_SEC < t - u then insert (i, sock) (set st) else set st)"
      using Some c by simp
    ultimately show ?thesis by (cases "HEARTBEAT_TIMEOUT_SEC < t - u") auto
  qed
qed simp

text \<open>Requests to the network are only added.\<close>

definition net_grows :: "'db kernel \<Rightarrow> 'db kernel \<Rightarrow> bool" where
  "net_grows k k' \<longleftrightarrow> set (k_net k) \<subseteq> set (k_net k')"

lemma net_grows_trans: "net_grows k k' \<Longrightarrow> net_grows k' k'' \<Longrightarrow> net_grows k k''"
  by (auto simp: net_grows_def)

lemma net_grows_notify: "notifyFriendsOffline e i k = Some k' \<Longrightarrow> net_grows k k'"
proof -
  have sel: "k_select e cap q n lst k = Some (r, k') \<Longrightarrow> net_grows k k'" for cap q n lst r and k k' :: "'a kernel"
    by (auto simp: k_select_def net_grows_def bind_eq_Some_conv split_def)
  have send: "send_offline e i xs k = Some k' \<Longrightarrow> net_grows k k'" for xs and k k' :: "'a kernel"
  proof (induction xs arbitrary: k)
    case (Cons x xs)
    then obtain f where "send_offline e i xs (send_if_online e (P_FriendOffline i) f k) = Some k'"
      by (auto simp: bind_eq_Some_conv)
    moreover have "net_grows k (send_if_online e (P_FriendOffline i) f k)"
      by (auto simp: net_grows_def send_if_online_def legacy_sendPacket_def send_body_def split: option.splits)
    ultimately show ?case using Cons.IH net_grows_trans by blast
  qed (simp add: net_grows_def)
  assume "notifyFriendsOffline e i k = Some k'"
  then obtain r k1 where k1: "k_select e 1024 (friends_query i) 1 [] k = Some (r, k1)"
      "(case r of None \<Rightarrow> Some k1 | Some ids \<Rightarrow> send_offline e i ids k1) = Some k'"
    by (auto simp: notifyFriendsOffline_def bind_eq_Some_conv)
  then have "net_grows k1 k'" using send by (auto simp: net_grows_def split: option.splits)
  then show "net_grows k k'" using sel [OF k1(1)] net_grows_trans by blast
qed

lemma drop_stale_closes:
  "drop_stale e kvs k = Some k' \<Longrightarrow> net_grows k k' \<and>
   (\<forall>kv \<in> set kvs. getSocket (fst kv) k = Some (snd kv) \<longrightarrow> 0 < snd kv \<longrightarrow> distinct (map fst kvs) \<longrightarrow>
      CloseConnection (snd kv) \<in> set (k_net k'))"
proof (induction kvs arbitrary: k)
  case (Cons kv kvs)
  obtain o1 k1 where er: "eraseSocket (fst kv) k = (o1, k1)" by fastforce
  then have m: "getSocket j k1 = (if j = fst kv then None else getSocket j k)" for j
    using erase_map [of "fst kv" k] by (simp add: getSocket_def oget_def odel_def map_of_filter_key)
  have n: "k_net k1 = k_net k" "o1 = getSocket (fst kv) k"
    using er by (auto simp: eraseSocket_def getSocket_def split: option.splits)
  show ?case
  proof (cases o1)
    case None
    then have "drop_stale e kvs k1 = Some k'" using Cons.prems er by simp
    note IH = Cons.IH [OF this]
    have "CloseConnection (snd v) \<in> set (k_net k')"
      if v: "v \<in> set (kv # kvs)" "getSocket (fst v) k = Some (snd v)" "0 < snd v" "distinct (map fst (kv # kvs))" for v
    proof -
      have "v \<noteq> kv" using v(2) n None by auto
      then have "v \<in> set kvs" using v(1) by simp
      moreover from this have "fst v \<noteq> fst kv" using v(4) by (metis distinct.simps(2) list.simps(9) image_eqI set_map)
      ultimately have "v \<in> set kvs" "fst v \<noteq> fst kv" .
      then show ?thesis using IH v m by auto
    qed
    then show ?thesis using IH n by (auto simp: net_grows_def)
  next
    case (Some sock)
    let ?k2 = "forget_active sock k1"
    let ?k3 = "if 0 < sock then closeConnection sock ?k2 else ?k2"
    obtain k3 where k3: "notifyFriendsOffline e (fst kv) ?k3 = Some k3" "drop_stale e kvs k3 = Some k'"
      using Cons.prems er Some by (auto simp: bind_eq_Some_conv Let_def)
    have g: "net_grows k k3" "0 < sock \<Longrightarrow> CloseConnection sock \<in> set (k_net k3)"
      using net_grows_notify [OF k3(1)] n by (auto simp: net_grows_def forget_active_def closeConnection_def split: if_splits)
    have same: "getSocket j k3 = getSocket j k1" for j
      using same_notify [OF k3(1)] by (auto simp: same_tables_def getSocket_def forget_active_def closeConnection_def split: if_splits)
    note IH = Cons.IH [OF k3(2)]
    have "CloseConnection (snd v) \<in> set (k_net k')"
      if v: "v \<in> set (kv # kvs)" "getSocket (fst v) k = Some (snd v)" "0 < snd v" "distinct (map fst (kv # kvs))" for v
    proof (cases "v = kv")
      case True
      then show ?thesis using g(2) v n Some IH by (auto simp: net_grows_def)
    next
      case False
      then have "v \<in> set kvs" using v(1) by simp
      moreover from this have "fst v \<noteq> fst kv" using v(4) by (metis distinct.simps(2) list.simps(9) image_eqI set_map)
      ultimately have "v \<in> set kvs" "fst v \<noteq> fst kv" .
      then show ?thesis using IH v m same by auto
    qed
    then show ?thesis using g(1) IH net_grows_trans by blast
  qed
qed (simp add: net_grows_def)

lemma distinct_collect: "distinct (map fst kvs) \<Longrightarrow> distinct (map fst (fst (collect_stale t kvs active)))"
proof (induction t kvs active rule: collect_stale.induct)
  case (2 t i sock kvs active)
  show ?case
  proof (cases "oget active sock")
    case None
    then show ?thesis using 2 by simp
  next
    case (Some u)
    obtain st ac where c: "collect_stale t kvs active = (st, ac)" by fastforce
    then have "set st \<subseteq> set kvs" using collect_stale_set [of t kvs active] by auto
    moreover have "distinct (map fst st)" "i \<notin> fst ` set kvs" using 2(2) [OF Some] 2(3) c by simp_all
    ultimately show ?thesis using Some c by auto
  qed
qed simp

text \<open>
  A turn of the heartbeat scan takes exactly the silent users offline: those whose connection last
  sent something more than 90 seconds ago. A user whose connection sent nothing yet stays, and so
  does everybody else; the connection of a silent user is closed.
\<close>

theorem legacy_scan_drops_silent:
  assumes "ovalid (m_mapIdtoSocket k)" and "scanHeartbeat e t k = Some k'"
  shows "getSocket i k' =
      (case getSocket i k of None \<Rightarrow> None
       | Some sock \<Rightarrow> if silent_socket t (m_mapLastActive k) sock then None else Some sock) \<and>
    (\<forall>sock. getSocket i k = Some sock \<longrightarrow> 0 < sock \<longrightarrow> silent_socket t (m_mapLastActive k) sock \<longrightarrow>
       CloseConnection sock \<in> set (k_net k'))"
proof -
  let ?stale = "fst (collect_stale t (m_mapIdtoSocket k) (m_mapLastActive k))"
  have dist: "distinct (map fst (m_mapIdtoSocket k))"
    using assms(1) by (simp add: ovalid_def strict_sorted_iff)
  have stale: "(i, sock) \<in> set ?stale \<longleftrightarrow> getSocket i k = Some sock \<and> silent_socket t (m_mapLastActive k) sock" for i sock
    using dist by (auto simp: collect_stale_set getSocket_def oget_def)
  obtain active where c: "collect_stale t (m_mapIdtoSocket k) (m_mapLastActive k) = (?stale, active)"
    by (metis prod.collapse)
  have run: "drop_stale e ?stale (k\<lparr>m_mapLastActive := active\<rparr>) = Some k'"
    using assms(2) c by (simp add: scanHeartbeat_def split_def) (metis prod.sel(2))
  have "i \<in> fst ` set ?stale \<longleftrightarrow> (\<exists>sock. getSocket i k = Some sock \<and> silent_socket t (m_mapLastActive k) sock)"
    using stale [of i] by force
  then have "getSocket i k' =
      (case getSocket i k of None \<Rightarrow> None
       | Some sock \<Rightarrow> if silent_socket t (m_mapLastActive k) sock then None else Some sock)"
    using scan_outcome [OF assms(2)] by (auto simp: getSocket_def get_fold_del split: option.splits)
  moreover have "CloseConnection sock \<in> set (k_net k')"
    if "getSocket i k = Some sock" "0 < sock" "silent_socket t (m_mapLastActive k) sock" for sock
    using drop_stale_closes [OF run] distinct_collect [OF dist, of t "m_mapLastActive k"] stale [of i sock] that
    by (force simp: getSocket_def)
  ultimately show ?thesis by blast
qed

subsection \<open>Chat\<close>

lemma length_nat_dec: "n < 10 ^ Suc j \<Longrightarrow> length (nat_dec n) \<le> Suc j"
proof (induction j arbitrary: n)
  case 0
  then show ?case by (simp add: nat_dec.simps)
next
  case (Suc j)
  then have "n div 10 < 10 ^ Suc j" by (simp add: less_mult_imp_div_less mult.commute)
  then show ?case using Suc.IH [of "n div 10"] by (subst nat_dec.simps) simp
qed

lemma length_int_dec: "- (2 ^ 31) \<le> i \<Longrightarrow> i < 2 ^ 31 \<Longrightarrow> length (int_dec i) \<le> 11"
proof -
  assume i: "- (2 ^ 31) \<le> i" "i < 2 ^ 31"
  then have "nat i < 10 ^ Suc 9" "nat (- i) < 10 ^ Suc 9" by simp_all
  then show ?thesis using length_nat_dec [of "nat i" 9] length_nat_dec [of "nat (- i)" 9] by (simp add: int_dec_def)
qed

text \<open>What MySQL documents of \<open>mysql_real_escape_string\<close>: at most two bytes for each.\<close>

definition escape_bounded :: "'db mysql \<Rightarrow> bool" where
  "escape_bounded my \<longleftrightarrow> (\<forall>s d. my_escape my s = Some d \<longrightarrow> length d \<le> 2 * length s)"

lemma length_cstr: "length (cstr s) \<le> length s"
  by (simp add: cstr_def length_takeWhile_le)

lemma length_escaped:
  assumes "escape_bounded my" and "length s \<le> n"
  shows "length (escaped my s cap) \<le> 2 * n"
proof (cases "EscapeString my s cap")
  case (Some d)
  then have "length d \<le> 2 * length s" using assms(1) by (auto simp: EscapeString_def escape_bounded_def split: if_splits)
  then show ?thesis using Some assms(2) length_cstr [of d] by (simp add: escaped_def)
qed (simp add: escaped_def)

lemma length_quoted [simp]: "length (quoted s) = length s + 2"
  by (simp add: quoted_def)

lemma store_statement_fits:
  assumes "escape_bounded my" and "- (2 ^ 31) \<le> a" "a < 2 ^ 31" and "- (2 ^ 31) \<le> b" "b < 2 ^ 31"
  shows "sprintf_s (CHAT_MSG_LEN * 2 + 256) (store_statement a b (escaped my (utf8Truncate msg (CHAT_MSG_LEN - 1)) cap)) =
    Some (store_statement a b (escaped my (utf8Truncate msg (CHAT_MSG_LEN - 1)) cap))"
proof -
  have "length (escaped my (utf8Truncate msg (CHAT_MSG_LEN - 1)) cap) \<le> 2 * (CHAT_MSG_LEN - 1)"
    by (rule length_escaped [OF assms(1) length_utf8Truncate])
  then show ?thesis
    using length_int_dec [OF assms(2,3)] length_int_dec [OF assms(4,5)]
    by (simp add: sprintf_s_def store_statement_def CHAT_MSG_LEN_def)
qed

text \<open>
  A chat request to a user who is online is passed on to the connection of that user byte for
  byte and nothing is stored; to a user who is not, one row is inserted and the sender is told.
  In both cases whoever sent it, whatever sender it names, and without a check that the two are
  friends. The statement always fits its buffer.
\<close>

theorem legacy_chat_relayed_or_stored:
  assumes "escape_bounded (ke_mysql e)" and "lparse_ChatInfoRq (ke_codec e) data = Some rq"
    and "- (2 ^ 31) \<le> c_myid rq" "c_myid rq < 2 ^ 31" and "- (2 ^ 31) \<le> c_friid rq" "c_friid rq < 2 ^ 31"
  shows "\<exists>k'. DealChatRq e data from k = Some k' \<and>
    (case getSocket (c_friid rq) k of
       Some sock \<Rightarrow> k_net k' = k_net k @ [SendData sock (encodeType32 DEF_PROT_CHAT_INFO_RQ @ data)] \<and> k_db k' = k_db k
     | None \<Rightarrow>
         k_net k' = k_net k @ [SendData from (encodeType32 DEF_PROT_CHAT_INFO_RS @
           lser (ke_codec e) (P_ChatInfoRs (empty_ChatInfoRs\<lparr>cr_myid := c_friid rq, cr_friid := 0, cr_result := CHAT_RESULT_FAIL\<rparr>)))] \<and>
         k_db k' = fst (my_update (ke_mysql e) (k_db k) (store_statement (c_myid rq) (c_friid rq)
           (escaped (ke_mysql e) (utf8Truncate (c_msg rq) (CHAT_MSG_LEN - 1)) (CHAT_MSG_LEN * 2 + 1)))))"
proof (cases "getSocket (c_friid rq) k")
  case None
  then show ?thesis
    using store_statement_fits [OF assms(1,3-6), of "c_msg rq" "CHAT_MSG_LEN * 2 + 1"]
    by (simp add: DealChatRq_def assms(2) k_update_def UpdateMySql_def legacy_sendPacket_def send_body_def split_def Let_def)
next
  case (Some sock)
  then show ?thesis by (simp add: DealChatRq_def assms(2) send_body_def)
qed

text \<open>
  Nothing ties a request to the connection it comes from: any connection takes any user offline.
\<close>

lemma anyone_logs_out_anyone:
  assumes "ovalid (m_mapIdtoSocket k)" and "lparse_FriendOffline (ke_codec e) data = Some victim"
    and "getSocket victim k = Some sock" and "0 < sock" and "DealOfflineRq e data k = Some k'"
  shows "getSocket victim k' = None \<and> CloseConnection sock \<in> set (k_net k')"
proof -
  obtain k1 where k1: "notifyFriendsOffline e victim k = Some k1"
    using assms(5) by (auto simp: DealOfflineRq_def assms(2) bind_eq_Some_conv)
  then have m: "m_mapIdtoSocket k1 = m_mapIdtoSocket k" using same_notify by (auto simp: same_tables_def)
  have "k' = closeConnection sock (forget_active sock (k1\<lparr>m_mapIdtoSocket := odel victim (m_mapIdtoSocket k1)\<rparr>))"
    using assms k1 m by (simp add: DealOfflineRq_def eraseSocket_def getSocket_def Let_def)
  then show ?thesis
    by (simp add: closeConnection_def forget_active_def getSocket_def oget_def odel_def map_of_filter_key)
qed

subsection \<open>Samples\<close>

text \<open>A database whose first query finds one user and whose other queries fail.\<close>

definition sample_mysql :: "nat mysql" where
  "sample_mysql = \<lparr>my_select = \<lambda>d q. (Suc d, if d = 0 then Some [[Some (sha256Hex (''s'' @ ''p'')), Some ''s'', Some ''7'']] else None),
     my_update = \<lambda>d q. (Suc d, True), my_escape = Some\<rparr>"

definition sample_legacy :: "nat kernel_env" where
  "sample_legacy = \<lparr>ke_mysql = sample_mysql, ke_codec = \<lparr>lparse_RegisterRq = \<lambda>_. None,
     lparse_LoginRq = \<lambda>_. Some \<lparr>lg_tel = ''1'', lg_pass = ''p'', lg_device_id = []\<rparr>, lparse_FriendOffline = \<lambda>_. None,
     lparse_ChatInfoRq = \<lambda>_. Some (empty_ChatInfoRq\<lparr>c_myid := 8, c_friid := 7, c_msg := ''hi''\<rparr>),
     lparse_AddFriendRq = \<lambda>_. None, lparse_AddFriendRs = \<lambda>_. None, lser = \<lambda>_. []\<rparr>\<rparr>"

definition sample_kernel :: "(int \<times> nat) list \<Rightarrow> (nat \<times> int) list \<Rightarrow> nat kernel" where
  "sample_kernel onl active = \<lparr>k_db = 0, m_mapIdtoSocket = onl, m_mapLastActive = active, k_net = []\<rparr>"

definition sample_login :: bytes where
  "sample_login = encodeType32 DEF_PROT_LOGIN_RQ"

lemma sample_type: "length sample_login = 4" "decodeType32 sample_login = DEF_PROT_LOGIN_RQ"
  using decode_encodeType32 [of DEF_PROT_LOGIN_RQ "[]"] by (simp_all add: sample_login_def)

lemma sample_handler: "legacy_handler e rd (sint (DEF_PROT_LOGIN_RQ - DEF_BASE)) = Some (DealLoginRq e)"
  by (simp add: legacy_handler_def prot_defs)

lemma cstr_sha256Hex: "cstr (sha256Hex t) = sha256Hex t"
  by (simp add: sha256Hex_def)

lemma sample_select:
  "k_select sample_legacy cap q n lst k =
     (if length q < cap
      then Some (if k_db k = 0 then Some (lst @ take n [sha256Hex ''sp'', ''s'', ''7'']) else None, k\<lparr>k_db := Suc (k_db k)\<rparr>)
      else None)"
proof -
  have "cstr ''s'' = ''s''" "cstr ''7'' = ''7''" by (simp_all add: cstr_def)
  then show ?thesis
    by (simp add: k_select_def sprintf_s_def SelectMySql_def sample_legacy_def sample_mysql_def cstr_sha256Hex flip: take_map)
qed

lemma sample_stoi: "stoi ''7'' = Some 7"
  by code_simp

lemma sample_login_runs:
  "\<exists>k'. legacy_step sample_legacy (Received sample_login 4 [] 9) (sample_kernel [] []) = Some k' \<and> getSocket 7 k' = Some 4"
proof -
  have "escaped (ke_mysql sample_legacy) (utf8Truncate ''1'' (LEGACY_TEL_LEN - 1)) (LEGACY_TEL_LEN * 2 + 1) = ''1''"
    by (simp add: escaped_def EscapeString_def LEGACY_TEL_LEN_def utf8Truncate_def sample_legacy_def sample_mysql_def cstr_def)
  moreover have "lparse_LoginRq (ke_codec sample_legacy) data = Some \<lparr>lg_tel = ''1'', lg_pass = ''p'', lg_device_id = []\<rparr>" for data
    by (simp add: sample_legacy_def)
  moreover have "sint (DEF_PROT_LOGIN_RQ - DEF_BASE) = 2" by (simp add: prot_defs)
  moreover have "length (login_query ''1'') < 1024" "length (info_query 7) < 1024" "length (friends_query 7) < 1024"
      "length (stored_query 7) < 512"
    by (simp_all add: login_query_def info_query_def friends_query_def stored_query_def quoted_def int_dec_def nat_dec.simps)
  ultimately show ?thesis
    using sample_handler [of sample_legacy "[]"]
    by (simp add: DealData_def sample_type Let_def LEGACY_PROT_COUNT_def DealLoginRq_def sample_select sample_stoi
        sample_kernel_def legacy_take_over_def answer_login_def getUserInfoAndFriendInfo_def getInfoById_def sendOfflinemsg_def
        getSocket_def setSocket_def legacy_sendPacket_def send_body_def send_if_online_def oget_def)
qed

lemma legacy_online_needs_password_witness:
  "\<exists>k' before data rd t rq after k1. legacy_run sample_legacy [Scanned 1, Received sample_login 4 [] 9] (sample_kernel [] []) = Some k' \<and>
     getSocket 7 k' = Some 4 \<and> [Scanned 1, Received sample_login 4 [] 9] = before @ Received data 4 rd t # after \<and>
     legacy_run sample_legacy before (sample_kernel [] []) = Some k1 \<and> decodeType32 data = DEF_PROT_LOGIN_RQ \<and>
     lparse_LoginRq (ke_codec sample_legacy) (drop 4 data) = Some rq \<and> legacy_password_ok sample_legacy (k_db k1) rq 7"
proof -
  obtain k' where k': "legacy_step sample_legacy (Received sample_login 4 [] 9) (sample_kernel [] []) = Some k'"
      "getSocket 7 k' = Some 4"
    using sample_login_runs by blast
  have "scanHeartbeat sample_legacy 1 (sample_kernel [] []) = Some (sample_kernel [] [])"
    by (simp add: scanHeartbeat_def sample_kernel_def)
  then have run: "legacy_run sample_legacy [Scanned 1, Received sample_login 4 [] 9] (sample_kernel [] []) = Some k'"
    using k'(1) by simp
  have "m_mapIdtoSocket (sample_kernel [] []) = []" by (simp add: sample_kernel_def)
  from legacy_online_needs_password [OF run this k'(2)] show ?thesis using run k'(2) by blast
qed

lemma legacy_scan_drops_silent_witness:
  "\<exists>k'. scanHeartbeat sample_legacy 100 ((sample_kernel [(7, 4), (8, 5)] [(4, 0), (5, 60)])\<lparr>k_db := 1\<rparr>) = Some k' \<and>
     getSocket 7 k' = None \<and> getSocket 8 k' = Some 5"
proof -
  let ?k = "(sample_kernel [(7, 4), (8, 5)] [(4, 0), (5, 60)])\<lparr>k_db := 1\<rparr>"
  have "length (friends_query 7) < 1024"
    by (simp add: friends_query_def quoted_def int_dec_def nat_dec.simps)
  then obtain k' where k': "scanHeartbeat sample_legacy 100 ?k = Some k'"
    by (simp add: scanHeartbeat_def sample_kernel_def oget_def HEARTBEAT_TIMEOUT_SEC_def eraseSocket_def
        notifyFriendsOffline_def sample_select forget_active_def closeConnection_def Let_def odel_def)
  have "ovalid (m_mapIdtoSocket ?k)" by (simp add: sample_kernel_def ovalid_def)
  then show ?thesis
    using legacy_scan_drops_silent [OF _ k', of 7] legacy_scan_drops_silent [OF _ k', of 8] k'
    by (simp add: sample_kernel_def getSocket_def oget_def silent_socket_def HEARTBEAT_TIMEOUT_SEC_def)
qed

lemma legacy_chat_relayed_or_stored_witness:
  "\<exists>k'. DealChatRq sample_legacy [] 5 (sample_kernel [(7, 4)] []) = Some k' \<and>
     k_net k' = [SendData 4 (encodeType32 DEF_PROT_CHAT_INFO_RQ)] \<and> k_db k' = 0"
proof -
  have "escape_bounded (ke_mysql sample_legacy)" by (simp add: escape_bounded_def sample_legacy_def sample_mysql_def)
  moreover have "lparse_ChatInfoRq (ke_codec sample_legacy) [] = Some (empty_ChatInfoRq\<lparr>c_myid := 8, c_friid := 7, c_msg := ''hi''\<rparr>)"
    by (simp add: sample_legacy_def)
  ultimately show ?thesis
    using legacy_chat_relayed_or_stored [of sample_legacy "[]" _ 5 "sample_kernel [(7, 4)] []"]
    by (fastforce simp: sample_kernel_def getSocket_def oget_def)
qed

end
