(* ===== verification/LegacyPeers.thy ===== *)
theory LegacyPeers
  imports LegacyNet
begin

text \<open>
  The other classes of the two directories \<open>net\<close>: the client and the UDP class of \<open>IMServer\<close>, and the
  three classes of \<open>IMClient\<close>. The client class of \<open>IMClient\<close> frames as \<open>TCPServer\<close> of \<open>IMServer\<close>
  does; the server class of \<open>IMClient\<close> and the client class of \<open>IMServer\<close> are of an earlier version, with
  the length in host order and without its checks. Sockets, threads and Winsock are parameters.
\<close>

subsection \<open>Framing of \<open>IMClient/net/TCPClient.cpp\<close>\<close>

text \<open>The same loops and checks as in \<open>TCPServer\<close>; it does not free the packets.\<close>

definition peer_sendData :: "bool \<Rightarrow> bool \<Rightarrow> bytes \<Rightarrow> bool \<times> bytes list" where
  "peer_sendData sent_len sent_data data =
     (if data = [] then (False, [])
      else if MAX_PACK_LEN < length data then (False, [])
      else let netLen = encodeLen32 (of_nat (length data)) in
        if \<not> sent_len then (False, [])
        else if \<not> sent_data then (False, [netLen])
        else (True, [netLen, data]))"

function peer_recvData :: "nat \<Rightarrow> seg list \<Rightarrow> bytes list" where
  "peer_recvData RecvLen w =
     (case recv_n 4 w of
        (None, w') \<Rightarrow> []
      | (Some h, w') \<Rightarrow>
          if h = [] then []
          else let v = recv_length RecvLen h in
            if v \<le> 0 \<or> int MAX_PACK_LEN < v then []
            else case recv_payload (nat v) [] w' of
              (left, pack, w'') \<Rightarrow> if left = 0 then pack # peer_recvData 0 w'' else peer_recvData left w'')"
  by pat_completeness auto
termination
  by (relation "measure (\<lambda>(RecvLen, w). wire_size w)") (auto dest!: round_smaller [OF sym _ sym])

declare peer_recvData.simps [simp del]

lemma peer_equals_server: "peer_recvData old w = recvData old w" "peer_sendData = sendData"
proof -
  show "peer_recvData old w = recvData old w"
    by (induction old w rule: peer_recvData.induct)
      (subst peer_recvData.simps, subst recvData.simps, auto simp: Let_def split: option.split prod.split)
qed (simp add: fun_eq_iff peer_sendData_def sendData_def)

text \<open>What this client and the server of the same age send to each other arrives.\<close>

lemma peers_understand_each_other:
  assumes "flowing w" and "\<forall>p \<in> set ps. packet_ok p" and "lengths_whole ps w"
    and "payload w = concat (map (\<lambda>p. concat (snd (peer_sendData True True p))) ps)"
  shows "recvData 0 w = ps" "peer_recvData 0 w = ps"
  using legacy_framing [OF assms(1,2) _ assms(3)] assms(4) by (simp_all add: peer_equals_server)

subsection \<open>The earlier loops\<close>

text \<open>
  The length as it lies in memory. Allocating a negative number of bytes, or more than there are
  (\<open>alloc\<close>), is an exception that nothing catches and that ends the program. A payload that ends early
  is passed on as far as it came, and the next round begins.
\<close>

datatype peer_end = Peer_stops | Program_ends

definition host_length :: "nat \<Rightarrow> bytes \<Rightarrow> int" where
  "host_length old h = sint (decodeType32 (h @ drop (length h) (encodeType32 (of_nat old))))"

function old_recvData :: "(nat \<Rightarrow> bool) \<Rightarrow> nat \<Rightarrow> seg list \<Rightarrow> bytes list \<times> peer_end" where
  "old_recvData alloc RecvLen w =
     (case recv_n 4 w of
        (None, w') \<Rightarrow> ([], Peer_stops)
      | (Some h, w') \<Rightarrow>
          if h = [] then ([], Peer_stops)
          else let v = host_length RecvLen h in
            if v < 0 \<or> \<not> alloc (nat v) then ([], Program_ends)
            else case recv_payload (nat v) [] w' of
              (left, pack, w'') \<Rightarrow>
                (case old_recvData alloc left w'' of (ps, e) \<Rightarrow> (pack # ps, e)))"
  by pat_completeness auto
termination
  by (relation "measure (\<lambda>(alloc, RecvLen, w). wire_size w)") (auto dest!: round_smaller [OF sym _ sym])

declare old_recvData.simps [simp del]

lemma old_recvData_Nil [simp]: "old_recvData alloc old [] = ([], Peer_stops)"
  by (subst old_recvData.simps) simp

text \<open>The earlier classes understand each other.\<close>

lemma host_header:
  assumes "length p < 2 ^ 31"
  shows "host_length old (encodeType32 (of_nat (length p))) = int (length p)"
proof -
  have "sint (of_nat (length p) :: 32 word) = int (length p)"
    using assms by (simp add: signed_of_nat signed_take_bit_int_eq_self_iff)
  then show ?thesis
    using decode_encodeType32 [of "of_nat (length p)" "[]"] by (simp add: host_length_def)
qed

lemma old_framing:
  assumes "flowing w" and "\<forall>p \<in> set ps. p \<noteq> [] \<and> length p < 2 ^ 31 \<and> alloc (length p)"
    and "payload w = concat (map (\<lambda>p. concat (snd (client_sendData True True p))) ps)" and "lengths_whole ps w"
  shows "old_recvData alloc 0 w = (ps, Peer_stops)"
  using assms
proof (induction ps arbitrary: w)
  case Nil
  then have "w = []" by (intro flowing_payload_Nil) simp_all
  then show ?case by simp
next
  case (Cons p ps)
  let ?h = "encodeType32 (of_nat (length p))"
  let ?rest = "concat (map (\<lambda>p. concat (snd (client_sendData True True p))) ps)"
  have p: "p \<noteq> []" "length p < 2 ^ 31" "alloc (length p)" using Cons.prems(2) by simp_all
  have bytes: "payload w = ?h @ p @ ?rest" using Cons.prems(3) p by (simp add: client_sendData_def)
  have c: "case w of Got b # _ \<Rightarrow> 4 \<le> length b | _ \<Rightarrow> False" and h: "length ?h = 4" "?h \<noteq> []"
    using Cons.prems(4) by (simp_all add: encodeType32_def)
  note r = framed_pieces [OF Cons.prems(1) c bytes h(1)]
  have "old_recvData alloc 0 (drop_bytes (4 + length p) w) = (ps, Peer_stops)"
    using Cons.prems bytes h(1)
    by (intro Cons.IH flowing_drop) (simp_all add: payload_drop)
  then show ?case
    using h(2) p by (subst old_recvData.simps) (simp add: r Let_def host_header)
qed

text \<open>
  A peer that sends four bytes with the highest bit of the last one set ends the program; a peer that
  goes away inside a packet has the part it sent handled as a whole packet.
\<close>

lemma negative_length_ends_program:
  "old_recvData alloc 0 [Got [0, 0, 0, 0x80]] = ([], Program_ends)"
  by (subst old_recvData.simps) (simp add: host_length_def decodeType32_def Let_def)

lemma cut_packet_handled:
  assumes "p \<noteq> []" and "length p < n" and "n < 2 ^ 31" and "alloc n"
  shows "old_recvData alloc 0 [Got (encodeType32 (of_nat n)), Got p] = ([p], Peer_stops)"
proof -
  let ?h = "encodeType32 (of_nat n)"
  have h: "length ?h = 4" "?h \<noteq> []" by (simp_all add: encodeType32_def)
  have "sint (of_nat n :: 32 word) = int n"
    using assms(3) by (simp add: signed_of_nat signed_take_bit_int_eq_self_iff)
  then have v: "host_length 0 ?h = int n"
    using decode_encodeType32 [of "of_nat n" "[]"] by (simp add: host_length_def)
  have "recv_payload (n - length p) p [] = (n - length p, p, [])"
    using assms(2) by (subst recv_payload.simps) simp
  then have "recv_payload n [] [Got p] = (n - length p, p, [])"
    using assms(1,2) by (subst recv_payload.simps) simp
  then show ?thesis
    using h assms(4) by (subst old_recvData.simps) (simp add: v Let_def)
qed

subsection \<open>UDP\<close>

text \<open>
  \<open>recvfrom\<close> gives one datagram at a time. For one that is longer than the buffer Winsock reports an
  error; an empty one has length 0.
\<close>

datatype dgram = Datagram bytes "32 word" | Dgram_error

definition UDP_BUFFER :: nat where
  "UDP_BUFFER = 4096"

definition recvfrom :: "dgram \<Rightarrow> (bytes \<times> 32 word) option" where
  "recvfrom d = (case d of
     Dgram_error \<Rightarrow> None
   | Datagram b a \<Rightarrow> if UDP_BUFFER < length b then None else Some (b, a))"

text \<open>The loop copies each datagram and passes it on; anything else than a positive number ends it.\<close>

fun udp_recvData :: "dgram list \<Rightarrow> (bytes \<times> 32 word) list" where
  "udp_recvData [] = []"
| "udp_recvData (d # ds) =
     (case recvfrom d of
        None \<Rightarrow> []
      | Some (b, a) \<Rightarrow> if b = [] then [] else (b, a) # udp_recvData ds)"

text \<open>
  \<open>sendData\<close> of \<open>IMServer\<close> refuses an address that is wider than IPv4; that of \<open>IMClient\<close> takes what
  fits its argument. The result is what is handed to \<open>sendto\<close>.
\<close>

definition udp_sendData :: "bool \<Rightarrow> bytes \<Rightarrow> 64 word \<Rightarrow> bool \<times> (bytes \<times> 32 word) option" where
  "udp_sendData sent data to =
     (if 0xFFFFFFFF < to then (False, None) else (sent, Some (data, ucast to)))"

definition im_client_udp_sendData :: "bool \<Rightarrow> bytes \<Rightarrow> 32 word \<Rightarrow> bool \<times> (bytes \<times> 32 word) option" where
  "im_client_udp_sendData sent data to = (sent, Some (data, to))"

definition usual_dgram :: "dgram \<Rightarrow> bool" where
  "usual_dgram d \<longleftrightarrow> (\<exists>b a. d = Datagram b a \<and> b \<noteq> [] \<and> length b \<le> UDP_BUFFER)"

text \<open>
  All datagrams up to the first that is empty or too long are passed on; that one ends the reception for
  good, whoever sent it.
\<close>

lemma udp_reception_ends:
  assumes "list_all usual_dgram ds" and "\<not> usual_dgram d"
  shows "udp_recvData (ds @ d # later) = map (\<lambda>d. case d of Datagram b a \<Rightarrow> (b, a)) ds"
  using assms
proof (induction ds)
  case Nil
  then show ?case by (cases d) (auto simp: recvfrom_def usual_dgram_def)
qed (auto simp: recvfrom_def usual_dgram_def)

subsection \<open>Opening and closing\<close>

text \<open>What the calls of Winsock answer.\<close>

record winsock =
  ws_startup :: bool
  ws_version :: bool
  ws_socket :: bool
  ws_attach :: bool
  ws_listen :: bool
  ws_thread :: bool

text \<open>The class: uses of the library, \<open>m_socket\<close>, \<open>m_handle\<close>, \<open>m_bRunning\<close>.\<close>

record net_object =
  no_library :: int
  no_socket :: bool
  no_handle :: bool
  no_running :: bool

definition new_net_object :: net_object where
  "new_net_object = \<lparr>no_library = 0, no_socket = False, no_handle = False, no_running = True\<rparr>"

text \<open>
  \<open>initNet\<close> of the five classes: \<open>ws_attach\<close> is \<open>connect\<close> for a client and \<open>bind\<close> for the others, and
  only a server listens. A failure returns at once and takes nothing back.
\<close>

definition initNet :: "bool \<Rightarrow> winsock \<Rightarrow> net_object \<Rightarrow> bool \<times> net_object" where
  "initNet listens e n =
     (if \<not> ws_startup e then (False, n)
      else let n1 = n\<lparr>no_library := no_library n + 1\<rparr> in
        if \<not> ws_version e then (False, n1)
        else let n2 = n1\<lparr>no_socket := ws_socket e\<rparr> in
          if \<not> ws_socket e then (False, n2)
          else if \<not> ws_attach e then (False, n2)
          else if listens \<and> \<not> ws_listen e then (False, n2)
          else (True, n2\<lparr>no_handle := ws_thread e\<rparr>))"

text \<open>\<open>unInitNet\<close> of \<open>IMServer\<close>'s client and UDP class: close, wait for the thread, release.\<close>

definition unInitNet :: "net_object \<Rightarrow> net_object" where
  "unInitNet n =
     (let n1 = n\<lparr>no_running := False\<rparr>;
          n2 = (if no_socket n1 then n1\<lparr>no_socket := False\<rparr> else n1);
          n3 = (if no_handle n2 then n2\<lparr>no_handle := False\<rparr> else n2)
      in n3\<lparr>no_library := no_library n3 - 1\<rparr>)"

text \<open>
  \<open>unInitNet\<close> of \<open>IMClient\<close>: it waits for the thread first, five seconds at most, and then kills it;
  the socket is closed but its number stays in the member. The result also says whether the thread was
  killed: it is when it waits for data that does not come (\<open>blocked\<close>).
\<close>

definition im_client_unInitNet :: "bool \<Rightarrow> net_object \<Rightarrow> bool \<times> net_object" where
  "im_client_unInitNet blocked n =
     (let (killed, n1) = (if no_handle n then (blocked, n\<lparr>no_running := False, no_handle := False\<rparr>) else (False, n))
      in (killed, n1\<lparr>no_library := no_library n1 - 1\<rparr>))"

text \<open>
  Closing takes back what opening did, if it succeeded or not, as soon as the library could be
  loaded; if not, closing releases it once too often.
\<close>

lemma close_after_open:
  "unInitNet (snd (initNet l e new_net_object)) =
     \<lparr>no_library = (if ws_startup e then 0 else - 1), no_socket = False, no_handle = False, no_running = False\<rparr>"
  by (simp add: initNet_def new_net_object_def unInitNet_def Let_def)

text \<open>An object cannot be opened again: its loops do not run once it has been closed.\<close>

lemma reopened_does_not_run:
  "no_running (snd (initNet l e (unInitNet n))) = False"
  by (simp add: initNet_def unInitNet_def Let_def)

subsection \<open>The accepting thread of \<open>IMClient/net/TCPServer.cpp\<close>\<close>

text \<open>
  A receiving thread waits five milliseconds and then looks its connection up in \<open>m_addrFrom\<close>, where
  the accepting thread enters it after it has started the thread. \<open>ac_threads\<close> are the threads that have
  not looked yet, \<open>ac_serves\<close> what the others found.
\<close>

record accepting =
  ac_started :: "(nat \<times> nat) option"
  ac_threads :: "nat list"
  ac_addrFrom :: "(nat \<times> nat) list"
  ac_serves :: "(nat \<times> nat option) list"

definition new_accepting :: accepting where
  "new_accepting = \<lparr>ac_started = None, ac_threads = [], ac_addrFrom = [], ac_serves = []\<rparr>"

definition accept_start :: "nat \<Rightarrow> nat \<Rightarrow> accepting \<Rightarrow> accepting" where
  "accept_start threadid sock s = s\<lparr>ac_started := Some (threadid, sock), ac_threads := threadid # ac_threads s\<rparr>"

definition accept_store :: "accepting \<Rightarrow> accepting" where
  "accept_store s = (case ac_started s of
     None \<Rightarrow> s
   | Some (threadid, sock) \<Rightarrow> s\<lparr>ac_started := None, ac_addrFrom := oput threadid sock (ac_addrFrom s)\<rparr>)"

definition thread_looks :: "nat \<Rightarrow> accepting \<Rightarrow> accepting" where
  "thread_looks t s =
     (if t \<in> set (ac_threads s)
      then s\<lparr>ac_threads := filter (\<lambda>x. x \<noteq> t) (ac_threads s), ac_serves := (t, oget (ac_addrFrom s) t) # ac_serves s\<rparr>
      else s)"

datatype accept_event = Ac_start nat nat | Ac_store | Ac_looks nat

fun accept_run :: "accept_event list \<Rightarrow> accepting \<Rightarrow> accepting" where
  "accept_run [] s = s"
| "accept_run (Ac_start t c # es) s = accept_run es (accept_start t c s)"
| "accept_run (Ac_store # es) s = accept_run es (accept_store s)"
| "accept_run (Ac_looks t # es) s = accept_run es (thread_looks t s)"

text \<open>
  The order decides: a thread that looks after its entry was written serves its connection, one that
  looks before (the accepting thread was not scheduled for five milliseconds) returns, and nobody reads
  from the connection any more, whatever happens later.
\<close>

lemma look_after_store:
  assumes "t \<notin> set (ac_threads s)"
  shows "(t, Some c) \<in> set (ac_serves (accept_run [Ac_start t c, Ac_store, Ac_looks t] s))"
  using assms by (simp add: accept_start_def accept_store_def thread_looks_def oget_def map_of_oput)

lemma thread_looks_once:
  assumes "t \<notin> set (ac_threads s)" and "\<forall>c. Ac_start t c \<notin> set es"
  shows "t \<notin> set (ac_threads (accept_run es s)) \<and>
    (\<forall>r. (t, r) \<in> set (ac_serves (accept_run es s)) \<longrightarrow> (t, r) \<in> set (ac_serves s))"
  using assms
proof (induction es s rule: accept_run.induct)
  case (2 u c es s)
  then have "t \<notin> set (ac_threads (accept_start u c s))" by (auto simp: accept_start_def)
  with 2 show ?case by (simp add: accept_start_def)
next
  case (3 es s)
  have "ac_threads (accept_store s) = ac_threads s" "ac_serves (accept_store s) = ac_serves s"
    by (simp_all add: accept_store_def split: option.split prod.split)
  with 3 show ?case by simp
next
  case (4 u es s)
  then have "t \<notin> set (ac_threads (thread_looks u s))"
    "(t, r) \<in> set (ac_serves (thread_looks u s)) \<Longrightarrow> (t, r) \<in> set (ac_serves s)" for r
    by (auto simp: thread_looks_def split: if_splits)
  with 4 show ?case by fastforce
qed simp

lemma late_entry_never_served:
  assumes "\<forall>r. (t, r) \<notin> set (ac_serves s)" and "oget (ac_addrFrom s) t = None" and "\<forall>c. Ac_start t c \<notin> set es"
  shows "(t, Some c) \<notin> set (ac_serves (accept_run (Ac_start t c # Ac_looks t # Ac_store # es) s))"
proof -
  let ?s = "accept_run [Ac_start t c, Ac_looks t, Ac_store] s"
  have "t \<notin> set (ac_threads ?s)" "(t, Some c) \<notin> set (ac_serves ?s)"
    using assms(1,2) by (auto simp: accept_start_def thread_looks_def accept_store_def)
  then have "(t, Some c) \<notin> set (ac_serves (accept_run es ?s))" using thread_looks_once assms(3) by blast
  then show ?thesis by simp
qed

text \<open>The receiving thread: what it found decides whether it reads its socket.\<close>

definition old_server_recvData ::
  "(nat \<Rightarrow> bool) \<Rightarrow> nat \<Rightarrow> (nat \<times> nat) list \<Rightarrow> (nat \<Rightarrow> seg list) \<Rightarrow> bytes list \<times> peer_end" where
  "old_server_recvData alloc threadId addrFrom wire =
     (case oget addrFrom threadId of
        None \<Rightarrow> ([], Peer_stops)
      | Some s \<Rightarrow> old_recvData alloc 0 (wire s))"

text \<open>Its \<open>sendData\<close> writes to the socket it is given; the results are those of the two calls of \<open>send\<close>.\<close>

definition old_server_sendData :: "bool \<Rightarrow> bool \<Rightarrow> bytes \<Rightarrow> nat \<Rightarrow> bool \<times> (nat \<times> bytes) list" where
  "old_server_sendData sent_len sent_data data to =
     (if data = [] then (False, [])
      else let len = encodeType32 (of_nat (length data)) in
        if \<not> sent_len then (False, [])
        else if \<not> sent_data then (False, [(to, len)])
        else (True, [(to, len), (to, data)]))"

text \<open>
  \<open>unInitNet\<close> waits for each thread in turn, five seconds at most, and kills it if it is still blocked;
  only then it closes the sockets. The result: which of the threads (the accepting one first) were
  killed, the sockets that were closed, and the object.
\<close>

definition old_server_unInitNet ::
  "bool \<Rightarrow> bool list \<Rightarrow> (nat \<times> nat) list \<Rightarrow> net_object \<Rightarrow> bool list \<times> nat list \<times> net_object" where
  "old_server_unInitNet blocked threads addrFrom n =
     (let (killed, n1) = (if no_handle n then ([blocked], n\<lparr>no_running := False, no_handle := False\<rparr>) else ([], n));
          n2 = (if threads = [] then n1 else n1\<lparr>no_running := False, no_handle := False\<rparr>)
      in (killed @ threads, map snd addrFrom, n2\<lparr>no_library := no_library n2 - 1\<rparr>))"

text \<open>
  Whoever still waits for data is killed: with a number of idle connections the shutdown takes five seconds
  for each of them, although closing the sockets first would have ended them at once.
\<close>

lemma idle_threads_are_killed:
  "no_handle n \<Longrightarrow> fst (old_server_unInitNet True (replicate k True) addrs n) = replicate (Suc k) True"
  by (simp add: old_server_unInitNet_def)

text \<open>What this server sends, the client class of \<open>IMServer\<close> understands.\<close>

lemma old_server_sends:
  "map snd (snd (old_server_sendData a b data to)) = snd (client_sendData a b data)"
  "fst (old_server_sendData a b data to) = fst (client_sendData a b data)"
  "\<forall>p \<in> set (snd (old_server_sendData a b data to)). fst p = to"
  by (simp_all add: old_server_sendData_def client_sendData_def Let_def)

end
