(* ===== verification/LegacyStart.thy ===== *)
theory LegacyStart
  imports LegacyPeers
begin

text \<open>
  Starting and stopping of the first server: \<open>Kernel::startServer\<close>, \<open>closeServer\<close> and the destructor in
  \<open>IMServer/Kernel.cpp\<close>, with the network object of the mediator, the connection to MySQL, and \<open>main\<close> of
  \<open>IMserver.cpp\<close>, which waits for a key or for the console. What Windows and MySQL answer is a parameter.
\<close>

text \<open>\<open>ms_freed\<close> counts the calls of \<open>mysql_close\<close>; the handle exists from the constructor on.\<close>

record legacy_server =
  ls_net :: net_object
  ms_connected :: bool
  ms_freed :: nat
  ls_scan :: bool

definition new_legacy_server :: legacy_server where
  "new_legacy_server = \<lparr>ls_net = new_net_object, ms_connected = False, ms_freed = 0, ls_scan = False\<rparr>"

definition startServer :: "winsock \<Rightarrow> bool \<Rightarrow> legacy_server \<Rightarrow> bool \<times> legacy_server" where
  "startServer e mysql_ok s =
     (let (opened, n) = initNet True e (ls_net s); s1 = s\<lparr>ls_net := n\<rparr> in
      if \<not> opened then (False, s1)
      else if \<not> mysql_ok then (False, s1)
      else (True, s1\<lparr>ms_connected := True, ls_scan := True\<rparr>))"

text \<open>\<open>closeNet\<close> ends the accepting and all receiving threads before it returns.\<close>

definition closeNet :: "legacy_server \<Rightarrow> legacy_server" where
  "closeNet s = s\<lparr>ls_net := unInitNet (ls_net s)\<rparr>"

definition closeServer :: "legacy_server \<Rightarrow> legacy_server" where
  "closeServer s =
     (let s1 = closeNet (s\<lparr>ls_scan := False\<rparr>) in s1\<lparr>ms_connected := False, ms_freed := ms_freed s1 + 1\<rparr>)"

text \<open>The destructor closes the network, and so does that of the mediator, which it deletes.\<close>

definition end_kernel :: "legacy_server \<Rightarrow> legacy_server" where
  "end_kernel s = closeNet (closeNet s)"

text \<open>
  The console handler: what it does with a control event, and whether the event counts as handled. Before
  the handle exists it only answers.
\<close>

datatype ctrl_event = Ctrl_c | Ctrl_break | Ctrl_close | Ctrl_other

definition ConsoleCtrlHandler :: "bool \<Rightarrow> ctrl_event \<Rightarrow> bool \<times> bool" where
  "ConsoleCtrlHandler has_event c = (if c = Ctrl_other then (False, False) else (has_event, True))"

text \<open>
  One turn of the waiting loop: the event is set, or half a second passed with a key or without one. The
  number is the turn that ended the loop; None is a loop that goes on.
\<close>

datatype console_turn = Event_set | Key nat | Quiet

fun wait_quit :: "nat \<Rightarrow> console_turn list \<Rightarrow> nat option" where
  "wait_quit n [] = None"
| "wait_quit n (Event_set # ts) = Some n"
| "wait_quit n (Key c # ts) = (if c = 113 \<or> c = 81 then Some n else wait_quit (n + 1) ts)"
| "wait_quit n (Quiet # ts) = wait_quit (n + 1) ts"

text \<open>\<open>main\<close>: the exit code and the server after its destructor; None while the server runs.\<close>

definition legacy_main :: "winsock \<Rightarrow> bool \<Rightarrow> console_turn list \<Rightarrow> (int \<times> legacy_server) option" where
  "legacy_main e mysql_ok turns =
     (case startServer e mysql_ok new_legacy_server of
        (False, s) \<Rightarrow> Some (1, end_kernel s)
      | (True, s) \<Rightarrow> (case wait_quit 0 turns of
          None \<Rightarrow> None
        | Some n \<Rightarrow> Some (0, end_kernel (closeServer s))))"

subsection \<open>What starting and stopping leave behind\<close>

definition legacy_serving :: "legacy_server \<Rightarrow> bool" where
  "legacy_serving s \<longleftrightarrow> no_socket (ls_net s) \<and> ms_connected s \<and> ls_scan s"

text \<open>
  When the server says that it runs, its socket is open, MySQL is connected and the scan runs. When it does
  not start because of MySQL, it has been accepting connections until its destructor runs, and handled their
  packets without a database.
\<close>

lemma start_serves: "fst (startServer e c new_legacy_server) \<Longrightarrow> legacy_serving (snd (startServer e c new_legacy_server))"
  by (auto simp: startServer_def initNet_def new_legacy_server_def new_net_object_def legacy_serving_def Let_def
      split: if_splits)

lemma accepts_before_database:
  assumes "ws_startup e" "ws_version e" "ws_socket e" "ws_attach e" "ws_listen e" "ws_thread e"
  shows "startServer e False new_legacy_server = (False, new_legacy_server\<lparr>ls_net :=
     \<lparr>no_library = 1, no_socket = True, no_handle = True, no_running = True\<rparr>\<rparr>)"
  using assms by (simp add: startServer_def initNet_def new_legacy_server_def new_net_object_def)

text \<open>
  However \<open>main\<close> ends, nothing runs any more and no socket is open; the library, which was loaded at most
  once, has been released two times or three; and the handle of MySQL is released only after a good start.
\<close>

theorem legacy_main_leaves_nothing_running:
  assumes "legacy_main e c turns = Some (code, s)"
  shows "\<not> ls_scan s \<and> \<not> ms_connected s \<and> \<not> no_socket (ls_net s) \<and> \<not> no_handle (ls_net s) \<and>
    \<not> no_running (ls_net s) \<and> no_library (ls_net s) < 0 \<and>
    ms_freed s = (if code = 0 then 1 else 0) \<and> (code = 0 \<or> code = 1)"
  using assms
  by (auto simp: legacy_main_def startServer_def initNet_def new_legacy_server_def new_net_object_def
      end_kernel_def closeServer_def closeNet_def unInitNet_def Let_def split: if_splits option.splits)

text \<open>The loop ends at the first turn that asks for it.\<close>

definition asks_quit :: "console_turn \<Rightarrow> bool" where
  "asks_quit t \<longleftrightarrow> t = Event_set \<or> t = Key 113 \<or> t = Key 81"

lemma wait_quit_first:
  "wait_quit n ts = (if list_ex asks_quit ts then Some (n + length (takeWhile (\<lambda>t. \<not> asks_quit t) ts)) else None)"
  by (induction n ts rule: wait_quit.induct) (auto simp: asks_quit_def)

end
