(* ===== verification/SecureServer.thy ===== *)
theory SecureServer
  imports ServerInv ChanRun "HOL-Library.Sublist"
begin

text \<open>
  The server and its connections together: \<open>Server.cpp\<close> with one \<open>Session\<close> per connection. The strand of
  a connection runs its callbacks; a packet it opens is posted to the business strand of the session,
  where \<open>dispatchPacket\<close> takes it later; the end of the connection is reported at once.
\<close>

subsection \<open>Connections, business strands and the shared state\<close>

record secured =
  ss_chans :: "nat \<Rightarrow> chan option"
  ss_biz :: "nat \<Rightarrow> (32 word \<times> bytes) list"
  ss_world :: world

text \<open>What a callback of the connection posts to the business strand, and whether it reports its end.\<close>

definition posted :: "chan \<Rightarrow> chan \<Rightarrow> (32 word \<times> bytes) list" where
  "posted ch ch' = drop (length (dispatched ch)) (dispatched ch')"

definition accept_session :: "nat \<Rightarrow> secured \<Rightarrow> secured" where
  "accept_session sid s = s\<lparr>ss_chans := (ss_chans s)(sid := Some new_chan), ss_biz := (ss_biz s)(sid := []),
     ss_world := new_session sid (ss_world s)\<rparr>"

definition run_callback :: "nat \<Rightarrow> chan \<Rightarrow> chan \<Rightarrow> secured \<Rightarrow> secured" where
  "run_callback sid ch ch' s = s\<lparr>ss_chans := (ss_chans s)(sid := Some ch'),
     ss_biz := (ss_biz s)(sid := ss_biz s sid @ posted ch ch'),
     ss_world := (if closings ch < closings ch' then onSessionClosed sid (ss_world s) else ss_world s)\<rparr>"

definition run_packet :: "routes \<Rightarrow> tenv \<Rightarrow> int \<Rightarrow> nat \<Rightarrow> secured \<Rightarrow> secured" where
  "run_packet m e clk sid s =
     (case ss_biz s sid of
        [] \<Rightarrow> s
      | (type, payload) # rest \<Rightarrow> s\<lparr>ss_biz := (ss_biz s)(sid := rest),
          ss_world := dispatchPacket m e clk sid type payload (ss_world s)\<rparr>)"

definition end_session :: "nat \<Rightarrow> secured \<Rightarrow> secured" where
  "end_session sid s = s\<lparr>ss_chans := (ss_chans s)(sid := None), ss_world := drop_session sid (ss_world s)\<rparr>"

text \<open>
  The steps of the server that no packet causes. A posted packet holds its session, which so lives until
  the packet has run.
\<close>

inductive background :: "world \<Rightarrow> world \<Rightarrow> bool" where
  Bg_broadcast: "background w (broadcast_offline e u w)"
| Bg_scan: "background w (hbScan t w)"
| Bg_upload: "background w (w\<lparr>uploads := ups\<rparr>)"
| Bg_ask: "ai_take w = Some (t, w1) \<Longrightarrow> background w (snd (ai_begin e t w1))"
| Bg_answer: "background w (ai_end t r w)"

inductive secure_step :: "routes \<Rightarrow> chan_env \<Rightarrow> secured \<Rightarrow> secured \<Rightarrow> bool" for m ce where
  Accept_session: "fresh_id (ss_world s) sid \<Longrightarrow> secure_step m ce s (accept_session sid s)"
| Callback: "ss_chans s sid = Some ch \<Longrightarrow> chan_step ce ch ch' \<Longrightarrow> secure_step m ce s (run_callback sid ch ch' s)"
| Biz_packet: "ss_biz s sid \<noteq> [] \<Longrightarrow> secure_step m ce s (run_packet m e clk sid s)"
| Background: "background (ss_world s) w \<Longrightarrow> secure_step m ce s (s\<lparr>ss_world := w\<rparr>)"
| End_session: "ss_biz s sid = [] \<Longrightarrow> secure_step m ce s (end_session sid s)"

text \<open>The state after \<open>start\<close>: no connection, a well-formed file.\<close>

definition secure_start :: "secured \<Rightarrow> bool" where
  "secure_start s \<longleftrightarrow> ss_chans s = Map.empty \<and> (\<forall>sid. ss_biz s sid = [] \<and> \<not> alive (ss_world s) sid) \<and>
     world_ok (ss_world s)"

subsection \<open>Sessions along the steps\<close>

lemma alive_cong: "sessions w' = sessions w \<Longrightarrow> alive w' = alive w"
  by (simp add: alive_def [abs_def])

lemma sessions_closes: "sessions (fold (\<lambda>(u, s). close s) xs w) = sessions w"
  by (induction xs arbitrary: w) (simp_all add: split_beta)

lemma background_sessions:
  assumes "background w w'"
  shows "sessions w' = sessions w"
  using assms
proof cases
  case (Bg_broadcast e u)
  have "effect w (broadcast_offline e u w)"
    unfolding broadcast_offline_def
    by (rule effect_fold) (auto simp: tell_offline_def intro!: effects split: option.split)
  then show ?thesis using effect_same(1) Bg_broadcast by simp
next
  case (Bg_ask t w1 e)
  have "sessions w1 = sessions w" using Bg_ask(2) by (auto simp: ai_take_def upd_ai_def split: list.splits)
  then show ?thesis using Bg_ask(1) effect_same(1) [OF effect_ai_begin] by simp
next
  case (Bg_answer t r)
  then show ?thesis using effect_same(1) [OF effect_ai_end] by simp
qed (simp_all add: hbScan_def split_beta sessions_closes)

lemma background_step: "background w w' \<Longrightarrow> server_step m w w'"
  by (induction rule: background.induct) (rule server_step.intros; assumption?)+

lemma alive_upd:
  "alive (w\<lparr>db := c\<rparr>) = alive w" "alive (w\<lparr>online := m\<rparr>) = alive w"
  "alive (w\<lparr>refreshes := r\<rparr>) = alive w" "alive (activateSession e sid u w) = alive w"
  "alive (kick_revoked u w) = alive w" "alive (outcome sid h) = alive (snd h)"
  by (rule alive_cong; simp add: kick_revoked_def split: option.split)+

lemmas alive_simps = alive_upd alive_deliver alive_bindAuth

lemma alive_login:
  assumes "alive w sid"
  shows "alive (snd (onLogin e sid rq w)) = alive w" "alive (snd (onTokenLogin e sid rq' w)) = alive w"
    "alive (snd (onTokenRefresh e sid rq'' w)) = alive w"
  using assms
  by (simp_all add: onLogin_def onTokenLogin_def onTokenRefresh_def Let_def alive_simps split_beta
      split: option.split exc.split)

lemma router_alive:
  assumes "uget m = map_of (dispatcher_routes P)" and "alive w sid"
  shows "alive (router_dispatch m e clk sid t p w) = alive w"
proof (cases "t \<in> login_types")
  case False
  then show ?thesis using effect_same(2) [OF effect_dispatch [OF assms(1) False]] by simp
next
  case True
  then show ?thesis
    unfolding login_types_def router_dispatch_eq [OF assms(1)]
    by (elim insertE emptyE)
      (simp_all add: login_routes alive_simps alive_login assms(2) onOffline_def onHeartbeat_def split: option.split)
qed

lemma packet_alive:
  assumes "uget m = map_of (dispatcher_routes P)" and "alive w sid"
  shows "alive (dispatchPacket m e clk sid t p w) = alive w"
  using router_alive [OF assms(1), of _ sid] assms(2)
  by (simp add: dispatchPacket_def Let_def alive_simps)

subsection \<open>The composition runs its parts\<close>

lemma posted_grows:
  assumes "chan_inv ch \<or> ch = new_chan" and "chan_step ce ch ch'"
  shows "posted ch ch' = [] \<and> dispatched ch' = dispatched ch \<or>
    (\<exists>t p f. ch_state ch = Established \<and> authentic ce ch f t p \<and> posted ch ch' = [(t, p)] \<and>
       dispatched ch' = dispatched ch @ [(t, p)])"
proof (cases "ch = new_chan")
  case True
  then show ?thesis using new_chan_step [of ce ch'] assms(2) by (auto simp: posted_def tls_history)
next
  case False
  then have "\<not> ch_tls ch" using assms(1) by (simp add: chan_inv_def)
  with assms(2) show ?thesis
  proof (cases rule: step_cases)
    case (Dispatched f t p)
    then have "dispatched ch' = dispatched ch @ [(t, p)]" by (simp add: calm_def) (simp add: dispatched_def)
    then show ?thesis using Dispatched by (auto simp: posted_def)
  next
    case (Hello payload c)
    then show ?thesis using history_cong [OF hello_fields(1) [OF Hello(2)]] by (simp add: calm_def posted_def)
  next
    case Sealed
    then have "dispatched ch' = dispatched ch" by (simp add: calm_def) (simp add: dispatched_def)
    then show ?thesis by (simp add: posted_def)
  next
    case (Finished payload actual)
    then have "dispatched ch' = dispatched ch" by (simp add: calm_def) (simp add: dispatched_def)
    then show ?thesis by (simp add: posted_def)
  qed (auto simp: calm_def posted_def)
qed

text \<open>Where a packet came from: a frame that opened over the established channel of the connection.\<close>

definition opened_over :: "chan_env \<Rightarrow> chan \<Rightarrow> 32 word \<Rightarrow> bytes \<Rightarrow> bool" where
  "opened_over ce ch t p \<longleftrightarrow> (\<exists>ch0 f. (chan_step ce)\<^sup>*\<^sup>* new_chan ch0 \<and> ch_state ch0 = Established \<and>
     authentic ce ch0 f t p \<and> (chan_step ce)\<^sup>*\<^sup>* ch0 ch)"

lemma opened_over_step: "opened_over ce ch t p \<Longrightarrow> chan_step ce ch ch' \<Longrightarrow> opened_over ce ch' t p"
  unfolding opened_over_def by (meson rtranclp.rtrancl_into_rtrancl)

lemma dispatched_opened:
  assumes "(chan_step ce)\<^sup>*\<^sup>* new_chan ch"
  shows "\<forall>(t, p) \<in> set (dispatched ch). opened_over ce ch t p"
  using assms
proof (induction rule: rtranclp_induct)
  case (step a b)
  have "opened_over ce b t p" if "(t, p) \<in> set (dispatched b)" for t p
  proof (cases "(t, p) \<in> set (dispatched a)")
    case True
    then show ?thesis using step.IH opened_over_step [OF _ step.hyps(2)] by blast
  next
    case False
    with that obtain f where "ch_state a = Established" "authentic ce a f t p"
      using posted_grows [OF _ step.hyps(2)] reach_cases [OF step.hyps(1)] by auto
    then have "opened_over ce a t p" unfolding opened_over_def using step.hyps(1) by blast
    then show ?thesis by (rule opened_over_step [OF _ step.hyps(2)])
  qed
  then show ?case by blast
qed (simp add: tls_history)

text \<open>
  What holds in every state: the live sessions are those with a connection, each connection has run its
  own callbacks only, and what waits in its business strand is the end of what it opened.
\<close>

fun part_ok :: "chan_env \<Rightarrow> chan option \<Rightarrow> (32 word \<times> bytes) list \<Rightarrow> bool \<Rightarrow> bool" where
  "part_ok ce None q living \<longleftrightarrow> \<not> living \<and> q = []"
| "part_ok ce (Some ch) q living \<longleftrightarrow>
     living \<and> (chan_step ce)\<^sup>*\<^sup>* new_chan ch \<and> suffix q (dispatched ch)"

definition parts_ok :: "chan_env \<Rightarrow> secured \<Rightarrow> bool" where
  "parts_ok ce s \<longleftrightarrow> (\<forall>sid. part_ok ce (ss_chans s sid) (ss_biz s sid) (alive (ss_world s) sid))"

lemma parts_ok_change:
  assumes "parts_ok ce s" and "part_ok ce c q l"
  shows "part_ok ce (((ss_chans s)(sid := c)) k) (((ss_biz s)(sid := q)) k) (((alive (ss_world s))(sid := l)) k)"
  using assms by (simp add: parts_ok_def)

lemma parts_okD:
  assumes "parts_ok ce s" and "ss_chans s sid = Some ch"
  shows "alive (ss_world s) sid" "(chan_step ce)\<^sup>*\<^sup>* new_chan ch" "suffix (ss_biz s sid) (dispatched ch)"
  using assms unfolding parts_ok_def by (metis part_ok.simps(2))+

lemma parts_ok_waiting:
  assumes "parts_ok ce s" and "ss_biz s sid \<noteq> []"
  obtains ch where "ss_chans s sid = Some ch"
  using assms unfolding parts_ok_def by (metis part_ok.simps(1) option.exhaust)

lemma parts_ok_world:
  "parts_ok ce s \<Longrightarrow> alive w = alive (ss_world s) \<Longrightarrow> parts_ok ce (s\<lparr>ss_world := w\<rparr>)"
  by (simp add: parts_ok_def)

lemma alive_new: "alive (new_session sid w) = (alive w)(sid := True)"
  by (simp add: alive_def new_session_def uget_uput fun_eq_iff)

lemma alive_drop: "alive (drop_session sid w) = (alive w)(sid := False)"
  by (simp add: alive_def drop_session_def uget_udel fun_eq_iff)

lemma sessions_onSessionClosed: "sessions (onSessionClosed sid w) = sessions w"
  by (simp add: onSessionClosed_def)

lemma parts_ok_step:
  assumes m: "uget m = map_of (dispatcher_routes P)" and ok: "parts_ok ce s" and "secure_step m ce s s'"
  shows "parts_ok ce s' \<and> (server_step m)\<^sup>*\<^sup>* (ss_world s) (ss_world s')"
  using assms(3)
proof cases
  case (Accept_session sid)
  then have "(server_step m)\<^sup>*\<^sup>* (ss_world s) (ss_world s')"
    by (auto simp: accept_session_def intro: server_step.Connect)
  moreover have "parts_ok ce s'"
    using ok unfolding Accept_session(1) by (simp add: parts_ok_def accept_session_def alive_new)
  ultimately show ?thesis by simp
next
  case (Callback sid ch ch')
  note ch = parts_okD [OF ok Callback(2)]
  have r: "(chan_step ce)\<^sup>*\<^sup>* new_chan ch'" using ch(2) Callback(3) by (rule rtranclp.rtrancl_into_rtrancl)
  have "dispatched ch' = dispatched ch @ posted ch ch'"
    using posted_grows [OF _ Callback(3)] reach_cases [OF ch(2)] by fastforce
  then have "suffix (ss_biz s sid @ posted ch ch') (dispatched ch')" using ch(3) by (auto simp: suffix_def)
  moreover have al: "alive (ss_world s') = alive (ss_world s)"
    unfolding Callback(1) by (rule alive_cong) (simp add: run_callback_def sessions_onSessionClosed)
  ultimately have "parts_ok ce s'"
    using ok r ch(1) unfolding parts_ok_def al by (simp add: Callback(1) run_callback_def)
  moreover have "(server_step m)\<^sup>*\<^sup>* (ss_world s) (ss_world s')"
    using ch(1) by (simp add: Callback(1) run_callback_def) (blast intro: server_step.Closed)
  ultimately show ?thesis by simp
next
  case (Biz_packet sid e clk)
  obtain t p rest where q: "ss_biz s sid = (t, p) # rest" using Biz_packet(2) by (metis list.exhaust surj_pair)
  obtain ch where c: "ss_chans s sid = Some ch" by (rule parts_ok_waiting [OF ok Biz_packet(2)])
  note ch = parts_okD [OF ok c]
  have s': "s' = s\<lparr>ss_biz := (ss_biz s)(sid := rest),
      ss_world := dispatchPacket m e clk sid t p (ss_world s)\<rparr>" (is "_ = ?s")
    by (simp add: Biz_packet(1) run_packet_def q)
  have "suffix rest (dispatched ch)" using ch(3) unfolding q by (rule suffix_ConsD)
  then have "parts_ok ce s'"
    using ok ch c packet_alive [OF m ch(1)] unfolding s' parts_ok_def by simp
  moreover have "server_step m (ss_world s) (ss_world s')"
    unfolding s' using server_step.Packet [OF ch(1)] by simp
  ultimately show ?thesis by blast
next
  case (Background w)
  have "alive w = alive (ss_world s)" by (rule alive_cong) (rule background_sessions [OF Background(2)])
  then show ?thesis
    unfolding Background(1) using parts_ok_world [OF ok] background_step [OF Background(2), of m]
    by (auto intro: r_into_rtranclp)
next
  case (End_session sid)
  then have "parts_ok ce s'" using ok by (simp add: parts_ok_def end_session_def alive_drop)
  then show ?thesis using End_session by (auto simp: end_session_def intro: server_step.Gone)
qed

lemma parts_ok_start: "secure_start s \<Longrightarrow> parts_ok ce s"
  by (simp add: secure_start_def parts_ok_def)

text \<open>The shared state of the composition runs as the server alone does, each connection as it does alone.\<close>

lemma secure_refines:
  assumes m: "uget m = map_of (dispatcher_routes P)" and "parts_ok ce s" and "(secure_step m ce)\<^sup>*\<^sup>* s s'"
  shows "parts_ok ce s' \<and> (server_step m)\<^sup>*\<^sup>* (ss_world s) (ss_world s')"
  using assms(3)
proof (induction rule: rtranclp_induct)
  case (step a b)
  then show ?case using parts_ok_step [OF m _ step.hyps(2)] by (meson rtranclp_trans)
qed (simp add: assms(2))

subsection \<open>Where a login came from\<close>

lemma userId_new: "userId (new_session sid w) = (userId w)(sid := 0)"
  by (simp add: userId_def sess_of_def new_session_def uget_uput fresh_sess_def fun_eq_iff)

lemma userId_drop: "userId (drop_session sid w) = (userId w)(sid := 0)"
  by (simp add: userId_def sess_of_def drop_session_def uget_udel fresh_sess_def fun_eq_iff)

text \<open>
  The step that logs a session in: it runs the next packet of the session, which opened over its
  connection and carries the evidence.
\<close>

definition login_step :: "parsers \<Rightarrow> routes \<Rightarrow> chan_env \<Rightarrow> nat \<Rightarrow> int \<Rightarrow> secured \<Rightarrow> secured \<Rightarrow> bool" where
  "login_step P m ce sid u a b \<longleftrightarrow> (\<exists>e clk t p rest ch. ss_chans a sid = Some ch \<and>
     ss_biz a sid = (t, p) # rest \<and> opened_over ce ch t p \<and> login_evidence P e t p (ss_world a) u \<and>
     b = run_packet m e clk sid a)"

lemma user_changes:
  assumes m: "uget m = map_of (dispatcher_routes P)" and ok: "parts_ok ce s" and "secure_step m ce s s'"
    and u: "userId (ss_world s') sid \<noteq> userId (ss_world s) sid" "0 < userId (ss_world s') sid"
  shows "login_step P m ce sid (userId (ss_world s') sid) s s'"
  using assms(3)
proof cases
  case (Accept_session k)
  have "userId (ss_world s') = (userId (ss_world s))(k := 0)"
    unfolding Accept_session(1) by (simp add: accept_session_def userId_new)
  then show ?thesis using u by (simp split: if_splits)
next
  case (Callback k ch ch')
  have "userId (ss_world s') = userId (ss_world s)"
    unfolding Callback(1) by (rule userId_cong) (simp add: run_callback_def sessions_onSessionClosed)
  then show ?thesis using u(1) by simp
next
  case (Biz_packet k e clk)
  obtain t p rest where q: "ss_biz s k = (t, p) # rest" using Biz_packet(2) by (metis list.exhaust surj_pair)
  obtain ch where c: "ss_chans s k = Some ch" by (rule parts_ok_waiting [OF ok Biz_packet(2)])
  have "(t, p) \<in> set (dispatched ch)" using parts_okD(3) [OF ok c] unfolding q by (auto simp: suffix_def)
  then have o: "opened_over ce ch t p" using dispatched_opened [OF parts_okD(2) [OF ok c]] by blast
  have w: "ss_world s' = dispatchPacket m e clk k t p (ss_world s)" by (simp add: Biz_packet(1) run_packet_def q)
  from packet_identity [OF m w u(1)] have "sid = k" "login_evidence P e t p (ss_world s) (userId (ss_world s') sid)"
    by simp_all
  then show ?thesis unfolding login_step_def using c q o Biz_packet(1) by blast
next
  case (Background w)
  have "userId (ss_world s') = userId (ss_world s)"
    unfolding Background(1) using userId_cong [OF background_sessions [OF Background(2)]] by simp
  then show ?thesis using u(1) by simp
next
  case (End_session k)
  have "userId (ss_world s') = (userId (ss_world s))(k := 0)"
    unfolding End_session(1) by (simp add: end_session_def userId_drop)
  then show ?thesis using u by (simp split: if_splits)
qed

lemma login_history:
  assumes m: "uget m = map_of (dispatcher_routes P)" and st: "secure_start s0"
    and "(secure_step m ce)\<^sup>*\<^sup>* s0 s" and "0 < u" and "userId (ss_world s) sid = u"
  shows "\<exists>a b. (secure_step m ce)\<^sup>*\<^sup>* s0 a \<and> login_step P m ce sid u a b \<and>
    (\<lambda>x y. secure_step m ce x y \<and> userId (ss_world y) sid = u)\<^sup>*\<^sup>* b s"
  using assms(3,5)
proof (induction rule: rtranclp_induct)
  case base
  have "\<not> alive (ss_world s0) sid" using st by (simp add: secure_start_def)
  then have "userId (ss_world s0) sid = 0"
    by (simp add: alive_def userId_def sess_of_def fresh_sess_def)
  then show ?case using base \<open>0 < u\<close> by simp
next
  case (step a b)
  show ?case
  proof (cases "userId (ss_world a) sid = u")
    case True
    then obtain c d where cd: "(secure_step m ce)\<^sup>*\<^sup>* s0 c" "login_step P m ce sid u c d"
        "(\<lambda>x y. secure_step m ce x y \<and> userId (ss_world y) sid = u)\<^sup>*\<^sup>* d a"
      using step.IH by blast
    have "secure_step m ce a b \<and> userId (ss_world b) sid = u" using step.hyps(2) step.prems by simp
    with cd(3) have "(\<lambda>x y. secure_step m ce x y \<and> userId (ss_world y) sid = u)\<^sup>*\<^sup>* d b"
      by (rule rtranclp.rtrancl_into_rtrancl)
    then show ?thesis using cd(1,2) by blast
  next
    case False
    have "parts_ok ce a" using secure_refines [OF m parts_ok_start [OF st] step.hyps(1)] by simp
    from user_changes [OF m this step.hyps(2), of sid] False step.prems \<open>0 < u\<close>
    have "login_step P m ce sid u a b" by simp
    then show ?thesis using step.hyps(1) by blast
  qed
qed

text \<open>
  C1. Who is delivered to as user \<open>u\<close> proved to be \<open>u\<close> over its own secure channel: in every state the
  server and its connections reach together from a start without connections, the session that user
  \<open>u\<close> is found at has a connection, and it was logged in by a packet that the connection had
  opened out of an authentic frame while the channel was established, with the right password or a
  valid token of \<open>u\<close> against the file of that moment; and it has been \<open>u\<close> ever since.
\<close>

theorem delivered_to_proven_users:
  assumes "new_dispatcher P = Returns m" and "secure_start s0" and "(secure_step m ce)\<^sup>*\<^sup>* s0 s"
    and "0 < u" and "located (ss_world s) u = Some sid"
  shows "\<exists>a b ch. ss_chans s sid = Some ch \<and> (secure_step m ce)\<^sup>*\<^sup>* s0 a \<and> login_step P m ce sid u a b \<and>
    (\<lambda>x y. secure_step m ce x y \<and> userId (ss_world y) sid = u)\<^sup>*\<^sup>* b s"
proof -
  have m: "uget m = map_of (dispatcher_routes P)" using new_dispatcher_table [of P] assms(1) by simp
  note parts = secure_refines [OF m parts_ok_start [OF assms(2)] assms(3)]
  have "(server_step m)\<^sup>*\<^sup>* (ss_world s0) (ss_world s)" using parts by simp
  then have "world_ok (ss_world s)"
    using assms(2) unfolding secure_start_def
    by (induction rule: rtranclp_induct) (auto intro: world_ok_step [OF m])
  then have u: "userId (ss_world s) sid = u" using assms(4,5) by (simp add: world_ok_def)
  have "alive (ss_world s) sid"
    using assms(5) by (auto simp: located_def pres_get_def pres_lock_def split: option.splits if_splits)
  then obtain ch where "ss_chans s sid = Some ch"
    using parts unfolding parts_ok_def by (metis part_ok.simps(1) option.exhaust)
  then show ?thesis using login_history [OF m assms(2,3,4) u] by blast
qed

subsection \<open>A run\<close>

lemma lift_callbacks:
  assumes "(chan_step ce)\<^sup>*\<^sup>* new_chan ch" and "ch_state ch \<noteq> Closed" and "dispatched ch = []"
    and "ss_chans s sid = Some new_chan" and "ss_biz s sid = []"
  shows "(secure_step m ce)\<^sup>*\<^sup>* s (s\<lparr>ss_chans := (ss_chans s)(sid := Some ch)\<rparr>)"
  using assms(1-3)
proof (induction rule: rtranclp_induct)
  case base
  have "(ss_chans s)(sid := Some new_chan) = ss_chans s" using assms(4) by auto
  then show ?case by simp
next
  case (step a b)
  let ?s = "\<lambda>c. s\<lparr>ss_chans := (ss_chans s)(sid := Some c)\<rparr>"
  have inv: "chan_inv b" "a = new_chan \<or> chan_inv a"
    using reach_cases [OF step.hyps(1)] new_chan_step [of ce b] step.hyps(2) chan_inv_tls chan_inv_step by blast+
  have ca: "closings new_chan = 0" "ch_state new_chan \<noteq> Closed" by (simp_all add: closings_def new_chan_def)
  have st: "ch_state a \<noteq> Closed"
  proof (cases "a = new_chan")
    case False
    then have "\<not> ch_tls a" using inv(2) by (simp add: chan_inv_def)
    with step.hyps(2) show ?thesis
      by (cases rule: step_cases) (use step.prems(1) in \<open>auto simp: calm_def\<close>)
  qed (simp add: ca)
  have d: "dispatched a = []" using posted_grows [OF _ step.hyps(2)] inv(2) step.prems(2) by auto
  have "closings a = 0" "closings b = 0"
    using inv st step.prems(1) ca by (auto simp: chan_inv_def)
  then have "run_callback sid a b (?s a) = ?s b"
    using d step.prems(2) by (simp add: run_callback_def posted_def assms(5) fun_upd_idem)
  moreover have "secure_step m ce (?s a) (run_callback sid a b (?s a))"
    by (rule secure_step.Callback [OF _ step.hyps(2)]) simp
  ultimately show ?case using step.IH [OF st d] by (metis rtranclp.rtrancl_into_rtrancl)
qed

definition sample_start :: secured where
  "sample_start = \<lparr>ss_chans = Map.empty, ss_biz = (\<lambda>_. []),
     ss_world = sample_world\<lparr>sessions := [], online := []\<rparr>\<rparr>"

lemma sample_secure_start: "secure_start sample_start"
  using sample_world_ok
  by (auto simp: secure_start_def sample_start_def world_ok_def alive_def located_def pres_get_def ovalid_def oget_def uget_def)

text \<open>User 7 connects, opens its channel, and sends its access token.\<close>

lemma sample_located:
  assumes "alive w 1" and "ovalid (online w)"
  shows "located (activateSession (sample_env 5) 1 7 (deliver 1 a (bindAuth 1 7 x y z w))) 7 = Some 1"
proof -
  let ?w = "deliver 1 a (bindAuth 1 7 x y z w)"
  have al: "alive ?w 1" using assms(1) by (simp add: alive_bindAuth)
  have "located (activateSession (sample_env 5) 1 7 ?w) =
      located (?w\<lparr>online := snd (pres_replace (alive ?w) 7 1 (now (sample_env 5)) (online ?w))\<rparr>)"
    by (rule effect_same(6) [OF effect_activate])
  then show ?thesis
    using al assms(2) by (simp add: located_def alive_upd pres_replace_def pres_get_oput pres_lock_def)
qed

lemma sample_login_run:
  assumes "new_dispatcher sample_parsers = Returns m"
  shows "\<exists>s. (secure_step m sample_chan_env)\<^sup>*\<^sup>* sample_start s \<and> located (ss_world s) 7 = Some 1"
proof -
  have t: "\<not> (DEF_PROT_APP_CLIENT_HELLO \<le> DEF_PROT_TOKEN_LOGIN_RQ \<and> DEF_PROT_TOKEN_LOGIN_RQ \<le> DEF_PROT_APP_ENCRYPTED_FRAME)"
    by (simp add: prot_defs)
  obtain ch ch' where ch: "(chan_step sample_chan_env)\<^sup>*\<^sup>* new_chan ch" "chan_step sample_chan_env ch ch'"
    "dispatched ch = []" "ch_state ch' = Established" "dispatched ch' = [(DEF_PROT_TOKEN_LOGIN_RQ, [])]"
    by (rule sample_opens [OF t])
  have "ch_state ch = Established" using posted_grows [OF _ ch(2)] reach_cases [OF ch(1)] ch(3,5) by auto
  moreover have "closings ch' = 0"
    using reach_cases [OF rtranclp.rtrancl_into_rtrancl [OF ch(1,2)]] ch(4)
    by (auto simp: chan_inv_def new_chan_def split: if_splits)
  ultimately have c: "ch_state ch \<noteq> Closed" "closings ch' = 0" by simp_all
  let ?s1 = "accept_session 1 sample_start"
  let ?s2 = "?s1\<lparr>ss_chans := (ss_chans ?s1)(1 := Some ch)\<rparr>"
  let ?s3 = "run_callback 1 ch ch' ?s2" and ?w = "new_session 1 (ss_world sample_start)"
  have 1: "secure_step m sample_chan_env sample_start ?s1"
    by (rule secure_step.Accept_session) (simp add: sample_start_def fresh_id_def alive_def uget_def sample_world_def)
  have 2: "(secure_step m sample_chan_env)\<^sup>*\<^sup>* ?s1 ?s2"
    by (rule lift_callbacks [OF ch(1) c(1) ch(3)]) (simp_all add: accept_session_def)
  have 3: "secure_step m sample_chan_env ?s2 ?s3" by (rule secure_step.Callback [OF _ ch(2)]) simp
  have q: "ss_biz ?s3 1 = [(DEF_PROT_TOKEN_LOGIN_RQ, [])]" "ss_world ?s3 = ?w"
    using c(2) ch(3,5) by (simp_all add: run_callback_def posted_def accept_session_def)
  let ?s4 = "run_packet m (sample_env 5) 0 1 ?s3"
  have 4: "secure_step m sample_chan_env ?s3 ?s4" by (rule secure_step.Biz_packet) (simp only: q, simp)
  have w: "db ?w = db sample_world" "userId ?w 1 = 0" "alive ?w 1" "ovalid (online ?w)"
    by (simp_all add: userId_new alive_new) (simp_all add: new_session_def sample_start_def ovalid_def)
  have "located (ss_world ?s4) 7 = Some 1"
    using sample_token_login [OF assms w(1,2)] sample_located [OF w(3,4)] by (simp only: run_packet_def q list.case prod.case) simp
  moreover have "(secure_step m sample_chan_env)\<^sup>*\<^sup>* sample_start ?s4"
    using 1 2 3 4 by (meson converse_rtranclp_into_rtranclp rtranclp.rtrancl_into_rtrancl)
  ultimately show ?thesis by blast
qed

theorem delivered_to_proven_users_witness:
  "\<exists>m s a b. new_dispatcher sample_parsers = Returns m \<and>
     (secure_step m sample_chan_env)\<^sup>*\<^sup>* sample_start s \<and> located (ss_world s) 7 = Some 1 \<and>
     login_step sample_parsers m sample_chan_env 1 7 a b"
proof -
  obtain m where m: "new_dispatcher sample_parsers = Returns m"
    using new_dispatcher_table [of sample_parsers] by blast
  obtain s where s: "(secure_step m sample_chan_env)\<^sup>*\<^sup>* sample_start s" "located (ss_world s) 7 = Some 1"
    using sample_login_run [OF m] by blast
  show ?thesis
    using delivered_to_proven_users [OF m sample_secure_start s(1) _ s(2)] m s by auto
qed

end
