(* ===== verification/DbOpen.thy ===== *)
theory DbOpen
  imports DbWriteQueue
begin

text \<open>
  \<open>Database::open\<close>, \<open>acquire\<close> and the destructor: the pool of reading connections, the schema with its
  indexes, the columns that older files lack, the version with its migration, and the start of the
  write queue. A file has, beside its rows, the columns of every table and the indexes by name.
\<close>

subsection \<open>The schema of a file\<close>

record dbfile =
  f_tables :: "string \<Rightarrow> string list option"
  f_indexes :: "string \<Rightarrow> (bool \<times> string \<times> string list) option"
  f_data :: dbconn

definition fresh_file :: dbfile where
  "fresh_file = \<lparr>f_tables = (\<lambda>_. None), f_indexes = (\<lambda>_. None),
     f_data = \<lparr>disk = empty_tables, txn = None\<rparr>\<rparr>"

text \<open>The statements of \<open>open\<close>; an index is unique or not.\<close>

datatype ddl =
    Create_table string "string list"
  | Create_index bool string string "string list"
  | Add_column string string string
  | Drop_index string

text \<open>The one unique index that is not part of a table covers conversation and number.\<close>

definition rows_unique :: "string \<Rightarrow> string list \<Rightarrow> tables \<Rightarrow> bool" where
  "rows_unique tbl cols t =
     (if tbl = ''messages'' \<and> cols = [''conversation_id'', ''seq'']
      then distinct (map (\<lambda>r. (conversation_id r, mseq (row_msg r))) (messages t)) else True)"

text \<open>What \<open>ALTER TABLE\<close> gives the rows that exist: the default of the new column.\<close>

definition fill_column :: "string \<Rightarrow> string \<Rightarrow> string \<Rightarrow> tables \<Rightarrow> tables" where
  "fill_column tbl col v t =
     (if tbl = ''t_user'' \<and> col = ''password_algo''
      then t\<lparr>users := map (\<lambda>u. u\<lparr>u_algo := v\<rparr>) (users t)\<rparr>
      else if tbl = ''messages'' \<and> col = ''content_type''
      then t\<lparr>messages := map (\<lambda>r. r\<lparr>row_msg := (row_msg r)\<lparr>contentType := v\<rparr>\<rparr>) (messages t)\<rparr>
      else if tbl = ''messages'' \<and> col = ''sha256''
      then t\<lparr>messages := map (\<lambda>r. r\<lparr>row_msg := (row_msg r)\<lparr>sha256 := v\<rparr>\<rparr>) (messages t)\<rparr>
      else t)"

fun apply_ddl :: "ddl \<Rightarrow> dbfile \<Rightarrow> dbfile option" where
  "apply_ddl (Create_table tbl cols) f =
     (case f_tables f tbl of
        Some _ \<Rightarrow> Some f
      | None \<Rightarrow> Some (f\<lparr>f_tables := (f_tables f)(tbl \<mapsto> cols)\<rparr>))"
| "apply_ddl (Create_index unique name tbl cols) f =
     (case f_indexes f name of
        Some _ \<Rightarrow> Some f
      | None \<Rightarrow>
          (case f_tables f tbl of
             None \<Rightarrow> None
           | Some cs \<Rightarrow>
               if \<not> set cols \<subseteq> set cs then None
               else if unique \<and> \<not> rows_unique tbl cols (current (f_data f)) then None
               else Some (f\<lparr>f_indexes := (f_indexes f)(name \<mapsto> (unique, tbl, cols))\<rparr>)))"
| "apply_ddl (Add_column tbl col v) f =
     (case f_tables f tbl of
        None \<Rightarrow> None
      | Some cs \<Rightarrow>
          if col \<in> set cs then None
          else Some (f\<lparr>f_tables := (f_tables f)(tbl \<mapsto> cs @ [col]),
                       f_data := put_tables (fill_column tbl col v (current (f_data f))) (f_data f)\<rparr>))"
| "apply_ddl (Drop_index name) f = Some (f\<lparr>f_indexes := (f_indexes f)(name := None)\<rparr>)"

text \<open>
  \<open>execOn\<close> runs a text of several statements: \<open>sqlite3_exec\<close> stops at the first one that fails,
  and those before it stay. \<open>fl k\<close>: the statement fails for a reason of its own.
\<close>

fun execOn :: "(ddl \<Rightarrow> bool) \<Rightarrow> ddl list \<Rightarrow> dbfile \<Rightarrow> bool \<times> dbfile" where
  "execOn fl [] f = (True, f)"
| "execOn fl (d # ds) f =
     (if fl d then (False, f)
      else case apply_ddl d f of None \<Rightarrow> (False, f) | Some f' \<Rightarrow> execOn fl ds f')"

definition schema :: "ddl list" where
  "schema =
    [Create_table ''t_user''
       [''id'', ''name'', ''tel'', ''passwd'', ''salt'', ''password_algo'', ''feeling'', ''iconid''],
     Create_table ''t_friend'' [''idA'', ''idB''],
     Create_index False ''idx_friend_idB'' ''t_friend'' [''idB''],
     Create_table ''friend_requests''
       [''requester_id'', ''target_id'', ''status'', ''created_at'', ''updated_at''],
     Create_index False ''idx_friend_request_target_status'' ''friend_requests''
       [''target_id'', ''status'', ''created_at''],
     Create_index False ''idx_friend_request_sender_status'' ''friend_requests''
       [''requester_id'', ''status'', ''created_at''],
     Create_table ''messages''
       [''id'', ''msg_id'', ''conversation_id'', ''sender_id'', ''receiver_id'', ''type'', ''content'',
        ''media_path'', ''img_w'', ''img_h'', ''ts'', ''is_delivered'', ''is_read'', ''seq'', ''file_id'',
        ''file_size'', ''content_type'', ''sha256''],
     Create_index False ''idx_msg_conv_ts'' ''messages'' [''conversation_id'', ''ts''],
     Create_index True ''idx_msg_conv_seq_unique'' ''messages'' [''conversation_id'', ''seq''],
     Create_index False ''idx_msg_sender'' ''messages'' [''sender_id''],
     Create_table ''auth_sessions''
       [''id'', ''session_id'', ''family_id'', ''user_id'', ''device_id'', ''access_hash'',
        ''access_expires_at'', ''refresh_hash'', ''refresh_expires_at'', ''generation'', ''revoked'',
        ''created_at'', ''last_used_at''],
     Create_index False ''idx_auth_user_device'' ''auth_sessions'' [''user_id'', ''device_id''],
     Create_index False ''idx_auth_family'' ''auth_sessions'' [''family_id''],
     Create_table ''auth_refresh_history''
       [''id'', ''family_id'', ''token_hash'', ''generation'', ''used_at''],
     Create_index False ''idx_refresh_family'' ''auth_refresh_history'' [''family_id''],
     Create_index False ''idx_msg_file_id'' ''messages'' [''file_id'']]"

text \<open>The five statements whose result is not looked at, and the index that must succeed.\<close>

definition upgrades :: "ddl list" where
  "upgrades =
    [Add_column ''t_user'' ''password_algo'' ''legacy_sha256'',
     Add_column ''messages'' ''content_type'' [],
     Add_column ''messages'' ''sha256'' [],
     Drop_index ''idx_msg_conv_seq'',
     Drop_index ''idx_msg_recv'']"

definition delivery_index :: ddl where
  "delivery_index =
     Create_index False ''idx_msg_recv_delivery'' ''messages''
       [''receiver_id'', ''is_delivered'', ''ts'', ''id'']"

definition ignoring :: "(ddl \<Rightarrow> bool) \<Rightarrow> ddl list \<Rightarrow> dbfile \<Rightarrow> dbfile" where
  "ignoring fl ds f = foldl (\<lambda>g d. snd (execOn fl [d] g)) f ds"

subsection \<open>The object\<close>

text \<open>
  \<open>db_pool\<close>: how many connections the pool has; \<open>db_leaked\<close>: handles of \<open>sqlite3_open\<close> that failed
  and are never closed; \<open>m_next\<close> wraps.
\<close>

record database =
  db_pool :: nat
  db_leaked :: nat
  m_next :: "64 word"
  db_file :: dbfile
  m_writeQueue :: "(dbconn, unit) wqueue"

definition new_Database :: "dbfile \<Rightarrow> database" where
  "new_Database f = \<lparr>db_pool = 0, db_leaked = 0, m_next = 0, db_file = f, m_writeQueue = new_wqueue\<rparr>"

text \<open>What the environment answers: each connection, each statement, the version and the queue.\<close>

record open_env =
  oe_connect :: "nat \<Rightarrow> bool"
  oe_fails :: "ddl \<Rightarrow> bool"
  oe_sql :: sqlenv
  oe_queue :: wq_env

text \<open>The loop over the connections \<open>i\<close>, \<open>i + 1\<close>, \<dots>; the three pragmas are not checked.\<close>

fun open_pool :: "open_env \<Rightarrow> nat \<Rightarrow> nat \<Rightarrow> database \<Rightarrow> bool \<times> database" where
  "open_pool e i 0 d = (True, d)"
| "open_pool e i (Suc n) d =
     (if \<not> oe_connect e i then (False, d\<lparr>db_leaked := db_leaked d + 1\<rparr>)
      else open_pool e (i + 1) n (d\<lparr>db_pool := db_pool d + 1\<rparr>))"

definition open_file :: "open_env \<Rightarrow> dbfile \<Rightarrow> bool \<times> dbfile" where
  "open_file e f =
     (let (schemaOk, f1) = execOn (oe_fails e) schema f
      in if \<not> schemaOk then (False, f1)
         else let f2 = ignoring (oe_fails e) upgrades f1;
                  (indexOk, f3) = execOn (oe_fails e) [delivery_index] f2
              in if \<not> indexOk then (False, f3)
                 else let (ok, c) = open_version (oe_sql e) (f_data f3) in (ok, f3\<lparr>f_data := c\<rparr>))"

definition open_database :: "open_env \<Rightarrow> int \<Rightarrow> database \<Rightarrow> bool exc \<times> database" where
  "open_database e poolSize d =
     (if db_pool d \<noteq> 0 then (Returns True, d)
      else let (ok, d1) = open_pool e 0 (if poolSize < 1 then 1 else nat poolSize) d
           in if \<not> ok then (Returns False, d1)
              else let (ok2, f) = open_file e (db_file d1);
                       d2 = d1\<lparr>db_file := f\<rparr>
                   in if \<not> ok2 then (Returns False, d2)
                      else let (r, q) = wq_open (oe_queue e) (f_data f) (m_writeQueue d2)
                           in (r, d2\<lparr>m_writeQueue := q\<rparr>))"

text \<open>\<open>acquire\<close>: the index of the connection; an empty pool divides by zero.\<close>

definition acquire :: "database \<Rightarrow> nat option \<times> database" where
  "acquire d =
     (if db_pool d = 0 then None else Some (unat (m_next d) mod db_pool d), d\<lparr>m_next := m_next d + 1\<rparr>)"

text \<open>The destructor closes the connections of the pool; then the queue's destructor runs.\<close>

definition destroy_database :: "database \<Rightarrow> database" where
  "destroy_database d =
     d\<lparr>db_pool := 0, m_writeQueue := snd (wq_close (wq_stop (m_writeQueue d)))\<rparr>"

subsection \<open>The schema is complete after \<open>open\<close>\<close>

text \<open>What a statement leaves behind for good.\<close>

fun ddl_done :: "ddl \<Rightarrow> dbfile \<Rightarrow> bool" where
  "ddl_done (Create_table tbl cols) f = (f_tables f tbl \<noteq> None)"
| "ddl_done (Create_index unique name tbl cols) f = (f_indexes f name \<noteq> None)"
| "ddl_done (Add_column tbl col v) f = (\<exists>cs. f_tables f tbl = Some cs \<and> col \<in> set cs)"
| "ddl_done (Drop_index name) f = (f_indexes f name = None)"

text \<open>An index that is created and one of the same name that is dropped undo each other.\<close>

fun ddl_apart :: "ddl \<Rightarrow> ddl \<Rightarrow> bool" where
  "ddl_apart (Create_index _ n _ _) (Drop_index m) = (n \<noteq> m)"
| "ddl_apart (Drop_index n) (Create_index _ m _ _) = (n \<noteq> m)"
| "ddl_apart _ _ = True"

lemma apply_ddl_done: "apply_ddl d f = Some f' \<Longrightarrow> ddl_done d f'"
  by (cases d) (auto split: option.splits if_splits)

lemma apply_ddl_again: "ddl_done d f \<Longrightarrow> apply_ddl d f = None \<or> apply_ddl d f = Some f"
  by (cases d) (auto simp: fun_upd_idem split: option.split)

lemma apply_ddl_tables:
  "apply_ddl d f = Some f' \<Longrightarrow> f_tables f t = Some cs \<Longrightarrow>
     \<exists>cs'. f_tables f' t = Some cs' \<and> set cs \<subseteq> set cs'"
  by (cases d) (auto split: option.splits if_splits)

lemma apply_ddl_keeps:
  assumes a: "apply_ddl d f = Some f'" and k: "ddl_done k f" "ddl_apart k d"
  shows "ddl_done k f'"
proof (cases k)
  case (Create_table t cols)
  then show ?thesis using k apply_ddl_tables [OF a, of t] by auto
next
  case (Add_column t col v)
  then show ?thesis using k apply_ddl_tables [OF a, of t] by fastforce
next
  case (Create_index u n t cols)
  then show ?thesis using a k by (cases d) (auto split: option.splits if_splits)
next
  case (Drop_index n)
  then show ?thesis using a k by (cases d) (auto split: option.splits if_splits)
qed

lemma execOn_keeps:
  "ddl_done k f \<Longrightarrow> list_all (ddl_apart k) ds \<Longrightarrow> ddl_done k (snd (execOn fl ds f))"
  by (induction fl ds f rule: execOn.induct) (auto split: option.split dest: apply_ddl_keeps)

lemma execOn_done:
  assumes "execOn fl ds f = (True, f')" "k \<in> set ds" "list_all (ddl_apart k) ds"
  shows "ddl_done k f'"
  using assms
proof (induction fl ds f rule: execOn.induct)
  case (2 fl d ds f)
  then obtain g where g: "apply_ddl d f = Some g" "execOn fl ds g = (True, f')" "\<not> fl d"
    by (auto split: if_splits option.splits)
  show ?case
  proof (cases "k \<in> set ds")
    case True
    then show ?thesis using 2 g by simp
  next
    case False
    then have "ddl_done k g" using apply_ddl_done g(1) 2(3) by auto
    then show ?thesis using execOn_keeps [of k g ds fl] g(2) 2(4) by simp
  qed
qed simp

text \<open>A text of statements that are all done changes nothing, whichever of them fail.\<close>

lemma execOn_idle: "\<forall>d \<in> set ds. ddl_done d f \<Longrightarrow> snd (execOn fl ds f) = f"
proof (induction ds)
  case (Cons d ds)
  then show ?case using apply_ddl_again [of d f] by (auto split: option.split)
qed simp

lemma ignoring_keeps:
  "ddl_done k f \<Longrightarrow> list_all (ddl_apart k) ds \<Longrightarrow> ddl_done k (ignoring fl ds f)"
  unfolding ignoring_def
proof (induction ds arbitrary: f)
  case (Cons d ds)
  then show ?case using execOn_keeps [of k f "[d]" fl] by simp
qed simp

lemma ignoring_idle: "\<forall>d \<in> set ds. ddl_done d f \<Longrightarrow> ignoring fl ds f = f"
  unfolding ignoring_def
proof (induction ds)
  case (Cons d ds)
  then show ?case using execOn_idle [of "[d]" f fl] by simp
qed simp

subsection \<open>What happens to the rows\<close>

text \<open>The rows without what an upgrade may set.\<close>

definition blank :: "tables \<Rightarrow> tables" where
  "blank t = t\<lparr>users := map (\<lambda>u. u\<lparr>u_algo := []\<rparr>) (users t),
     messages := map (\<lambda>r. r\<lparr>conversation_id := 0,
       row_msg := (row_msg r)\<lparr>contentType := [], sha256 := []\<rparr>\<rparr>) (messages t),
     user_version := 0\<rparr>"

lemma blank_fill: "blank (fill_column tbl col v t) = blank t"
  by (simp add: blank_def fill_column_def o_def)

text \<open>The file after a statement: the same rows but for what is blank, and no transaction.\<close>

definition same_rows :: "dbfile \<Rightarrow> dbfile \<Rightarrow> bool" where
  "same_rows f f' \<longleftrightarrow> txn (f_data f') = None \<and> blank (disk (f_data f')) = blank (disk (f_data f))"

lemma same_rows_trans: "same_rows f g \<Longrightarrow> same_rows g h \<Longrightarrow> same_rows f h"
  by (simp add: same_rows_def)

lemma same_rows_apply: "txn (f_data f) = None \<Longrightarrow> apply_ddl d f = Some f' \<Longrightarrow> same_rows f f'"
  by (cases d) (auto simp: same_rows_def blank_fill put_tables_def split: option.splits if_splits)

lemma same_rows_exec: "txn (f_data f) = None \<Longrightarrow> same_rows f (snd (execOn fl ds f))"
proof (induction fl ds f rule: execOn.induct)
  case (1 fl f)
  then show ?case by (simp add: same_rows_def)
next
  case (2 fl d ds f)
  show ?case
  proof (cases "fl d \<or> apply_ddl d f = None")
    case True
    then show ?thesis using 2(2) by (auto simp: same_rows_def)
  next
    case False
    then obtain g where g: "apply_ddl d f = Some g" "\<not> fl d" by auto
    have fg: "same_rows f g" by (rule same_rows_apply [OF 2(2) g(1)])
    then have "same_rows g (snd (execOn fl ds g))" using 2(1) [of g] g by (simp add: same_rows_def)
    then show ?thesis using same_rows_trans [OF fg] g by simp
  qed
qed

lemma same_rows_ignoring: "txn (f_data f) = None \<Longrightarrow> same_rows f (ignoring fl ds f)"
  unfolding ignoring_def
proof (induction ds arbitrary: f)
  case Nil
  then show ?case by (simp add: same_rows_def)
next
  case (Cons d ds)
  have a: "same_rows f (snd (execOn fl [d] f))" by (rule same_rows_exec) (rule Cons.prems)
  then have "same_rows (snd (execOn fl [d] f)) (foldl (\<lambda>g d. snd (execOn fl [d] g)) (snd (execOn fl [d] f)) ds)"
    by (intro Cons.IH) (simp add: same_rows_def)
  then show ?case using same_rows_trans [OF a] by (simp del: execOn.simps)
qed

lemma version_rows:
  assumes "txn c = None" and "open_version e c = (ok, c')"
  shows "txn c' = None" "blank (disk c') = blank (disk c)"
    "ok \<Longrightarrow> 1 \<le> user_version (disk c')" "1 \<le> user_version (disk c) \<Longrightarrow> c' = c"
proof -
  have m: "txn c' = None \<and> blank (disk c') = blank (disk c) \<and> (ok \<longrightarrow> user_version (disk c') = 1)"
    if mig: "migrateConversationIds e c = (ok, c')"
  proof (cases ok)
    case True
    then obtain t where t: "migrate_effect (disk c) = Some t" "c' = c\<lparr>disk := t\<rparr>"
      using migrate_outcome [of e c] mig True by auto
    then show ?thesis using assms(1)
      by (auto simp: migrate_effect_def migrate_rows_def migrate_row_def blank_def Let_def o_def
          split: if_splits)
  next
    case False
    then show ?thesis using migrate_outcome [of e c] mig assms(1) by auto
  qed
  consider "migrateConversationIds e c = (ok, c')" "user_version (disk c) < 1"
    | "c' = c" "ok \<longrightarrow> 1 \<le> user_version (disk c)"
  proof -
    have e: "open_version e c = (let v = readDatabaseVersion e c in
        if v < 0 then (False, c) else if v < 1 then migrateConversationIds e c else (True, c))"
      by (rule open_version_def)
    have v: "readDatabaseVersion e c = user_version (disk c) \<or> readDatabaseVersion e c < 0"
      by (simp add: readDatabaseVersion_def assms(1))
    show thesis
    proof (cases "readDatabaseVersion e c < 0")
      case True
      then have "(ok, c') = (False, c)" using e assms(2) by (simp add: Let_def)
      then show thesis by (intro that(2)) simp_all
    next
      case neg: False
      show thesis
      proof (cases "user_version (disk c) < 1")
        case True
        then have "migrateConversationIds e c = (ok, c')" using e assms(2) v neg by (simp add: Let_def)
        then show thesis using True by (rule that(1))
      next
        case False
        then have "(ok, c') = (True, c)" using e assms(2) v neg by (simp add: Let_def)
        then show thesis using False by (intro that(2)) simp_all
      qed
    qed
  qed
  then have "txn c' = None \<and> blank (disk c') = blank (disk c) \<and> (ok \<longrightarrow> 1 \<le> user_version (disk c')) \<and>
      (1 \<le> user_version (disk c) \<longrightarrow> c' = c)"
  proof cases
    case 1
    then show ?thesis using m [OF 1(1)] by simp
  next
    case 2
    then show ?thesis unfolding 2(1) using 2(2) assms(1) by simp
  qed
  then show "txn c' = None" "blank (disk c') = blank (disk c)" "ok \<Longrightarrow> 1 \<le> user_version (disk c')"
    "1 \<le> user_version (disk c) \<Longrightarrow> c' = c" by simp_all
qed

subsection \<open>Opening\<close>

lemma schema_apart:
  "\<forall>k \<in> insert delivery_index (set schema).
     list_all (ddl_apart k) schema \<and> list_all (ddl_apart k) upgrades \<and> ddl_apart k delivery_index"
  by (simp add: schema_def upgrades_def delivery_index_def)

definition complete_file :: "dbfile \<Rightarrow> bool" where
  "complete_file f \<longleftrightarrow>
     (\<forall>k \<in> set schema \<union> set upgrades. ddl_done k f) \<and> ddl_done delivery_index f \<and>
     1 \<le> user_version (disk (f_data f)) \<and> txn (f_data f) = None"

lemma done_data: "ddl_done k (f\<lparr>f_data := c\<rparr>) = ddl_done k f"
  by (cases k) simp_all

lemma open_file_stages:
  assumes "open_file e f = (ok, f')"
  obtains (schema) f1 where "\<not> ok" "execOn (oe_fails e) schema f = (False, f1)" "f' = f1"
    | (index) f1 where "\<not> ok" "execOn (oe_fails e) schema f = (True, f1)"
      "execOn (oe_fails e) [delivery_index] (ignoring (oe_fails e) upgrades f1) = (False, f')"
    | (version) f1 f3 c where "execOn (oe_fails e) schema f = (True, f1)"
      "execOn (oe_fails e) [delivery_index] (ignoring (oe_fails e) upgrades f1) = (True, f3)"
      "open_version (oe_sql e) (f_data f3) = (ok, c)" "f' = f3\<lparr>f_data := c\<rparr>"
  using assms unfolding open_file_def Let_def
  by (simp split: prod.splits if_splits del: execOn.simps) 

lemma open_file_rows:
  assumes t: "txn (f_data f) = None" and o: "open_file e f = (ok, f')"
  shows "same_rows f f'" "ok \<Longrightarrow> 1 \<le> user_version (disk (f_data f'))"
proof -
  define f1 where "f1 = snd (execOn (oe_fails e) schema f)"
  define f2 where "f2 = ignoring (oe_fails e) upgrades f1"
  define f3 where "f3 = snd (execOn (oe_fails e) [delivery_index] f2)"
  have a: "same_rows f f1" unfolding f1_def by (rule same_rows_exec [OF t])
  have b: "same_rows f f2" unfolding f2_def
    using same_rows_trans [OF a same_rows_ignoring] a by (simp add: same_rows_def)
  have c: "same_rows f f3" unfolding f3_def
    using same_rows_trans [OF b same_rows_exec] b by (simp add: same_rows_def del: execOn.simps)
  have "same_rows f f' \<and> (ok \<longrightarrow> 1 \<le> user_version (disk (f_data f')))"
  proof (rule open_file_stages [OF o])
    fix g assume "\<not> ok" "execOn (oe_fails e) schema f = (False, g)" "f' = g"
    then show ?thesis using a by (simp add: f1_def)
  next
    fix g assume "\<not> ok" "execOn (oe_fails e) schema f = (True, g)"
      "execOn (oe_fails e) [delivery_index] (ignoring (oe_fails e) upgrades g) = (False, f')"
    then show ?thesis using c by (simp add: f1_def f2_def f3_def del: execOn.simps)
  next
    fix g h k
    assume v: "execOn (oe_fails e) schema f = (True, g)"
      "execOn (oe_fails e) [delivery_index] (ignoring (oe_fails e) upgrades g) = (True, h)"
      "open_version (oe_sql e) (f_data h) = (ok, k)" "f' = h\<lparr>f_data := k\<rparr>"
    then have "h = f3" by (simp add: f1_def f2_def f3_def del: execOn.simps)
    then show ?thesis using version_rows [OF _ v(3)] c v(4) by (simp add: same_rows_def)
  qed
  then show "same_rows f f'" "ok \<Longrightarrow> 1 \<le> user_version (disk (f_data f'))" by auto
qed

lemma open_file_done:
  assumes o: "open_file e f = (True, f')" and k: "k \<in> insert delivery_index (set schema)"
  shows "ddl_done k f'"
proof (rule open_file_stages [OF o])
  fix g h c
  assume v: "execOn (oe_fails e) schema f = (True, g)"
    "execOn (oe_fails e) [delivery_index] (ignoring (oe_fails e) upgrades g) = (True, h)"
    "f' = h\<lparr>f_data := c\<rparr>"
  have apart: "list_all (ddl_apart k) schema" "list_all (ddl_apart k) upgrades"
      "list_all (ddl_apart k) [delivery_index]"
    using bspec [OF schema_apart k] by simp_all
  have "ddl_done k h"
  proof (cases "k = delivery_index")
    case True
    then show ?thesis using execOn_done [OF v(2), of k] apart by simp
  next
    case False
    then have "ddl_done k g" using execOn_done [OF v(1)] k apart by simp
    from execOn_keeps [OF ignoring_keeps [OF this apart(2)] apart(3), of "oe_fails e" "oe_fails e"]
    show ?thesis using v(2) by simp
  qed
  then show ?thesis using v(3) by (simp add: done_data)
qed simp_all

text \<open>A complete file is not touched, whatever fails.\<close>

lemma complete_file_idle:
  assumes "complete_file f"
  shows "snd (open_file e f) = f"
proof -
  have d: "\<forall>k \<in> set schema. ddl_done k f" "\<forall>k \<in> set upgrades. ddl_done k f" "ddl_done delivery_index f"
    and v: "1 \<le> user_version (disk (f_data f))" "txn (f_data f) = None"
    using assms unfolding complete_file_def by blast+
  obtain ok1 where 1: "execOn (oe_fails e) schema f = (ok1, f)"
    using execOn_idle [OF d(1), of "oe_fails e"] by (metis prod.collapse)
  have 2: "ignoring (oe_fails e) upgrades f = f" by (rule ignoring_idle [OF d(2)])
  obtain ok3 where 3: "execOn (oe_fails e) [delivery_index] f = (ok3, f)"
    using execOn_idle [of "[delivery_index]" f "oe_fails e"] d(3) by (metis empty_iff empty_set prod.collapse set_ConsD)
  obtain ok4 c where 4: "open_version (oe_sql e) (f_data f) = (ok4, c)" by fastforce
  then have "c = f_data f" using version_rows(4) [OF v(2) 4 v(1)] by simp
  then show ?thesis unfolding open_file_def Let_def 1 2 3 4 using 2 3 4 by (simp del: execOn.simps)
qed

text \<open>When no statement failed, the columns that older files lack are there as well.\<close>

fun ddl_ready :: "ddl \<Rightarrow> dbfile \<Rightarrow> bool" where
  "ddl_ready (Add_column tbl _ _) f = (f_tables f tbl \<noteq> None)"
| "ddl_ready (Drop_index _) f = True"
| "ddl_ready _ f = False"

lemma ddl_ready_exec: "ddl_ready d f \<Longrightarrow> ddl_ready d (snd (execOn fl [k] f))"
  by (cases d) (auto split: option.split dest: apply_ddl_tables)

lemma ddl_ready_done: "ddl_ready d f \<Longrightarrow> \<not> fl d \<Longrightarrow> ddl_done d (snd (execOn fl [d] f))"
  by (cases d) auto

lemma ignoring_done:
  "(\<And>d. \<not> fl d) \<Longrightarrow> \<forall>d \<in> set ds. ddl_ready d f \<and> list_all (ddl_apart d) ds \<Longrightarrow>
     \<forall>d \<in> set ds. ddl_done d (ignoring fl ds f)"
proof (induction ds arbitrary: f)
  case (Cons d ds)
  define g where "g = snd (execOn fl [d] f)"
  have step: "ignoring fl (d # ds) f = ignoring fl ds g" by (simp add: ignoring_def g_def)
  have "\<forall>k \<in> set ds. ddl_ready k g" using Cons.prems(2) ddl_ready_exec unfolding g_def by simp
  then have rest: "\<forall>k \<in> set ds. ddl_done k (ignoring fl ds g)"
    using Cons.prems by (intro Cons.IH) simp_all
  have "ddl_done d g" unfolding g_def using Cons.prems by (intro ddl_ready_done) simp_all
  then have "ddl_done d (ignoring fl ds g)" using Cons.prems(2) by (intro ignoring_keeps) simp_all
  then show ?case using rest step by simp
qed simp

lemma open_file_complete:
  assumes o: "open_file e f = (True, f')" and fl: "\<And>d. \<not> oe_fails e d" and t: "txn (f_data f) = None"
  shows "complete_file f'"
proof (rule open_file_stages [OF o])
  fix g h c
  assume v: "execOn (oe_fails e) schema f = (True, g)"
    "execOn (oe_fails e) [delivery_index] (ignoring (oe_fails e) upgrades g) = (True, h)"
    "f' = h\<lparr>f_data := c\<rparr>"
  have "\<forall>k \<in> set schema. ddl_done k g"
    using execOn_done [OF v(1)] schema_apart by simp
  then have "\<forall>d \<in> set upgrades. ddl_ready d g \<and> list_all (ddl_apart d) upgrades"
    by (simp add: schema_def upgrades_def)
  from ignoring_done [OF fl this] have u: "\<forall>d \<in> set upgrades. ddl_done d (ignoring (oe_fails e) upgrades g)" .
  have "ddl_done d f'" if d: "d \<in> set upgrades" for d
  proof -
    have "list_all (ddl_apart d) [delivery_index]"
      using d by (auto simp: upgrades_def delivery_index_def)
    from execOn_keeps [OF bspec [OF u d] this, of "oe_fails e"] show ?thesis
      using v(2,3) by (simp add: done_data)
  qed
  then show ?thesis
    using open_file_done [OF o] open_file_rows [OF t o]
    by (auto simp: complete_file_def same_rows_def)
qed simp_all

lemma open_pool_run:
  "open_pool e i n d = (ok, d') \<Longrightarrow>
     d' = d\<lparr>db_pool := db_pool d', db_leaked := db_leaked d'\<rparr> \<and>
     (if ok then db_pool d' = db_pool d + n \<and> db_leaked d' = db_leaked d
      else db_leaked d' = db_leaked d + 1 \<and> db_pool d' < db_pool d + n) \<and>
     (0 < n \<and> oe_connect e i \<longrightarrow> db_pool d < db_pool d')"
proof (induction e i n d rule: open_pool.induct)
  case (2 e i n d)
  show ?case
  proof (cases "oe_connect e i")
    case True
    from 2(1) [OF _ ] True 2(2) show ?thesis
      by (cases n) (auto split: if_splits)
  next
    case False
    then show ?thesis using 2(2) by auto
  qed
qed simp

lemma open_database_stages:
  assumes "open_database e n d = (r, d')" "db_pool d = 0"
  obtains (no_pool) "r = Returns False" "open_pool e 0 (if n < 1 then 1 else nat n) d = (False, d')"
    | (no_file) d1 f where "r = Returns False"
      "open_pool e 0 (if n < 1 then 1 else nat n) d = (True, d1)"
      "open_file e (db_file d1) = (False, f)" "d' = d1\<lparr>db_file := f\<rparr>"
    | (from_queue) d1 f q where
      "open_pool e 0 (if n < 1 then 1 else nat n) d = (True, d1)"
      "open_file e (db_file d1) = (True, f)"
      "wq_open (oe_queue e) (f_data f) (m_writeQueue d1) = (r, q)"
      "d' = d1\<lparr>db_file := f, m_writeQueue := q\<rparr>"
  using assms unfolding open_database_def Let_def
  by (simp split: prod.splits if_splits)

lemma wq_open_outcome:
  "wq_open e c q = (r, q') \<Longrightarrow> \<not> wq_running q \<Longrightarrow>
     (if r = Returns True then wq_running q' \<and> wq_db q' = Some c \<and> wq_worker q' = Starting
      else \<not> wq_running q')"
  by (auto simp: wq_open_def split: if_splits)

lemma new_Database_simps [simp]:
  "db_pool (new_Database f) = 0" "db_file (new_Database f) = f"
  "m_writeQueue (new_Database f) = new_wqueue" "\<not> wq_running new_wqueue"
  by (simp_all add: new_Database_def new_wqueue_def)

lemma new_pool_run:
  assumes "open_pool e 0 k (new_Database f) = (ok, d)"
  shows "db_file d = f" "m_writeQueue d = new_wqueue" "ok \<Longrightarrow> db_pool d = k"
    "0 < k \<Longrightarrow> oe_connect e 0 \<Longrightarrow> 0 < db_pool d"
proof -
  note o = open_pool_run [OF assms]
  show "db_file d = f" "m_writeQueue d = new_wqueue"
    using arg_cong [OF conjunct1 [OF o], of db_file] arg_cong [OF conjunct1 [OF o], of m_writeQueue]
    by simp_all
  show "ok \<Longrightarrow> db_pool d = k" "0 < k \<Longrightarrow> oe_connect e 0 \<Longrightarrow> 0 < db_pool d" using o by auto
qed

lemma pool_size: "0 < (if (n :: int) < 1 then 1 else nat n)" "(if n < 1 then 1 else nat n) = max 1 (nat n)"
  by (auto simp: max_def)

definition sample_open :: open_env where
  "sample_open = \<lparr>oe_connect = (\<lambda>_. True), oe_fails = (\<lambda>_. False), oe_sql = no_faults,
     oe_queue = \<lparr>we_open = True, we_pragma = (\<lambda>_. True), we_thread = True\<rparr>\<rparr>"

definition sample_database :: database where
  "sample_database = snd (open_database sample_open 2 (new_Database fresh_file))"

lemma sample_file_opens:
  "open_database sample_open 2 (new_Database fresh_file) = (Returns True, sample_database)"
proof -
  have pool: "open_pool sample_open 0 2 (new_Database fresh_file) = (True, (new_Database fresh_file)\<lparr>db_pool := 2\<rparr>)"
    by (simp add: sample_open_def new_Database_def numeral_2_eq_2)
  have "fst (open_file sample_open fresh_file)"
    by (simp add: open_file_def sample_open_def schema_def upgrades_def delivery_index_def ignoring_def
        fresh_file_def rows_unique_def empty_tables_def open_version_def readDatabaseVersion_def
        migrate.faultless migrate_effect_def migrate_rows_def fill_column_def put_tables_def)
  then obtain g where g: "open_file sample_open fresh_file = (True, g)" by (metis prod.collapse)
  have q: "we_open (oe_queue sample_open)" "we_pragma (oe_queue sample_open) i" "we_thread (oe_queue sample_open)" for i
    by (simp_all add: sample_open_def)
  have "fst (open_database sample_open 2 (new_Database fresh_file)) = Returns True"
    by (simp add: open_database_def pool g wq_open_def q)
  then show ?thesis by (simp add: sample_database_def prod_eq_iff)
qed

text \<open>
  C34. When a new object opens a file, the pool has the connections asked for, at least one; every table
  and index of the schema exists; the version is current; the write queue runs on the tables; and
  the rows are those of the file but for the columns that an upgrade sets.
\<close>

theorem open_ready:
  assumes "open_database e n (new_Database f) = (Returns True, d)" and "txn (f_data f) = None"
  shows "db_pool d = max 1 (nat n) \<and> (\<forall>k \<in> insert delivery_index (set schema). ddl_done k (db_file d)) \<and>
    1 \<le> user_version (disk (f_data (db_file d))) \<and>
    blank (disk (f_data (db_file d))) = blank (disk (f_data f)) \<and>
    wq_running (m_writeQueue d) \<and> wq_db (m_writeQueue d) = Some (f_data (db_file d))"
proof (rule open_database_stages [OF assms(1)])
  fix d1 g q
  assume s: "open_pool e 0 (if n < 1 then 1 else nat n) (new_Database f) = (True, d1)"
    "open_file e (db_file d1) = (True, g)"
    "wq_open (oe_queue e) (f_data g) (m_writeQueue d1) = (Returns True, q)"
    "d = d1\<lparr>db_file := g, m_writeQueue := q\<rparr>"
  have p: "db_file d1 = f" "m_writeQueue d1 = new_wqueue" "db_pool d1 = max 1 (nat n)"
    using new_pool_run [OF s(1)] by (simp_all add: pool_size)
  note o = s(2) [unfolded p(1)]
  show ?thesis
    using p open_file_done [OF o] open_file_rows [OF assms(2) o]
      wq_open_outcome [OF s(3) [unfolded p(2)]]
    by (simp add: s(4) same_rows_def)
qed simp_all

theorem open_ready_witness:
  "db_pool sample_database = 2 \<and> wq_running (m_writeQueue sample_database) \<and>
   1 \<le> user_version (disk (f_data (db_file sample_database)))"
  using open_ready [OF sample_file_opens] by (simp add: fresh_file_def)

text \<open>
  A file that was opened without a failure is complete: opening it again, by any later process and
  whatever fails then, changes nothing in it.
\<close>

theorem reopening_changes_nothing:
  assumes "open_database e n (new_Database f) = (Returns True, d)" "txn (f_data f) = None"
    and "\<And>s. \<not> oe_fails e s"
  shows "db_file (snd (open_database e' n' (new_Database (db_file d)))) = db_file d"
proof -
  have c: "complete_file (db_file d)"
  proof (rule open_database_stages [OF assms(1)])
    fix d1 g q
    assume s: "open_pool e 0 (if n < 1 then 1 else nat n) (new_Database f) = (True, d1)"
      "open_file e (db_file d1) = (True, g)" "d = d1\<lparr>db_file := g, m_writeQueue := q\<rparr>"
    have "db_file d1 = f" by (rule new_pool_run(1) [OF s(1)])
    then show ?thesis using open_file_complete [of e f g] s assms(2,3) by simp
  qed simp_all
  obtain r d' where o: "open_database e' n' (new_Database (db_file d)) = (r, d')" by fastforce
  show ?thesis
  proof (rule open_database_stages [OF o])
    assume "open_pool e' 0 (if n' < 1 then 1 else nat n') (new_Database (db_file d)) = (False, d')"
    from new_pool_run(1) [OF this] show ?thesis using o by simp
  next
    fix d1 g
    assume s: "open_pool e' 0 (if n' < 1 then 1 else nat n') (new_Database (db_file d)) = (True, d1)"
      "open_file e' (db_file d1) = (False, g)" "d' = d1\<lparr>db_file := g\<rparr>"
    have "db_file d1 = db_file d" by (rule new_pool_run(1) [OF s(1)])
    then show ?thesis using complete_file_idle [OF c, of e'] s o by simp
  next
    fix d1 g q
    assume s: "open_pool e' 0 (if n' < 1 then 1 else nat n') (new_Database (db_file d)) = (True, d1)"
      "open_file e' (db_file d1) = (True, g)" "d' = d1\<lparr>db_file := g, m_writeQueue := q\<rparr>"
    have "db_file d1 = db_file d" by (rule new_pool_run(1) [OF s(1)])
    then show ?thesis using complete_file_idle [OF c, of e'] s o by simp
  qed simp
qed

theorem reopening_changes_nothing_witness:
  "db_file (snd (open_database (sample_open\<lparr>oe_connect := (\<lambda>i. i < 3)\<rparr>) 5
     (new_Database (db_file sample_database)))) = db_file sample_database"
  using reopening_changes_nothing [OF sample_file_opens] by (simp add: fresh_file_def sample_open_def)

text \<open>
  Opening is said to be safe to repeat. It is not after a failure: connections that were opened stay
  in the pool, so the next call reports success at once, without the schema and without the write
  queue, which then refuses every task.
\<close>

theorem failed_open_reported_as_open:
  assumes "open_database e n (new_Database f) = (r, d)" "r \<noteq> Returns True" "oe_connect e 0"
  shows "open_database e' n' d = (Returns True, d) \<and> fst (submit w task (m_writeQueue d)) = Not_running"
proof -
  have "db_pool d \<noteq> 0 \<and> \<not> wq_running (m_writeQueue d)"
  proof (rule open_database_stages [OF assms(1)])
    assume "open_pool e 0 (if n < 1 then 1 else nat n) (new_Database f) = (False, d)"
    from new_pool_run [OF this] show ?thesis using assms(3) pool_size by simp
  next
    fix d1 g
    assume s: "open_pool e 0 (if n < 1 then 1 else nat n) (new_Database f) = (True, d1)"
      "d = d1\<lparr>db_file := g\<rparr>"
    show ?thesis using new_pool_run [OF s(1)] assms(3) pool_size s(2) by simp
  next
    fix d1 g q
    assume s: "open_pool e 0 (if n < 1 then 1 else nat n) (new_Database f) = (True, d1)"
      "wq_open (oe_queue e) (f_data g) (m_writeQueue d1) = (r, q)"
      "d = d1\<lparr>db_file := g, m_writeQueue := q\<rparr>"
    have p: "m_writeQueue d1 = new_wqueue" "db_pool d1 \<noteq> 0"
      using new_pool_run [OF s(1)] assms(3) pool_size by simp_all
    show ?thesis using p wq_open_outcome [OF s(2) [unfolded p(1)]] assms(2) s(3) by simp
  qed simp
  then show ?thesis by (simp add: open_database_def submit_def)
qed

theorem failed_open_reported_as_open_witness:
  "(let d = snd (open_database (sample_open\<lparr>oe_fails := (\<lambda>_. True)\<rparr>) 2 (new_Database fresh_file))
    in fst (open_database sample_open 2 d) = Returns True \<and>
       fst (submit False (\<lambda>c. (Returns (), c)) (m_writeQueue d)) = Not_running)"
proof -
  let ?e = "sample_open\<lparr>oe_fails := (\<lambda>_. True)\<rparr>"
  have f: "fst (open_database ?e 2 (new_Database fresh_file)) = Returns False"
    by (simp add: open_database_def open_file_def schema_def sample_open_def numeral_2_eq_2 new_Database_def)
  show ?thesis
    unfolding Let_def
    using failed_open_reported_as_open [OF prod.collapse [symmetric], of ?e 2 fresh_file sample_open 2] f
    by (simp add: sample_open_def)
qed

text \<open>
  Accounts of a file from before \<open>password_algo\<close>: the upgrade marks every one of them as having the
  old hash, so that a login verifies it that way and replaces it.
\<close>

definition all_legacy :: "dbfile \<Rightarrow> bool" where
  "all_legacy f \<longleftrightarrow> txn (f_data f) = None \<and> (\<forall>u \<in> set (users (disk (f_data f))). u_algo u = ''legacy_sha256'')"

definition other_column :: "ddl \<Rightarrow> bool" where
  "other_column d = (case d of Add_column _ col _ \<Rightarrow> col \<noteq> ''password_algo'' | _ \<Rightarrow> True)"

lemma all_legacy_apply:
  "apply_ddl d f = Some f' \<Longrightarrow> other_column d \<Longrightarrow> all_legacy f \<Longrightarrow> all_legacy f'"
  by (cases d) (auto simp: all_legacy_def other_column_def fill_column_def put_tables_def
      split: option.splits if_splits)

lemma all_legacy_exec:
  "all_legacy f \<Longrightarrow> list_all other_column ds \<Longrightarrow> all_legacy (snd (execOn fl ds f))"
  by (induction fl ds f rule: execOn.induct) (auto split: option.split dest: all_legacy_apply)

lemma all_legacy_ignoring:
  "all_legacy f \<Longrightarrow> list_all other_column ds \<Longrightarrow> all_legacy (ignoring fl ds f)"
  unfolding ignoring_def
proof (induction ds arbitrary: f)
  case (Cons d ds)
  then show ?case using all_legacy_exec [of f "[d]" fl] by simp
qed simp

text \<open>A text that adds no column leaves rows and existing tables as they are.\<close>

lemma exec_creates:
  "list_all (\<lambda>d. case d of Add_column _ _ _ \<Rightarrow> False | _ \<Rightarrow> True) ds \<Longrightarrow>
     f_data (snd (execOn fl ds f)) = f_data f \<and>
     (f_tables f t = Some cs \<longrightarrow> f_tables (snd (execOn fl ds f)) t = Some cs)"
proof (induction fl ds f rule: execOn.induct)
  case (2 fl d ds f)
  show ?case
  proof (cases "apply_ddl d f")
    case (Some g)
    then have "f_data g = f_data f \<and> (f_tables f t = Some cs \<longrightarrow> f_tables g t = Some cs)"
      using 2(2) by (cases d) (auto split: option.splits if_splits)
    then show ?thesis using 2 Some by auto
  qed simp
qed simp

lemma old_accounts_marked:
  assumes o: "open_file e f = (True, f')" and fl: "\<And>d. \<not> oe_fails e d" and t: "txn (f_data f) = None"
    and old: "f_tables f ''t_user'' = Some cs" "''password_algo'' \<notin> set cs"
  shows "all_legacy f'"
proof (rule open_file_stages [OF o])
  fix g h c
  assume v: "execOn (oe_fails e) schema f = (True, g)"
    "execOn (oe_fails e) [delivery_index] (ignoring (oe_fails e) upgrades g) = (True, h)"
    "open_version (oe_sql e) (f_data h) = (True, c)" "f' = h\<lparr>f_data := c\<rparr>"
  have g: "f_data g = f_data f" "f_tables g ''t_user'' = Some cs"
    using exec_creates [of schema "oe_fails e" f "''t_user''" cs] v(1) old(1) by (simp_all add: schema_def)
  have one: "snd (execOn (oe_fails e) [hd upgrades] g) =
      g\<lparr>f_tables := (f_tables g)(''t_user'' \<mapsto> cs @ [''password_algo'']),
        f_data := put_tables (fill_column ''t_user'' ''password_algo'' ''legacy_sha256'' (current (f_data g))) (f_data g)\<rparr>"
    using fl old(2) g(2) by (simp add: upgrades_def)
  have "all_legacy (snd (execOn (oe_fails e) [hd upgrades] g))"
    unfolding one all_legacy_def using t by (simp add: g(1) fill_column_def)
  then have "all_legacy (ignoring (oe_fails e) upgrades g)"
    using all_legacy_ignoring [of _ "tl upgrades" "oe_fails e"]
    by (simp add: ignoring_def upgrades_def other_column_def)
  then have h: "all_legacy h"
    using all_legacy_exec [of _ "[delivery_index]" "oe_fails e"] v(2)
    by (simp add: other_column_def delivery_index_def del: execOn.simps) (metis snd_conv)
  have "users (disk c) = users (disk (f_data h)) \<and> txn c = None"
  proof (cases "c = f_data h")
    case True
    then show ?thesis using h by (simp add: all_legacy_def)
  next
    case False
    then have "migrateConversationIds (oe_sql e) (f_data h) = (True, c)"
      using v(3) by (auto simp: open_version_def Let_def split: if_splits)
    then show ?thesis using migrate_outcome [of "oe_sql e" "f_data h"] h
      by (auto simp: migrate_effect_def all_legacy_def)
  qed
  then show ?thesis using h v(4) by (simp add: all_legacy_def)
qed simp_all

text \<open>
  The unique index is created before the ids are migrated: a file without it whose old ids collide cannot be
  opened, so the migration that would tell the conversations apart never runs.
\<close>

fun names_index :: "string \<Rightarrow> string \<Rightarrow> string list \<Rightarrow> ddl \<Rightarrow> bool" where
  "names_index n tbl cols (Add_column _ _ _) = False"
| "names_index n tbl cols (Create_index u m t cs) = (m = n \<longrightarrow> u \<and> t = tbl \<and> cs = cols)"
| "names_index n tbl cols _ = True"

lemma execOn_needs_unique:
  "execOn fl ds f = (True, f') \<Longrightarrow> list_all (names_index n tbl cols) ds \<Longrightarrow>
     Create_index True n tbl cols \<in> set ds \<Longrightarrow>
     f_indexes f n \<noteq> None \<or> rows_unique tbl cols (current (f_data f))"
proof (induction fl ds f rule: execOn.induct)
  case (2 fl d ds f)
  then obtain g where g: "apply_ddl d f = Some g" "execOn fl ds g = (True, f')" "\<not> fl d"
    by (auto split: if_splits option.splits)
  show ?case
  proof (cases "d = Create_index True n tbl cols")
    case True
    then show ?thesis using g(1) by (auto split: option.splits if_splits)
  next
    case False
    then have "f_indexes g n \<noteq> None \<or> rows_unique tbl cols (current (f_data g))"
      using 2 g by simp
    moreover have "f_data g = f_data f \<and> (f_indexes g n \<noteq> None \<longrightarrow> f_indexes f n \<noteq> None)"
      using 2(3) g(1) False by (cases d) (auto split: option.splits if_splits)
    ultimately show ?thesis by auto
  qed
qed simp

lemma colliding_ids_block_migration:
  assumes "f_indexes f ''idx_msg_conv_seq_unique'' = None"
    and "\<not> distinct (map (\<lambda>r. (conversation_id r, mseq (row_msg r))) (messages (current (f_data f))))"
  shows "fst (open_file e f) = False"
proof -
  have "fst (execOn (oe_fails e) schema f) = False"
    using execOn_needs_unique [of "oe_fails e" schema f _ "''idx_msg_conv_seq_unique''" "''messages''"
        "[''conversation_id'', ''seq'']"] assms
    by (cases "execOn (oe_fails e) schema f") (auto simp: schema_def rows_unique_def)
  then show ?thesis by (cases "execOn (oe_fails e) schema f") (simp add: open_file_def)
qed

text \<open>Readers take the connections in turn.\<close>

lemma acquire_in_turn:
  assumes "acquire d = (Some i, d1)" "acquire d1 = (Some j, d2)" "m_next d \<noteq> - 1"
  shows "i < db_pool d" "j = (i + 1) mod db_pool d"
proof -
  have "unat (m_next d + 1) = unat (m_next d) + 1"
    using assms(3) by (metis Suc_eq_plus1 add.commute unatSuc add_eq_0_iff)
  then show "i < db_pool d" "j = (i + 1) mod db_pool d"
    using assms by (auto simp: acquire_def mod_Suc_eq split: if_splits)
qed

end
