(* ===== verification/HttpService.thy ===== *)
theory HttpService
  imports HttpFiles
begin

text \<open>
  The life of \<open>HttpFileServer\<close>: \<open>start\<close>, \<open>stop\<close> and the thread of \<open>gcLoop\<close>, which sleeps sixty seconds
  in pieces of a tenth of a second, looks at the flag before each and clears once. The steps of the thread
  are those between two looks at the flag; \<open>stop\<close> may come between any two of them.
\<close>

datatype listen_thread = No_listen | Listening_http | Listen_ended

datatype gc_thread = No_gc | Gc_sleeping nat | Gc_clearing | Gc_ended

record http_service =
  hv_running :: bool
  hv_listen :: listen_thread
  hv_gc :: gc_thread

definition new_http_service :: http_service where
  "new_http_service = \<lparr>hv_running = False, hv_listen = No_listen, hv_gc = No_gc\<rparr>"

text \<open>
  Whether certificate and key could be loaded, and whether the thread can listen on the port; when it
  cannot, it logs that and ends, and \<open>start\<close> has returned true.
\<close>

definition http_start :: "bool \<Rightarrow> bool \<Rightarrow> http_service \<Rightarrow> bool \<times> http_service" where
  "http_start valid can_listen s =
     (if \<not> valid then (False, s)
      else (True, s\<lparr>hv_running := True, hv_listen := (if can_listen then Listening_http else Listen_ended),
        hv_gc := Gc_sleeping 0\<rparr>))"

text \<open>One step of \<open>gcLoop\<close>; the clearing reads the clock of its environment.\<close>

definition gc_step :: "http_env \<Rightarrow> http_service \<times> world \<times> files \<Rightarrow> http_service \<times> world \<times> files" where
  "gc_step e c =
     (case c of (s, w, f) \<Rightarrow>
        case hv_gc s of
          Gc_sleeping i \<Rightarrow>
            if \<not> hv_running s then (s\<lparr>hv_gc := Gc_ended\<rparr>, w, f)
            else if i < 600 then (s\<lparr>hv_gc := Gc_sleeping (i + 1)\<rparr>, w, f)
            else (s\<lparr>hv_gc := Gc_clearing\<rparr>, w, f)
        | Gc_clearing \<Rightarrow> (case gc_turn e w f of (w', f') \<Rightarrow> (s\<lparr>hv_gc := Gc_sleeping 0\<rparr>, w', f'))
        | _ \<Rightarrow> c)"

fun gc_steps :: "http_env list \<Rightarrow> http_service \<times> world \<times> files \<Rightarrow> http_service \<times> world \<times> files" where
  "gc_steps [] c = c"
| "gc_steps (e # es) c = gc_steps es (gc_step e c)"

text \<open>\<open>stop\<close>: the first call clears the flag, ends the listening thread and joins both.\<close>

definition http_flag_stop :: "http_service \<Rightarrow> http_service" where
  "http_flag_stop s =
     (if \<not> hv_running s then s
      else s\<lparr>hv_running := False, hv_listen := (if hv_listen s = No_listen then No_listen else Listen_ended)\<rparr>)"

definition joined :: "http_service \<Rightarrow> bool" where
  "joined s \<longleftrightarrow> hv_listen s \<noteq> Listening_http \<and> (hv_gc s = No_gc \<or> hv_gc s = Gc_ended)"

subsection \<open>One clearing a minute, and an end\<close>

lemma gc_steps_append: "gc_steps (xs @ ys) c = gc_steps ys (gc_steps xs c)"
  by (induction xs arbitrary: c) simp_all

lemma gc_sleeps:
  "hv_running s \<Longrightarrow> hv_gc s = Gc_sleeping i \<Longrightarrow> i + length es \<le> 600 \<Longrightarrow>
     gc_steps es (s, w, f) = (s\<lparr>hv_gc := Gc_sleeping (i + length es)\<rparr>, w, f)"
proof (induction es arbitrary: s i)
  case (Cons e es)
  let ?s = "s\<lparr>hv_gc := Gc_sleeping (i + 1)\<rparr>"
  have "gc_step e (s, w, f) = (?s, w, f)" using Cons.prems by (simp add: gc_step_def)
  moreover have "gc_steps es (?s, w, f) = (?s\<lparr>hv_gc := Gc_sleeping (i + 1 + length es)\<rparr>, w, f)"
    using Cons.prems by (intro Cons.IH) simp_all
  ultimately show ?case by simp
qed simp

text \<open>
  While the flag is set, a round of the thread is 602 looks, and its one effect is one clearing, with the
  clock of the last step; however often it goes round, the uploads are cleared once a round.
\<close>

lemma gc_round:
  assumes "hv_running s" "hv_gc s = Gc_sleeping 0" "length es = 601"
  shows "gc_steps (es @ [e]) (s, w, f) = (case gc_turn e w f of (w', f') \<Rightarrow> (s, w', f'))"
proof -
  obtain xs x where es: "es = xs @ [x]" "length xs = 600"
    using assms(3) by (cases es rule: rev_cases) auto
  have a: "gc_steps xs (s, w, f) = (s\<lparr>hv_gc := Gc_sleeping 600\<rparr>, w, f)"
    using gc_sleeps [OF assms(1,2), of xs w f] es(2) by simp
  have "s\<lparr>hv_gc := Gc_sleeping 0\<rparr> = s" using assms(2) by simp
  then show ?thesis using assms(1)
    by (simp add: es(1) gc_steps_append a) (simp add: gc_step_def split: prod.split)
qed

text \<open>
  \<open>stop\<close> returns: whatever the threads are doing, after at most two more steps of the clearing thread both
  can be joined, and a second call finds nothing to do.
\<close>

theorem http_stop_returns:
  assumes "hv_gc s \<noteq> No_gc \<or> hv_listen s = No_listen" "hv_running s"
  shows "joined (fst (gc_steps [e1, e2] (http_flag_stop s, w, f))) \<and>
    http_flag_stop (http_flag_stop s) = http_flag_stop s"
  using assms
  by (cases "hv_gc s") (auto simp: http_flag_stop_def gc_step_def joined_def split: prod.splits)

text \<open>A port that is taken is not noticed by whoever starts the service.\<close>

lemma start_hides_listen_failure:
  "http_start True False s = (True, s\<lparr>hv_running := True, hv_listen := Listen_ended, hv_gc := Gc_sleeping 0\<rparr>)"
  by (simp add: http_start_def)

end
