(* ===== verification/QtWidgets.thy ===== *)
theory QtWidgets
  imports ClientCore
begin

text \<open>
  The widgets of \<open>IMClient\<close>: \<open>logindia.cpp\<close>, \<open>chatdig.cpp\<close>, \<open>Frienditem.cpp\<close>, \<open>mainwdiget.cpp\<close>. A widget is
  a record of what it shows and stores, a slot a function on it, a signal or a message box a value.
  Qt is a parameter (\<open>qt_lib\<close>): the conversions of \<open>QString\<close>, \<open>trimmed\<close>, \<open>arg\<close>, \<open>toHtml\<close>, the clock. What
  concerns looks only (sizes, positions of the menu) is left out.
\<close>

type_synonym qstring = string

record qt_lib =
  qt_fromUtf8 :: "string \<Rightarrow> qstring"
  qt_toUtf8 :: "qstring \<Rightarrow> string"
  qt_trimmed :: "qstring \<Rightarrow> qstring"
  qt_arg :: "qstring \<Rightarrow> qstring \<Rightarrow> qstring"
  qt_html :: "qstring \<Rightarrow> qstring"
  qt_time :: qstring

text \<open>Texts outside ASCII, by their UTF-8 bytes.\<close>

definition qt_text :: "nat list \<Rightarrow> string" where
  "qt_text = map char_of"

text \<open>The message boxes, by the place that opens them.\<close>

datatype msg_box =
    Box_nick_empty | Box_tel_length | Box_tel_digits | Box_pass_empty | Box_pass_differ
  | Box_chat_empty | Box_add_self | Box_add_twice | Box_connect_failed
  | Box_registered | Box_tel_taken | Box_nick_taken | Box_no_user | Box_wrong_pass
  | Box_friend_request qstring | Box_friend_agreed qstring | Box_friend_rejected qstring
  | Box_friend_offline qstring | Box_friend_unknown qstring | Box_kicked

subsection \<open>The login dialog\<close>

record login_dialog =
  ld_visible :: bool
  le_nick :: qstring
  le_register_tel :: qstring
  le_register_pass :: qstring
  le_pass_again :: qstring
  le_tel :: qstring
  le_pass :: qstring

datatype login_signal =
  Sig_sendRegisterInfo qstring qstring qstring | Sig_sendLoginInfo qstring qstring

definition tel_digit :: "char \<Rightarrow> bool" where
  "tel_digit c \<longleftrightarrow> \<not> (c < CHR ''0'' \<or> c > CHR ''9'')"

text \<open>The macro \<open>CHECK_TEL\<close>: its loop stops at the first character that is no digit.\<close>

definition CHECK_TEL :: "qt_lib \<Rightarrow> qstring \<Rightarrow> msg_box + qstring" where
  "CHECK_TEL L telzujian =
     (let tel = qt_trimmed L telzujian in
      if length tel \<noteq> 11 then Inl Box_tel_length
      else if find (\<lambda>i. \<not> tel_digit (tel ! i)) [0..<11] \<noteq> None then Inl Box_tel_digits
      else Inr tel)"

definition slots_register :: "qt_lib \<Rightarrow> login_dialog \<Rightarrow> msg_box + login_signal" where
  "slots_register L d =
     (let nick = qt_trimmed L (le_nick d) in
      if nick = [] then Inl Box_nick_empty
      else case CHECK_TEL L (le_register_tel d) of
        Inl b \<Rightarrow> Inl b
      | Inr tel \<Rightarrow>
          let rpass = qt_trimmed L (le_register_pass d); passAgain = qt_trimmed L (le_pass_again d) in
          if rpass = [] then Inl Box_pass_empty
          else if rpass \<noteq> passAgain then Inl Box_pass_differ
          else Inr (Sig_sendRegisterInfo nick tel rpass))"

definition slots_registerClear :: "login_dialog \<Rightarrow> login_dialog" where
  "slots_registerClear d = d\<lparr>le_nick := [], le_register_tel := [], le_register_pass := [], le_pass_again := []\<rparr>"

definition slots_login :: "qt_lib \<Rightarrow> login_dialog \<Rightarrow> msg_box + login_signal" where
  "slots_login L d =
     (case CHECK_TEL L (le_tel d) of
        Inl b \<Rightarrow> Inl b
      | Inr tel \<Rightarrow>
          let lpass = qt_trimmed L (le_pass d) in
          if lpass = [] then Inl Box_pass_empty else Inr (Sig_sendLoginInfo tel lpass))"

definition slots_clear :: "login_dialog \<Rightarrow> login_dialog" where
  "slots_clear d = d\<lparr>le_tel := [], le_pass := []\<rparr>"

subsection \<open>The chat dialog\<close>

record chat_dialog =
  cd_title :: qstring
  cd_visible :: bool
  cd_history :: "qstring list"
  cd_input :: qstring

definition new_chatdig :: chat_dialog where
  "new_chatdig = \<lparr>cd_title = [], cd_visible = False, cd_history = [], cd_input = []\<rparr>"

definition setMsg :: "qstring \<Rightarrow> chat_dialog \<Rightarrow> chat_dialog" where
  "setMsg s d = d\<lparr>cd_history := cd_history d @ [s]\<rparr>"

definition slots_clearMsg :: "chat_dialog \<Rightarrow> chat_dialog" where
  "slots_clearMsg d = d\<lparr>cd_input := []\<rparr>"

text \<open>The own line in the history; its first character is a word in Chinese.\<close>

definition own_line :: qstring where
  "own_line = ''<font color = 'gray' size = '2' >'' @ qt_text [230, 136, 145] @
     ''[%1]</font><p><font color = 'black' size = '4' font-weight:bold >%2</font></p>''"

definition slots_sendMsg :: "qt_lib \<Rightarrow> chat_dialog \<Rightarrow> (msg_box + qstring) \<times> chat_dialog" where
  "slots_sendMsg L d =
     (let Pmsg = cd_input d in
      if Pmsg = [] then (Inl Box_chat_empty, d)
      else let s = qt_arg L (qt_arg L own_line (qt_time L)) (qt_html L (cd_input d))
        in (Inr Pmsg, slots_clearMsg (setMsg s d)))"

subsection \<open>An entry of the friend list\<close>

text \<open>\<open>it_icon\<close> is the picture shown and whether it is shown in black and white.\<close>

record friend_item =
  l_nick :: qstring
  l_feeling :: qstring
  it_icon :: "(int \<times> bool) option"
  it_labels_gray :: bool
  it_id :: int
  it_iconid :: int
  it_status :: int
  it_nick :: qstring
  it_feeling :: qstring
  it_chatdig :: chat_dialog

text \<open>The constructor leaves the numbers unset; the caller sets them at once.\<close>

definition new_FriendItem :: "int \<Rightarrow> int \<Rightarrow> int \<Rightarrow> friend_item" where
  "new_FriendItem garbage1 garbage2 garbage3 = \<lparr>l_nick = [], l_feeling = [], it_icon = None, it_labels_gray = False,
     it_id = garbage1, it_iconid = garbage2, it_status = garbage3, it_nick = [], it_feeling = [],
     it_chatdig = new_chatdig\<rparr>"

definition item_setInfo :: "int \<Rightarrow> int \<Rightarrow> qstring \<Rightarrow> qstring \<Rightarrow> friend_item \<Rightarrow> friend_item" where
  "item_setInfo iconid status nick feeling it =
     (let it1 = it\<lparr>l_nick := nick, l_feeling := feeling\<rparr>;
          it2 = (if status = STATUS_ONLINE then it1\<lparr>it_icon := Some (iconid, False)\<rparr>
                 else if status = STATUS_OFFLINE
                 then it1\<lparr>it_icon := Some (iconid, True), it_labels_gray := True\<rparr>
                 else it1)
      in it2\<lparr>it_iconid := iconid, it_status := status, it_nick := nick, it_feeling := feeling\<rparr>)"

definition item_setid :: "int \<Rightarrow> friend_item \<Rightarrow> friend_item" where
  "item_setid friid it = it\<lparr>it_id := friid\<rparr>"

definition item_setChatMsg :: "qt_lib \<Rightarrow> qstring \<Rightarrow> friend_item \<Rightarrow> friend_item" where
  "item_setChatMsg L msg it =
     (let s = qt_arg L (qt_arg L (qt_arg L ''<font color = 'gray' size = '2'>%1[%2]</font>%3'' (it_nick it))
            (qt_time L)) msg
      in it\<lparr>it_chatdig := setMsg s (it_chatdig it)\<rparr>)"

definition slots_showChatdig :: "qt_lib \<Rightarrow> friend_item \<Rightarrow> friend_item" where
  "slots_showChatdig L it =
     it\<lparr>it_chatdig := (it_chatdig it)\<lparr>cd_title := qt_arg L (qt_text [228, 184, 142] @ ''%1'' @
        qt_text [231, 154, 132, 232, 129, 138, 229, 164, 169]) (it_nick it), cd_visible := True\<rparr>\<rparr>"

text \<open>The signal of the dialog, with the id of the friend.\<close>

definition slots_recvMsg :: "qstring \<Rightarrow> friend_item \<Rightarrow> qstring \<times> int" where
  "slots_recvMsg Msg it = (Msg, it_id it)"

definition item_setOffline :: "friend_item \<Rightarrow> friend_item" where
  "item_setOffline it = it\<lparr>it_icon := Some (it_iconid it, True), it_labels_gray := True\<rparr>"

subsection \<open>The main window\<close>

record main_window =
  mw_visible :: bool
  mw_icon :: "int option"
  mw_l_nick :: qstring
  mw_le_feeling :: qstring
  mw_myid :: int
  mw_iconid :: int
  mw_nick :: qstring
  mw_feeling :: qstring
  mw_friendItemMap :: "(int \<times> friend_item) list"
  mw_rows :: "int list"

definition new_mainwdiget :: "int \<Rightarrow> int \<Rightarrow> main_window" where
  "new_mainwdiget garbage1 garbage2 = \<lparr>mw_visible = False, mw_icon = None, mw_l_nick = [], mw_le_feeling = [],
     mw_myid = garbage1, mw_iconid = garbage2, mw_nick = [], mw_feeling = [], mw_friendItemMap = [], mw_rows = []\<rparr>"

definition setmyid :: "int \<Rightarrow> main_window \<Rightarrow> main_window" where
  "setmyid i w = w\<lparr>mw_myid := i\<rparr>"

definition setMyInfo :: "int \<Rightarrow> qstring \<Rightarrow> qstring \<Rightarrow> main_window \<Rightarrow> main_window" where
  "setMyInfo iconid nick feeling w = w\<lparr>mw_icon := Some iconid, mw_l_nick := nick, mw_le_feeling := feeling,
     mw_iconid := iconid, mw_nick := nick, mw_feeling := feeling\<rparr>"

text \<open>A change of the entry of a friend, if there is one.\<close>

definition upd_item :: "(friend_item \<Rightarrow> friend_item) \<Rightarrow> int \<Rightarrow> main_window \<Rightarrow> main_window" where
  "upd_item f friid w =
     (case oget (mw_friendItemMap w) friid of
        None \<Rightarrow> w
      | Some it \<Rightarrow> w\<lparr>mw_friendItemMap := oput friid (f it) (mw_friendItemMap w)\<rparr>)"

definition setFriendInfo ::
  "int \<Rightarrow> int \<Rightarrow> int \<Rightarrow> int \<Rightarrow> int \<Rightarrow> int \<Rightarrow> qstring \<Rightarrow> qstring \<Rightarrow> main_window \<Rightarrow> main_window" where
  "setFriendInfo g1 g2 g3 friid iconid status nick feeling w =
     (if oget (mw_friendItemMap w) friid \<noteq> None
      then upd_item (item_setInfo iconid status nick feeling) friid w
      else let pfriItem = item_setid friid (item_setInfo iconid status nick feeling (new_FriendItem g1 g2 g3))
        in w\<lparr>mw_friendItemMap := oput friid pfriItem (mw_friendItemMap w), mw_rows := mw_rows w @ [friid]\<rparr>)"

definition setFriendChatRs :: "qt_lib \<Rightarrow> int \<Rightarrow> qstring \<Rightarrow> main_window \<Rightarrow> main_window" where
  "setFriendChatRs L friid msg w = upd_item (item_setChatMsg L msg) friid w"

definition setFriendOffline :: "int \<Rightarrow> main_window \<Rightarrow> main_window" where
  "setFriendOffline friid w = upd_item item_setOffline friid w"

text \<open>The menu entry that adds a friend, with the nick typed into its dialog.\<close>

definition slots_dealMenu :: "qstring \<Rightarrow> main_window \<Rightarrow> (msg_box + qstring) option" where
  "slots_dealMenu nick w =
     (if nick = [] then None
      else if nick = mw_nick w then Some (Inl Box_add_self)
      else if find (\<lambda>pr. it_nick (snd pr) = nick) (mw_friendItemMap w) \<noteq> None then Some (Inl Box_add_twice)
      else Some (Inr nick))"

subsection \<open>What the widgets keep\<close>

text \<open>
  The entry under a number is the entry of the friend with that number, and the list has one row for
  every entry: so what is typed into a dialog goes to the friend it shows.
\<close>

definition window_ok :: "main_window \<Rightarrow> bool" where
  "window_ok w \<longleftrightarrow> ovalid (mw_friendItemMap w) \<and> distinct (mw_rows w) \<and>
     set (mw_rows w) = fst ` set (mw_friendItemMap w) \<and> (\<forall>(i, it) \<in> set (mw_friendItemMap w). it_id it = i)"

lemma set_oput: "set (oput k v m) \<subseteq> insert (k, v) (set m)"
  by (induction k v m rule: oput.induct) auto

lemma oget_key: "oget m k = None \<longleftrightarrow> k \<notin> fst ` set m"
  by (simp add: oget_def map_of_eq_None_iff)

lemma item_id [simp]:
  "it_id (item_setInfo a b c d it) = it_id it" "it_id (item_setChatMsg L s it) = it_id it"
  "it_id (item_setOffline it) = it_id it" "it_id (item_setid i it) = i"
  by (simp_all add: item_setInfo_def item_setChatMsg_def item_setOffline_def item_setid_def Let_def)

lemma window_ok_new: "window_ok (new_mainwdiget a b)"
  by (simp add: window_ok_def new_mainwdiget_def ovalid_def)

lemma window_ok_items:
  assumes "window_ok w" and "it_id it = i"
  shows "\<forall>(j, x) \<in> set (oput i it (mw_friendItemMap w)). it_id x = j"
  using assms set_oput [of i it "mw_friendItemMap w"] by (auto simp: window_ok_def)

lemma window_ok_upd:
  assumes "window_ok w" and "\<And>it. it_id (f it) = it_id it"
  shows "window_ok (upd_item f i w)"
proof (cases "oget (mw_friendItemMap w) i")
  case (Some it)
  then have m: "(i, it) \<in> set (mw_friendItemMap w)" by (simp add: oget_def map_of_SomeD)
  then have "it_id (f it) = i" using assms by (auto simp: window_ok_def)
  from window_ok_items [OF assms(1) this] show ?thesis
    using assms(1) m by (simp add: upd_item_def Some window_ok_def ovalid_oput keys_oput insert_absorb rev_image_eqI)
qed (simp add: upd_item_def assms(1))

lemma window_ok_setFriendInfo:
  assumes "window_ok w"
  shows "window_ok (setFriendInfo g1 g2 g3 i a b c d w)"
proof (cases "oget (mw_friendItemMap w) i")
  case None
  then show ?thesis
    using assms window_ok_items [OF assms, of "item_setid i (item_setInfo a b c d (new_FriendItem g1 g2 g3))" i]
    by (simp add: setFriendInfo_def Let_def window_ok_def ovalid_oput keys_oput oget_key)
next
  case (Some it)
  then show ?thesis using window_ok_upd [OF assms] by (simp add: setFriendInfo_def)
qed

lemma window_ok_others:
  assumes "window_ok w"
  shows "window_ok (setmyid i w)" "window_ok (setMyInfo a b c w)" "window_ok (setFriendChatRs L i s w)"
    "window_ok (setFriendOffline i w)" "window_ok (w\<lparr>mw_visible := v\<rparr>)"
  using assms window_ok_upd [OF assms]
  by (simp_all add: setFriendChatRs_def setFriendOffline_def)
    (simp_all add: window_ok_def setmyid_def setMyInfo_def)

lemma oget_upd_item:
  assumes "oget (mw_friendItemMap w) i = Some it"
  shows "oget (mw_friendItemMap (upd_item f i w)) = (oget (mw_friendItemMap w))(i := Some (f it))"
  by (simp add: upd_item_def assms) (simp add: oget_def map_of_oput)

text \<open>What is sent as a telephone number or password has passed the checks of the dialog.\<close>

lemma find_digit: "find (\<lambda>i. \<not> P (xs ! i)) [0..<n] = None \<longleftrightarrow> (\<forall>i < n. P (xs ! i))"
  by (auto simp: find_None_iff)

lemma login_dialog_checks:
  "CHECK_TEL L t = Inr tel \<longleftrightarrow> tel = qt_trimmed L t \<and> length tel = 11 \<and> list_all tel_digit tel"
  by (auto simp: CHECK_TEL_def Let_def find_digit list_all_length)

text \<open>
  A friend that has been shown offline once stays gray: nothing resets the colour of the labels, so an
  entry that comes online again has a coloured picture and gray text.
\<close>

lemma gray_labels_stay:
  assumes "it_labels_gray it"
  shows "it_labels_gray (item_setInfo icon STATUS_ONLINE nick feeling it) \<and>
    it_icon (item_setInfo icon STATUS_ONLINE nick feeling it) = Some (icon, False)"
  using assms by (simp add: item_setInfo_def Let_def)

end
