(* ===== verification/QtKernal.thy ===== *)
theory QtKernal
  imports QtWidgets
begin

text \<open>
  \<open>IMClient/kernal.cpp\<close>: the Qt client between the widgets and \<open>ClientCore\<close>. The events of the core come on
  its network thread and wait as queued signals for the thread of the user interface. The two widgets
  are pointers that \<open>destroyUi\<close> sets to null: \<open>None\<close> is a null pointer, and a handler that calls a
  method through one has the outcome \<open>None\<close>. The core is the one of \<open>ClientCore\<close>.
\<close>

datatype ui_signal =
    Sig_registerResult int | Sig_loginResult int int | Sig_selfInfo int qstring qstring
  | Sig_friendInfo int int int qstring qstring | Sig_chatMessage int qstring | Sig_chatSendResult int int
  | Sig_addFriendRequest int qstring | Sig_addFriendResult int qstring | Sig_friendOffline int
  | Sig_kickedOffline int | Sig_connectionClosed

record qt_state =
  q_core :: client_state
  q_login :: "login_dialog option"
  q_main :: "main_window option"
  q_signals :: "ui_signal list"
  q_boxes :: "msg_box list"

subsection \<open>The events of the core\<close>

text \<open>
  The overriding functions of \<open>kernal.h\<close>: what each emits. The events that it does not override do
  nothing. (\<open>onImageMessage\<close>, which would show a placeholder, is called by nothing in \<open>ClientCore\<close>.)
\<close>

fun kernal_event :: "qt_lib \<Rightarrow> ui_call \<Rightarrow> ui_signal list" where
  "kernal_event L (UI_RegisterResult r) = [Sig_registerResult r]"
| "kernal_event L (UI_LoginResult r u) = [Sig_loginResult r u]"
| "kernal_event L (UI_SelfInfo i) = [Sig_selfInfo (us_iconId i) (qt_fromUtf8 L (us_nick i)) (qt_fromUtf8 L (us_feeling i))]"
| "kernal_event L (UI_FriendInfo f) = [Sig_friendInfo (fe_id f) (fe_iconId f) (fe_status f)
     (qt_fromUtf8 L (fe_nick f)) (qt_fromUtf8 L (fe_feeling f))]"
| "kernal_event L (UI_ChatMessage u msg) = [Sig_chatMessage u (qt_fromUtf8 L msg)]"
| "kernal_event L (UI_ChatSendResult u r) = [Sig_chatSendResult u r]"
| "kernal_event L (UI_AddFriendRequest u nick) = [Sig_addFriendRequest u (qt_fromUtf8 L nick)]"
| "kernal_event L (UI_AddFriendResult r nick) = [Sig_addFriendResult r (qt_fromUtf8 L nick)]"
| "kernal_event L (UI_FriendOffline u) = [Sig_friendOffline u]"
| "kernal_event L (UI_KickedOffline r) = [Sig_kickedOffline r]"
| "kernal_event L UI_ConnectionClosed = [Sig_connectionClosed]"
| "kernal_event L (UI_RoamConversations _) = []"
| "kernal_event L (UI_RoamMessages _ _ _ _) = []"
| "kernal_event L (UI_FileCard _ _ _ _ _ _ _ _ _ _) = []"

text \<open>A change of the core by its network thread: the signals of the new events are queued.\<close>

definition core_runs :: "qt_lib \<Rightarrow> (client_state \<Rightarrow> client_state) \<Rightarrow> qt_state \<Rightarrow> qt_state" where
  "core_runs L f s =
     (let k = f (q_core s) in
      s\<lparr>q_core := k,
        q_signals := q_signals s @ concat (map (kernal_event L) (drop (length (k_ui (q_core s))) (k_ui k)))\<rparr>)"

subsection \<open>Beginning and end\<close>

definition show_box :: "msg_box \<Rightarrow> qt_state \<Rightarrow> qt_state" where
  "show_box b s = s\<lparr>q_boxes := q_boxes s @ [b]\<rparr>"

definition new_LoginDia :: login_dialog where
  "new_LoginDia = \<lparr>ld_visible = False, le_nick = [], le_register_tel = [], le_register_pass = [],
     le_pass_again = [], le_tel = [], le_pass = []\<rparr>"

text \<open>The second argument of \<open>connectToServer\<close> has a default.\<close>

definition TCP_PORT :: "16 word" where
  "TCP_PORT = 24563"

definition new_Kernal ::
  "client_env \<Rightarrow> connect_env \<Rightarrow> int \<Rightarrow> int \<Rightarrow> client_state \<Rightarrow> qt_state option" where
  "new_Kernal e ce g1 g2 core =
     (case connectToServer e ce ''127.0.0.1'' TCP_PORT (core\<lparr>k_sink := True\<rparr>) of
        None \<Rightarrow> None
      | Some (ok, k) \<Rightarrow>
          let s = \<lparr>q_core = k, q_login = Some (new_LoginDia\<lparr>ld_visible := True\<rparr>),
                q_main = Some (new_mainwdiget g1 g2), q_signals = [], q_boxes = []\<rparr>
          in Some (if ok then s else show_box Box_connect_failed s))"

definition destroyUi :: "qt_state \<Rightarrow> qt_state" where
  "destroyUi s = s\<lparr>q_login := None, q_main := None\<rparr>"

definition end_Kernal :: "qt_state \<Rightarrow> qt_state" where
  "end_Kernal s = destroyUi (s\<lparr>q_core := disconnect ((q_core s)\<lparr>k_sink := False\<rparr>)\<rparr>)"

subsection \<open>Requests of the user\<close>

definition slots_sendRegisterToServe :: "qt_lib \<Rightarrow> client_env \<Rightarrow> qstring \<Rightarrow> qstring \<Rightarrow> qstring \<Rightarrow> qt_state \<Rightarrow> qt_state" where
  "slots_sendRegisterToServe L e nick tel pass s =
     s\<lparr>q_core := sendRegister e (qt_toUtf8 L nick) (qt_toUtf8 L tel) (qt_toUtf8 L pass) (q_core s)\<rparr>"

definition slots_sendLoginToServe :: "qt_lib \<Rightarrow> client_env \<Rightarrow> qstring \<Rightarrow> qstring \<Rightarrow> qt_state \<Rightarrow> qt_state" where
  "slots_sendLoginToServe L e tel pass s =
     s\<lparr>q_core := sendLogin e (qt_toUtf8 L tel) (qt_toUtf8 L pass) (q_core s)\<rparr>"

definition slots_sendMsgtoServe :: "qt_lib \<Rightarrow> client_env \<Rightarrow> qstring \<Rightarrow> int \<Rightarrow> qt_state \<Rightarrow> qt_state" where
  "slots_sendMsgtoServe L e msg friid s = s\<lparr>q_core := sendChatMessage e friid (qt_toUtf8 L msg) (q_core s)\<rparr>"

definition slots_addFriend :: "qt_lib \<Rightarrow> client_env \<Rightarrow> qstring \<Rightarrow> qt_state \<Rightarrow> qt_state" where
  "slots_addFriend L e nick s = s\<lparr>q_core := sendAddFriendRequest e (qt_toUtf8 L nick) (q_core s)\<rparr>"

definition slots_sendMyoffline :: "client_env \<Rightarrow> qt_state \<Rightarrow> qt_state" where
  "slots_sendMyoffline e s = destroyUi (s\<lparr>q_core := disconnect (sendOfflineNotify e (q_core s))\<rparr>)"

definition slots_quitLogin :: "qt_state \<Rightarrow> qt_state" where
  "slots_quitLogin s = destroyUi (s\<lparr>q_core := disconnect (q_core s)\<rparr>)"

subsection \<open>The queued signals\<close>

text \<open>A call through the pointer to the main window.\<close>

definition on_main :: "(main_window \<Rightarrow> main_window) \<Rightarrow> qt_state \<Rightarrow> qt_state option" where
  "on_main f s = (case q_main s of None \<Rightarrow> None | Some w \<Rightarrow> Some (s\<lparr>q_main := Some (f w)\<rparr>))"

definition onRegisterResultUi :: "int \<Rightarrow> qt_state \<Rightarrow> qt_state option" where
  "onRegisterResultUi result s = Some
     (if result = REGISTER_SUCC then show_box Box_registered s
      else if result = REGISTER_TEL_EXIT then show_box Box_tel_taken s
      else if result = REGISTER_NICK_EXIT then show_box Box_nick_taken s else s)"

definition onLoginResultUi :: "int \<Rightarrow> int \<Rightarrow> qt_state \<Rightarrow> qt_state option" where
  "onLoginResultUi result u s =
     (if result = LOGIN_SUCCESS
      then case on_main (\<lambda>w. (setmyid u w)\<lparr>mw_visible := True\<rparr>) s of
             None \<Rightarrow> None
           | Some s1 \<Rightarrow> (case q_login s1 of
               None \<Rightarrow> None | Some d \<Rightarrow> Some (s1\<lparr>q_login := Some (d\<lparr>ld_visible := False\<rparr>)\<rparr>))
      else if result = LOGIN_NOTEXIT then Some (show_box Box_no_user s)
      else if result = LOGIN_PASSERROR then Some (show_box Box_wrong_pass s) else Some s)"

definition onSelfInfoUi :: "int \<Rightarrow> qstring \<Rightarrow> qstring \<Rightarrow> qt_state \<Rightarrow> qt_state option" where
  "onSelfInfoUi iconId nick feeling = on_main (setMyInfo iconId nick feeling)"

definition onFriendInfoUi :: "int \<Rightarrow> int \<Rightarrow> int \<Rightarrow> qstring \<Rightarrow> qstring \<Rightarrow> qt_state \<Rightarrow> qt_state option" where
  "onFriendInfoUi friId iconId status nick feeling = on_main (setFriendInfo 0 0 0 friId iconId status nick feeling)"

definition onChatMessageUi :: "qt_lib \<Rightarrow> int \<Rightarrow> qstring \<Rightarrow> qt_state \<Rightarrow> qt_state option" where
  "onChatMessageUi L fromId msg = on_main (setFriendChatRs L fromId
     (qt_arg L ''<p><font color = 'black' size = '4' font-weight:bold >%2</font></p>'' msg))"

definition delivered_note :: qstring where
  "delivered_note = ''<font color = 'gray'  size = '2'>'' @ qt_text [229, 183, 178, 233, 128, 129, 232, 190, 190] @ ''</font>''"

definition receiver_offline_note :: qstring where
  "receiver_offline_note = ''<font color = 'gray'  size = '2'>'' @ qt_text [229, 143, 145, 233, 128, 129, 230, 136, 144,
     229, 138, 159, 40, 229, 175, 185, 230, 150, 185, 229, 183, 178, 231, 166, 187, 231, 186, 191, 41] @ ''</font>''"

definition onChatSendResultUi :: "qt_lib \<Rightarrow> int \<Rightarrow> int \<Rightarrow> qt_state \<Rightarrow> qt_state option" where
  "onChatSendResultUi L friId result s =
     (if result = CHAT_RESULT_SUCC then on_main (setFriendChatRs L friId delivered_note) s
      else if result = CHAT_RESULT_FAIL then on_main (setFriendChatRs L friId receiver_offline_note) s
      else Some s)"

text \<open>The box waits for the answer of the user.\<close>

definition onAddFriendRequestUi :: "qt_lib \<Rightarrow> client_env \<Rightarrow> bool \<Rightarrow> int \<Rightarrow> qstring \<Rightarrow> qt_state \<Rightarrow> qt_state option" where
  "onAddFriendRequestUi L e yes fromId fromNick s =
     (let s1 = show_box (Box_friend_request fromNick) s
      in Some (s1\<lparr>q_core := answerAddFriend e fromId (qt_toUtf8 L fromNick) yes (q_core s1)\<rparr>))"

definition onAddFriendResultUi :: "int \<Rightarrow> qstring \<Rightarrow> qt_state \<Rightarrow> qt_state option" where
  "onAddFriendResultUi result destNick s = Some
     (if result = ADD_FRIEND_AGREE then show_box (Box_friend_agreed destNick) s
      else if result = ADD_FRIEND_REJECT then show_box (Box_friend_rejected destNick) s
      else if result = ADD_FRIEND_OFFLINE then show_box (Box_friend_offline destNick) s
      else if result = ADD_FRIEND_NOTEXIT then show_box (Box_friend_unknown destNick) s else s)"

definition onFriendOfflineUi :: "int \<Rightarrow> qt_state \<Rightarrow> qt_state option" where
  "onFriendOfflineUi u = on_main (setFriendOffline u)"

definition onKickedOfflineUi :: "int \<Rightarrow> qt_state \<Rightarrow> qt_state option" where
  "onKickedOfflineUi reason s =
     (let s1 = show_box Box_kicked s in Some (destroyUi (s1\<lparr>q_core := disconnect (q_core s1)\<rparr>)))"

definition onConnectionClosedUi :: "qt_state \<Rightarrow> qt_state option" where
  "onConnectionClosedUi s = Some s"

fun run_signal :: "qt_lib \<Rightarrow> client_env \<Rightarrow> bool \<Rightarrow> ui_signal \<Rightarrow> qt_state \<Rightarrow> qt_state option" where
  "run_signal L e yes (Sig_registerResult r) s = onRegisterResultUi r s"
| "run_signal L e yes (Sig_loginResult r u) s = onLoginResultUi r u s"
| "run_signal L e yes (Sig_selfInfo i n f) s = onSelfInfoUi i n f s"
| "run_signal L e yes (Sig_friendInfo u i st n f) s = onFriendInfoUi u i st n f s"
| "run_signal L e yes (Sig_chatMessage u msg) s = onChatMessageUi L u msg s"
| "run_signal L e yes (Sig_chatSendResult u r) s = onChatSendResultUi L u r s"
| "run_signal L e yes (Sig_addFriendRequest u n) s = onAddFriendRequestUi L e yes u n s"
| "run_signal L e yes (Sig_addFriendResult r n) s = onAddFriendResultUi r n s"
| "run_signal L e yes (Sig_friendOffline u) s = onFriendOfflineUi u s"
| "run_signal L e yes (Sig_kickedOffline r) s = onKickedOfflineUi r s"
| "run_signal L e yes Sig_connectionClosed s = onConnectionClosedUi s"

subsection \<open>The client as a whole\<close>

text \<open>
  What can happen: a packet or the end of the connection on the network thread, a turn of the event loop
  of the user interface (with the answer the user gives if it asks), typing into the login dialog,
  and what the user does in the two windows, as far as they exist and are shown.
\<close>

datatype qt_action =
    Net_packet bytes | Net_closed | Ui_turn bool | Edit_login login_dialog | Click_register | Click_login
  | Click_item int | Send_chat int qstring | Menu_add qstring | Close_login | Close_main

definition in_login :: "(login_dialog \<Rightarrow> qt_state) \<Rightarrow> qt_state \<Rightarrow> qt_state" where
  "in_login f s = (case q_login s of None \<Rightarrow> s | Some d \<Rightarrow> f d)"

definition box_or :: "('a \<Rightarrow> qt_state \<Rightarrow> qt_state) \<Rightarrow> msg_box + 'a \<Rightarrow> qt_state \<Rightarrow> qt_state" where
  "box_or f r s = (case r of Inl b \<Rightarrow> show_box b s | Inr x \<Rightarrow> f x s)"

fun send_login_signal :: "qt_lib \<Rightarrow> client_env \<Rightarrow> login_signal \<Rightarrow> qt_state \<Rightarrow> qt_state" where
  "send_login_signal L e (Sig_sendRegisterInfo nick tel pass) s = slots_sendRegisterToServe L e nick tel pass s"
| "send_login_signal L e (Sig_sendLoginInfo tel pass) s = slots_sendLoginToServe L e tel pass s"

text \<open>The button of a chat dialog: dialog, entry and main window pass the signal on to \<open>Kernal\<close>.\<close>

definition send_chat :: "qt_lib \<Rightarrow> client_env \<Rightarrow> int \<Rightarrow> qstring \<Rightarrow> main_window \<Rightarrow> qt_state \<Rightarrow> qt_state" where
  "send_chat L e i typed w s =
     (case oget (mw_friendItemMap w) i of
        None \<Rightarrow> s
      | Some it \<Rightarrow>
          (case slots_sendMsg L ((it_chatdig it)\<lparr>cd_input := typed\<rparr>) of
             (r, d) \<Rightarrow> box_or (\<lambda>msg s1. case slots_recvMsg msg it of (m, j) \<Rightarrow> slots_sendMsgtoServe L e m j s1) r
               (s\<lparr>q_main := Some (upd_item (\<lambda>x. x\<lparr>it_chatdig := d\<rparr>) i w)\<rparr>)))"

fun qt_exec :: "qt_lib \<Rightarrow> client_env \<Rightarrow> qt_action \<Rightarrow> qt_state \<Rightarrow> qt_state option" where
  "qt_exec L e (Net_packet data) s = Some (core_runs L (packet_handler e data) s)"
| "qt_exec L e Net_closed s = Some (core_runs L close_handler s)"
| "qt_exec L e (Ui_turn yes) s =
     (case q_signals s of [] \<Rightarrow> Some s | g # gs \<Rightarrow> run_signal L e yes g (s\<lparr>q_signals := gs\<rparr>))"
| "qt_exec L e (Edit_login d) s = Some (in_login (\<lambda>_. s\<lparr>q_login := Some d\<rparr>) s)"
| "qt_exec L e Click_register s = Some (in_login (\<lambda>d. box_or (send_login_signal L e) (slots_register L d) s) s)"
| "qt_exec L e Click_login s = Some (in_login (\<lambda>d. box_or (send_login_signal L e) (slots_login L d) s) s)"
| "qt_exec L e (Click_item i) s =
     Some (case q_main s of None \<Rightarrow> s | Some w \<Rightarrow> s\<lparr>q_main := Some (upd_item (slots_showChatdig L) i w)\<rparr>)"
| "qt_exec L e (Send_chat i typed) s =
     Some (case q_main s of None \<Rightarrow> s | Some w \<Rightarrow> send_chat L e i typed w s)"
| "qt_exec L e (Menu_add nick) s =
     Some (case q_main s of
        None \<Rightarrow> s
      | Some w \<Rightarrow> (case slots_dealMenu nick w of
          None \<Rightarrow> s | Some r \<Rightarrow> box_or (slots_addFriend L e) r s))"
| "qt_exec L e Close_login s = Some (in_login (\<lambda>_. slots_quitLogin s) s)"
| "qt_exec L e Close_main s = Some (case q_main s of None \<Rightarrow> s | Some w \<Rightarrow> slots_sendMyoffline e s)"

fun qt_run :: "qt_lib \<Rightarrow> (client_env \<times> qt_action) list \<Rightarrow> qt_state \<Rightarrow> qt_state option" where
  "qt_run L [] s = Some s"
| "qt_run L ((e, a) # as) s = (case qt_exec L e a s of None \<Rightarrow> None | Some s' \<Rightarrow> qt_run L as s')"

end
