(* ===== verification/QtFacts.thy ===== *)
theory QtFacts
  imports QtKernal ClientFacts
begin

text \<open>
  What holds of the Qt client in every state it reaches: when a queued signal ends it, where what is
  typed goes, and where what arrives is shown.
\<close>

subsection \<open>Late signals\<close>

text \<open>Both windows live and end together, and the list of friends is in order.\<close>

definition qt_ok :: "qt_state \<Rightarrow> bool" where
  "qt_ok s \<longleftrightarrow> (q_login s = None \<longleftrightarrow> q_main s = None) \<and>
     (case q_main s of None \<Rightarrow> True | Some w \<Rightarrow> window_ok w)"

text \<open>The signals whose handler calls the main window.\<close>

fun needs_window :: "ui_signal \<Rightarrow> bool" where
  "needs_window (Sig_loginResult r u) \<longleftrightarrow> r = LOGIN_SUCCESS"
| "needs_window (Sig_selfInfo i n f) \<longleftrightarrow> True"
| "needs_window (Sig_friendInfo u i st n f) \<longleftrightarrow> True"
| "needs_window (Sig_chatMessage u msg) \<longleftrightarrow> True"
| "needs_window (Sig_chatSendResult u r) \<longleftrightarrow> r = CHAT_RESULT_SUCC \<or> r = CHAT_RESULT_FAIL"
| "needs_window (Sig_friendOffline u) \<longleftrightarrow> True"
| "needs_window _ \<longleftrightarrow> False"

lemma qt_ok_same:
  assumes "qt_ok s" and "q_login s' = q_login s" and "q_main s' = q_main s"
  shows "qt_ok s'"
  using assms by (simp add: qt_ok_def)

lemma show_box_simps [simp]:
  "q_login (show_box b s) = q_login s" "q_main (show_box b s) = q_main s" "q_core (show_box b s) = q_core s"
  "q_signals (show_box b s) = q_signals s"
  by (simp_all add: show_box_def)

lemma qt_ok_destroy: "qt_ok (destroyUi s)"
  by (simp add: qt_ok_def destroyUi_def)

lemma qt_ok_main:
  "qt_ok s \<Longrightarrow> q_main s = Some w \<Longrightarrow> window_ok w' \<Longrightarrow> qt_ok (s\<lparr>q_main := Some w'\<rparr>)"
  by (auto simp: qt_ok_def)

lemma on_main_ok:
  assumes "qt_ok s" and "\<And>w. window_ok w \<Longrightarrow> window_ok (f w)" and "on_main f s = Some s'"
  shows "qt_ok s'"
  using assms by (auto simp: on_main_def qt_ok_def split: option.splits)

lemma run_signal_None:
  assumes "qt_ok s"
  shows "run_signal L e yes g s = None \<longleftrightarrow> q_main s = None \<and> needs_window g"
proof (cases g)
  case (Sig_loginResult r u)
  then show ?thesis
    using assms by (auto simp: onLoginResultUi_def on_main_def qt_ok_def split: option.splits)
qed (auto simp: onRegisterResultUi_def onSelfInfoUi_def onFriendInfoUi_def onChatMessageUi_def
    onChatSendResultUi_def onAddFriendRequestUi_def onAddFriendResultUi_def onFriendOfflineUi_def
    onKickedOfflineUi_def onConnectionClosedUi_def on_main_def Let_def split: option.splits)

lemma run_signal_ok:
  assumes "qt_ok s" and "run_signal L e yes g s = Some s'"
  shows "qt_ok s'"
proof (cases g)
  case (Sig_loginResult r u)
  have "window_ok ((setmyid u w)\<lparr>mw_visible := True\<rparr>)" if "window_ok w" for w
    using window_ok_others(5) window_ok_others(1) that by blast
  then show ?thesis
    using assms Sig_loginResult
    by (auto simp: onLoginResultUi_def on_main_def qt_ok_def split: option.splits if_splits)
next
  case (Sig_kickedOffline r)
  then show ?thesis using assms(2) qt_ok_destroy by (auto simp: onKickedOfflineUi_def Let_def)
next
  case (Sig_chatSendResult u r)
  then show ?thesis
    using assms on_main_ok [OF assms(1) window_ok_others(3)]
    by (auto simp: onChatSendResultUi_def split: if_splits)
next
  case (Sig_registerResult r)
  then show ?thesis using assms qt_ok_same [OF assms(1)] by (auto simp: onRegisterResultUi_def split: if_splits)
next
  case (Sig_addFriendResult r n)
  then show ?thesis using assms qt_ok_same [OF assms(1)] by (auto simp: onAddFriendResultUi_def split: if_splits)
next
  case (Sig_addFriendRequest u n)
  then show ?thesis using assms by (auto simp: onAddFriendRequestUi_def Let_def qt_ok_def)
next
  case Sig_connectionClosed
  then show ?thesis using assms by (simp add: onConnectionClosedUi_def)
next
  case (Sig_selfInfo i n f)
  then show ?thesis using assms on_main_ok [OF assms(1) window_ok_others(2)] by (simp add: onSelfInfoUi_def)
next
  case (Sig_friendInfo u i st n f)
  then show ?thesis using assms on_main_ok [OF assms(1) window_ok_setFriendInfo] by (simp add: onFriendInfoUi_def)
next
  case (Sig_chatMessage u msg)
  then show ?thesis using assms on_main_ok [OF assms(1) window_ok_others(3)] by (simp add: onChatMessageUi_def)
next
  case (Sig_friendOffline u)
  then show ?thesis using assms on_main_ok [OF assms(1) window_ok_others(4)] by (simp add: onFriendOfflineUi_def)
qed

lemma qt_exec_None:
  assumes "qt_ok s"
  shows "qt_exec L e a s = None \<longleftrightarrow>
    (\<exists>yes g gs. a = Ui_turn yes \<and> q_signals s = g # gs \<and> q_main s = None \<and> needs_window g)"
proof (cases a)
  case (Ui_turn yes)
  have "qt_ok (s\<lparr>q_signals := gs\<rparr>)" for gs by (rule qt_ok_same [OF assms]) simp_all
  from run_signal_None [OF this] show ?thesis by (auto simp: Ui_turn split: list.split)
qed auto

lemma qt_ok_in_login: "qt_ok s \<Longrightarrow> (\<And>d. q_login s = Some d \<Longrightarrow> qt_ok (f d)) \<Longrightarrow> qt_ok (in_login f s)"
  by (simp add: in_login_def split: option.split)

lemma qt_ok_box_or:
  assumes "qt_ok s" and "\<And>x. q_login (f x s) = q_login s \<and> q_main (f x s) = q_main s"
  shows "qt_ok (box_or f r s)"
  using qt_ok_same [OF assms(1)] assms(2) by (cases r) (simp_all add: box_or_def)

lemma send_login_windows:
  "q_login (send_login_signal L e g s) = q_login s" "q_main (send_login_signal L e g s) = q_main s"
  by (cases g; simp add: slots_sendRegisterToServe_def slots_sendLoginToServe_def)+

lemma qt_ok_send_chat:
  assumes "qt_ok s" and "q_main s = Some w"
  shows "qt_ok (send_chat L e i typed w s)"
proof (cases "oget (mw_friendItemMap w) i")
  case (Some it)
  obtain r d where d: "slots_sendMsg L ((it_chatdig it)\<lparr>cd_input := typed\<rparr>) = (r, d)" by fastforce
  have "window_ok w" using assms by (simp add: qt_ok_def)
  then have "window_ok (upd_item (\<lambda>x. x\<lparr>it_chatdig := d\<rparr>) i w)" by (rule window_ok_upd) simp
  from qt_ok_main [OF assms this] show ?thesis
    unfolding send_chat_def Some option.case d prod.case
    by (rule qt_ok_box_or) (simp add: slots_recvMsg_def slots_sendMsgtoServe_def)
qed (simp add: send_chat_def assms(1))

lemma qt_exec_ok:
  assumes "qt_ok s" and "qt_exec L e a s = Some s'"
  shows "qt_ok s'"
proof (cases a)
  case (Ui_turn yes)
  have "qt_ok (s\<lparr>q_signals := gs\<rparr>)" for gs by (rule qt_ok_same [OF assms(1)]) simp_all
  then show ?thesis
  proof (cases "q_signals s")
    case (Cons g gs)
    then have "run_signal L e yes g (s\<lparr>q_signals := gs\<rparr>) = Some s'" using assms(2) Ui_turn by simp
    then show ?thesis by (rule run_signal_ok [OF \<open>qt_ok (s\<lparr>q_signals := gs\<rparr>)\<close>])
  qed (use assms Ui_turn in simp)
next
  case (Net_packet data)
  then show ?thesis using assms qt_ok_same [OF assms(1)] by (auto simp: core_runs_def Let_def)
next
  case Net_closed
  then show ?thesis using assms qt_ok_same [OF assms(1)] by (auto simp: core_runs_def Let_def)
next
  case (Edit_login d)
  then show ?thesis using assms by (auto simp: in_login_def qt_ok_def split: option.splits)
next
  case Click_register
  have "qt_ok (in_login (\<lambda>d. box_or (send_login_signal L e) (slots_register L d) s) s)"
    by (rule qt_ok_in_login [OF assms(1)], rule qt_ok_box_or [OF assms(1)]) (simp add: send_login_windows)
  then show ?thesis using assms(2) Click_register by simp
next
  case Click_login
  have "qt_ok (in_login (\<lambda>d. box_or (send_login_signal L e) (slots_login L d) s) s)"
    by (rule qt_ok_in_login [OF assms(1)], rule qt_ok_box_or [OF assms(1)]) (simp add: send_login_windows)
  then show ?thesis using assms(2) Click_login by simp
next
  case (Click_item i)
  have "window_ok (upd_item (slots_showChatdig L) i w)" if "q_main s = Some w" for w
    using assms(1) that by (intro window_ok_upd) (simp_all add: qt_ok_def slots_showChatdig_def)
  then show ?thesis
    using assms(2) qt_ok_main [OF assms(1)] assms(1) by (auto simp: Click_item split: option.splits)
next
  case (Send_chat i typed)
  then show ?thesis using assms qt_ok_send_chat [OF assms(1)] by (auto split: option.splits)
next
  case (Menu_add nick)
  have "qt_ok (box_or (slots_addFriend L e) r s)" for r
    by (rule qt_ok_box_or [OF assms(1)]) (simp add: slots_addFriend_def)
  then show ?thesis using assms by (auto simp: Menu_add split: option.splits)
next
  case Close_login
  then show ?thesis
    using assms qt_ok_destroy by (auto simp: in_login_def slots_quitLogin_def split: option.splits)
next
  case Close_main
  then show ?thesis
    using assms qt_ok_destroy by (auto simp: slots_sendMyoffline_def split: option.splits)
qed

lemma qt_run_ok:
  assumes "qt_ok s" and "qt_run L as s = Some s'"
  shows "qt_ok s'"
  using assms
proof (induction L as s rule: qt_run.induct)
  case (2 L e a as s)
  then show ?case using qt_exec_ok by (auto split: option.splits)
qed simp

lemma new_Kernal_ok: "new_Kernal e ce g1 g2 k = Some s \<Longrightarrow> qt_ok s"
  by (auto simp: new_Kernal_def Let_def qt_ok_def window_ok_new split: option.splits if_splits)

text \<open>
  C35. In every state the Qt client reaches, exactly one thing ends it by a null pointer: a queued signal for
  the main window that is taken after the windows are gone. And this does happen: whatever signal for
  the window is next in the queue when the user closes the window, the turn after it ends the program.
\<close>

theorem qt_ends_by_late_signals_only:
  assumes "new_Kernal e0 ce g1 g2 k0 = Some s0" and "qt_run L as s0 = Some s"
  shows "(qt_exec L e a s = None \<longleftrightarrow>
       (\<exists>yes g gs. a = Ui_turn yes \<and> q_signals s = g # gs \<and> q_main s = None \<and> needs_window g)) \<and>
     (q_main s \<noteq> None \<and> (\<exists>g gs. q_signals s = g # gs \<and> needs_window g) \<longrightarrow>
       qt_run L [(e, Close_main), (e', Ui_turn yes)] s = None)"
proof -
  have ok: "qt_ok s" by (rule qt_run_ok [OF new_Kernal_ok [OF assms(1)] assms(2)])
  have "qt_run L [(e, Close_main), (e', Ui_turn yes)] s = None"
    if "q_main s \<noteq> None" and g: "q_signals s = g # gs" "needs_window g" for g gs
  proof -
    let ?s = "slots_sendMyoffline e s"
    have "qt_exec L e Close_main s = Some ?s" using that(1) by auto
    moreover have "q_signals ?s = g # gs" "q_main ?s = None" "qt_ok ?s"
      using g(1) qt_ok_destroy by (simp_all add: slots_sendMyoffline_def) (simp_all add: destroyUi_def)
    ultimately show ?thesis using qt_exec_None [of ?s L e' "Ui_turn yes"] g(2) by simp
  qed
  then show ?thesis using qt_exec_None [OF ok, of L e a] by auto
qed

subsection \<open>Chats\<close>

lemma typed_chat_sent:
  assumes "qt_ok s" and "q_main s = Some w" and "oget (mw_friendItemMap w) i = Some it" and "typed \<noteq> []"
  shows "\<exists>s'. qt_exec L e (Send_chat i typed) s = Some s' \<and> q_core s' = sendChatMessage e i (qt_toUtf8 L typed) (q_core s)"
proof -
  have "(i, it) \<in> set (mw_friendItemMap w)" using assms(3) by (simp add: oget_def map_of_SomeD)
  then have "it_id it = i" using assms(1,2) by (auto simp: qt_ok_def window_ok_def)
  then show ?thesis
    using assms(2-4) by (simp add: send_chat_def slots_sendMsg_def Let_def box_or_def slots_recvMsg_def slots_sendMsgtoServe_def)
qed

lemma chat_event:
  assumes "cparse_ChatInfoRq (cl_codec e) body = Some rq" and "c_type rq = TEXT" and "k_sink k"
  shows "k_ui (packet_handler e (encodeType32 DEF_PROT_CHAT_INFO_RQ @ body) k) = k_ui k @ [UI_ChatMessage (c_myid rq) (c_msg rq)]"
proof -
  have "TEXT \<noteq> FILE" "TEXT \<noteq> IMAGE" by simp_all
  then show ?thesis
    using assms unfolding packet_handler_def client_dispatch [OF refl]
    by (simp add: onChatInfoRq_def notify_ui_def store_def split: option.split)
qed

definition shown_chat :: "qt_lib \<Rightarrow> string \<Rightarrow> qstring" where
  "shown_chat L msg = qt_arg L ''<p><font color = 'black' size = '4' font-weight:bold >%2</font></p>'' (qt_fromUtf8 L msg)"


text \<open>A file or a picture that arrives is shown nowhere: nothing is queued for the user interface.\<close>

lemma qt_drops_files:
  assumes "cparse_ChatInfoRq (cl_codec e) body = Some rq" and "c_type rq = FILE \<or> c_type rq = IMAGE" and "k_sink (q_core s)"
  shows "q_signals (core_runs L (packet_handler e (encodeType32 DEF_PROT_CHAT_INFO_RQ @ body)) s) = q_signals s"
proof -
  have "k_ui (packet_handler e (encodeType32 DEF_PROT_CHAT_INFO_RQ @ body) (q_core s)) = k_ui (q_core s) @
      [UI_FileCard (c_myid rq) (c_file_id rq) (c_file_name rq) (c_file_size rq) (c_msg_id rq)
         (c_content_type rq) (c_sha256 rq) (c_type rq = IMAGE) (c_image_width rq) (c_image_height rq)]"
    using assms unfolding packet_handler_def client_dispatch [OF refl]
    by (auto simp: onChatInfoRq_def notify_ui_def)
  then show ?thesis by (simp add: core_runs_def Let_def)
qed

text \<open>A result that refuses a message leaves no trace in the windows.\<close>

lemma refused_chat_not_shown:
  assumes "r \<noteq> CHAT_RESULT_SUCC" and "r \<noteq> CHAT_RESULT_FAIL"
  shows "run_signal L e yes (Sig_chatSendResult u r) s = Some s"
  using assms by (simp add: onChatSendResultUi_def)

subsection \<open>A run\<close>

text \<open>A Qt without conversions, a failed connection, and friend 8, who sends a text.\<close>

definition sample_qt :: qt_lib where
  "sample_qt = \<lparr>qt_fromUtf8 = id, qt_toUtf8 = id, qt_trimmed = id, qt_arg = (\<lambda>s a. s @ a), qt_html = id,
     qt_time = ''12:00:00''\<rparr>"

definition sample_qt_env :: client_env where
  "sample_qt_env = (sample_client_env (empty_ChatInfoRq\<lparr>c_myid := 8, c_msg := ''hi''\<rparr>) 5)\<lparr>cl_codec :=
     (sample_client_codec (empty_ChatInfoRq\<lparr>c_myid := 8, c_msg := ''hi''\<rparr>))\<lparr>cparse_FriendInfo :=
       \<lambda>_. Some \<lparr>fi_userid = 8, fi_iconid = 2, fi_status = 0, fi_nick = ''li'', fi_feeling = []\<rparr>\<rparr>\<rparr>"

definition sample_no_net :: connect_env where
  "sample_no_net = \<lparr>co_resolve = False, co_connect = False, co_server_name = False, co_handshake = False\<rparr>"

definition sample_kernal :: qt_state where
  "sample_kernal = \<lparr>q_core = (new_core ''im'' ''ca'' 9000)\<lparr>k_sink := True\<rparr>,
     q_login = Some (new_LoginDia\<lparr>ld_visible := True\<rparr>), q_main = Some (new_mainwdiget 0 0), q_signals = [],
     q_boxes = [Box_connect_failed]\<rparr>"

lemma sample_new_Kernal: "new_Kernal sample_qt_env sample_no_net 0 0 (new_core ''im'' ''ca'' 9000) = Some sample_kernal"
  by (simp add: new_Kernal_def connectToServer_def tp_connect_def new_core_def new_transport_def sample_no_net_def
      show_box_def sample_kernal_def Let_def)

lemma sample_friend_packet:
  "client_dispatchPacket e (encodeType32 DEF_PROT_FRIEND_INFO @ body) k = onFriendInfoPkt e body k"
proof -
  have "\<not> DEF_PROT_FRIEND_INFO < DEF_BASE" "unat (DEF_PROT_FRIEND_INFO - DEF_BASE) = 4" by (simp_all add: prot_defs)
  moreover have "dealFunArr 4 = Some onFriendInfoPkt" by (simp add: dealFunArr_def prot_defs)
  ultimately show ?thesis by (simp add: client_dispatchPacket_def Let_def DEF_PROT_COUNT_def drop_append)
qed

lemma sample_friend_comes:
  "\<exists>s. qt_run sample_qt [(sample_qt_env, Net_packet (encodeType32 DEF_PROT_FRIEND_INFO @ []))] sample_kernal = Some s \<and>
     q_main s = Some (new_mainwdiget 0 0) \<and> q_signals s = [Sig_friendInfo 8 2 0 ''li'' []] \<and> k_sink (q_core s)"
proof -
  have p: "packet_handler sample_qt_env (encodeType32 DEF_PROT_FRIEND_INFO @ []) (q_core sample_kernal) =
      onFriendInfoPkt sample_qt_env [] ((q_core sample_kernal)\<lparr>k_lastRecvMs := 5\<rparr>)"
    unfolding packet_handler_def sample_friend_packet by (simp add: sample_qt_env_def sample_client_env_def)
  show ?thesis
    by (simp only: qt_run.simps qt_exec.simps core_runs_def Let_def p)
      (simp add: onFriendInfoPkt_def sample_qt_env_def sample_client_env_def sample_kernal_def new_core_def
        notify_ui_def store_def Let_def sample_qt_def)
qed

theorem qt_ends_by_late_signals_only_witness:
  "\<exists>s. qt_run sample_qt [(sample_qt_env, Net_packet (encodeType32 DEF_PROT_FRIEND_INFO @ []))] sample_kernal = Some s \<and>
     qt_run sample_qt [(sample_qt_env, Close_main), (sample_qt_env, Ui_turn True)] s = None"
proof -
  obtain s where s: "qt_run sample_qt [(sample_qt_env, Net_packet (encodeType32 DEF_PROT_FRIEND_INFO @ []))] sample_kernal = Some s"
    "q_main s = Some (new_mainwdiget 0 0)" "q_signals s = [Sig_friendInfo 8 2 0 ''li'' []]"
    using sample_friend_comes by blast
  have "q_main s \<noteq> None \<and> (\<exists>g gs. q_signals s = g # gs \<and> needs_window g)" using s(2,3) by simp
  with qt_ends_by_late_signals_only [OF sample_new_Kernal s(1)]
  have "qt_run sample_qt [(sample_qt_env, Close_main), (sample_qt_env, Ui_turn True)] s = None" by blast
  with s(1) show ?thesis by blast
qed


end
