(* ===== verification/CommandLine.thy ===== *)
theory CommandLine
  imports ClientCore
begin

text \<open>
  \<open>client_core/tools/im_cli.cpp\<close>, the command-line client over \<open>ClientCore\<close>: a line is read with an
  \<open>istringstream\<close> and becomes at most one call of the core (two for a picture or a file). The lines it
  prints are values, named by what they say.
\<close>

subsection \<open>Reading a line\<close>

text \<open>A stream is the text that is left, or None once an extraction has failed.\<close>

type_synonym stream = "string option"

definition read_word :: "stream \<Rightarrow> string \<times> stream" where
  "read_word st =
     (case st of
        None \<Rightarrow> ([], None)
      | Some s \<Rightarrow>
          let r = dropWhile is_space s; w = takeWhile (\<lambda>c. \<not> is_space c) r in
          if w = [] then ([], None) else (w, Some (dropWhile (\<lambda>c. \<not> is_space c) r)))"

definition is_dec :: "char \<Rightarrow> bool" where
  "is_dec c \<longleftrightarrow> digit_value c \<noteq> None"

text \<open>\<open>>>\<close> for an \<open>int\<close>: without digits the value is 0, out of range it is the nearest limit.\<close>

definition read_int :: "stream \<Rightarrow> int \<times> stream" where
  "read_int st =
     (case st of
        None \<Rightarrow> (0, None)
      | Some s \<Rightarrow>
          let r = dropWhile is_space s;
              neg = (r \<noteq> [] \<and> hd r = CHR ''-'');
              t = (if r \<noteq> [] \<and> (hd r = CHR ''-'' \<or> hd r = CHR ''+'') then tl r else r);
              ds = takeWhile is_dec t;
              v = (if neg then - digits 0 ds else digits 0 ds)
          in if ds = [] then (0, None)
             else if v < - (2 ^ 31) then (- (2 ^ 31), None)
             else if 2 ^ 31 \<le> v then (2 ^ 31 - 1, None)
             else (v, Some (dropWhile is_dec t)))"

text \<open>\<open>getline\<close> of the rest; a line has no line break.\<close>

definition rest_of_line :: "stream \<Rightarrow> string" where
  "rest_of_line st = (case st of None \<Rightarrow> [] | Some s \<Rightarrow> s)"

subsection \<open>What is printed\<close>

datatype cli_out =
    Out_registered int | Out_login int int | Out_self string string | Out_friend int string bool
  | Out_chat int string | Out_saved bool int string int string | Out_card bool int string int string
  | Out_sent int bool | Out_friend_request string int | Out_friend_result string int
  | Out_friend_offline int | Out_kicked | Out_closed
  | Out_upload_failed string | Out_uploaded bool string int string | Out_help

definition received_path :: "bool \<Rightarrow> int \<Rightarrow> string \<Rightarrow> string" where
  "received_path isImage fromId fid =
     ''/tmp/im_cli_recv_'' @ int_dec fromId @ ''_'' @ fid @ (if isImage then ''.jpg'' else [])"

text \<open>
  \<open>CliEvents\<close>: a file card is downloaded at once, on the network thread. The roaming events are not
  overridden.
\<close>

fun cli_event :: "media_env \<Rightarrow> client_state \<Rightarrow> ui_call \<Rightarrow> cli_out list" where
  "cli_event me k (UI_RegisterResult r) = [Out_registered r]"
| "cli_event me k (UI_LoginResult r u) = [Out_login r u]"
| "cli_event me k (UI_SelfInfo i) = [Out_self (us_nick i) (us_feeling i)]"
| "cli_event me k (UI_FriendInfo f) = [Out_friend (fe_id f) (fe_nick f) (fe_status f = STATUS_ONLINE)]"
| "cli_event me k (UI_ChatMessage u msg) = [Out_chat u msg]"
| "cli_event me k (UI_FileCard u fid name size' mid ct sha isImage w h) =
     (let path = received_path isImage u fid in
      if fst (downloadMedia me fid k) then [Out_saved isImage u name size' path]
      else [Out_card isImage u name size' fid])"
| "cli_event me k (UI_ChatSendResult u r) = [Out_sent u (r = CHAT_RESULT_SUCC)]"
| "cli_event me k (UI_AddFriendRequest u nick) = [Out_friend_request nick u]"
| "cli_event me k (UI_AddFriendResult r nick) = [Out_friend_result nick r]"
| "cli_event me k (UI_FriendOffline u) = [Out_friend_offline u]"
| "cli_event me k (UI_KickedOffline r) = [Out_kicked]"
| "cli_event me k UI_ConnectionClosed = [Out_closed]"
| "cli_event me k (UI_RoamConversations cs) = []"
| "cli_event me k (UI_RoamMessages u ms hasMore m) = []"

subsection \<open>Commands\<close>

definition local_size :: "media_env \<Rightarrow> string \<Rightarrow> int" where
  "local_size me path = (case me_local me path of None \<Rightarrow> - 1 | Some b \<Rightarrow> int (length b))"

definition cli_media ::
  "bool \<Rightarrow> client_env \<Rightarrow> media_env \<Rightarrow> int \<Rightarrow> string \<Rightarrow> client_state \<Rightarrow> cli_out list \<times> client_state" where
  "cli_media isImage e me friId path k =
     (let fid = uploadMedia me path friId isImage k in
      if fid = [] then ([Out_upload_failed path], k)
      else let size' = local_size me path in
        ([Out_uploaded isImage path size' fid],
         sendFileMessage e friId fid (filename path) size'
           (if isImage then ''image/jpeg'' else ''application/octet-stream'') [] isImage 0 0 k))"

definition cli_send :: "client_env \<Rightarrow> stream \<Rightarrow> client_state \<Rightarrow> client_state" where
  "cli_send e st k =
     (let (friId, st1) = read_int st;
          msg0 = rest_of_line st1;
          msg = (if msg0 \<noteq> [] \<and> hd msg0 = CHR '' '' then tl msg0 else msg0)
      in if 0 < friId \<and> msg \<noteq> [] then sendChatMessage e friId msg k else k)"

text \<open>One line; the last part of the result says whether the loop goes on.\<close>

definition cli_line ::
  "client_env \<Rightarrow> media_env \<Rightarrow> string \<Rightarrow> client_state \<Rightarrow> cli_out list \<times> client_state \<times> bool" where
  "cli_line e me line k =
     (let (cmd, st) = read_word (Some line) in
      if cmd = ''login'' then
        (let (tel, st1) = read_word st; (pass, st2) = read_word st1 in ([], sendLogin e tel pass k, True))
      else if cmd = ''register'' then
        (let (nick, st1) = read_word st; (tel, st2) = read_word st1; (pass, st3) = read_word st2
         in ([], sendRegister e nick tel pass k, True))
      else if cmd = ''send'' then ([], cli_send e st k, True)
      else if cmd = ''sendimg'' \<or> cmd = ''sendfile'' then
        (let (friId, st1) = read_int st; (path, st2) = read_word st1;
             (os, k1) = cli_media (cmd = ''sendimg'') e me friId path k
         in (os, k1, True))
      else if cmd = ''quit'' \<or> cmd = ''exit'' then ([], sendOfflineNotify e k, False)
      else if cmd \<noteq> [] then ([Out_help], k, True)
      else ([], k, True))"

text \<open>The loop of \<open>main\<close>, to the end of the input or \<open>quit\<close>, and the end of the program.\<close>

fun cli_loop :: "(client_env \<times> media_env \<times> string) list \<Rightarrow> client_state \<Rightarrow> cli_out list \<times> client_state" where
  "cli_loop [] k = ([], disconnect k)"
| "cli_loop ((e, me, line) # ls) k =
     (case cli_line e me line k of
        (os, k1, True) \<Rightarrow> (case cli_loop ls k1 of (os', k2) \<Rightarrow> (os @ os', k2))
      | (os, k1, False) \<Rightarrow> (os, disconnect k1))"

text \<open>
  \<open>main\<close>: the arguments have defaults; the port is what \<open>atoi\<close> reads, modulo \<open>2 ^ 16\<close>, and 0 without
  digits. The result has the exit code; None is the end of the program inside \<open>connectToServer\<close>.
\<close>

definition cli_arg :: "string list \<Rightarrow> nat \<Rightarrow> string \<Rightarrow> string" where
  "cli_arg argv i d = (if i < length argv then argv ! i else d)"

definition cli_port :: "string \<Rightarrow> 16 word" where
  "cli_port s = (case stol s of None \<Rightarrow> 0 | Some v \<Rightarrow> of_int v)"

definition cli_main ::
  "string \<Rightarrow> string list \<Rightarrow> client_env \<Rightarrow> connect_env \<Rightarrow>
   (client_env \<times> media_env \<times> string) list \<Rightarrow> (int \<times> cli_out list \<times> client_state) option" where
  "cli_main IM_CLI_DEFAULT_CA argv e ce input =
     (let ip = cli_arg argv 1 ''127.0.0.1'';
          port = (if 2 < length argv then cli_port (argv ! 2) else 24563 :: 16 word);
          core = (new_core (cli_arg argv 3 ''im.example.com'') (cli_arg argv 4 IM_CLI_DEFAULT_CA) 0)\<lparr>k_sink := True\<rparr>
      in case connectToServer e ce ip port core of
           None \<Rightarrow> None
         | Some (False, k) \<Rightarrow> Some (1, [], k)
         | Some (True, k) \<Rightarrow> (case cli_loop input k of (os, k1) \<Rightarrow> Some (0, Out_help # os, k1)))"

subsection \<open>What is typed is what is sent\<close>

lemma digit_value_char: "d < 10 \<Longrightarrow> digit_value (digit_char d) = Some (int d)"
proof -
  assume "d < 10"
  then have "d \<in> set [0..<10]" by simp
  moreover have "\<forall>d \<in> set [0..<10]. digit_value (digit_char d) = Some (int d)" by code_simp
  ultimately show ?thesis by blast
qed

lemma is_dec_char: "d < 10 \<Longrightarrow> is_dec (digit_char d)"
  by (simp add: is_dec_def digit_value_char)

lemma digits_append: "list_all is_dec s \<Longrightarrow> digits a (s @ [c]) =
    (case digit_value c of None \<Rightarrow> digits a s | Some d \<Rightarrow> 10 * digits a s + d)"
  by (induction s arbitrary: a) (auto simp: is_dec_def split: option.split)

lemma nat_dec_digits: "list_all is_dec (nat_dec n) \<and> nat_dec n \<noteq> [] \<and> digits 0 (nat_dec n) = int n"
proof (induction n rule: nat_dec.induct)
  case (1 n)
  show ?case
  proof (cases "n < 10")
    case True
    then show ?thesis by (subst (1 2 3) nat_dec.simps) (simp add: is_dec_char digit_value_char)
  next
    case False
    have "digits 0 (nat_dec (n div 10) @ [digit_char (n mod 10)]) = 10 * int (n div 10) + int (n mod 10)"
      using 1 [OF False] by (simp add: digits_append digit_value_char)
    also have "\<dots> = int n" by presburger
    finally show ?thesis
      using False 1 [OF False] by (subst (1 2 3) nat_dec.simps) (simp add: is_dec_char digit_value_char)
  qed
qed

lemma space_no_digit: "\<not> is_dec CHR '' ''" "is_dec c \<Longrightarrow> \<not> is_space c \<and> c \<noteq> CHR ''-'' \<and> c \<noteq> CHR ''+''"
  by (auto simp: is_dec_def digit_value_def is_space_def between_def split: if_splits)

lemma read_int_dec:
  assumes "int n < 2 ^ 31"
  shows "read_int (Some (CHR '' '' # nat_dec n @ CHR '' '' # msg)) = (int n, Some (CHR '' '' # msg))"
proof -
  obtain c s where c: "nat_dec n = c # s" using nat_dec_digits [of n] by (cases "nat_dec n") auto
  have all: "list_all is_dec (nat_dec n)" using nat_dec_digits by blast
  then have "is_dec c" unfolding c by simp
  then have cc: "\<not> is_space c" "c \<noteq> CHR ''-''" "c \<noteq> CHR ''+''" using space_no_digit(2) by blast+
  have "takeWhile is_dec (nat_dec n @ CHR '' '' # msg) = nat_dec n"
    "dropWhile is_dec (nat_dec n @ CHR '' '' # msg) = CHR '' '' # msg"
    using all space_no_digit(1) by (simp_all add: takeWhile_append2 dropWhile_append2 list_all_iff)
  then show ?thesis
    using cc assms nat_dec_digits [of n] unfolding c by (simp add: read_int_def is_space_def Let_def)
qed

text \<open>
  A line \<open>send\<close>, friend, text sends exactly this text to this friend: every character behind the one
  space that ends the number, further spaces included.
\<close>

theorem cli_send_exact:
  assumes "0 < n" and "int n < 2 ^ 31" and "msg \<noteq> []"
  shows "cli_line e me (''send '' @ nat_dec n @ '' '' @ msg) k = ([], sendChatMessage e (int n) msg k, True)"
proof -
  have "read_word (Some (''send '' @ nat_dec n @ '' '' @ msg)) = (''send'', Some (CHR '' '' # nat_dec n @ CHR '' '' # msg))"
    by (simp add: read_word_def is_space_def Let_def)
  then show ?thesis
    using assms by (simp add: cli_line_def cli_send_def read_int_dec rest_of_line_def)
qed

text \<open>
  A picture or a file goes nowhere when its upload failed; and the command does not look at the friend:
  with a missing or unreadable number the file is uploaded for user 0.
\<close>

lemma failed_upload_sends_nothing:
  "uploadMedia me path friId isImage k = [] \<Longrightarrow> snd (cli_media isImage e me friId path k) = k"
  by (simp add: cli_media_def)

end
