(* ===== verification/Spec2Isabelle.thy ===== *)
theory Spec2Isabelle
  imports Prelude Protocol Wire Database Sha256 DbUsers DbFriends DbMessages DbAuth DbReach
    TokenService Presence World AiLimiter AiContext AiConfig AiModel AuthHandler FriendHandler
    MessageHandler AiHandler HandlerFacts Router ServerInv ChatFacts AppCrypto Channel ChanFacts
    ChanOrder ChanRun HttpFiles HttpFacts DbWriteQueue
    ClientTransport ClientStorage ClientCore ClientFacts ServerStart LegacyNet LegacySockets
    LegacyKernel LegacyFacts LegacyPeers LegacyStart SecureServer DbOpen HttpService QtWidgets QtKernal
    QtFacts CommandLine
begin

text \<open>
  Verification development of the instant messenger \<open>IMproject-main\<close>.

  \<^bold>\<open>The program.\<close> \<open>im_server\<close> is the server: TLS connections (\<open>Session\<close>), inside TLS an
  application channel with its own handshake and AES-GCM frames (\<open>crypto/AppCrypto\<close>), a table from
  packet numbers to handlers (\<open>Dispatcher\<close>, \<open>ProtocolRouter\<close>), the handlers, the online table
  (\<open>Presence\<close>), login tokens (\<open>TokenService\<close>), one SQLite file (\<open>Database\<close>) that is written by one
  thread (\<open>DbWriteQueue\<close>), an HTTPS service for files (\<open>HttpFileServer\<close>), and reply suggestions from a
  language model (\<open>ai\<close>). \<open>client_core\<close> is the client library: \<open>TcpTransport\<close>, \<open>ClientCore\<close>,
  \<open>SqliteStorage\<close>. Both share \<open>protocol\<close> (messages, SHA-256) and the frame format: four bytes of
  length, four bytes of packet number, a protobuf payload. \<open>IMServer\<close> is the first server, for Windows
  and MySQL, with the same packets and without the application channel.

  \<^bold>\<open>What models what.\<close>
  \<^item> \<open>Prelude\<close>: byte strings, exceptions, table rows, the two map containers (locale \<open>kv_store\<close>,
    interpreted on both). \<open>Protocol\<close>: \<open>Protocol.h\<close> and \<open>im.proto\<close>, one record per message. \<open>Wire\<close>:
    frames, byte order, UTF-8 truncation, the two-stage reader of \<open>Session\<close> (locale \<open>framing\<close>).
    \<open>Sha256\<close>: \<open>protocol/sha256.h\<close>.
  \<^item> \<open>Database\<close>, \<open>DbUsers\<close>, \<open>DbFriends\<close>, \<open>DbMessages\<close>, \<open>DbAuth\<close>: \<open>Database.cpp\<close> by tables. The connection
    has the committed tables and, in a transaction, its own; every statement may fail, as an
    argument (\<open>sqlenv\<close>) decides. The locale \<open>atomic_op\<close> is the contract of an operation in a
    transaction, interpreted on the five that use one. \<open>DbReach\<close>: all operations as a step relation.
    \<open>DbOpen\<close>: \<open>open\<close> with the schema of the file, its upgrades, the pool and the write queue.
  \<^item> \<open>TokenService\<close>, \<open>Presence\<close> (locale \<open>online_table\<close>), \<open>DbWriteQueue\<close>: the classes of these names. The
    threads of \<open>DbWriteQueue\<close> interleave at its critical sections.
  \<^item> \<open>World\<close>: the state the handlers share, with the calls of \<open>Session::deliver\<close> and \<open>close\<close> as a list of
    output events. \<open>AuthHandler\<close>, \<open>FriendHandler\<close>, \<open>MessageHandler\<close> (with \<open>RoamHandler\<close> and
    \<open>SystemHandler\<close>), \<open>AiHandler\<close>: the handlers, each a function from a state to a result and a state.
    \<open>Router\<close>: the table of the dispatcher, \<open>Server::dispatchPacket\<close>, the end of a session, the heartbeat
    scan, and the step relation \<open>server_step\<close> of everything that happens to the server. \<open>ServerStart\<close>:
    \<open>Server::start\<close>, \<open>stop\<close>, \<open>doAccept\<close> and \<open>main\<close>.
  \<^item> \<open>AiConfig\<close>, \<open>AiLimiter\<close>, \<open>AiContext\<close>, \<open>AiModel\<close>: the files of \<open>ai\<close>.
  \<^item> \<open>AppCrypto\<close>: \<open>crypto/AppCrypto.cpp\<close> over OpenSSL. \<open>Channel\<close>: \<open>Session.cpp\<close>, a connection with its
    handshake, keys, sequence numbers, write queue and timers, and the step relation of its callbacks.
  \<^item> \<open>SecureServer\<close>: the composition. Every session of the server has a channel; what a channel opens waits
    on the strand of its session and is dispatched from there, in any interleaving of all sessions.
  \<^item> \<open>HttpFiles\<close>: \<open>HttpFileServer.cpp\<close>, with the files it keeps. \<open>HttpService\<close>: its start, its stop and the
    thread that clears old uploads.
  \<^item> \<open>ClientTransport\<close>, \<open>ClientStorage\<close>, \<open>ClientCore\<close>: the three sources of \<open>client_core\<close>. On top of them
    \<open>CommandLine\<close>: \<open>tools/im_cli.cpp\<close>, and the Qt client \<open>IMClient\<close>: \<open>QtWidgets\<close> has its four widgets,
    \<open>QtKernal\<close> the adapter \<open>kernal.cpp\<close> with its queued signals and the client as a whole.
  \<^item> \<open>LegacyNet\<close>, \<open>LegacySockets\<close>: \<open>IMServer/net/TCPServer.cpp\<close>, the receiving loops and the threads that
    compete to close a socket. \<open>LegacyKernel\<close>: \<open>IMServer/Kernel.cpp\<close> and \<open>MySQL/CMySql.cpp\<close>, every
    handler with the statements it sends. \<open>LegacyPeers\<close>: the other classes of the two directories \<open>net\<close>.
    \<open>LegacyStart\<close>: start and stop of the first server, and \<open>IMserver.cpp\<close>.

  \<^bold>\<open>What the lemmas show.\<close> The data: the tables stay well formed under every operation, failure and
  crash (\<open>DbReach\<close>), a file that was opened has the whole schema and keeps its rows (\<open>DbOpen\<close>), a
  friendship is always mutual, a revoked session stays revoked, messages of a
  conversation are numbered without gaps also when many threads save (\<open>DbWriteQueue\<close>). The server:
  who a session is follows from a password or token (\<open>ServerInv\<close>), packets a session may not send
  change nothing, the online table leads to logged-in sessions, a message is stored before it is
  acknowledged and names its true sender (\<open>ChatFacts\<close>). The channel: only authentic frames reach the
  dispatcher, no nonce is used twice (\<open>ChanFacts\<close>), frames leave in order and the end is reported once
  (\<open>ChanOrder\<close>), a client that follows the protocol gets through (\<open>ChanRun\<close>); the cryptographic code
  equals FIPS 180-4 and RFC 5869. Both together: the secure server refines the server, and who is
  delivered to as a user has proved to be that user over the channel of its own session
  (\<open>SecureServer\<close>). Files: \<open>HttpFacts\<close>. The client: its transport reports its end once
  and sends what waits, its heartbeat notices silence, and client and server together carry a chat
  message and an upload from one end to the other (\<open>ClientFacts\<close>). The Qt client sends what is typed for a
  friend to that friend and ends only by a signal that comes after its windows are gone (\<open>QtFacts\<close>); the
  command line sends what is typed (\<open>CommandLine\<close>). Starting is all or nothing and
  stopping is final (\<open>ServerStart\<close>). The first server: frames, closes that hit their own connection
  under every interleaving and reuse of handles (\<open>LegacySockets\<close>), who comes and stays online
  (\<open>LegacyFacts\<close>). Lemmas about a flaw say so in the text above them.

  \<^bold>\<open>Parameters and bounds.\<close> Code that is not in the repository is an argument: protobuf (parsers and
  serializers), OpenSSL, SQLite's and MySQL's results, the model services, HTTP, clocks, random
  numbers, and the order in which threads and callbacks run. What is assumed of it is a named predicate
  such as \<open>hmac_works\<close>, \<open>gcm_correct\<close>, \<open>frames_roundtrip\<close>, \<open>escape_bounded\<close>, \<open>pem_ok\<close>, and shown to be
  satisfiable by a sample. No definition runs on fuel: loops are structural recursion, or \<open>function\<close>
  with a measure (the queue's worker by the work left, the receiving loops by the bytes left), and
  what may go on for ever is a step relation. Integers are words where the code relies on their width
  (lengths, packet numbers, sequence numbers, SHA-256); database ids and times are integers.

  \<^bold>\<open>Not modelled.\<close> The Android client (Kotlin), generated protobuf code, the vendored asio and httplib, TLS
  itself, logging, tests and the report site; the looks of the Qt widgets; the mediators, which only
  forward; the packed structures of \<open>IMClient/net/def.h\<close>, a format that no code uses any more. The manifest
  lists them with the reason. Handlers of different connections run one after the other in \<open>World\<close> and
  \<open>LegacyKernel\<close>; the interleaving that the code allows inside a handler is modelled for the write queue,
  the channel, the transport, the sockets and the strands. In the Qt client a message box returns at once.
\<close>

end
